(* ===== verification/Prelude.thy ===== *)
theory Prelude
  imports Main "HOL-Library.Word" "HOL-Library.Signed_Division" "HOL-Library.Sublist"
begin

text \<open>
  Shared vocabulary of the development: the fixed-width integers of Go (unsigned ones as
  words, signed ones as integers with an explicit two's complement wrap), byte strings, the
  collections of simplification rules the component theories fill, and the generic lemmas on
  lists that several components use.
\<close>

unbundle bit_operations_syntax

named_theorems wrap_simps \<open>removing a two's complement wrap from an expression in range\<close>
named_theorems vm_defs \<open>definitions of the primitive operations of the virtual machine\<close>
named_theorems vm_intros \<open>rules of the verification calculus for operations of the virtual machine\<close>

type_synonym byte = "8 word"
type_synonym bytes = "byte list"
type_synonym u32 = "32 word"
type_synonym u64 = "64 word"
type_synonym u256 = "256 word"

section \<open>Signed machine integers\<close>

text \<open>
  A Go value of type \<^verbatim>\<open>int64\<close> or \<^verbatim>\<open>int32\<close> is an integer in range; every arithmetic
  expression of the source is computed exactly and then wrapped.
\<close>

definition swrap :: "nat \<Rightarrow> int \<Rightarrow> int" where
  "swrap w x = (x + 2 ^ (w - 1)) mod 2 ^ w - 2 ^ (w - 1)"

definition in_swrap :: "nat \<Rightarrow> int \<Rightarrow> bool" where
  "in_swrap w x \<longleftrightarrow> - (2 ^ (w - 1)) \<le> x \<and> x < 2 ^ (w - 1)"

abbreviation i64 :: "int \<Rightarrow> int" where
  "i64 \<equiv> swrap 64"

abbreviation i32 :: "int \<Rightarrow> int" where
  "i32 \<equiv> swrap 32"

abbreviation in_i64 :: "int \<Rightarrow> bool" where
  "in_i64 \<equiv> in_swrap 64"

abbreviation in_i32 :: "int \<Rightarrow> bool" where
  "in_i32 \<equiv> in_swrap 32"

abbreviation MaxInt64 :: int where
  "MaxInt64 \<equiv> 9223372036854775807"

abbreviation MinInt64 :: int where
  "MinInt64 \<equiv> - 9223372036854775808"

abbreviation MaxInt32 :: int where
  "MaxInt32 \<equiv> 2147483647"

abbreviation MinInt32 :: int where
  "MinInt32 \<equiv> - 2147483648"

lemma swrap_id [wrap_simps]:
  assumes "0 < w" and "in_swrap w x"
  shows "swrap w x = x"
proof -
  have "(2::int) ^ w = 2 * 2 ^ (w - 1)"
    using assms(1) by (simp flip: power_Suc)
  with assms(2) show ?thesis
    by (simp add: swrap_def in_swrap_def)
qed

lemma swrap_range: "0 < w \<Longrightarrow> in_swrap w (swrap w x)"
proof -
  assume w: "0 < w"
  have two: "(2::int) ^ w = 2 * 2 ^ (w - 1)"
    using w by (simp flip: power_Suc)
  have "0 \<le> (x + 2 ^ (w - 1)) mod 2 ^ w" and "(x + 2 ^ (w - 1)) mod 2 ^ w < 2 ^ w"
    by simp_all
  with two show ?thesis
    by (simp add: swrap_def in_swrap_def)
qed

lemma in_i64_iff: "in_i64 x \<longleftrightarrow> MinInt64 \<le> x \<and> x \<le> MaxInt64"
  by (auto simp: in_swrap_def)

lemma in_i32_iff: "in_i32 x \<longleftrightarrow> MinInt32 \<le> x \<and> x \<le> MaxInt32"
  by (auto simp: in_swrap_def)

lemma i64_id [wrap_simps]: "MinInt64 \<le> x \<Longrightarrow> x \<le> MaxInt64 \<Longrightarrow> i64 x = x"
  by (simp add: swrap_id in_i64_iff)

lemma i32_id [wrap_simps]: "MinInt32 \<le> x \<Longrightarrow> x \<le> MaxInt32 \<Longrightarrow> i32 x = x"
  by (simp add: swrap_id in_i32_iff)

text \<open>Division compared with multiplication, for the overflow tests by division.\<close>

lemma div_less_iff_mult:
  fixes a b n :: int
  assumes "0 < b"
  shows "n div b < a \<longleftrightarrow> n < a * b"
proof -
  have eq: "n = n div b * b + n mod b" and m: "0 \<le> n mod b" "n mod b < b"
    using assms by simp_all
  have "n div b < a \<Longrightarrow> (n div b + 1) * b \<le> a * b"
    using assms by (intro mult_right_mono) simp_all
  moreover have "a \<le> n div b \<Longrightarrow> a * b \<le> n div b * b"
    using assms by (intro mult_right_mono) simp_all
  ultimately show ?thesis
    using eq m by (metis (no_types) add_less_cancel_left dual_order.strict_trans1 distrib_right
        mult_1 not_le add_increasing2)
qed

lemma le_div_iff_mult:
  fixes a b n :: int
  shows "0 < b \<Longrightarrow> a \<le> n div b \<longleftrightarrow> a * b \<le> n"
  using div_less_iff_mult [of b n a] by (simp flip: not_less)

lemma sdiv_nonneg_eq: "0 \<le> n \<Longrightarrow> 0 < b \<Longrightarrow> n sdiv b = n div b" for n b :: int
  by (cases "n = 0") (simp_all add: signed_divide_int_def)

lemma sdiv_neg_num: "(- n) sdiv b = - (n sdiv b)" for n b :: int
  by (simp add: signed_divide_int_def)

lemma sdiv_neg_den: "n sdiv (- b) = - (n sdiv b)" for n b :: int
  by (simp add: signed_divide_int_def)

lemma abs_sdiv_le_div: "\<bar>n sdiv b\<bar> \<le> \<bar>n\<bar> div \<bar>b\<bar>" for n b :: int
  by (auto simp: signed_divide_int_def sgn_if div_int_pos_iff)

lemma abs_sdiv_less:
  fixes n b :: int
  assumes "n \<noteq> 0" and b: "b \<noteq> 0" "b \<noteq> 1" "b \<noteq> - 1"
  shows "\<bar>n sdiv b\<bar> < \<bar>n\<bar>"
proof -
  from b have "2 \<le> \<bar>b\<bar>" by linarith
  have "\<bar>n\<bar> * 2 \<le> \<bar>n\<bar> * \<bar>b\<bar>"
    using \<open>2 \<le> \<bar>b\<bar>\<close> by (intro mult_left_mono) simp_all
  then have "\<bar>n\<bar> div \<bar>b\<bar> < \<bar>n\<bar>"
    using assms(1) \<open>2 \<le> \<bar>b\<bar>\<close> div_less_iff_mult [of "\<bar>b\<bar>" "\<bar>n\<bar>" "\<bar>n\<bar>"] by linarith
  then show ?thesis
    using abs_sdiv_le_div [of n b] by linarith
qed

lemma abs_sdiv_le: "\<bar>n sdiv b\<bar> \<le> \<bar>n\<bar>" for n b :: int
proof -
  consider "b = 0" | "b = 1" | "b = - 1" | "n = 0" | "n \<noteq> 0" "b \<noteq> 0" "b \<noteq> 1" "b \<noteq> - 1"
    by blast
  then show ?thesis
    by cases (simp_all add: less_imp_le [OF abs_sdiv_less])
qed

text \<open>The four guards of the checked signed multiplications together test representability.\<close>

lemma mul_guard_iff:
  fixes a b hi :: int
  assumes "0 \<le> hi"
  shows "(a > 0 \<and> b > 0 \<and> a > hi sdiv b) \<or>
         (a > 0 \<and> b \<le> 0 \<and> b < (- hi - 1) sdiv a) \<or>
         (a \<le> 0 \<and> b > 0 \<and> a < (- hi - 1) sdiv b) \<or>
         (a < 0 \<and> b \<le> 0 \<and> b < hi sdiv a)
         \<longleftrightarrow> \<not> (- hi - 1 \<le> a * b \<and> a * b \<le> hi)"
proof -
  have pp: "hi sdiv y < x \<longleftrightarrow> hi < x * y" if "0 < y" for x y
    using that assms by (simp add: sdiv_nonneg_eq div_less_iff_mult)
  have "- hi - 1 = - (hi + 1)" by simp
  then have pn: "y < (- hi - 1) sdiv x \<longleftrightarrow> x * y < - hi - 1" if "0 < x" for x y
    using that assms div_less_iff_mult [of x "hi + 1" "- y"]
    by (simp only: sdiv_neg_num) (auto simp add: sdiv_nonneg_eq mult.commute)
  have nn: "y < hi sdiv x \<longleftrightarrow> hi < x * y" if "x < 0" for x y
    using that assms div_less_iff_mult [of "- x" hi "- y"] sdiv_neg_den [of hi "- x"]
      sdiv_nonneg_eq [of hi "- x"]
    by (auto simp add: mult.commute)
  consider "a > 0" "b > 0" | "a > 0" "b \<le> 0" | "a \<le> 0" "b > 0" | "a < 0" "b \<le> 0" | "a = 0" "b \<le> 0"
    by linarith
  then show ?thesis
  proof cases
    case 1
    moreover have "- hi - 1 \<le> a * b" using 1 assms mult_pos_pos [of a b] by linarith
    ultimately show ?thesis using assms by (auto simp add: pp)
  next
    case 2
    moreover have "a * b \<le> 0" using 2 by (simp add: mult_nonneg_nonpos)
    ultimately show ?thesis using assms by (auto simp add: pn)
  next
    case 3
    moreover have "a * b \<le> 0" using 3 by (simp add: mult_nonpos_nonneg)
    ultimately show ?thesis using assms pn [of b a] by (auto simp add: mult.commute)
  next
    case 4
    moreover have "0 \<le> a * b" using 4 by (simp add: mult_nonpos_nonpos)
    ultimately show ?thesis using assms by (auto simp add: nn)
  next
    case 5
    then show ?thesis using assms by simp
  qed
qed

lemma mul_guarded_exact:
  fixes a b hi lo :: int
  assumes hi: "0 \<le> hi" and lo: "lo = - hi - 1" and wrap: "\<And>x. lo \<le> x \<Longrightarrow> x \<le> hi \<Longrightarrow> wr x = x"
  shows "(if (a > 0 \<and> b > 0 \<and> a > wr (hi sdiv b)) \<or>
             (a > 0 \<and> b \<le> 0 \<and> b < wr (lo sdiv a)) \<or>
             (a \<le> 0 \<and> b > 0 \<and> a < wr (lo sdiv b)) \<or>
             (a < 0 \<and> b \<le> 0 \<and> b < wr (hi sdiv a))
          then (0, False) else (wr (a * b), True)) =
         (if lo \<le> a * b \<and> a * b \<le> hi then (a * b, True) else (0, False))"
proof -
  have "wr (hi sdiv x) = hi sdiv x" for x
    using hi lo abs_sdiv_le [of hi x] by (intro wrap) linarith+
  moreover have "wr (lo sdiv x) = lo sdiv x" if "0 < x" for x
  proof (rule wrap)
    have "lo = - (hi + 1)" using lo by simp
    then have "lo sdiv x = - ((hi + 1) sdiv x)"
      by (simp only: sdiv_neg_num)
    moreover have "0 \<le> (hi + 1) sdiv x"
      using hi that by (simp add: sdiv_nonneg_eq pos_imp_zdiv_nonneg_iff)
    ultimately show "lo sdiv x \<le> hi"
      using hi by linarith
    show "lo \<le> lo sdiv x"
      using abs_sdiv_le [of lo x] hi lo by linarith
  qed
  ultimately show ?thesis
    using mul_guard_iff [OF hi, of a b] wrap [of "a * b"] unfolding lo
    by (auto split del: if_split cong: conj_cong split: if_splits)
qed

section \<open>Lists as Go slices of values\<close>

lemma butlast_last_decomp: "xs \<noteq> [] \<Longrightarrow> xs = butlast xs @ [last xs]"
  by simp

lemma sum_list_butlast:
  fixes f :: "'a \<Rightarrow> int"
  shows "xs \<noteq> [] \<Longrightarrow> sum_list (map f (butlast xs)) = sum_list (map f xs) - f (last xs)"
  by (induction xs) auto

lemma sum_list_take_drop:
  fixes f :: "'a \<Rightarrow> int"
  shows "sum_list (map f (take n xs)) + sum_list (map f (drop n xs)) = sum_list (map f xs)"
  by (metis append_take_drop_id map_append sum_list_append)

lemma sum_list_nonneg_int:
  fixes f :: "'a \<Rightarrow> int"
  shows "(\<And>x. 0 \<le> f x) \<Longrightarrow> 0 \<le> sum_list (map f xs)"
  by (induction xs) auto

end
