(* ===== verification/GoSlice.thy ===== *)
theory GoSlice
  imports Prelude
begin

text \<open>
  Go byte slices over an explicit store of arrays. A slice is a window into an array; taking
  a sub-slice or copying the slice value shares the array, and \<^verbatim>\<open>append\<close> writes in place
  whenever the capacity of its first argument allows it. The virtual machine keeps slices on
  its stacks, so the store is part of its state.
\<close>

type_synonym store = "bytes list"

record slice =
  s_arr :: nat
  s_off :: nat
  s_len :: nat
  s_cap :: nat

definition nil_slice :: slice where
  "nil_slice = \<lparr>s_arr = 0, s_off = 0, s_len = 0, s_cap = 0\<rparr>"

definition slice_bytes :: "store \<Rightarrow> slice \<Rightarrow> bytes" where
  "slice_bytes h s = take (s_len s) (drop (s_off s) (h ! s_arr s))"

definition wf_slice :: "store \<Rightarrow> slice \<Rightarrow> bool" where
  "wf_slice h s \<longleftrightarrow> s_arr s < length h \<and> s_len s \<le> s_cap s \<and> s_off s + s_cap s \<le> length (h ! s_arr s)"

text \<open>A fresh array with the given contents, as \<^verbatim>\<open>make\<close> and composite literals produce it.\<close>

definition alloc :: "store \<Rightarrow> bytes \<Rightarrow> store \<times> slice" where
  "alloc h bs = (h @ [bs], \<lparr>s_arr = length h, s_off = 0, s_len = length bs, s_cap = length bs\<rparr>)"

text \<open>
  \<^verbatim>\<open>append(s, bs...)\<close>. The language leaves the capacity of a reallocated array to the
  runtime, which only has to make it large enough: \<open>grow\<close> stands for that choice.
\<close>

definition write_at :: "bytes \<Rightarrow> nat \<Rightarrow> bytes \<Rightarrow> bytes" where
  "write_at arr i bs = take i arr @ bs @ drop (i + length bs) arr"

definition go_append :: "(nat \<Rightarrow> nat \<Rightarrow> nat) \<Rightarrow> store \<Rightarrow> slice \<Rightarrow> bytes \<Rightarrow> store \<times> slice" where
  "go_append grow h s bs =
     (let n = s_len s + length bs in
      if n \<le> s_cap s
      then (h[s_arr s := write_at (h ! s_arr s) (s_off s + s_len s) bs], s\<lparr>s_len := n\<rparr>)
      else (let c = max n (grow (s_cap s) n) in
            (h @ [slice_bytes h s @ bs @ replicate (c - n) 0],
             \<lparr>s_arr = length h, s_off = 0, s_len = n, s_cap = c\<rparr>)))"

text \<open>\<^verbatim>\<open>s[i:j]\<close> for \<open>i \<le> j \<le> cap s\<close>: same array, and the capacity reaches past \<open>j\<close>.\<close>

definition sub_slice :: "slice \<Rightarrow> nat \<Rightarrow> nat \<Rightarrow> slice" where
  "sub_slice s i j = \<lparr>s_arr = s_arr s, s_off = s_off s + i, s_len = j - i, s_cap = s_cap s - i\<rparr>"

section \<open>Contents\<close>

lemma length_slice_bytes [simp]: "wf_slice h s \<Longrightarrow> length (slice_bytes h s) = s_len s"
  by (auto simp: slice_bytes_def wf_slice_def)

lemma length_slice_bytes_le: "length (slice_bytes h s) \<le> s_len s"
  by (simp add: slice_bytes_def)

lemma slice_bytes_extend [simp]: "s_arr s < length h \<Longrightarrow> slice_bytes (h @ ext) s = slice_bytes h s"
  by (simp add: slice_bytes_def nth_append)

lemma wf_slice_extend: "wf_slice h s \<Longrightarrow> wf_slice (h @ ext) s"
  by (simp add: wf_slice_def nth_append)

lemma alloc_bytes [simp]: "slice_bytes (fst (alloc h bs)) (snd (alloc h bs)) = bs"
  by (simp add: alloc_def slice_bytes_def)

lemma alloc_wf [simp]: "wf_slice (fst (alloc h bs)) (snd (alloc h bs))"
  by (simp add: alloc_def wf_slice_def)

lemma alloc_len [simp]: "s_len (snd (alloc h bs)) = length bs"
  by (simp add: alloc_def)

lemma alloc_store: "fst (alloc h bs) = h @ [bs]"
  by (simp add: alloc_def)

lemma sub_slice_len [simp]: "s_len (sub_slice s i j) = j - i"
  by (simp add: sub_slice_def)

lemma sub_slice_bytes:
  assumes "i \<le> j" "j \<le> s_len s"
  shows "slice_bytes h (sub_slice s i j) = take (j - i) (drop i (slice_bytes h s))"
  using assms by (simp add: slice_bytes_def sub_slice_def drop_take min_def add.commute)

lemma sub_slice_wf: "wf_slice h s \<Longrightarrow> i \<le> j \<Longrightarrow> j \<le> s_cap s \<Longrightarrow> wf_slice h (sub_slice s i j)"
  by (auto simp: wf_slice_def sub_slice_def)

lemma length_write_at [simp]: "i + length bs \<le> length arr \<Longrightarrow> length (write_at arr i bs) = length arr"
  by (simp add: write_at_def)

lemma go_append_len [simp]: "s_len (snd (go_append grow h s bs)) = s_len s + length bs"
  by (simp add: go_append_def Let_def)

text \<open>Whatever the capacities are, the slice that \<^verbatim>\<open>append\<close> returns holds the concatenation.\<close>

lemma go_append_bytes:
  assumes "wf_slice h s"
  shows "slice_bytes (fst (go_append grow h s bs)) (snd (go_append grow h s bs)) = slice_bytes h s @ bs"
proof (cases "s_len s + length bs \<le> s_cap s")
  case True
  let ?A = "h ! s_arr s"
  have len: "s_off s + s_len s \<le> length ?A"
    using assms by (simp add: wf_slice_def)
  have "take (s_len s + length bs) (drop (s_off s) (write_at ?A (s_off s + s_len s) bs)) =
        take (s_len s) (drop (s_off s) ?A) @ bs"
    using len by (auto simp add: write_at_def drop_take min_def)
  with True assms show ?thesis
    by (simp add: go_append_def slice_bytes_def wf_slice_def)
next
  case False
  then show ?thesis
    using assms by (simp add: go_append_def Let_def) (auto simp add: slice_bytes_def wf_slice_def min_def)
qed

lemma go_append_wf:
  assumes "wf_slice h s"
  shows "wf_slice (fst (go_append grow h s bs)) (snd (go_append grow h s bs))"
  using assms by (auto simp: go_append_def Let_def wf_slice_def nth_append slice_bytes_def)

text \<open>
  When the capacity is exhausted the old arrays are left alone; otherwise exactly the window
  behind the slice is overwritten, which every other slice of that array sees.
\<close>

lemma go_append_realloc:
  "s_cap s < s_len s + length bs \<Longrightarrow> \<exists>arr. fst (go_append grow h s bs) = h @ [arr]"
  by (simp add: go_append_def Let_def)

lemma go_append_in_place:
  assumes "s_len s + length bs \<le> s_cap s" "s_arr s < length h" "s_arr t = s_arr s"
    and "s_off t = s_off s" "s_len t = s_len s + length bs" "wf_slice h s"
  shows "slice_bytes (fst (go_append grow h s bs)) t = slice_bytes h s @ bs"
proof -
  have "slice_bytes (fst (go_append grow h s bs)) t =
        slice_bytes (fst (go_append grow h s bs)) (snd (go_append grow h s bs))"
    using assms by (simp add: slice_bytes_def go_append_def)
  then show ?thesis
    using go_append_bytes [OF assms(6)] by simp
qed

end
