(* ===== verification/Checked.thy ===== *)
theory Checked
  imports Prelude
begin

text \<open>
  Package \<^verbatim>\<open>math/checked\<close>: fixed-width arithmetic that reports overflow. Every function
  returns the result and a flag, \<open>(0, False)\<close> on overflow. The signed functions work on
  integers with the wrap of the width written out, the unsigned ones on words. The two
  interfaces \<open>checked_signed\<close> and \<open>checked_unsigned\<close> state what clients rely on; both are
  interpreted at both widths of the source.
\<close>

section \<open>int64\<close>

definition AddInt64 :: "int \<Rightarrow> int \<Rightarrow> int \<times> bool" where
  "AddInt64 a b =
     (if (b > 0 \<and> a > i64 (MaxInt64 - b)) \<or> (b < 0 \<and> a < i64 (MinInt64 - b))
      then (0, False) else (i64 (a + b), True))"

definition SubInt64 :: "int \<Rightarrow> int \<Rightarrow> int \<times> bool" where
  "SubInt64 a b =
     (if (b > 0 \<and> a < i64 (MinInt64 + b)) \<or> (b < 0 \<and> a > i64 (MaxInt64 + b))
      then (0, False) else (i64 (a - b), True))"

definition MulInt64 :: "int \<Rightarrow> int \<Rightarrow> int \<times> bool" where
  "MulInt64 a b =
     (if (a > 0 \<and> b > 0 \<and> a > i64 (MaxInt64 sdiv b)) \<or>
         (a > 0 \<and> b \<le> 0 \<and> b < i64 (MinInt64 sdiv a)) \<or>
         (a \<le> 0 \<and> b > 0 \<and> a < i64 (MinInt64 sdiv b)) \<or>
         (a < 0 \<and> b \<le> 0 \<and> b < i64 (MaxInt64 sdiv a))
      then (0, False) else (i64 (a * b), True))"

definition DivInt64 :: "int \<Rightarrow> int \<Rightarrow> int \<times> bool" where
  "DivInt64 a b =
     (if b = 0 \<or> (a = MinInt64 \<and> b = - 1) then (0, False) else (i64 (a sdiv b), True))"

definition ModInt64 :: "int \<Rightarrow> int \<Rightarrow> int \<times> bool" where
  "ModInt64 a b =
     (if b = 0 \<or> (a = MinInt64 \<and> b = - 1) then (0, False) else (i64 (a smod b), True))"

definition NegateInt64 :: "int \<Rightarrow> int \<times> bool" where
  "NegateInt64 a = (if a = MinInt64 then (0, False) else (i64 (- a), True))"

definition LshiftInt64 :: "int \<Rightarrow> int \<Rightarrow> int \<times> bool" where
  "LshiftInt64 a b =
     (if b < 0 \<or> b \<ge> 64 then (0, False)
      else if (a \<ge> 0 \<and> a > drop_bit (nat b) MaxInt64) \<or> (a < 0 \<and> a < drop_bit (nat b) MinInt64)
      then (0, False) else (i64 (push_bit (nat b) a), True))"

section \<open>int32\<close>

definition AddInt32 :: "int \<Rightarrow> int \<Rightarrow> int \<times> bool" where
  "AddInt32 a b =
     (if (b > 0 \<and> a > i32 (MaxInt32 - b)) \<or> (b < 0 \<and> a < i32 (MinInt32 - b))
      then (0, False) else (i32 (a + b), True))"

definition SubInt32 :: "int \<Rightarrow> int \<Rightarrow> int \<times> bool" where
  "SubInt32 a b =
     (if (b > 0 \<and> a < i32 (MinInt32 + b)) \<or> (b < 0 \<and> a > i32 (MaxInt32 + b))
      then (0, False) else (i32 (a - b), True))"

definition MulInt32 :: "int \<Rightarrow> int \<Rightarrow> int \<times> bool" where
  "MulInt32 a b =
     (if (a > 0 \<and> b > 0 \<and> a > i32 (MaxInt32 sdiv b)) \<or>
         (a > 0 \<and> b \<le> 0 \<and> b < i32 (MinInt32 sdiv a)) \<or>
         (a \<le> 0 \<and> b > 0 \<and> a < i32 (MinInt32 sdiv b)) \<or>
         (a < 0 \<and> b \<le> 0 \<and> b < i32 (MaxInt32 sdiv a))
      then (0, False) else (i32 (a * b), True))"

definition DivInt32 :: "int \<Rightarrow> int \<Rightarrow> int \<times> bool" where
  "DivInt32 a b =
     (if b = 0 \<or> (a = MinInt32 \<and> b = - 1) then (0, False) else (i32 (a sdiv b), True))"

definition ModInt32 :: "int \<Rightarrow> int \<Rightarrow> int \<times> bool" where
  "ModInt32 a b =
     (if b = 0 \<or> (a = MinInt32 \<and> b = - 1) then (0, False) else (i32 (a smod b), True))"

definition NegateInt32 :: "int \<Rightarrow> int \<times> bool" where
  "NegateInt32 a = (if a = MinInt32 then (0, False) else (i32 (- a), True))"

definition LshiftInt32 :: "int \<Rightarrow> int \<Rightarrow> int \<times> bool" where
  "LshiftInt32 a b =
     (if b < 0 \<or> b \<ge> 32 then (0, False)
      else if (a \<ge> 0 \<and> a > drop_bit (nat b) MaxInt32) \<or> (a < 0 \<and> a < drop_bit (nat b) MinInt32)
      then (0, False) else (i32 (push_bit (nat b) a), True))"

section \<open>uint64\<close>

definition AddUint64 :: "u64 \<Rightarrow> u64 \<Rightarrow> u64 \<times> bool" where
  "AddUint64 a b = (if - 1 - a < b then (0, False) else (a + b, True))"

definition SubUint64 :: "u64 \<Rightarrow> u64 \<Rightarrow> u64 \<times> bool" where
  "SubUint64 a b = (if a < b then (0, False) else (a - b, True))"

definition MulUint64 :: "u64 \<Rightarrow> u64 \<Rightarrow> u64 \<times> bool" where
  "MulUint64 a b = (if b > 0 \<and> a > (- 1) div b then (0, False) else (a * b, True))"

definition DivUint64 :: "u64 \<Rightarrow> u64 \<Rightarrow> u64 \<times> bool" where
  "DivUint64 a b = (if b = 0 then (0, False) else (a div b, True))"

definition ModUint64 :: "u64 \<Rightarrow> u64 \<Rightarrow> u64 \<times> bool" where
  "ModUint64 a b = (if b = 0 then (0, False) else (a mod b, True))"

definition LshiftUint64 :: "u64 \<Rightarrow> u64 \<Rightarrow> u64 \<times> bool" where
  "LshiftUint64 a b =
     (if b \<ge> 64 then (0, False)
      else if a > drop_bit (unat b) (- 1) then (0, False)
      else (push_bit (unat b) a, True))"

section \<open>uint32\<close>

definition AddUint32 :: "u32 \<Rightarrow> u32 \<Rightarrow> u32 \<times> bool" where
  "AddUint32 a b = (if - 1 - a < b then (0, False) else (a + b, True))"

definition SubUint32 :: "u32 \<Rightarrow> u32 \<Rightarrow> u32 \<times> bool" where
  "SubUint32 a b = (if a < b then (0, False) else (a - b, True))"

definition MulUint32 :: "u32 \<Rightarrow> u32 \<Rightarrow> u32 \<times> bool" where
  "MulUint32 a b = (if b > 0 \<and> a > (- 1) div b then (0, False) else (a * b, True))"

definition DivUint32 :: "u32 \<Rightarrow> u32 \<Rightarrow> u32 \<times> bool" where
  "DivUint32 a b = (if b = 0 then (0, False) else (a div b, True))"

definition ModUint32 :: "u32 \<Rightarrow> u32 \<Rightarrow> u32 \<times> bool" where
  "ModUint32 a b = (if b = 0 then (0, False) else (a mod b, True))"

definition LshiftUint32 :: "u32 \<Rightarrow> u32 \<Rightarrow> u32 \<times> bool" where
  "LshiftUint32 a b =
     (if b \<ge> 32 then (0, False)
      else if a > drop_bit (unat b) (- 1) then (0, False)
      else (push_bit (unat b) a, True))"


section \<open>Exactness of the signed functions\<close>

definition exact_or_fail :: "nat \<Rightarrow> int \<Rightarrow> int \<times> bool" where
  "exact_or_fail w r = (if in_swrap w r then (r, True) else (0, False))"

text \<open>
  What a client may rely on: on operands in range each function returns the exact result
  when it is representable and \<open>(0, False)\<close> when it is not.
\<close>

locale checked_signed =
  fixes w :: nat
    and add sub mul quo rem lsh :: "int \<Rightarrow> int \<Rightarrow> int \<times> bool"
    and neg :: "int \<Rightarrow> int \<times> bool"
  assumes width: "2 \<le> w"
    and add_law: "in_swrap w a \<Longrightarrow> in_swrap w b \<Longrightarrow> add a b = exact_or_fail w (a + b)"
    and sub_law: "in_swrap w a \<Longrightarrow> in_swrap w b \<Longrightarrow> sub a b = exact_or_fail w (a - b)"
    and mul_law: "in_swrap w a \<Longrightarrow> in_swrap w b \<Longrightarrow> mul a b = exact_or_fail w (a * b)"
    and quo_law: "in_swrap w a \<Longrightarrow> in_swrap w b \<Longrightarrow> b \<noteq> 0 \<Longrightarrow> quo a b = exact_or_fail w (a sdiv b)"
    and quo_zero: "quo a 0 = (0, False)"
    and rem_law: "in_swrap w a \<Longrightarrow> in_swrap w b \<Longrightarrow> b \<noteq> 0 \<Longrightarrow> in_swrap w (a sdiv b) \<Longrightarrow>
                    rem a b = exact_or_fail w (a smod b)"
    and neg_law: "in_swrap w a \<Longrightarrow> neg a = exact_or_fail w (- a)"
    and lsh_law: "in_swrap w a \<Longrightarrow> 0 \<le> b \<Longrightarrow> b < int w \<Longrightarrow> lsh a b = exact_or_fail w (a * 2 ^ nat b)"
    and lsh_range: "b < 0 \<or> int w \<le> b \<Longrightarrow> lsh a b = (0, False)"
begin

lemma exact_okD: "exact_or_fail w r = (x, True) \<Longrightarrow> x = r \<and> in_swrap w x"
  by (auto simp: exact_or_fail_def split: if_splits)

lemma add_ok_iff:
  "in_swrap w a \<Longrightarrow> in_swrap w b \<Longrightarrow> add a b = (r, True) \<longleftrightarrow> r = a + b \<and> in_swrap w (a + b)"
  by (auto simp: add_law exact_or_fail_def)

lemma sub_ok_iff:
  "in_swrap w a \<Longrightarrow> in_swrap w b \<Longrightarrow> sub a b = (r, True) \<longleftrightarrow> r = a - b \<and> in_swrap w (a - b)"
  by (auto simp: sub_law exact_or_fail_def)

text \<open>An addition that succeeds is undone by the subtraction, and conversely.\<close>

lemma add_sub_cancel:
  "in_swrap w a \<Longrightarrow> in_swrap w b \<Longrightarrow> add a b = (s, True) \<Longrightarrow> sub s b = (a, True)"
  by (auto simp: add_ok_iff sub_law exact_or_fail_def)

lemma sub_add_cancel:
  "in_swrap w a \<Longrightarrow> in_swrap w b \<Longrightarrow> sub a b = (d, True) \<Longrightarrow> add d b = (a, True)"
  by (auto simp: sub_ok_iff add_law exact_or_fail_def)

lemma add_nonneg_mono:
  "0 \<le> a \<Longrightarrow> in_swrap w a \<Longrightarrow> in_swrap w b \<Longrightarrow> 0 \<le> b \<Longrightarrow> add a b = (s, True) \<Longrightarrow> a \<le> s"
  by (auto simp: add_ok_iff)

end

lemma le_drop_bit_iff: "a \<le> drop_bit n m \<longleftrightarrow> a * 2 ^ n \<le> m" for a m :: int
  by (simp add: drop_bit_eq_div le_div_iff_mult)

lemma drop_bit_less_iff: "drop_bit n m < a \<longleftrightarrow> m < a * 2 ^ n" for a m :: int
  by (simp add: drop_bit_eq_div div_less_iff_mult)

lemma less_drop_bit_neg_iff:
  fixes a :: int
  assumes "n \<le> k"
  shows "a < drop_bit n (- (2 ^ k)) \<longleftrightarrow> a * 2 ^ n < - (2 ^ k)"
proof -
  have eq: "(2::int) ^ k = 2 ^ (k - n) * 2 ^ n"
    using assms by (simp flip: power_add)
  have "drop_bit n (- (2 ^ k)) = - (2 ^ (k - n) :: int)"
    unfolding drop_bit_eq_div eq by (simp flip: mult_minus_left)
  then show ?thesis
    unfolding eq by (simp flip: mult_minus_left)
qed


lemma smod_range_le: "\<bar>a smod b\<bar> \<le> \<bar>a\<bar>" for a b :: int
proof -
  have "\<bar>\<bar>a\<bar> mod \<bar>b\<bar>\<bar> \<le> \<bar>a\<bar>"
    by (cases "b = 0") (simp_all add: zmod_le_nonneg_dividend)
  moreover have "\<bar>a smod b\<bar> = \<bar>sgn a\<bar> * \<bar>\<bar>a\<bar> mod \<bar>b\<bar>\<bar>"
    by (simp add: signed_modulo_int_def abs_mult)
  ultimately show ?thesis
    by (cases "a = 0") simp_all
qed

lemma smod_nonpos: "a \<le> 0 \<Longrightarrow> a smod b \<le> 0" for a b :: int
  by (cases "b = 0"; cases "a = 0") (simp_all add: signed_modulo_int_def)

lemmas int64_range = in_i64_iff i64_id exact_or_fail_def
lemmas int32_range = in_i32_iff i32_id exact_or_fail_def

interpretation int64: checked_signed 64 AddInt64 SubInt64 MulInt64 DivInt64 ModInt64 LshiftInt64 NegateInt64
proof unfold_locales
  fix a b :: int
  assume a: "in_i64 a" and b: "in_i64 b"
  show "AddInt64 a b = exact_or_fail 64 (a + b)"
    using a b by (auto simp: AddInt64_def int64_range)
  show "SubInt64 a b = exact_or_fail 64 (a - b)"
    using a b by (auto simp: SubInt64_def int64_range)
  show "MulInt64 a b = exact_or_fail 64 (a * b)"
    unfolding MulInt64_def exact_or_fail_def in_i64_iff
    by (rule mul_guarded_exact) (simp_all add: i64_id)
  show "DivInt64 a b = exact_or_fail 64 (a sdiv b)" if "b \<noteq> 0"
    using that a abs_sdiv_le [of a b] abs_sdiv_less [of a b]
    by (cases "b = 1"; cases "a = 0") (auto simp: DivInt64_def int64_range)
  show "ModInt64 a b = exact_or_fail 64 (a smod b)" if "b \<noteq> 0" "in_i64 (a sdiv b)"
    using that a smod_range_le [of a b] smod_nonpos [of a b]
    by (cases "a \<le> 0") (auto simp: ModInt64_def int64_range)
next
  fix a b :: int
  assume a: "in_i64 a"
  show "NegateInt64 a = exact_or_fail 64 (- a)"
    using a by (auto simp: NegateInt64_def int64_range)
  show "LshiftInt64 a b = exact_or_fail 64 (a * 2 ^ nat b)" if "0 \<le> b" "b < int 64"
  proof -
    define p where "p = a * 2 ^ nat b"
    have "drop_bit (nat b) MaxInt64 < a \<longleftrightarrow> MaxInt64 < p" "a < drop_bit (nat b) MinInt64 \<longleftrightarrow> p < MinInt64"
      "p < 0 \<longleftrightarrow> a < 0"
      using that drop_bit_less_iff [of "nat b" MaxInt64 a] less_drop_bit_neg_iff [of "nat b" 63 a]
      by (simp_all add: p_def mult_less_0_iff)
    with that a show ?thesis
      by (auto simp: LshiftInt64_def int64_range push_bit_eq_mult simp flip: p_def)
  qed
qed (auto simp: DivInt64_def LshiftInt64_def)

interpretation int32: checked_signed 32 AddInt32 SubInt32 MulInt32 DivInt32 ModInt32 LshiftInt32 NegateInt32
proof unfold_locales
  fix a b :: int
  assume a: "in_i32 a" and b: "in_i32 b"
  show "AddInt32 a b = exact_or_fail 32 (a + b)"
    using a b by (auto simp: AddInt32_def int32_range)
  show "SubInt32 a b = exact_or_fail 32 (a - b)"
    using a b by (auto simp: SubInt32_def int32_range)
  show "MulInt32 a b = exact_or_fail 32 (a * b)"
    unfolding MulInt32_def exact_or_fail_def in_i32_iff
    by (rule mul_guarded_exact) (simp_all add: i32_id)
  show "DivInt32 a b = exact_or_fail 32 (a sdiv b)" if "b \<noteq> 0"
    using that a abs_sdiv_le [of a b] abs_sdiv_less [of a b]
    by (cases "b = 1"; cases "a = 0") (auto simp: DivInt32_def int32_range)
  show "ModInt32 a b = exact_or_fail 32 (a smod b)" if "b \<noteq> 0" "in_i32 (a sdiv b)"
    using that a smod_range_le [of a b] smod_nonpos [of a b]
    by (cases "a \<le> 0") (auto simp: ModInt32_def int32_range)
next
  fix a b :: int
  assume a: "in_i32 a"
  show "NegateInt32 a = exact_or_fail 32 (- a)"
    using a by (auto simp: NegateInt32_def int32_range)
  show "LshiftInt32 a b = exact_or_fail 32 (a * 2 ^ nat b)" if "0 \<le> b" "b < int 32"
  proof -
    define p where "p = a * 2 ^ nat b"
    have "drop_bit (nat b) MaxInt32 < a \<longleftrightarrow> MaxInt32 < p" "a < drop_bit (nat b) MinInt32 \<longleftrightarrow> p < MinInt32"
      "p < 0 \<longleftrightarrow> a < 0"
      using that drop_bit_less_iff [of "nat b" MaxInt32 a] less_drop_bit_neg_iff [of "nat b" 31 a]
      by (simp_all add: p_def mult_less_0_iff)
    with that a show ?thesis
      by (auto simp: LshiftInt32_def int32_range push_bit_eq_mult simp flip: p_def)
  qed
qed (auto simp: DivInt32_def LshiftInt32_def)


section \<open>Exactness of the unsigned functions\<close>

definition uexact_or_fail :: "nat \<Rightarrow> 'a::len word \<times> bool" where
  "uexact_or_fail n = (if n < 2 ^ LENGTH('a) then (of_nat n, True) else (0, False))"

lemma uexact_ok_iff:
  "uexact_or_fail n = (r :: 'a::len word, True) \<longleftrightarrow> unat r = n \<and> n < 2 ^ LENGTH('a)"
  by (auto simp: uexact_or_fail_def unat_of_nat)

locale checked_unsigned =
  fixes add sub mul quo rem lsh :: "'a::len word \<Rightarrow> 'a word \<Rightarrow> 'a word \<times> bool"
  assumes add_law: "add a b = uexact_or_fail (unat a + unat b)"
    and sub_law: "sub a b = (if unat b \<le> unat a then uexact_or_fail (unat a - unat b) else (0, False))"
    and mul_law: "mul a b = uexact_or_fail (unat a * unat b)"
    and quo_law: "quo a b = (if b = 0 then (0, False) else uexact_or_fail (unat a div unat b))"
    and rem_law: "rem a b = (if b = 0 then (0, False) else uexact_or_fail (unat a mod unat b))"
    and lsh_law: "unat b < LENGTH('a) \<Longrightarrow> lsh a b = uexact_or_fail (unat a * 2 ^ unat b)"
    and lsh_range: "LENGTH('a) \<le> unat b \<Longrightarrow> lsh a b = (0, False)"
begin

lemma add_ok_iff: "add a b = (r, True) \<longleftrightarrow> unat r = unat a + unat b"
  by (auto simp: add_law uexact_ok_iff) (metis unsigned_less)

lemma sub_ok_iff: "sub a b = (r, True) \<longleftrightarrow> unat a = unat r + unat b"
  using unsigned_less [of a, where ?'a = nat] by (auto simp: sub_law uexact_ok_iff)

text \<open>Euclid's identity holds of the two division functions, with no intermediate overflow.\<close>

lemma quo_rem_identity:
  assumes "quo a b = (q, True)" and "rem a b = (r, True)"
  shows "unat a = unat q * unat b + unat r" and "unat r < unat b"
  using assms by (auto simp: quo_law rem_law uexact_ok_iff unat_gt_0 split: if_splits)

lemma add_sub_cancel: "add a b = (s, True) \<Longrightarrow> sub s b = (a, True)"
  by (simp add: add_ok_iff sub_ok_iff)

end

lemma unat_max_word: "unat (- 1 :: 'a::len word) = 2 ^ LENGTH('a) - 1"
  by (simp add: unsigned_minus_1_eq_mask mask_eq_exp_minus_1)

lemma unat_max_word_minus: "unat (- 1 - a :: 'a::len word) = 2 ^ LENGTH('a) - 1 - unat a"
  by (simp add: unat_sub_if' unat_max_word) (use unsigned_less [of a, where ?'a = nat] in linarith)

lemma pred_pow_div_less_iff:
  fixes a b w :: nat
  assumes "0 < b"
  shows "(2 ^ w - Suc 0) div b < a \<longleftrightarrow> \<not> a * b < 2 ^ w"
proof -
  obtain k where "(2::nat) ^ w = Suc k"
    using gr0_implies_Suc [of "2 ^ w"] by auto
  then show ?thesis
    using div_less_iff_less_mult [OF assms, of k a] by auto
qed

lemma checked_add_word:
  "(if - 1 - a < b then (0, False) else (a + b, True)) = uexact_or_fail (unat a + unat (b :: 'a::len word))"
  by (auto simp: uexact_or_fail_def word_less_nat_alt unat_max_word_minus)
    (use unsigned_less [of a, where ?'a = nat] in linarith)+

lemma checked_sub_word:
  "(if a < b then (0, False) else (a - b, True)) =
   (if unat b \<le> unat a then uexact_or_fail (unat a - unat (b :: 'a::len word)) else (0, False))"
  by (auto simp: uexact_or_fail_def word_less_nat_alt of_nat_diff)
    (use unsigned_less [of a, where ?'a = nat] in linarith)+

lemma checked_mul_word:
  "(if b > 0 \<and> a > (- 1) div b then (0, False) else (a * b, True)) =
   uexact_or_fail (unat a * unat (b :: 'a::len word))"
proof (cases "b = 0")
  case True
  then show ?thesis by (simp add: uexact_or_fail_def)
next
  case False
  then have b: "0 < unat b" by (simp add: unat_gt_0)
  have "(- 1) div b < a \<longleftrightarrow> (2 ^ LENGTH('a) - 1) div unat b < unat a"
    by (simp add: word_less_nat_alt unat_div unat_max_word)
  with b have "(- 1) div b < a \<longleftrightarrow> \<not> unat a * unat b < 2 ^ LENGTH('a)"
    by (simp add: pred_pow_div_less_iff)
  with False show ?thesis
    by (auto simp: uexact_or_fail_def word_gt_0)
qed

lemma checked_lsh_word:
  fixes a :: "'a::len word"
  shows "(if a > drop_bit n (- 1) then (0, False) else (push_bit n a, True)) =
         uexact_or_fail (unat a * 2 ^ n)"
proof -
  have "unat (drop_bit n (- 1 :: 'a word)) = (2 ^ LENGTH('a) - 1) div 2 ^ n"
    by (simp only: unat_drop_bit_eq unat_max_word) (rule drop_bit_eq_div)
  then have "drop_bit n (- 1 :: 'a word) < a \<longleftrightarrow> \<not> unat a * 2 ^ n < 2 ^ LENGTH('a)"
    by (simp only: word_less_nat_alt) (simp add: pred_pow_div_less_iff)
  then show ?thesis
    by (auto simp: uexact_or_fail_def push_bit_eq_mult simp del: drop_bit_minus_one)
qed

lemma checked_div_word:
  "(a div b :: 'a::len word, True) = uexact_or_fail (unat a div unat b)"
  "(a mod b :: 'a::len word, True) = uexact_or_fail (unat a mod unat b)"
  by (simp_all add: uexact_or_fail_def flip: unat_div unat_mod)

lemmas checked_words = checked_add_word checked_sub_word checked_mul_word checked_div_word
  checked_lsh_word

interpretation uint64: checked_unsigned AddUint64 SubUint64 MulUint64 DivUint64 ModUint64 LshiftUint64
proof
  fix a b :: u64
  show "AddUint64 a b = uexact_or_fail (unat a + unat b)"
    unfolding AddUint64_def by (rule checked_add_word)
  show "SubUint64 a b = (if unat b \<le> unat a then uexact_or_fail (unat a - unat b) else (0, False))"
    unfolding SubUint64_def by (rule checked_sub_word)
  show "MulUint64 a b = uexact_or_fail (unat a * unat b)"
    unfolding MulUint64_def by (rule checked_mul_word)
  show "DivUint64 a b = (if b = 0 then (0, False) else uexact_or_fail (unat a div unat b))"
    unfolding DivUint64_def checked_div_word ..
  show "ModUint64 a b = (if b = 0 then (0, False) else uexact_or_fail (unat a mod unat b))"
    unfolding ModUint64_def checked_div_word ..
  show "LshiftUint64 a b = uexact_or_fail (unat a * 2 ^ unat b)" if "unat b < LENGTH(64)"
    using that unfolding LshiftUint64_def checked_lsh_word by (simp add: word_le_nat_alt)
  show "LshiftUint64 a b = (0, False)" if "LENGTH(64) \<le> unat b"
    using that by (simp add: LshiftUint64_def word_le_nat_alt)
qed

interpretation uint32: checked_unsigned AddUint32 SubUint32 MulUint32 DivUint32 ModUint32 LshiftUint32
proof
  fix a b :: u32
  show "AddUint32 a b = uexact_or_fail (unat a + unat b)"
    unfolding AddUint32_def by (rule checked_add_word)
  show "SubUint32 a b = (if unat b \<le> unat a then uexact_or_fail (unat a - unat b) else (0, False))"
    unfolding SubUint32_def by (rule checked_sub_word)
  show "MulUint32 a b = uexact_or_fail (unat a * unat b)"
    unfolding MulUint32_def by (rule checked_mul_word)
  show "DivUint32 a b = (if b = 0 then (0, False) else uexact_or_fail (unat a div unat b))"
    unfolding DivUint32_def checked_div_word ..
  show "ModUint32 a b = (if b = 0 then (0, False) else uexact_or_fail (unat a mod unat b))"
    unfolding ModUint32_def checked_div_word ..
  show "LshiftUint32 a b = uexact_or_fail (unat a * 2 ^ unat b)" if "unat b < LENGTH(32)"
    using that unfolding LshiftUint32_def checked_lsh_word by (simp add: word_le_nat_alt)
  show "LshiftUint32 a b = (0, False)" if "LENGTH(32) \<le> unat b"
    using that by (simp add: LshiftUint32_def word_le_nat_alt)
qed

end
