(* ===== verification/VmTypes.thy ===== *)
theory VmTypes
  imports GoSlice Checked
begin

text \<open>
  The data of package \<^verbatim>\<open>protocol/vm\<close> (\<^verbatim>\<open>types.go\<close>, \<^verbatim>\<open>errors.go\<close>, \<^verbatim>\<open>context.go\<close> and the
  state and stack primitives of \<^verbatim>\<open>vm.go\<close>). Operations are functions from the machine state
  to an outcome and the state they leave behind, since the gas and the stacks that a failing
  program leaves are observable. The packages that are not part of the repository, the
  cryptographic functions and the growth policy of the Go runtime are fields of the record
  \<open>lib\<close>, passed to every definition that uses them.
\<close>

section \<open>External functions\<close>

text \<open>
  The methods of \<^verbatim>\<open>uint256.Int\<close> the machine calls, the hash functions and the signature
  check, and the capacity the runtime chooses for a reallocated slice.
\<close>

record lib =
  uNewInt :: "u64 \<Rightarrow> u256"
  uSetBytes :: "bytes \<Rightarrow> u256"
  uBytes :: "u256 \<Rightarrow> bytes"
  uSign :: "u256 \<Rightarrow> int"
  uAdd :: "u256 \<Rightarrow> u256 \<Rightarrow> u256"
  uSub :: "u256 \<Rightarrow> u256 \<Rightarrow> u256"
  uMul :: "u256 \<Rightarrow> u256 \<Rightarrow> u256"
  uMulOverflow :: "u256 \<Rightarrow> u256 \<Rightarrow> u256 \<times> bool"
  uDiv :: "u256 \<Rightarrow> u256 \<Rightarrow> u256"
  uMod :: "u256 \<Rightarrow> u256 \<Rightarrow> u256"
  uLsh :: "u256 \<Rightarrow> nat \<Rightarrow> u256"
  uRsh :: "u256 \<Rightarrow> nat \<Rightarrow> u256"
  uClear :: u256
  uCmp :: "u256 \<Rightarrow> u256 \<Rightarrow> int"
  uEq :: "u256 \<Rightarrow> u256 \<Rightarrow> bool"
  uIsZero :: "u256 \<Rightarrow> bool"
  uLtUint64 :: "u256 \<Rightarrow> u64 \<Rightarrow> bool"
  uUint64 :: "u256 \<Rightarrow> u64"
  uIsUint64 :: "u256 \<Rightarrow> bool"
  uUint64WithOverflow :: "u256 \<Rightarrow> u64 \<times> bool"
  sha256 :: "bytes \<Rightarrow> bytes"
  sha3_256 :: "bytes \<Rightarrow> bytes"
  ripemd160 :: "bytes \<Rightarrow> bytes"
  ed25519_Verify :: "bytes \<Rightarrow> bytes \<Rightarrow> bytes \<Rightarrow> bool"
  growcap :: "nat \<Rightarrow> nat \<Rightarrow> nat"

text \<open>Big-endian byte strings without leading zeros, the format of \<^verbatim>\<open>uint256.Int.Bytes\<close>.\<close>

fun be_of_nat :: "nat \<Rightarrow> bytes" where
  "be_of_nat n = (if n = 0 then [] else be_of_nat (n div 256) @ [of_nat (n mod 256)])"

declare be_of_nat.simps [simp del]

lemma be_of_nat_0 [simp]: "be_of_nat 0 = []"
  by (simp add: be_of_nat.simps)

definition nat_of_be :: "bytes \<Rightarrow> nat" where
  "nat_of_be bs = foldl (\<lambda>acc b. acc * 256 + unat b) 0 bs"

text \<open>What the documentation of \<^verbatim>\<open>github.com/holiman/uint256\<close> says of these methods.\<close>

definition u256_ok :: "lib \<Rightarrow> bool" where
  "u256_ok L \<longleftrightarrow>
     (\<forall>n. uNewInt L n = ucast n) \<and>
     (\<forall>bs. length bs \<le> 32 \<longrightarrow> uSetBytes L bs = of_nat (nat_of_be bs)) \<and>
     (\<forall>x. uBytes L x = be_of_nat (unat x)) \<and>
     (\<forall>x. uSign L x = (if x = 0 then 0 else if unat x < 2 ^ 255 then 1 else - 1)) \<and>
     (\<forall>x y. uAdd L x y = x + y) \<and>
     (\<forall>x y. uSub L x y = x - y) \<and>
     (\<forall>x y. uMul L x y = x * y) \<and>
     (\<forall>x y. uMulOverflow L x y = (x * y, 2 ^ 256 \<le> unat x * unat y)) \<and>
     (\<forall>x y. uDiv L x y = x div y) \<and>
     (\<forall>x y. uMod L x y = (if y = 0 then 0 else x mod y)) \<and>
     (\<forall>x n. uLsh L x n = push_bit n x) \<and>
     (\<forall>x n. uRsh L x n = drop_bit n x) \<and>
     uClear L = 0 \<and>
     (\<forall>x y. uCmp L x y = (if x < y then - 1 else if x = y then 0 else 1)) \<and>
     (\<forall>x y. uEq L x y = (x = y)) \<and>
     (\<forall>x. uIsZero L x = (x = 0)) \<and>
     (\<forall>x n. uLtUint64 L x n = (unat x < unat n)) \<and>
     (\<forall>x. uUint64 L x = ucast x) \<and>
     (\<forall>x. uIsUint64 L x = (unat x < 2 ^ 64)) \<and>
     (\<forall>x. uUint64WithOverflow L x = (ucast x, 2 ^ 64 \<le> unat x))"

text \<open>The digests have the documented sizes.\<close>

definition hash_ok :: "lib \<Rightarrow> bool" where
  "hash_ok L \<longleftrightarrow> (\<forall>x. length (sha256 L x) = 32) \<and> (\<forall>x. length (sha3_256 L x) = 32) \<and>
                 (\<forall>x. length (ripemd160 L x) = 20)"

section \<open>Errors, outcomes and the machine state\<close>

text \<open>
  \<open>ErrOverflow\<close> is the error of package \<^verbatim>\<open>checked\<close>, \<open>ErrMissingEntry\<close> the one of package
  \<^verbatim>\<open>bc\<close> that the output-checking callback may return.
\<close>

datatype vmerr = ErrAltStackUnderflow | ErrBadValue | ErrContext | ErrDataStackUnderflow
  | ErrDisallowedOpcode | ErrDivZero | ErrFalseVMResult | ErrLongProgram | ErrRange | ErrReturn
  | ErrRunLimitExceeded | ErrShortProgram | ErrToken | ErrUnexpected | ErrUnsupportedVM
  | ErrVerifyFailed | ErrOverflow | ErrMissingEntry

text \<open>
  \<open>Panic\<close> is a run-time panic, which unwinds through nested machines up to \<^verbatim>\<open>Verify\<close>;
  \<open>NoFuel\<close> marks a run that was cut off by the step bound of the model.
\<close>

datatype 'a outcome = Ret 'a | Fail vmerr | Panic | NoFuel

text \<open>
  The execution context. A pointer that may be nil is an option. \<open>TxSigHash\<close> is a memoised
  closure in the source: every call returns the same slice, which is the field here. The
  callback reads the memory; it receives the contents of its slice arguments, with \<open>None\<close> for a nil state, and
  returns \<open>None\<close> when it panics.
\<close>

record Context =
  VMVersion :: u64
  Code :: slice
  StateData :: "slice list"
  Arguments :: "slice list"
  EntryID :: slice
  TxVersion :: "u64 option"
  BlockHeight :: "u64 option"
  NumResults :: "u64 option"
  AssetID :: "slice option"
  Amount :: "u64 option"
  DestPos :: "u64 option"
  SpentOutputID :: "slice option"
  TxSigHash :: "slice option"
  CheckOutput :: "(store \<Rightarrow> u64 \<Rightarrow> u64 \<Rightarrow> bytes \<Rightarrow> u64 \<Rightarrow> bytes \<Rightarrow> bytes list option \<Rightarrow> bool \<Rightarrow> (vmerr + bool) option) option"

text \<open>
  The machine. The stacks are kept in the order of the source, the top element last. The
  store is the memory the slices point into; array 0 backs the package variable
  \<^verbatim>\<open>trueBytes\<close>. \<open>altStackNil\<close> says that the slice \<^verbatim>\<open>altStack\<close> is still nil.
\<close>

record virtualMachine =
  vcontext :: Context
  program :: slice
  pc :: u32
  nextPC :: u32
  runLimit :: int
  deferredCost :: int
  expansionReserved :: bool
  data :: bytes
  depth :: int
  dataStack :: "slice list"
  altStack :: "slice list"
  altStackNil :: bool
  heap :: store

type_synonym 'a vmop = "virtualMachine \<Rightarrow> 'a outcome \<times> virtualMachine"

definition vret :: "'a \<Rightarrow> 'a vmop" where
  [vm_defs]: "vret x s = (Ret x, s)"

definition vfail :: "vmerr \<Rightarrow> 'a vmop" where
  [vm_defs]: "vfail e s = (Fail e, s)"

definition vpanic :: "'a vmop" where
  [vm_defs]: "vpanic s = (Panic, s)"

definition vget :: "(virtualMachine \<Rightarrow> 'a) \<Rightarrow> 'a vmop" where
  [vm_defs]: "vget f s = (Ret (f s), s)"

definition vmodify :: "(virtualMachine \<Rightarrow> virtualMachine) \<Rightarrow> unit vmop" where
  [vm_defs]: "vmodify f s = (Ret (), f s)"

definition vbind :: "'a vmop \<Rightarrow> ('a \<Rightarrow> 'b vmop) \<Rightarrow> 'b vmop" where
  "vbind m f s =
     (case m s of
        (Ret x, s') \<Rightarrow> f x s'
      | (Fail e, s') \<Rightarrow> (Fail e, s')
      | (Panic, s') \<Rightarrow> (Panic, s')
      | (NoFuel, s') \<Rightarrow> (NoFuel, s'))"

abbreviation vseq :: "unit vmop \<Rightarrow> 'b vmop \<Rightarrow> 'b vmop" where
  "vseq m f \<equiv> vbind m (\<lambda>_. f)"

section \<open>Conversions of types.go\<close>

abbreviation trueBytes :: slice where
  "trueBytes \<equiv> \<lparr>s_arr = 0, s_off = 0, s_len = 1, s_cap = 1\<rparr>"

text \<open>A freshly allocated byte string becomes a slice of the machine's store.\<close>

definition vnew :: "bytes \<Rightarrow> slice vmop" where
  [vm_defs]: "vnew bs s = (Ret (snd (alloc (heap s) bs)), s\<lparr>heap := fst (alloc (heap s) bs)\<rparr>)"

definition BoolBytes :: "bool \<Rightarrow> slice vmop" where
  [vm_defs]: "BoolBytes b = (if b then vret trueBytes else vnew [])"

definition AsBool :: "bytes \<Rightarrow> bool" where
  "AsBool bs = list_ex (\<lambda>b. b \<noteq> 0) bs"

function reverse_loop :: "bytes \<Rightarrow> int \<Rightarrow> int \<Rightarrow> bytes" where
  "reverse_loop r i j =
     (if i < j then reverse_loop (r[nat i := r ! nat j, nat j := r ! nat i]) (i + 1) (j - 1) else r)"
  by pat_completeness auto
termination
  by (relation "measure (\<lambda>(r, i, j). nat (j - i))") auto

declare reverse_loop.simps [simp del]

definition reverse :: "bytes \<Rightarrow> bytes" where
  "reverse b = reverse_loop b 0 (int (length b) - 1)"

definition BigIntBytes :: "lib \<Rightarrow> u256 \<Rightarrow> bytes" where
  "BigIntBytes L n = reverse (uBytes L n)"

definition Uint64Bytes :: "lib \<Rightarrow> u64 \<Rightarrow> bytes" where
  "Uint64Bytes L n = BigIntBytes L (uNewInt L n)"

definition AsBigInt :: "lib \<Rightarrow> bytes \<Rightarrow> vmerr + u256" where
  "AsBigInt L b =
     (if length b > 32 then Inl ErrBadValue
      else let res = uSetBytes L (reverse b) in
           if uSign L res < 0 then Inl ErrRange else Inr res)"

text \<open>The conversion \<^verbatim>\<open>int64(n.Uint64())\<close> reinterprets the 64 bits.\<close>

definition int64_of :: "u64 \<Rightarrow> int" where
  "int64_of n = i64 (uint n)"

definition bigIntInt64 :: "lib \<Rightarrow> u256 \<Rightarrow> vmerr + int" where
  "bigIntInt64 L n =
     (if \<not> uIsUint64 L n then Inl ErrBadValue
      else let i = int64_of (uUint64 L n) in
           if i < 0 then Inl ErrBadValue else Inr i)"

definition vlift :: "vmerr + 'a \<Rightarrow> 'a vmop" where
  [vm_defs]: "vlift r s = (case r of Inl e \<Rightarrow> (Fail e, s) | Inr x \<Rightarrow> (Ret x, s))"

section \<open>Gas and stack primitives of vm.go\<close>

definition applyCost :: "int \<Rightarrow> unit vmop" where
  [vm_defs]: "applyCost n s =
     (if n > runLimit s then (Fail ErrRunLimitExceeded, s\<lparr>runLimit := 0\<rparr>)
      else (Ret (), s\<lparr>runLimit := i64 (runLimit s - n)\<rparr>))"

definition deferCost :: "int \<Rightarrow> unit vmop" where
  [vm_defs]: "deferCost n s = (Ret (), s\<lparr>deferredCost := i64 (deferredCost s + n)\<rparr>)"

definition itemCost :: "slice \<Rightarrow> int" where
  "itemCost x = i64 (8 + int (s_len x))"

definition pushDataStack :: "slice \<Rightarrow> bool \<Rightarrow> unit vmop" where
  [vm_defs]: "pushDataStack d deferred =
     vseq (if deferred then deferCost (itemCost d) else applyCost (itemCost d))
       (vmodify (\<lambda>s. s\<lparr>dataStack := dataStack s @ [d]\<rparr>))"

definition pushAltStack :: "slice \<Rightarrow> bool \<Rightarrow> unit vmop" where
  [vm_defs]: "pushAltStack d deferred =
     vseq (if deferred then deferCost (itemCost d) else applyCost (itemCost d))
       (vmodify (\<lambda>s. s\<lparr>altStack := altStack s @ [d], altStackNil := False\<rparr>))"

definition pushBool :: "bool \<Rightarrow> bool \<Rightarrow> unit vmop" where
  [vm_defs]: "pushBool b deferred = vbind (BoolBytes b) (\<lambda>d. pushDataStack d deferred)"

definition pushBytes :: "bytes \<Rightarrow> bool \<Rightarrow> unit vmop" where
  [vm_defs]: "pushBytes bs deferred = vbind (vnew bs) (\<lambda>d. pushDataStack d deferred)"

definition pushBigInt :: "lib \<Rightarrow> u256 \<Rightarrow> bool \<Rightarrow> unit vmop" where
  [vm_defs]: "pushBigInt L n deferred = pushBytes (BigIntBytes L n) deferred"

definition pop :: "bool \<Rightarrow> slice vmop" where
  [vm_defs]: "pop deferred s =
     (if dataStack s = [] then (Fail ErrDataStackUnderflow, s)
      else let res = last (dataStack s);
               s1 = s\<lparr>dataStack := butlast (dataStack s)\<rparr>;
               cost = itemCost res in
           (Ret res, if deferred then s1\<lparr>deferredCost := i64 (deferredCost s1 + i64 (- cost))\<rparr>
                     else s1\<lparr>runLimit := i64 (runLimit s1 + cost)\<rparr>))"

definition read :: "slice \<Rightarrow> bytes vmop" where
  [vm_defs]: "read x = vget (\<lambda>s. slice_bytes (heap s) x)"

definition popBytes :: "bool \<Rightarrow> bytes vmop" where
  [vm_defs]: "popBytes deferred = vbind (pop deferred) read"

definition popBigInt :: "lib \<Rightarrow> bool \<Rightarrow> u256 vmop" where
  [vm_defs]: "popBigInt L deferred = vbind (popBytes deferred) (\<lambda>bs. vlift (AsBigInt L bs))"

definition top_item :: "slice vmop" where
  [vm_defs]: "top_item s = (if dataStack s = [] then (Fail ErrDataStackUnderflow, s) else (Ret (last (dataStack s)), s))"

definition stackCost :: "slice list \<Rightarrow> int" where
  "stackCost st = foldl (\<lambda>result item. i64 (result + int (s_len item))) (i64 (8 * int (length st))) st"

definition falseResult :: "virtualMachine \<Rightarrow> bool" where
  "falseResult s \<longleftrightarrow> dataStack s = [] \<or> \<not> AsBool (slice_bytes (heap s) (last (dataStack s)))"

section \<open>Laws of the conversions\<close>

lemma vbind_Ret [simp]: "m s = (Ret x, s') \<Longrightarrow> vbind m f s = f x s'"
  by (simp add: vbind_def)

lemma vbind_Fail [simp]: "m s = (Fail e, s') \<Longrightarrow> vbind m f s = (Fail e, s')"
  by (simp add: vbind_def)

lemma vbind_Panic [simp]: "m s = (Panic, s') \<Longrightarrow> vbind m f s = (Panic, s')"
  by (simp add: vbind_def)

lemma vbind_RetE:
  assumes "vbind m f s = (Ret y, s'')"
  obtains x s' where "m s = (Ret x, s')" "f x s' = (Ret y, s'')"
  using assms by (auto simp: vbind_def split: prod.splits outcome.splits)

lemma reverse_loop_window:
  assumes "length pre = nat i" "0 \<le> i" "j + 1 = i + int (length mid)"
  shows "reverse_loop (pre @ mid @ post) i j = pre @ rev mid @ post"
  using assms
proof (induction "length mid" arbitrary: pre mid post i j rule: less_induct)
  case less
  show ?case
  proof (cases "i < j")
    case False
    with less.prems have "length mid \<le> 1" by linarith
    then have "rev mid = mid" by (cases mid) auto
    with False show ?thesis by (simp add: reverse_loop.simps [of _ i j])
  next
    case True
    with less.prems have "2 \<le> length mid" by linarith
    then obtain x m where "mid = x # m" "m \<noteq> []" by (cases mid; cases "tl mid") auto
    then obtain z ms where mid: "mid = x # ms @ [z]" by (metis rev_exhaust)
    have j: "nat j = length pre + 1 + length ms" and i: "nat i = length pre"
      using less.prems mid by auto
    let ?r = "pre @ mid @ post"
    have "?r[nat i := ?r ! nat j, nat j := ?r ! nat i] = (pre @ [z]) @ ms @ ([x] @ post)"
      unfolding i j mid by (simp add: nth_append list_update_append)
    moreover have "reverse_loop ((pre @ [z]) @ ms @ ([x] @ post)) (i + 1) (j - 1) = (pre @ [z]) @ rev ms @ ([x] @ post)"
      using less.prems mid i by (intro less.hyps) auto
    ultimately show ?thesis
      using True mid reverse_loop.simps [of ?r i j] by simp
  qed
qed

lemma reverse_eq_rev [simp]: "reverse b = rev b"
  using reverse_loop_window [of "[]" 0 "int (length b) - 1" b "[]"] by (simp add: reverse_def)

lemma nat_of_be_snoc: "nat_of_be (bs @ [b]) = nat_of_be bs * 256 + unat b"
  by (simp add: nat_of_be_def)

lemma nat_of_be_Nil [simp]: "nat_of_be [] = 0"
  by (simp add: nat_of_be_def)

lemma unat_byte_mod: "unat (of_nat (n mod 256) :: byte) = n mod 256"
  by (simp add: unat_of_nat)

lemma nat_of_be_of_nat [simp]: "nat_of_be (be_of_nat n) = n"
proof (induction n rule: be_of_nat.induct)
  case (1 n)
  then show ?case
    by (cases "n = 0") (simp_all add: be_of_nat.simps [of n] nat_of_be_snoc unat_byte_mod)
qed

lemma length_be_of_nat: "n < 256 ^ k \<Longrightarrow> length (be_of_nat n) \<le> k"
proof (induction n arbitrary: k rule: be_of_nat.induct)
  case (1 n)
  show ?case
  proof (cases "n = 0")
    case True
    then show ?thesis by (simp add: be_of_nat.simps)
  next
    case False
    with "1.prems" obtain k' where k: "k = Suc k'" by (cases k) auto
    with "1.prems" have "n div 256 < 256 ^ k'" by (simp add: less_mult_imp_div_less mult.commute)
    with False "1.IH" show ?thesis by (simp add: be_of_nat.simps [of n] k)
  qed
qed

lemma nat_of_be_bound: "nat_of_be bs < 256 ^ length bs"
proof (induction bs rule: rev_induct)
  case (snoc b bs)
  have "unat b < 256"
    using unsigned_less [of b, where ?'a = nat] by simp
  with snoc have "nat_of_be bs * 256 + unat b < (nat_of_be bs + 1) * 256" by simp
  also have "\<dots> \<le> 256 ^ length bs * 256"
    using snoc by (intro mult_right_mono) simp_all
  finally show ?case by (simp add: nat_of_be_snoc mult.commute)
qed simp

lemma u256_length_bytes: "u256_ok L \<Longrightarrow> length (uBytes L x) \<le> 32"
  using unsigned_less [of x, where ?'a = nat] length_be_of_nat [of "unat x" 32]
  by (simp add: u256_ok_def)

lemma length_BigIntBytes: "u256_ok L \<Longrightarrow> length (BigIntBytes L x) \<le> 32"
  by (simp add: BigIntBytes_def u256_length_bytes)

text \<open>The numbers the machine computes with are those below \<open>2 ^ 255\<close>.\<close>

lemma AsBigInt_spec:
  assumes "u256_ok L"
  shows "AsBigInt L bs =
     (if length bs > 32 then Inl ErrBadValue
      else if 2 ^ 255 \<le> nat_of_be (rev bs) then Inl ErrRange
      else Inr (of_nat (nat_of_be (rev bs))))"
proof (cases "length bs > 32")
  case False
  have "nat_of_be (rev bs) < 256 ^ length bs"
    using nat_of_be_bound [of "rev bs"] by simp
  also have "\<dots> \<le> 256 ^ 32"
    using False by (intro power_increasing) simp_all
  finally have "nat_of_be (rev bs) < 2 ^ 256" by simp
  then have "unat (of_nat (nat_of_be (rev bs)) :: u256) = nat_of_be (rev bs)"
    by (simp add: unat_of_nat)
  moreover have "(of_nat (nat_of_be (rev bs)) :: u256) = 0 \<Longrightarrow> nat_of_be (rev bs) = 0"
    using calculation by (metis unsigned_0)
  ultimately show ?thesis
    using False assms by (auto simp: AsBigInt_def u256_ok_def Let_def)
qed (simp add: AsBigInt_def)

lemma AsBigInt_range:
  assumes "u256_ok L" "AsBigInt L bs = Inr x"
  shows "unat x < 2 ^ 255"
proof -
  from assms have "nat_of_be (rev bs) < 2 ^ 255" "x = of_nat (nat_of_be (rev bs))"
    by (auto simp: AsBigInt_spec split: if_splits)
  then show ?thesis by (simp add: unat_of_nat)
qed

lemma AsBigInt_BigIntBytes:
  assumes "u256_ok L" "unat x < 2 ^ 255"
  shows "AsBigInt L (BigIntBytes L x) = Inr x"
proof -
  have "rev (BigIntBytes L x) = be_of_nat (unat x)"
    using assms(1) by (simp add: BigIntBytes_def u256_ok_def)
  then show ?thesis
    using assms length_BigIntBytes [OF assms(1), of x] by (simp add: AsBigInt_spec)
qed

end
