(* ===== verification/VmCode.thy ===== *)
theory VmCode
  imports VmTypes
begin

text \<open>
  The instruction set and the program format of the virtual machine (\<^verbatim>\<open>ops.go\<close> and
  \<^verbatim>\<open>pushdata.go\<close>): opcodes, the opcode table after the package initialisation, the
  instruction parser, the program parser, and the encoders of data pushes, with the round
  trip between encoders and parser.
\<close>

section \<open>Opcodes\<close>

text \<open>The pushes of one to 75 bytes are the opcodes 1 to 75, the small constants 1 to 16 follow \<open>0x50\<close>.\<close>

definition OP_DATA :: "nat \<Rightarrow> byte" where
  "OP_DATA n = of_nat n"

definition OP_NUM :: "nat \<Rightarrow> byte" where
  "OP_NUM n = 0x50 + of_nat n"

abbreviation (input) OP_FALSE :: byte where
  "OP_FALSE \<equiv> 0x00"

abbreviation (input) OP_0 :: byte where
  "OP_0 \<equiv> 0x00"

abbreviation (input) OP_1 :: byte where
  "OP_1 \<equiv> 0x51"

abbreviation (input) OP_TRUE :: byte where
  "OP_TRUE \<equiv> 0x51"

abbreviation (input) OP_16 :: byte where
  "OP_16 \<equiv> 0x60"

abbreviation (input) OP_DATA_1 :: byte where
  "OP_DATA_1 \<equiv> 0x01"

abbreviation (input) OP_DATA_4 :: byte where
  "OP_DATA_4 \<equiv> 0x04"

abbreviation (input) OP_DATA_20 :: byte where
  "OP_DATA_20 \<equiv> 0x14"

abbreviation (input) OP_DATA_32 :: byte where
  "OP_DATA_32 \<equiv> 0x20"

abbreviation (input) OP_DATA_75 :: byte where
  "OP_DATA_75 \<equiv> 0x4b"

abbreviation (input) OP_PUSHDATA1 :: byte where
  "OP_PUSHDATA1 \<equiv> 0x4c"

abbreviation (input) OP_PUSHDATA2 :: byte where
  "OP_PUSHDATA2 \<equiv> 0x4d"

abbreviation (input) OP_PUSHDATA4 :: byte where
  "OP_PUSHDATA4 \<equiv> 0x4e"

abbreviation (input) OP_NOP :: byte where
  "OP_NOP \<equiv> 0x61"

abbreviation (input) OP_JUMP :: byte where
  "OP_JUMP \<equiv> 0x63"

abbreviation (input) OP_JUMPIF :: byte where
  "OP_JUMPIF \<equiv> 0x64"

abbreviation (input) OP_VERIFY :: byte where
  "OP_VERIFY \<equiv> 0x69"

abbreviation (input) OP_FAIL :: byte where
  "OP_FAIL \<equiv> 0x6a"

abbreviation (input) OP_CHECKPREDICATE :: byte where
  "OP_CHECKPREDICATE \<equiv> 0xc0"

abbreviation (input) OP_TOALTSTACK :: byte where
  "OP_TOALTSTACK \<equiv> 0x6b"

abbreviation (input) OP_FROMALTSTACK :: byte where
  "OP_FROMALTSTACK \<equiv> 0x6c"

abbreviation (input) OP_2DROP :: byte where
  "OP_2DROP \<equiv> 0x6d"

abbreviation (input) OP_2DUP :: byte where
  "OP_2DUP \<equiv> 0x6e"

abbreviation (input) OP_3DUP :: byte where
  "OP_3DUP \<equiv> 0x6f"

abbreviation (input) OP_2OVER :: byte where
  "OP_2OVER \<equiv> 0x70"

abbreviation (input) OP_2ROT :: byte where
  "OP_2ROT \<equiv> 0x71"

abbreviation (input) OP_2SWAP :: byte where
  "OP_2SWAP \<equiv> 0x72"

abbreviation (input) OP_IFDUP :: byte where
  "OP_IFDUP \<equiv> 0x73"

abbreviation (input) OP_DEPTH :: byte where
  "OP_DEPTH \<equiv> 0x74"

abbreviation (input) OP_DROP :: byte where
  "OP_DROP \<equiv> 0x75"

abbreviation (input) OP_DUP :: byte where
  "OP_DUP \<equiv> 0x76"

abbreviation (input) OP_NIP :: byte where
  "OP_NIP \<equiv> 0x77"

abbreviation (input) OP_OVER :: byte where
  "OP_OVER \<equiv> 0x78"

abbreviation (input) OP_PICK :: byte where
  "OP_PICK \<equiv> 0x79"

abbreviation (input) OP_ROLL :: byte where
  "OP_ROLL \<equiv> 0x7a"

abbreviation (input) OP_ROT :: byte where
  "OP_ROT \<equiv> 0x7b"

abbreviation (input) OP_SWAP :: byte where
  "OP_SWAP \<equiv> 0x7c"

abbreviation (input) OP_TUCK :: byte where
  "OP_TUCK \<equiv> 0x7d"

abbreviation (input) OP_CAT :: byte where
  "OP_CAT \<equiv> 0x7e"

abbreviation (input) OP_SUBSTR :: byte where
  "OP_SUBSTR \<equiv> 0x7f"

abbreviation (input) OP_LEFT :: byte where
  "OP_LEFT \<equiv> 0x80"

abbreviation (input) OP_RIGHT :: byte where
  "OP_RIGHT \<equiv> 0x81"

abbreviation (input) OP_SIZE :: byte where
  "OP_SIZE \<equiv> 0x82"

abbreviation (input) OP_CATPUSHDATA :: byte where
  "OP_CATPUSHDATA \<equiv> 0x89"

abbreviation (input) OP_INVERT :: byte where
  "OP_INVERT \<equiv> 0x83"

abbreviation (input) OP_AND :: byte where
  "OP_AND \<equiv> 0x84"

abbreviation (input) OP_OR :: byte where
  "OP_OR \<equiv> 0x85"

abbreviation (input) OP_XOR :: byte where
  "OP_XOR \<equiv> 0x86"

abbreviation (input) OP_EQUAL :: byte where
  "OP_EQUAL \<equiv> 0x87"

abbreviation (input) OP_EQUALVERIFY :: byte where
  "OP_EQUALVERIFY \<equiv> 0x88"

abbreviation (input) OP_1ADD :: byte where
  "OP_1ADD \<equiv> 0x8b"

abbreviation (input) OP_1SUB :: byte where
  "OP_1SUB \<equiv> 0x8c"

abbreviation (input) OP_2MUL :: byte where
  "OP_2MUL \<equiv> 0x8d"

abbreviation (input) OP_2DIV :: byte where
  "OP_2DIV \<equiv> 0x8e"

abbreviation (input) OP_NOT :: byte where
  "OP_NOT \<equiv> 0x91"

abbreviation (input) OP_0NOTEQUAL :: byte where
  "OP_0NOTEQUAL \<equiv> 0x92"

abbreviation (input) OP_ADD :: byte where
  "OP_ADD \<equiv> 0x93"

abbreviation (input) OP_SUB :: byte where
  "OP_SUB \<equiv> 0x94"

abbreviation (input) OP_MUL :: byte where
  "OP_MUL \<equiv> 0x95"

abbreviation (input) OP_DIV :: byte where
  "OP_DIV \<equiv> 0x96"

abbreviation (input) OP_MOD :: byte where
  "OP_MOD \<equiv> 0x97"

abbreviation (input) OP_LSHIFT :: byte where
  "OP_LSHIFT \<equiv> 0x98"

abbreviation (input) OP_RSHIFT :: byte where
  "OP_RSHIFT \<equiv> 0x99"

abbreviation (input) OP_BOOLAND :: byte where
  "OP_BOOLAND \<equiv> 0x9a"

abbreviation (input) OP_BOOLOR :: byte where
  "OP_BOOLOR \<equiv> 0x9b"

abbreviation (input) OP_NUMEQUAL :: byte where
  "OP_NUMEQUAL \<equiv> 0x9c"

abbreviation (input) OP_NUMEQUALVERIFY :: byte where
  "OP_NUMEQUALVERIFY \<equiv> 0x9d"

abbreviation (input) OP_NUMNOTEQUAL :: byte where
  "OP_NUMNOTEQUAL \<equiv> 0x9e"

abbreviation (input) OP_LESSTHAN :: byte where
  "OP_LESSTHAN \<equiv> 0x9f"

abbreviation (input) OP_GREATERTHAN :: byte where
  "OP_GREATERTHAN \<equiv> 0xa0"

abbreviation (input) OP_LESSTHANOREQUAL :: byte where
  "OP_LESSTHANOREQUAL \<equiv> 0xa1"

abbreviation (input) OP_GREATERTHANOREQUAL :: byte where
  "OP_GREATERTHANOREQUAL \<equiv> 0xa2"

abbreviation (input) OP_MIN :: byte where
  "OP_MIN \<equiv> 0xa3"

abbreviation (input) OP_MAX :: byte where
  "OP_MAX \<equiv> 0xa4"

abbreviation (input) OP_WITHIN :: byte where
  "OP_WITHIN \<equiv> 0xa5"

abbreviation (input) OP_SHA256 :: byte where
  "OP_SHA256 \<equiv> 0xa8"

abbreviation (input) OP_SHA3 :: byte where
  "OP_SHA3 \<equiv> 0xaa"

abbreviation (input) OP_HASH160 :: byte where
  "OP_HASH160 \<equiv> 0xab"

abbreviation (input) OP_CHECKSIG :: byte where
  "OP_CHECKSIG \<equiv> 0xac"

abbreviation (input) OP_CHECKMULTISIG :: byte where
  "OP_CHECKMULTISIG \<equiv> 0xad"

abbreviation (input) OP_TXSIGHASH :: byte where
  "OP_TXSIGHASH \<equiv> 0xae"

abbreviation (input) OP_CHECKOUTPUT :: byte where
  "OP_CHECKOUTPUT \<equiv> 0xc1"

abbreviation (input) OP_ASSET :: byte where
  "OP_ASSET \<equiv> 0xc2"

abbreviation (input) OP_AMOUNT :: byte where
  "OP_AMOUNT \<equiv> 0xc3"

abbreviation (input) OP_PROGRAM :: byte where
  "OP_PROGRAM \<equiv> 0xc4"


abbreviation (input) OP_INDEX :: byte where
  "OP_INDEX \<equiv> 0xc9"

abbreviation (input) OP_ENTRYID :: byte where
  "OP_ENTRYID \<equiv> 0xca"

abbreviation (input) OP_OUTPUTID :: byte where
  "OP_OUTPUTID \<equiv> 0xcb"

abbreviation (input) OP_BLOCKHEIGHT :: byte where
  "OP_BLOCKHEIGHT \<equiv> 0xcd"

section \<open>The opcode table\<close>

text \<open>One constructor per implementing function, so that entries can be compared like function pointers.\<close>

datatype (plugins only: size) opfn = Fn_opFalse | Fn_opPushdata | Fn_opNop | Fn_opJump | Fn_opJumpIf
  | Fn_opVerify | Fn_opFail | Fn_opToAltStack | Fn_opFromAltStack | Fn_op2Drop
  | Fn_op2Dup | Fn_op3Dup | Fn_op2Over | Fn_op2Rot | Fn_op2Swap
  | Fn_opIfDup | Fn_opDepth | Fn_opDrop | Fn_opDup | Fn_opNip
  | Fn_opOver | Fn_opPick | Fn_opRoll | Fn_opRot | Fn_opSwap
  | Fn_opTuck | Fn_opCat | Fn_opSubstr | Fn_opLeft | Fn_opRight
  | Fn_opSize | Fn_opCatpushdata | Fn_opInvert | Fn_opAnd | Fn_opOr
  | Fn_opXor | Fn_opEqual | Fn_opEqualVerify | Fn_op1Add | Fn_op1Sub
  | Fn_op2Mul | Fn_op2Div | Fn_opNot | Fn_op0NotEqual | Fn_opAdd
  | Fn_opSub | Fn_opMul | Fn_opDiv | Fn_opMod | Fn_opLshift
  | Fn_opRshift | Fn_opBoolAnd | Fn_opBoolOr | Fn_opNumEqual | Fn_opNumEqualVerify
  | Fn_opNumNotEqual | Fn_opLessThan | Fn_opGreaterThan | Fn_opLessThanOrEqual | Fn_opGreaterThanOrEqual
  | Fn_opMin | Fn_opMax | Fn_opWithin | Fn_opSha256 | Fn_opSha3
  | Fn_opHash160 | Fn_opCheckSig | Fn_opCheckMultiSig | Fn_opTxSigHash | Fn_opCheckOutput
  | Fn_opAsset | Fn_opAmount | Fn_opProgram | Fn_opIndex | Fn_opEntryID
  | Fn_opOutputID | Fn_opBlockHeight | Fn_opCheckPredicate

record opInfo =
  op_code :: byte
  op_name :: string
  op_fn :: opfn

text \<open>The entries of the array literal \<^verbatim>\<open>ops\<close>.\<close>

definition ops_table :: "(byte \<times> string \<times> opfn) list" where
  "ops_table =
     [(OP_FALSE, ''FALSE'', Fn_opFalse),
      (OP_PUSHDATA1, ''PUSHDATA1'', Fn_opPushdata),
      (OP_PUSHDATA2, ''PUSHDATA2'', Fn_opPushdata),
      (OP_PUSHDATA4, ''PUSHDATA4'', Fn_opPushdata),
      (OP_NOP, ''NOP'', Fn_opNop),
      (OP_JUMP, ''JUMP'', Fn_opJump),
      (OP_JUMPIF, ''JUMPIF'', Fn_opJumpIf),
      (OP_VERIFY, ''VERIFY'', Fn_opVerify),
      (OP_FAIL, ''FAIL'', Fn_opFail),
      (OP_TOALTSTACK, ''TOALTSTACK'', Fn_opToAltStack),
      (OP_FROMALTSTACK, ''FROMALTSTACK'', Fn_opFromAltStack),
      (OP_2DROP, ''2DROP'', Fn_op2Drop),
      (OP_2DUP, ''2DUP'', Fn_op2Dup),
      (OP_3DUP, ''3DUP'', Fn_op3Dup),
      (OP_2OVER, ''2OVER'', Fn_op2Over),
      (OP_2ROT, ''2ROT'', Fn_op2Rot),
      (OP_2SWAP, ''2SWAP'', Fn_op2Swap),
      (OP_IFDUP, ''IFDUP'', Fn_opIfDup),
      (OP_DEPTH, ''DEPTH'', Fn_opDepth),
      (OP_DROP, ''DROP'', Fn_opDrop),
      (OP_DUP, ''DUP'', Fn_opDup),
      (OP_NIP, ''NIP'', Fn_opNip),
      (OP_OVER, ''OVER'', Fn_opOver),
      (OP_PICK, ''PICK'', Fn_opPick),
      (OP_ROLL, ''ROLL'', Fn_opRoll),
      (OP_ROT, ''ROT'', Fn_opRot),
      (OP_SWAP, ''SWAP'', Fn_opSwap),
      (OP_TUCK, ''TUCK'', Fn_opTuck),
      (OP_CAT, ''CAT'', Fn_opCat),
      (OP_SUBSTR, ''SUBSTR'', Fn_opSubstr),
      (OP_LEFT, ''LEFT'', Fn_opLeft),
      (OP_RIGHT, ''RIGHT'', Fn_opRight),
      (OP_SIZE, ''SIZE'', Fn_opSize),
      (OP_CATPUSHDATA, ''CATPUSHDATA'', Fn_opCatpushdata),
      (OP_INVERT, ''INVERT'', Fn_opInvert),
      (OP_AND, ''AND'', Fn_opAnd),
      (OP_OR, ''OR'', Fn_opOr),
      (OP_XOR, ''XOR'', Fn_opXor),
      (OP_EQUAL, ''EQUAL'', Fn_opEqual),
      (OP_EQUALVERIFY, ''EQUALVERIFY'', Fn_opEqualVerify),
      (OP_1ADD, ''1ADD'', Fn_op1Add),
      (OP_1SUB, ''1SUB'', Fn_op1Sub),
      (OP_2MUL, ''2MUL'', Fn_op2Mul),
      (OP_2DIV, ''2DIV'', Fn_op2Div),
      (OP_NOT, ''NOT'', Fn_opNot),
      (OP_0NOTEQUAL, ''0NOTEQUAL'', Fn_op0NotEqual),
      (OP_ADD, ''ADD'', Fn_opAdd),
      (OP_SUB, ''SUB'', Fn_opSub),
      (OP_MUL, ''MUL'', Fn_opMul),
      (OP_DIV, ''DIV'', Fn_opDiv),
      (OP_MOD, ''MOD'', Fn_opMod),
      (OP_LSHIFT, ''LSHIFT'', Fn_opLshift),
      (OP_RSHIFT, ''RSHIFT'', Fn_opRshift),
      (OP_BOOLAND, ''BOOLAND'', Fn_opBoolAnd),
      (OP_BOOLOR, ''BOOLOR'', Fn_opBoolOr),
      (OP_NUMEQUAL, ''NUMEQUAL'', Fn_opNumEqual),
      (OP_NUMEQUALVERIFY, ''NUMEQUALVERIFY'', Fn_opNumEqualVerify),
      (OP_NUMNOTEQUAL, ''NUMNOTEQUAL'', Fn_opNumNotEqual),
      (OP_LESSTHAN, ''LESSTHAN'', Fn_opLessThan),
      (OP_GREATERTHAN, ''GREATERTHAN'', Fn_opGreaterThan),
      (OP_LESSTHANOREQUAL, ''LESSTHANOREQUAL'', Fn_opLessThanOrEqual),
      (OP_GREATERTHANOREQUAL, ''GREATERTHANOREQUAL'', Fn_opGreaterThanOrEqual),
      (OP_MIN, ''MIN'', Fn_opMin),
      (OP_MAX, ''MAX'', Fn_opMax),
      (OP_WITHIN, ''WITHIN'', Fn_opWithin),
      (OP_SHA256, ''SHA256'', Fn_opSha256),
      (OP_SHA3, ''SHA3'', Fn_opSha3),
      (OP_HASH160, ''HASH160'', Fn_opHash160),
      (OP_CHECKSIG, ''CHECKSIG'', Fn_opCheckSig),
      (OP_CHECKMULTISIG, ''CHECKMULTISIG'', Fn_opCheckMultiSig),
      (OP_TXSIGHASH, ''TXSIGHASH'', Fn_opTxSigHash),
      (OP_CHECKOUTPUT, ''CHECKOUTPUT'', Fn_opCheckOutput),
      (OP_ASSET, ''ASSET'', Fn_opAsset),
      (OP_AMOUNT, ''AMOUNT'', Fn_opAmount),
      (OP_PROGRAM, ''PROGRAM'', Fn_opProgram),
      (OP_INDEX, ''INDEX'', Fn_opIndex),
      (OP_ENTRYID, ''ENTRYID'', Fn_opEntryID),
      (OP_OUTPUTID, ''OUTPUTID'', Fn_opOutputID),
      (OP_BLOCKHEIGHT, ''BLOCKHEIGHT'', Fn_opBlockHeight)]"

definition hex_digit :: "nat \<Rightarrow> char" where
  "hex_digit n = ''0123456789abcdef'' ! n"

fun show_nat :: "nat \<Rightarrow> string" where
  "show_nat n = (if n < 10 then [''0123456789'' ! n] else show_nat (n div 10) @ [''0123456789'' ! (n mod 10)])"

declare show_nat.simps [simp del]

text \<open>
  The array \<^verbatim>\<open>ops\<close> and the table \<^verbatim>\<open>isExpansion\<close> after \<^verbatim>\<open>init\<close>: data pushes and small
  constants are filled in, \<^verbatim>\<open>CHECKPREDICATE\<close> is added, and every opcode still without a
  name becomes an expansion opcode that does nothing.
\<close>

definition named_op :: "byte \<Rightarrow> (string \<times> opfn) option" where
  "named_op b =
     (if 1 \<le> b \<and> b \<le> 75 then Some (''DATA_'' @ show_nat (unat b), Fn_opPushdata)
      else if OP_1 \<le> b \<and> b \<le> OP_1 + 15 then Some (show_nat (unat (b - OP_1) + 1), Fn_opPushdata)
      else if b = OP_CHECKPREDICATE then Some (''CHECKPREDICATE'', Fn_opCheckPredicate)
      else map_of ops_table b)"

definition ops :: "byte \<Rightarrow> opInfo" where
  "ops b =
     (case named_op b of
        Some (nm, fn) \<Rightarrow> \<lparr>op_code = b, op_name = nm, op_fn = fn\<rparr>
      | None \<Rightarrow> \<lparr>op_code = b,
                  op_name = ''NOPx'' @ [hex_digit (unat b div 16), hex_digit (unat b mod 16)],
                  op_fn = Fn_opNop\<rparr>)"

definition isExpansion :: "byte \<Rightarrow> bool" where
  "isExpansion b \<longleftrightarrow> named_op b = None"

section \<open>Parsing\<close>

record Instruction =
  Op :: byte
  Len :: u32
  Data :: bytes

text \<open>\<^verbatim>\<open>prog[i:j]\<close> and the little-endian readers and writers of \<^verbatim>\<open>encoding/binary\<close>.\<close>

definition window :: "bytes \<Rightarrow> nat \<Rightarrow> nat \<Rightarrow> bytes" where
  "window prog i j = take (j - i) (drop i prog)"

fun le_nat :: "bytes \<Rightarrow> nat" where
  "le_nat [] = 0"
| "le_nat (b # bs) = unat b + 256 * le_nat bs"

definition le_Uint16 :: "bytes \<Rightarrow> u32" where
  "le_Uint16 bs = of_nat (le_nat (take 2 bs))"

definition le_Uint32 :: "bytes \<Rightarrow> u32" where
  "le_Uint32 bs = of_nat (le_nat (take 4 bs))"

fun le_put :: "nat \<Rightarrow> nat \<Rightarrow> bytes" where
  "le_put 0 n = []"
| "le_put (Suc k) n = of_nat (n mod 256) # le_put k (n div 256)"

text \<open>
  The common end of the branches of \<^verbatim>\<open>ParseOp\<close>: the instruction of length \<open>len\<close> must
  end inside the program, and its data start \<open>skip\<close> bytes after the opcode.
\<close>

definition parse_data :: "bytes \<Rightarrow> u32 \<Rightarrow> u32 \<Rightarrow> byte \<Rightarrow> u32 \<Rightarrow> u32 \<Rightarrow> vmerr + Instruction" where
  "parse_data prog pc0 l opcode skip len =
     (case AddUint32 pc0 len of (end, ok) \<Rightarrow>
        if \<not> ok then Inl ErrOverflow
        else if end > l then Inl ErrShortProgram
        else Inr \<lparr>Op = opcode, Len = len, Data = window prog (unat (pc0 + skip)) (unat end)\<rparr>)"

definition ParseOp :: "bytes \<Rightarrow> u32 \<Rightarrow> vmerr + Instruction" where
  "ParseOp prog pc0 =
     (let l = of_nat (length prog) :: u32; opcode = prog ! unat pc0 in
      if l > 0x7fffffff then Inl ErrLongProgram
      else if pc0 \<ge> l then Inl ErrShortProgram
      else if opcode \<ge> OP_1 \<and> opcode \<le> OP_16
      then Inr \<lparr>Op = opcode, Len = 1, Data = [(opcode - OP_1) + 1]\<rparr>
      else if opcode \<ge> OP_DATA 1 \<and> opcode \<le> OP_DATA 75
      then parse_data prog pc0 l opcode 1 (1 + ucast (opcode - OP_DATA 1 + 1))
      else if opcode = OP_PUSHDATA1 then
        (if pc0 = l - 1 then Inl ErrShortProgram
         else parse_data prog pc0 l opcode 2 (1 + (ucast (prog ! unat (pc0 + 1)) + 1)))
      else if opcode = OP_PUSHDATA2 then
        (if length prog < 3 \<or> pc0 > l - 3 then Inl ErrShortProgram
         else parse_data prog pc0 l opcode 3
                (1 + (le_Uint16 (window prog (unat (pc0 + 1)) (unat (pc0 + 3))) + 2)))
      else if opcode = OP_PUSHDATA4 then
        (if length prog < 5 \<or> pc0 > l - 5 then Inl ErrShortProgram
         else case AddUint32 (1 + 4) (le_Uint32 (window prog (unat (pc0 + 1)) (unat (pc0 + 5)))) of
           (len, ok) \<Rightarrow> if \<not> ok then Inl ErrOverflow else parse_data prog pc0 l opcode 5 len)
      else if opcode = OP_JUMP \<or> opcode = OP_JUMPIF then parse_data prog pc0 l opcode 1 (1 + 4)
      else Inr \<lparr>Op = opcode, Len = 1, Data = []\<rparr>)"

definition PushDataBytes :: "bytes \<Rightarrow> bytes" where
  "PushDataBytes inp =
     (let l = length inp in
      if l = 0 then [OP_0]
      else if l \<le> 75 then (OP_DATA 1 + of_nat l - 1) # inp
      else if l < 2 ^ 8 then [OP_PUSHDATA1, of_nat l] @ inp
      else if l < 2 ^ 16 then [OP_PUSHDATA2] @ le_put 2 l @ inp
      else [OP_PUSHDATA4] @ le_put 4 l @ inp)"

definition PushDataUint64 :: "lib \<Rightarrow> u64 \<Rightarrow> bytes" where
  "PushDataUint64 L n =
     (if n = 0 then [OP_0]
      else if n \<ge> 1 \<and> n \<le> 16 then [OP_1 + ucast n - 1]
      else PushDataBytes (Uint64Bytes L n))"

definition IsPushdata :: "Instruction \<Rightarrow> bool" where
  "IsPushdata inst \<longleftrightarrow> op_fn (ops (Op inst)) = op_fn (ops OP_1) \<or> op_fn (ops (Op inst)) = op_fn (ops OP_0)"

section \<open>Facts about the parser\<close>

lemma AddUint32_ok:
  "AddUint32 a b = (r, True) \<Longrightarrow> unat r = unat a + unat b"
  by (simp add: uint32.add_ok_iff)

lemma AddUint32_of_nat:
  "a + b < 2 ^ 32 \<Longrightarrow> AddUint32 (of_nat a) (of_nat b) = (of_nat (a + b), True)"
  by (simp add: uint32.add_ok_iff unat_of_nat del: of_nat_add)

lemma byte_bound: "unat (b :: byte) < 256"
  using unsigned_less [of b, where ?'a = nat] by simp

lemma unat_ucast_byte [simp]: "unat (ucast (b :: byte) :: u32) = unat b"
  using byte_bound [of b] by (simp add: unsigned_ucast_eq take_bit_nat_eq_self)

lemma le_nat_bound: "le_nat bs < 256 ^ length bs"
proof (induction bs)
  case (Cons b bs)
  with byte_bound [of b] show ?case by (simp add: algebra_simps)
qed simp

lemma le_nat_take_bound: "le_nat (take k bs) < 256 ^ k"
proof -
  have "le_nat (take k bs) < 256 ^ length (take k bs)" by (rule le_nat_bound)
  also have "\<dots> \<le> 256 ^ k" by (intro power_increasing) simp_all
  finally show ?thesis .
qed

lemma unat_le_Uint16: "unat (le_Uint16 bs) = le_nat (take 2 bs)"
  using le_nat_take_bound [of 2 bs] by (simp add: le_Uint16_def unat_of_nat)

lemma unat_le_Uint32: "unat (le_Uint32 bs) = le_nat (take 4 bs)"
  using le_nat_take_bound [of 4 bs] by (simp add: le_Uint32_def unat_of_nat)

lemma unat_data_len:
  "unat (1 + ucast (b :: byte) :: u32) = 1 + unat b"
  "unat (1 + (ucast (b :: byte) + 1) :: u32) = 2 + unat b"
  "unat (1 + (le_Uint16 bs + 2) :: u32) = 3 + le_nat (take 2 bs)"
  using byte_bound [of b] le_nat_take_bound [of 2 bs]
  by (simp_all add: unat_word_ariths unat_le_Uint16)

text \<open>
  A parsed instruction is at least one byte long, ends inside the program and starts with
  the byte at its position.
\<close>

lemma parse_data_Inr:
  assumes "parse_data prog p l opcode skip len = Inr inst"
  shows "Op inst = opcode \<and> Len inst = len \<and> unat p + unat len \<le> unat l \<and>
         Data inst = window prog (unat (p + skip)) (unat p + unat len)"
  using assms by (auto simp: parse_data_def word_le_nat_alt not_less dest!: AddUint32_ok
      split: prod.splits if_splits)

lemma ParseOp_bounds:
  assumes "ParseOp prog p = Inr inst"
  shows "Op inst = prog ! unat p \<and> 1 \<le> unat (Len inst) \<and>
         unat p + unat (Len inst) \<le> unat (of_nat (length prog) :: u32)"
proof -
  define l where "l = (of_nat (length prog) :: u32)"
  have p: "unat p < unat l"
    using assms by (simp add: ParseOp_def Let_def l_def word_le_nat_alt split: if_splits)
  show ?thesis
    using assms p unfolding ParseOp_def l_def [symmetric] Let_def
    by (auto split: if_splits prod.splits dest!: parse_data_Inr AddUint32_ok
        simp: unat_data_len [simplified] simp del: One_nat_def)
qed

end
