(* ===== verification/VmParse.thy ===== *)
theory VmParse
  imports VmCode
begin

text \<open>
  The program parser and the round trip between the encoders of data pushes and the
  instruction parser.
\<close>

section \<open>Parsing whole programs\<close>

function parse_loop :: "bytes \<Rightarrow> u32 \<Rightarrow> Instruction list \<Rightarrow> vmerr + Instruction list" where
  "parse_loop prog pc0 result =
     (if pc0 < of_nat (length prog) then
        (case ParseOp prog pc0 of
           Inl e \<Rightarrow> Inl e
         | Inr inst \<Rightarrow>
             (case AddUint32 pc0 (Len inst) of (pc1, ok) \<Rightarrow>
                if \<not> ok then Inl ErrOverflow else parse_loop prog pc1 (result @ [inst])))
      else Inr result)"
  by pat_completeness auto
termination
proof (relation "measure (\<lambda>(prog, pc0, result). 2 ^ 32 - unat pc0)", simp_all)
  fix prog :: bytes and pc0 pc1 :: u32 and inst ok
  assume "ParseOp prog pc0 = Inr inst" and "(pc1, True) = AddUint32 pc0 (Len inst)"
  then have "unat pc0 < unat pc1"
    using ParseOp_bounds [of prog pc0 inst] AddUint32_ok [of pc0 "Len inst" pc1] by simp
  moreover have "unat pc1 < 4294967296"
    using unsigned_less [of pc1, where ?'a = nat] by simp
  ultimately show "4294967296 - unat pc1 < 4294967296 - unat pc0"
    by simp
qed

declare parse_loop.simps [simp del]

definition ParseProgram :: "bytes \<Rightarrow> vmerr + Instruction list" where
  "ParseProgram prog = parse_loop prog 0 []"

section \<open>Round trip of data pushes\<close>

lemma le_nat_le_put [simp]: "le_nat (le_put k n) = n mod 256 ^ k"
proof (induction k arbitrary: n)
  case (Suc k)
  show ?case
    by (simp add: Suc unat_byte_mod mod_mult2_eq mult.commute add.commute)
qed simp

lemma length_le_put [simp]: "length (le_put k n) = k"
  by (induction k arbitrary: n) auto

lemma window_append:
  "length pre = i \<Longrightarrow> j = i + length mid \<Longrightarrow> window (pre @ mid @ post) i j = mid"
  by (simp add: window_def)

lemma parse_data_ok:
  assumes "length prog < 2 ^ 32" "unat p + unat len \<le> length prog" "unat p + unat skip < 2 ^ 32"
  shows "parse_data prog p (of_nat (length prog)) opcode skip len =
         Inr \<lparr>Op = opcode, Len = len, Data = window prog (unat p + unat skip) (unat p + unat len)\<rparr>"
proof -
  have "AddUint32 p len = (p + len, True)"
    using assms by (simp add: uint32.add_ok_iff unat_word_ariths)
  then show ?thesis
    using assms by (simp add: parse_data_def word_le_nat_alt not_less unat_word_ariths unat_of_nat)
qed

lemma ParseOp_at:
  assumes "length prog \<le> 0x7fffffff" "p = of_nat i" "i < length prog" "prog ! i = opcode"
  shows "ParseOp prog p =
     (if opcode \<ge> OP_1 \<and> opcode \<le> OP_16
      then Inr \<lparr>Op = opcode, Len = 1, Data = [(opcode - OP_1) + 1]\<rparr>
      else if opcode \<ge> OP_DATA 1 \<and> opcode \<le> OP_DATA 75
      then parse_data prog p (of_nat (length prog)) opcode 1 (1 + ucast opcode)
      else if opcode = OP_PUSHDATA1 then
        (if Suc i = length prog then Inl ErrShortProgram
         else parse_data prog p (of_nat (length prog)) opcode 2 (2 + ucast (prog ! Suc i)))
      else if opcode = OP_PUSHDATA2 then
        (if length prog < i + 3 then Inl ErrShortProgram
         else parse_data prog p (of_nat (length prog)) opcode 3
                (3 + le_Uint16 (window prog (i + 1) (i + 3))))
      else if opcode = OP_PUSHDATA4 then
        (if length prog < i + 5 then Inl ErrShortProgram
         else case AddUint32 5 (le_Uint32 (window prog (i + 1) (i + 5))) of
           (len, ok) \<Rightarrow> if \<not> ok then Inl ErrOverflow else parse_data prog p (of_nat (length prog)) opcode 5 len)
      else if opcode = OP_JUMP \<or> opcode = OP_JUMPIF then parse_data prog p (of_nat (length prog)) opcode 1 5
      else Inr \<lparr>Op = opcode, Len = 1, Data = []\<rparr>)"
proof -
  have u: "unat p = i" "unat (of_nat (length prog) :: u32) = length prog"
    "unat (p + 1) = i + 1" "unat (p + 3) = i + 3" "unat (p + 5) = i + 5"
    using assms by (simp_all add: unat_word_ariths unat_of_nat)
  have l: "\<not> 0x7fffffff < (of_nat (length prog) :: u32)" "\<not> of_nat (length prog) \<le> p"
    using assms u by (simp_all add: word_less_nat_alt word_le_nat_alt)
  have sub: "unat (of_nat (length prog) - of_nat k :: u32) = length prog - k" if "k \<le> length prog" for k
    using that assms(1) by (simp add: unat_of_nat flip: of_nat_diff)
  have e1: "p = of_nat (length prog) - 1 \<longleftrightarrow> Suc i = length prog"
    using assms(3) u sub [of 1] by (auto simp: word_unat_eq_iff)
  have e3: "length prog < 3 \<or> of_nat (length prog) - 3 < p \<longleftrightarrow> length prog < i + 3"
    using assms(3) u sub [of 3] by (cases "length prog < 3") (auto simp: word_less_nat_alt)
  have e5: "length prog < 5 \<or> of_nat (length prog) - 5 < p \<longleftrightarrow> length prog < i + 5"
    using assms(3) u sub [of 5] by (cases "length prog < 5") (auto simp: word_less_nat_alt)
  have c: "opcode - OP_DATA 1 + 1 = opcode" "1 + (x + 1) = 2 + x" "1 + (x + 2) = 3 + x" "1 + 4 = (5 :: u32)"
    for x :: u32
    by (simp_all add: OP_DATA_def)
  show ?thesis
    unfolding ParseOp_def Let_def u assms(4) e1 e3 e5 by (simp only: l if_False c Suc_eq_plus1)
qed

text \<open>
  Whatever surrounds it, the encoding of a data push is parsed as one instruction of exactly
  its length that carries exactly the data.
\<close>

lemma ParseOp_data_push:
  assumes "prog = pre @ hdr @ d @ post" "length prog \<le> 0x7fffffff"
    and "hdr \<noteq> []" "unat len = length hdr + length d" "unat skip = length hdr"
  shows "parse_data prog (of_nat (length pre)) (of_nat (length prog)) opcode skip len =
         Inr \<lparr>Op = opcode, Len = of_nat (length hdr + length d), Data = d\<rparr>"
proof -
  have p: "unat (of_nat (length pre) :: u32) = length pre"
    using assms by (simp add: unat_of_nat)
  moreover have "len = of_nat (length hdr + length d)"
    using assms(1,2,4) by (simp add: word_unat_eq_iff unat_of_nat del: of_nat_add)
  moreover have "window prog (length pre + length hdr) (length pre + (length hdr + length d)) = d"
    using assms(1) window_append [of "pre @ hdr" "length pre + length hdr" "length pre + (length hdr + length d)" d post]
    by simp
  moreover have "length prog < 2 ^ 32" "length pre + unat len \<le> length prog" "length pre + unat skip < 2 ^ 32"
    using assms by simp_all
  ultimately show ?thesis
    using parse_data_ok [of prog "of_nat (length pre)" len skip opcode] assms(4,5) by (simp del: of_nat_add)
qed

lemma ParseOp_PushDataBytes:
  assumes "length pre + length (PushDataBytes d) + length post \<le> 0x7fffffff"
  shows "ParseOp (pre @ PushDataBytes d @ post) (of_nat (length pre)) =
         Inr \<lparr>Op = hd (PushDataBytes d), Len = of_nat (length (PushDataBytes d)), Data = d\<rparr>"
proof -
  define prog where "prog = pre @ PushDataBytes d @ post"
  have prog: "length prog \<le> 0x7fffffff" using assms by (simp add: prog_def)
  note at = ParseOp_at [OF prog refl, of "length pre"]
  consider "d = []" | "d \<noteq> []" "length d \<le> 75" | "75 < length d" "length d < 256"
    | "256 \<le> length d" "length d < 65536" | "65536 \<le> length d"
    by (cases d) force+
  then have "ParseOp prog (of_nat (length pre)) =
         Inr \<lparr>Op = hd (PushDataBytes d), Len = of_nat (length (PushDataBytes d)), Data = d\<rparr>"
  proof cases
    case 1
    then have "prog = pre @ 0 # post" "PushDataBytes d = [0]" by (simp_all add: PushDataBytes_def prog_def)
    with 1 at show ?thesis by (simp add: OP_DATA_def)
  next
    case 2
    define b where "b = (of_nat (length d) :: byte)"
    have enc: "PushDataBytes d = [b] @ d"
      using 2 by (simp add: PushDataBytes_def OP_DATA_def b_def)
    then have eq: "prog = pre @ [b] @ d @ post" by (simp add: prog_def)
    have ub: "unat b = length d"
      using 2 by (simp add: b_def unat_of_nat)
    then have op: "\<not> (OP_1 \<le> b)" "OP_DATA 1 \<le> b" "b \<le> OP_DATA 75"
      using 2 by (simp_all add: word_le_nat_alt OP_DATA_def Suc_le_eq)
    have "prog ! length pre = b" "length pre < length prog" by (simp_all add: eq)
    with op have "ParseOp prog (of_nat (length pre)) =
      parse_data prog (of_nat (length pre)) (of_nat (length prog)) b 1 (1 + ucast b)"
      by (simp add: at)
    with ub show ?thesis
      using ParseOp_data_push [OF eq prog, of "1 + ucast b" 1 b] by (simp add: enc unat_data_len)
  next
    case 3
    define b where "b = (of_nat (length d) :: byte)"
    have enc: "PushDataBytes d = [OP_PUSHDATA1, b] @ d"
      using 3 by (cases d) (simp_all add: PushDataBytes_def b_def)
    then have eq: "prog = pre @ [OP_PUSHDATA1, b] @ d @ post" by (simp add: prog_def)
    have ub: "unat b = length d"
      using 3 by (simp add: b_def unat_of_nat)
    have "prog ! length pre = OP_PUSHDATA1" "prog ! Suc (length pre) = b" "length pre + 2 \<le> length prog"
      by (simp_all add: eq nth_append)
    then have "ParseOp prog (of_nat (length pre)) =
      parse_data prog (of_nat (length pre)) (of_nat (length prog)) OP_PUSHDATA1 2 (2 + ucast b)"
      by (simp add: at OP_DATA_def)
    with ub show ?thesis
      using ParseOp_data_push [OF eq prog, of "2 + ucast b" 2 OP_PUSHDATA1] unat_data_len(2) [of b]
      by (simp add: enc add.commute)
  next
    case 4
    have enc: "PushDataBytes d = (OP_PUSHDATA2 # le_put 2 (length d)) @ d"
      using 4 by (cases d) (simp_all add: PushDataBytes_def)
    then have eq: "prog = pre @ (OP_PUSHDATA2 # le_put 2 (length d)) @ d @ post" by (simp add: prog_def)
    have w: "window prog (length pre + 1) (length pre + 3) = le_put 2 (length d)"
      using window_append [of "pre @ [OP_PUSHDATA2]" "length pre + 1" "length pre + 3" "le_put 2 (length d)" "d @ post"]
      by (simp add: eq)
    then have ul: "unat (le_Uint16 (le_put 2 (length d))) = length d"
      using 4 by (simp add: unat_le_Uint16)
    have "prog ! length pre = OP_PUSHDATA2" "length pre + 3 \<le> length prog"
      by (simp_all add: eq nth_append)
    then have "ParseOp prog (of_nat (length pre)) =
      parse_data prog (of_nat (length pre)) (of_nat (length prog)) OP_PUSHDATA2 3
        (3 + le_Uint16 (le_put 2 (length d)))"
      by (simp add: at w [simplified] OP_DATA_def)
    with ul 4 show ?thesis
      using ParseOp_data_push [OF eq prog, of "3 + le_Uint16 (le_put 2 (length d))" 3 OP_PUSHDATA2]
      by (simp add: enc unat_word_ariths)
  next
    case 5
    have enc: "PushDataBytes d = (OP_PUSHDATA4 # le_put 4 (length d)) @ d"
      using 5 by (cases d) (simp_all add: PushDataBytes_def)
    then have eq: "prog = pre @ (OP_PUSHDATA4 # le_put 4 (length d)) @ d @ post" by (simp add: prog_def)
    have w: "window prog (length pre + 1) (length pre + 5) = le_put 4 (length d)"
      using window_append [of "pre @ [OP_PUSHDATA4]" "length pre + 1" "length pre + 5" "le_put 4 (length d)" "d @ post"]
      by (simp add: eq)
    have d: "length d + 5 \<le> 0x7fffffff" using prog by (simp add: eq)
    then have ul: "unat (le_Uint32 (le_put 4 (length d))) = length d"
      by (simp add: unat_le_Uint32)
    have sum: "unat (5 + le_Uint32 (le_put 4 (length d))) = 5 + length d"
      using d ul by (simp add: unat_word_ariths)
    then have add: "AddUint32 5 (le_Uint32 (le_put 4 (length d))) = (5 + le_Uint32 (le_put 4 (length d)), True)"
      using ul by (simp add: uint32.add_ok_iff)
    have "prog ! length pre = OP_PUSHDATA4" "length pre + 5 \<le> length prog"
      by (simp_all add: eq nth_append)
    then have "ParseOp prog (of_nat (length pre)) =
      parse_data prog (of_nat (length pre)) (of_nat (length prog)) OP_PUSHDATA4 5
        (5 + le_Uint32 (le_put 4 (length d)))"
      by (simp add: at w [simplified] add OP_DATA_def)
    with sum show ?thesis
      using ParseOp_data_push [OF eq prog, of "5 + le_Uint32 (le_put 4 (length d))" 5 OP_PUSHDATA4]
      by (simp add: enc)
  qed
  then show ?thesis by (simp add: prog_def)
qed

section \<open>Programs assembled from parts\<close>

text \<open>\<open>parses seg inst\<close>: wherever the bytes \<open>seg\<close> stand in a program, they are read as \<open>inst\<close>.\<close>

definition parses :: "bytes \<Rightarrow> Instruction \<Rightarrow> bool" where
  "parses seg inst \<longleftrightarrow> seg \<noteq> [] \<and> Len inst = of_nat (length seg) \<and>
     (\<forall>pre post. length pre + length seg + length post \<le> 0x7fffffff \<longrightarrow>
        ParseOp (pre @ seg @ post) (of_nat (length pre)) = Inr inst)"

definition data_inst :: "bytes \<Rightarrow> Instruction" where
  "data_inst d = \<lparr>Op = hd (PushDataBytes d), Len = of_nat (length (PushDataBytes d)), Data = d\<rparr>"

lemma parses_PushDataBytes: "parses (PushDataBytes d) (data_inst d)"
  unfolding parses_def data_inst_def
  using ParseOp_PushDataBytes by (auto simp: PushDataBytes_def Let_def)

definition plain_op :: "byte \<Rightarrow> bool" where
  "plain_op b \<longleftrightarrow> \<not> (OP_1 \<le> b \<and> b \<le> OP_16) \<and> \<not> (1 \<le> b \<and> b \<le> OP_PUSHDATA4) \<and> b \<noteq> OP_JUMP \<and> b \<noteq> OP_JUMPIF"

lemma parses_plain_op:
  assumes "plain_op b"
  shows "parses [b] \<lparr>Op = b, Len = 1, Data = []\<rparr>"
proof -
  have "ParseOp (pre @ [b] @ post) (of_nat (length pre)) = Inr \<lparr>Op = b, Len = 1, Data = []\<rparr>"
    if "length pre + 1 + length post \<le> 0x7fffffff" for pre post
    using ParseOp_at [of "pre @ [b] @ post" _ "length pre" b] that assms
    by (auto simp: plain_op_def OP_DATA_def word_le_nat_alt)
  then show ?thesis by (simp add: parses_def)
qed

lemma parses_num_op:
  assumes "OP_1 \<le> b" "b \<le> OP_16"
  shows "parses [b] \<lparr>Op = b, Len = 1, Data = [b - OP_1 + 1]\<rparr>"
proof -
  have "ParseOp (pre @ [b] @ post) (of_nat (length pre)) = Inr \<lparr>Op = b, Len = 1, Data = [b - OP_1 + 1]\<rparr>"
    if "length pre + 1 + length post \<le> 0x7fffffff" for pre post
    using ParseOp_at [of "pre @ [b] @ post" _ "length pre" b] that assms by simp
  then show ?thesis by (simp add: parses_def)
qed

lemma parse_loop_parses:
  assumes "list_all2 parses segs insts" "length (pre @ concat segs) \<le> 0x7fffffff"
  shows "parse_loop (pre @ concat segs) (of_nat (length pre)) acc = Inr (acc @ insts)"
  using assms
proof (induction segs insts arbitrary: pre acc rule: list_all2_induct)
  case Nil
  then show ?case by (simp add: parse_loop.simps)
next
  case (Cons seg segs inst insts)
  let ?prog = "pre @ concat (seg # segs)"
  have lt: "of_nat (length pre) < (of_nat (length ?prog) :: u32)"
    using Cons.hyps(1) Cons.prems by (simp add: parses_def word_less_nat_alt unat_of_nat del: of_nat_add)
  have op: "ParseOp ?prog (of_nat (length pre)) = Inr inst"
    using Cons.hyps(1) Cons.prems by (simp add: parses_def)
  have add: "AddUint32 (of_nat (length pre)) (Len inst) = (of_nat (length (pre @ seg)), True)"
    using Cons.hyps(1) Cons.prems AddUint32_of_nat [of "length pre" "length seg"] by (simp add: parses_def)
  have "parse_loop ((pre @ seg) @ concat segs) (of_nat (length (pre @ seg))) (acc @ [inst]) = Inr ((acc @ [inst]) @ insts)"
    using Cons.prems by (intro Cons.IH) simp
  with lt op add show ?case
    using parse_loop.simps [of ?prog "of_nat (length pre)" acc] by simp
qed

lemma ParseProgram_parses:
  assumes "list_all2 parses segs insts" "length (concat segs) \<le> 0x7fffffff"
  shows "ParseProgram (concat segs) = Inr insts"
  using parse_loop_parses [OF assms(1), of "[]" "[]"] assms(2) by (simp add: ParseProgram_def)

end
