(* ===== verification/VmStack.thy ===== *)
theory VmStack
  imports VmTypes
begin

text \<open>
  The stack operations of \<^verbatim>\<open>stack.go\<close>, in the order of the source.
\<close>

fun vrepeat :: "nat \<Rightarrow> unit vmop \<Rightarrow> unit vmop" where
  "vrepeat 0 m = vret ()"
| "vrepeat (Suc n) m = vseq m (vrepeat n m)"

definition opToAltStack :: "unit vmop" where
  "opToAltStack =
     vseq (applyCost 2)
       (vbind (vget dataStack) (\<lambda>st.
          if st = [] then vfail ErrDataStackUnderflow
          else vmodify (\<lambda>s. s\<lparr>altStack := altStack s @ [last st], altStackNil := False,
                              dataStack := butlast st\<rparr>)))"

definition opFromAltStack :: "unit vmop" where
  "opFromAltStack =
     vseq (applyCost 2)
       (vbind (vget altStack) (\<lambda>alt.
          if alt = [] then vfail ErrAltStackUnderflow
          else vmodify (\<lambda>s. s\<lparr>dataStack := dataStack s @ [last alt], altStack := butlast alt\<rparr>)))"

definition op2Drop :: "unit vmop" where
  "op2Drop = vseq (applyCost 2) (vrepeat 2 (vbind (pop False) (\<lambda>_. vret ())))"

text \<open>\<^verbatim>\<open>vm.pushDataStack(vm.dataStack[len(vm.dataStack)-n], false)\<close>, for a depth known to be on the stack.\<close>

definition push_nth :: "nat \<Rightarrow> unit vmop" where
  "push_nth n = vbind (vget (\<lambda>s. dataStack s ! (length (dataStack s) - n))) (\<lambda>x. pushDataStack x False)"

definition nDup :: "nat \<Rightarrow> unit vmop" where
  "nDup n =
     vseq (applyCost (int n))
       (vbind (vget dataStack) (\<lambda>st.
          if length st < n then vfail ErrDataStackUnderflow else vrepeat n (push_nth n)))"

definition op2Dup :: "unit vmop" where
  "op2Dup = nDup 2"

definition op3Dup :: "unit vmop" where
  "op3Dup = nDup 3"

definition op2Over :: "unit vmop" where
  "op2Over =
     vseq (applyCost 2)
       (vbind (vget dataStack) (\<lambda>st.
          if length st < 4 then vfail ErrDataStackUnderflow else vrepeat 2 (push_nth 4)))"

definition op2Rot :: "unit vmop" where
  "op2Rot =
     vseq (applyCost 2)
       (vbind (vget dataStack) (\<lambda>st. let l = length st in
          if l < 6 then vfail ErrDataStackUnderflow
          else vmodify (\<lambda>s. s\<lparr>dataStack := take (l - 6) st @ drop (l - 4) st @ [st ! (l - 6)] @ [st ! (l - 5)]\<rparr>)))"

definition op2Swap :: "unit vmop" where
  "op2Swap =
     vseq (applyCost 2)
       (vbind (vget dataStack) (\<lambda>st. let l = length st in
          if l < 4 then vfail ErrDataStackUnderflow
          else vmodify (\<lambda>s. s\<lparr>dataStack := take (l - 4) st @ drop (l - 2) st @ [st ! (l - 4)] @ [st ! (l - 3)]\<rparr>)))"

definition opIfDup :: "unit vmop" where
  "opIfDup =
     vseq (applyCost 1)
       (vbind top_item (\<lambda>item. vbind (read item) (\<lambda>bs.
          if AsBool bs then pushDataStack item False else vret ())))"

definition opDepth :: "lib \<Rightarrow> unit vmop" where
  "opDepth L =
     vseq (applyCost 1)
       (vbind (vget dataStack) (\<lambda>st. pushBigInt L (uNewInt L (of_nat (length st))) False))"

definition opDrop :: "unit vmop" where
  "opDrop = vseq (applyCost 1) (vbind (pop False) (\<lambda>_. vret ()))"

definition opDup :: "unit vmop" where
  "opDup = nDup 1"

definition opNip :: "unit vmop" where
  "opNip =
     vseq (applyCost 1)
       (vbind top_item (\<lambda>top.
          vseq (vmodify (\<lambda>s. s\<lparr>dataStack := butlast (dataStack s)\<rparr>))
            (vbind (pop False) (\<lambda>_. vmodify (\<lambda>s. s\<lparr>dataStack := dataStack s @ [top]\<rparr>)))))"

definition opOver :: "unit vmop" where
  "opOver =
     vseq (applyCost 1)
       (vbind (vget dataStack) (\<lambda>st.
          if length st < 2 then vfail ErrDataStackUnderflow else push_nth 2))"

text \<open>
  \<^verbatim>\<open>int64(n.Uint64())\<close> drops the upper bits of \<open>n\<close> and may be negative, so the offset may
  be zero or negative; indexing the stack at or past its length is a run-time panic.
\<close>

definition opPick :: "lib \<Rightarrow> unit vmop" where
  "opPick L =
     vseq (applyCost 2)
       (vbind (popBigInt L False) (\<lambda>n.
          case AddInt64 (int64_of (uUint64 L n)) 1 of (off, ok) \<Rightarrow>
            if \<not> ok then vfail ErrBadValue
            else vbind (vget dataStack) (\<lambda>st.
              if int (length st) < off then vfail ErrDataStackUnderflow
              else let idx = i64 (int (length st) - off) in
                if idx < 0 \<or> int (length st) \<le> idx then vpanic
                else pushDataStack (st ! nat idx) False)))"

definition rot :: "int \<Rightarrow> unit vmop" where
  "rot n =
     (if n < 1 then vfail ErrBadValue
      else vbind (vget dataStack) (\<lambda>st.
        if int (length st) < n then vfail ErrDataStackUnderflow
        else let index = length st - nat n in
          vmodify (\<lambda>s. s\<lparr>dataStack := take index st @ drop (index + 1) st @ [st ! index]\<rparr>)))"

definition opRoll :: "lib \<Rightarrow> unit vmop" where
  "opRoll L =
     vseq (applyCost 2)
       (vbind (popBigInt L False) (\<lambda>n.
          case AddInt64 (int64_of (uUint64 L n)) 1 of (off, ok) \<Rightarrow>
            if \<not> ok then vfail ErrBadValue else rot off))"

definition opRot :: "unit vmop" where
  "opRot = vseq (applyCost 2) (rot 3)"

definition opSwap :: "unit vmop" where
  "opSwap =
     vseq (applyCost 1)
       (vbind (vget dataStack) (\<lambda>st. let l = length st in
          if l < 2 then vfail ErrDataStackUnderflow
          else vmodify (\<lambda>s. s\<lparr>dataStack := st[l - 1 := st ! (l - 2), l - 2 := st ! (l - 1)]\<rparr>)))"

definition opTuck :: "unit vmop" where
  "opTuck =
     vseq (applyCost 1)
       (vbind (vget dataStack) (\<lambda>st. let l = length st; top2 = drop (l - 2) st in
          if l < 2 then vfail ErrDataStackUnderflow
          else vseq (vmodify (\<lambda>s. s\<lparr>dataStack := take (l - 2) st\<rparr>))
            (vseq (pushDataStack (top2 ! 1) False)
              (vmodify (\<lambda>s. s\<lparr>dataStack := dataStack s @ top2\<rparr>)))))"

end
