(* ===== verification/VmNumeric.thy ===== *)
theory VmNumeric
  imports VmTypes
begin

text \<open>
  The numeric operations of \<^verbatim>\<open>numeric.go\<close>. Operands are popped as 256-bit integers below
  \<open>2 ^ 255\<close>; results whose sign bit is set are rejected with a range error.
\<close>

definition op1Add :: "lib \<Rightarrow> unit vmop" where
  "op1Add L =
     vseq (applyCost 2) (vbind (popBigInt L True) (\<lambda>n.
       let num = uAdd L n (uNewInt L 1) in
       if uSign L num < 0 then vfail ErrRange else pushBigInt L num True))"

definition op1Sub :: "lib \<Rightarrow> unit vmop" where
  "op1Sub L =
     vseq (applyCost 2) (vbind (popBigInt L True) (\<lambda>n.
       let num = uSub L n (uNewInt L 1) in
       if uSign L num < 0 then vfail ErrRange else pushBigInt L num True))"

definition op2Mul :: "lib \<Rightarrow> unit vmop" where
  "op2Mul L =
     vseq (applyCost 2) (vbind (popBigInt L True) (\<lambda>n.
       let num = uMul L n (uNewInt L 2) in
       if uSign L num < 0 then vfail ErrRange else pushBigInt L num True))"

definition op2Div :: "lib \<Rightarrow> unit vmop" where
  "op2Div L =
     vseq (applyCost 2) (vbind (popBigInt L True) (\<lambda>n. pushBigInt L (uRsh L n 1) True))"

definition opNot :: "lib \<Rightarrow> unit vmop" where
  "opNot L =
     vseq (applyCost 2) (vbind (popBigInt L True) (\<lambda>n. pushBool (uCmp L n (uNewInt L 0) = 0) True))"

definition op0NotEqual :: "lib \<Rightarrow> unit vmop" where
  "op0NotEqual L =
     vseq (applyCost 2) (vbind (popBigInt L True) (\<lambda>n. pushBool (uCmp L n (uNewInt L 0) \<noteq> 0) True))"

text \<open>The common start of the binary operations: the cost, then \<open>y\<close> (the top) and \<open>x\<close>.\<close>

definition popTwo :: "lib \<Rightarrow> int \<Rightarrow> (u256 \<Rightarrow> u256 \<Rightarrow> unit vmop) \<Rightarrow> unit vmop" where
  "popTwo L cost f =
     vseq (applyCost cost) (vbind (popBigInt L True) (\<lambda>y. vbind (popBigInt L True) (\<lambda>x. f x y)))"

definition opAdd :: "lib \<Rightarrow> unit vmop" where
  "opAdd L = popTwo L 2 (\<lambda>x y.
     let z = uAdd L x y in if uSign L z < 0 then vfail ErrRange else pushBigInt L z True)"

definition opSub :: "lib \<Rightarrow> unit vmop" where
  "opSub L = popTwo L 2 (\<lambda>x y.
     let z = uSub L x y in if uSign L z < 0 then vfail ErrRange else pushBigInt L z True)"

definition opMul :: "lib \<Rightarrow> unit vmop" where
  "opMul L = popTwo L 8 (\<lambda>x y.
     case uMulOverflow L x y of (z, overflow) \<Rightarrow>
       if overflow \<or> uSign L z < 0 then vfail ErrRange else pushBigInt L z True)"

definition opDiv :: "lib \<Rightarrow> unit vmop" where
  "opDiv L = popTwo L 8 (\<lambda>x y.
     if uIsZero L y then vfail ErrDivZero else pushBigInt L (uDiv L x y) True)"

definition opMod :: "lib \<Rightarrow> unit vmop" where
  "opMod L = popTwo L 8 (\<lambda>x y.
     if uIsZero L y then vfail ErrDivZero else pushBigInt L (uMod L x y) True)"

definition opLshift :: "lib \<Rightarrow> unit vmop" where
  "opLshift L = popTwo L 8 (\<lambda>x y.
     let z = (if uLtUint64 L y 256 then uLsh L x (unat (uUint64 L y)) else uClear L) in
     if uSign L z < 0 then vfail ErrRange else pushBigInt L z True)"

definition opRshift :: "lib \<Rightarrow> unit vmop" where
  "opRshift L = popTwo L 8 (\<lambda>x y.
     let z = (if uLtUint64 L y 256 then uRsh L x (unat (uUint64 L y)) else uClear L) in
     pushBigInt L z True)"

definition opBoolAnd :: "unit vmop" where
  "opBoolAnd =
     vseq (applyCost 2) (vbind (popBytes True) (\<lambda>b. vbind (popBytes True) (\<lambda>a.
       pushBool (AsBool a \<and> AsBool b) True)))"

definition opBoolOr :: "unit vmop" where
  "opBoolOr =
     vseq (applyCost 2) (vbind (popBytes True) (\<lambda>b. vbind (popBytes True) (\<lambda>a.
       pushBool (AsBool a \<or> AsBool b) True)))"

datatype cmp_op = cmpLess | cmpLessEqual | cmpGreater | cmpGreaterEqual | cmpEqual | cmpNotEqual

fun cmp_result :: "cmp_op \<Rightarrow> int \<Rightarrow> bool" where
  "cmp_result cmpLess c = (c < 0)"
| "cmp_result cmpLessEqual c = (c \<le> 0)"
| "cmp_result cmpGreater c = (c > 0)"
| "cmp_result cmpGreaterEqual c = (c \<ge> 0)"
| "cmp_result cmpEqual c = (c = 0)"
| "cmp_result cmpNotEqual c = (c \<noteq> 0)"

definition doNumCompare :: "lib \<Rightarrow> cmp_op \<Rightarrow> unit vmop" where
  "doNumCompare L c = popTwo L 2 (\<lambda>x y. pushBool (cmp_result c (uCmp L x y)) True)"

definition opNumEqual :: "lib \<Rightarrow> unit vmop" where
  "opNumEqual L = doNumCompare L cmpEqual"

definition opNumEqualVerify :: "lib \<Rightarrow> unit vmop" where
  "opNumEqualVerify L = popTwo L 2 (\<lambda>x y. if uEq L x y then vret () else vfail ErrVerifyFailed)"

definition opNumNotEqual :: "lib \<Rightarrow> unit vmop" where
  "opNumNotEqual L = doNumCompare L cmpNotEqual"

definition opLessThan :: "lib \<Rightarrow> unit vmop" where
  "opLessThan L = doNumCompare L cmpLess"

definition opGreaterThan :: "lib \<Rightarrow> unit vmop" where
  "opGreaterThan L = doNumCompare L cmpGreater"

definition opLessThanOrEqual :: "lib \<Rightarrow> unit vmop" where
  "opLessThanOrEqual L = doNumCompare L cmpLessEqual"

definition opGreaterThanOrEqual :: "lib \<Rightarrow> unit vmop" where
  "opGreaterThanOrEqual L = doNumCompare L cmpGreaterEqual"

definition opMin :: "lib \<Rightarrow> unit vmop" where
  "opMin L = popTwo L 2 (\<lambda>x y. if uCmp L x y > 0 then pushBigInt L y True else pushBigInt L x True)"

definition opMax :: "lib \<Rightarrow> unit vmop" where
  "opMax L = popTwo L 2 (\<lambda>x y. if uCmp L x y < 0 then pushBigInt L y True else pushBigInt L x True)"

definition opWithin :: "lib \<Rightarrow> unit vmop" where
  "opWithin L =
     vseq (applyCost 4) (vbind (popBigInt L True) (\<lambda>mx. vbind (popBigInt L True) (\<lambda>mn.
       vbind (popBigInt L True) (\<lambda>x.
         pushBool (uCmp L x mn \<ge> 0 \<and> uCmp L x mx < 0) True))))"

end
