(* ===== verification/VmBits.thy ===== *)
theory VmBits
  imports VmCode
begin

text \<open>
  The bitwise operations of \<^verbatim>\<open>bitwise.go\<close> and the string operations of \<^verbatim>\<open>splice.go\<close>.
  \<^verbatim>\<open>CAT\<close> and \<^verbatim>\<open>CATPUSHDATA\<close> append to the popped slice itself, so they are the two
  operations that may write into an array that other slices share.
\<close>

section \<open>bitwise.go\<close>

definition opInvert :: "unit vmop" where
  "opInvert =
     vseq (applyCost 1) (vbind top_item (\<lambda>top.
       vseq (applyCost (int (s_len top))) (vbind (read top) (\<lambda>bs.
         vbind (vnew (map NOT bs)) (\<lambda>newTop.
           vmodify (\<lambda>s. s\<lparr>dataStack := butlast (dataStack s) @ [newTop]\<rparr>))))))"

definition opAnd :: "unit vmop" where
  "opAnd =
     vseq (applyCost 1) (vbind (pop True) (\<lambda>b. vbind (pop True) (\<lambda>a.
       vseq (applyCost (int (min (s_len a) (s_len b))))
         (vbind (read a) (\<lambda>as. vbind (read b) (\<lambda>bs.
           pushBytes (map2 (\<lambda>x y. x AND y) as bs) True))))))"

definition byte_at :: "bytes \<Rightarrow> nat \<Rightarrow> byte" where
  "byte_at bs i = (if i \<ge> length bs then 0 else bs ! i)"

definition or_bytes :: "bool \<Rightarrow> bytes \<Rightarrow> bytes \<Rightarrow> bytes" where
  "or_bytes isXor as bs =
     map (\<lambda>i. if isXor then byte_at as i XOR byte_at bs i else byte_at as i OR byte_at bs i)
       [0..<max (length as) (length bs)]"

definition doOr :: "bool \<Rightarrow> unit vmop" where
  "doOr isXor =
     vseq (applyCost 1) (vbind (pop True) (\<lambda>b. vbind (pop True) (\<lambda>a.
       vseq (applyCost (int (max (s_len a) (s_len b))))
         (vbind (read a) (\<lambda>as. vbind (read b) (\<lambda>bs. pushBytes (or_bytes isXor as bs) True))))))"

definition opOr :: "unit vmop" where
  "opOr = doOr False"

definition opXor :: "unit vmop" where
  "opXor = doOr True"

definition doEqual :: "bool vmop" where
  "doEqual =
     vseq (applyCost 1) (vbind (pop True) (\<lambda>b. vbind (pop True) (\<lambda>a.
       vseq (applyCost (int (min (s_len a) (s_len b))))
         (vbind (read a) (\<lambda>as. vbind (read b) (\<lambda>bs. vret (as = bs)))))))"

definition opEqual :: "unit vmop" where
  "opEqual = vbind doEqual (\<lambda>res. pushBool res True)"

definition opEqualVerify :: "unit vmop" where
  "opEqualVerify = vbind doEqual (\<lambda>res. if res then vret () else vfail ErrVerifyFailed)"

section \<open>splice.go\<close>

definition vappend :: "lib \<Rightarrow> slice \<Rightarrow> bytes \<Rightarrow> slice vmop" where
  [vm_defs]: "vappend L a bs s =
     (case go_append (growcap L) (heap s) a bs of (h, x) \<Rightarrow> (Ret x, s\<lparr>heap := h\<rparr>))"

definition opCat :: "lib \<Rightarrow> unit vmop" where
  "opCat L =
     vseq (applyCost 4) (vbind (pop True) (\<lambda>b. vbind (pop True) (\<lambda>a.
       let lens = i64 (int (s_len a + s_len b)) in
       vseq (applyCost lens) (vseq (deferCost (i64 (- lens)))
         (vbind (read b) (\<lambda>bs. vbind (vappend L a bs) (\<lambda>x. pushDataStack x True)))))))"

text \<open>\<^verbatim>\<open>bigIntInt64\<close> of a popped number.\<close>

definition popInt64 :: "lib \<Rightarrow> int vmop" where
  "popInt64 L = vbind (popBigInt L True) (\<lambda>n. vlift (bigIntInt64 L n))"

definition opSubstr :: "lib \<Rightarrow> unit vmop" where
  "opSubstr L =
     vseq (applyCost 4) (vbind (popInt64 L) (\<lambda>size.
       vseq (applyCost size) (vseq (deferCost (i64 (- size)))
         (vbind (popInt64 L) (\<lambda>offset. vbind (pop True) (\<lambda>str.
           case AddInt64 offset size of (end, ok) \<Rightarrow>
             if \<not> ok \<or> end > int (s_len str) then vfail ErrBadValue
             else pushDataStack (sub_slice str (nat offset) (nat end)) True))))))"

definition opLeft :: "lib \<Rightarrow> unit vmop" where
  "opLeft L =
     vseq (applyCost 4) (vbind (popInt64 L) (\<lambda>size.
       vseq (applyCost size) (vseq (deferCost (i64 (- size)))
         (vbind (pop True) (\<lambda>str.
           if size > int (s_len str) then vfail ErrBadValue
           else pushDataStack (sub_slice str 0 (nat size)) True)))))"

definition opRight :: "lib \<Rightarrow> unit vmop" where
  "opRight L =
     vseq (applyCost 4) (vbind (popInt64 L) (\<lambda>size.
       vseq (applyCost size) (vseq (deferCost (i64 (- size)))
         (vbind (pop True) (\<lambda>str. let lstr = int (s_len str) in
           if size > lstr then vfail ErrBadValue
           else pushDataStack (sub_slice str (nat (lstr - size)) (s_len str)) True)))))"

definition opSize :: "lib \<Rightarrow> unit vmop" where
  "opSize L =
     vseq (applyCost 1) (vbind top_item (\<lambda>str.
       pushBigInt L (uNewInt L (of_nat (s_len str))) True))"

definition opCatpushdata :: "lib \<Rightarrow> unit vmop" where
  "opCatpushdata L =
     vseq (applyCost 4) (vbind (pop True) (\<lambda>b. vbind (pop True) (\<lambda>a.
       let lens = i64 (int (s_len a + s_len b)) in
       vseq (applyCost lens) (vseq (deferCost (i64 (- lens)))
         (vbind (read b) (\<lambda>bs. vbind (vappend L a (PushDataBytes bs)) (\<lambda>x. pushDataStack x True)))))))"

end
