(* ===== verification/VmCrypto.thy ===== *)
theory VmCrypto
  imports VmBits
begin

text \<open>
  The cryptographic operations of \<^verbatim>\<open>crypto.go\<close> and the introspection operations of
  \<^verbatim>\<open>introspection.go\<close>.
\<close>

section \<open>crypto.go\<close>

definition doHash :: "lib \<Rightarrow> (bytes \<Rightarrow> bytes) \<Rightarrow> unit vmop" where
  "doHash L H =
     vbind (pop False) (\<lambda>x.
       let cost = (if int (s_len x) < 64 then 64 else int (s_len x)) in
       vseq (applyCost cost) (vbind (read x) (\<lambda>bs.
         vbind (vappend L nil_slice (H bs)) (\<lambda>d. pushDataStack d False))))"

definition opSha256 :: "lib \<Rightarrow> unit vmop" where
  "opSha256 L = doHash L (sha256 L)"

definition opSha3 :: "lib \<Rightarrow> unit vmop" where
  "opSha3 L = doHash L (sha3_256 L)"

definition PublicKeySize :: nat where
  "PublicKeySize = 32"

definition opCheckSig :: "lib \<Rightarrow> unit vmop" where
  "opCheckSig L =
     vseq (applyCost 1024) (vbind (pop True) (\<lambda>pubkey. vbind (pop True) (\<lambda>msg. vbind (pop True) (\<lambda>sig.
       if s_len msg \<noteq> 32 then vfail ErrBadValue
       else if s_len pubkey \<noteq> PublicKeySize then pushBool False True
       else vbind (read pubkey) (\<lambda>pk. vbind (read msg) (\<lambda>m. vbind (read sig) (\<lambda>sg.
         pushBool (ed25519_Verify L pk m sg) True)))))))"

fun popN :: "nat \<Rightarrow> slice list vmop" where
  "popN 0 = vret []"
| "popN (Suc n) = vbind (pop True) (\<lambda>x. vbind (popN n) (\<lambda>xs. vret (x # xs)))"

text \<open>The matching loop: the signatures that are left when signatures or keys run out.\<close>

fun multisig_loop :: "('k \<Rightarrow> 's \<Rightarrow> bool) \<Rightarrow> 's list \<Rightarrow> 'k list \<Rightarrow> 's list" where
  "multisig_loop V (sg # sigs) (pk # pubkeys) =
     (if V pk sg then multisig_loop V sigs pubkeys else multisig_loop V (sg # sigs) pubkeys)"
| "multisig_loop V sigs pubkeys = sigs"

definition opCheckMultiSig :: "lib \<Rightarrow> unit vmop" where
  "opCheckMultiSig L =
     vbind (popInt64 L) (\<lambda>numPubkeys.
       case MulInt64 numPubkeys 1024 of (pubCost, ok) \<Rightarrow>
         if numPubkeys < 0 \<or> \<not> ok then vfail ErrBadValue
         else vseq (applyCost pubCost) (vbind (popInt64 L) (\<lambda>numSigs.
           if numSigs < 0 \<or> numSigs > numPubkeys \<or> (numPubkeys > 0 \<and> numSigs = 0) then vfail ErrBadValue
           else vbind (popN (nat numPubkeys)) (\<lambda>pubkeyByteses. vbind (pop True) (\<lambda>msg.
             if s_len msg \<noteq> 32 then vfail ErrBadValue
             else vbind (popN (nat numSigs)) (\<lambda>sigs.
               if list_ex (\<lambda>p. s_len p \<noteq> PublicKeySize) pubkeyByteses then pushBool False True
               else vbind (vget (\<lambda>s. multisig_loop (\<lambda>pk sg.
                        ed25519_Verify L (slice_bytes (heap s) pk) (slice_bytes (heap s) msg) (slice_bytes (heap s) sg))
                      sigs pubkeyByteses))
                    (\<lambda>rest. pushBool (rest = []) True)))))))"

definition opTxSigHash :: "unit vmop" where
  "opTxSigHash =
     vseq (applyCost 256) (vbind (vget (\<lambda>s. TxSigHash (vcontext s))) (\<lambda>h.
       case h of None \<Rightarrow> vfail ErrContext | Some d \<Rightarrow> pushDataStack d False))"

definition opHash160 :: "lib \<Rightarrow> unit vmop" where
  "opHash160 L =
     vbind (pop False) (\<lambda>x.
       vseq (applyCost (i64 (int (s_len x + 64)))) (vbind (read x) (\<lambda>bs.
         vbind (vappend L nil_slice (ripemd160 L bs)) (\<lambda>d. pushDataStack d False))))"

section \<open>introspection.go\<close>

definition opCheckOutput :: "lib \<Rightarrow> unit vmop" where
  "opCheckOutput L =
     vseq (applyCost 16) (vbind (popBytes True) (\<lambda>code. vbind (popBigInt L True) (\<lambda>vmVersion.
       vbind (popBytes True) (\<lambda>assetID. vbind (popBigInt L True) (\<lambda>amountInt.
         case uUint64WithOverflow L amountInt of (amount, overflow) \<Rightarrow>
           if overflow then vfail ErrBadValue
           else vbind (popBigInt L True) (\<lambda>index.
             vbind (vget id) (\<lambda>s.
               case CheckOutput (vcontext s) of
                 None \<Rightarrow> vfail ErrContext
               | Some f \<Rightarrow>
                   (case f (heap s) (uUint64 L index) amount assetID (uUint64 L vmVersion) code
                           (if altStackNil s then None else Some (map (slice_bytes (heap s)) (altStack s)))
                           (expansionReserved s) of
                      None \<Rightarrow> vpanic
                    | Some r \<Rightarrow> vbind (vlift r) (\<lambda>ok. pushBool ok True)))))))))"

text \<open>Push a field of the context that may be absent.\<close>

definition pushField :: "(Context \<Rightarrow> slice option) \<Rightarrow> unit vmop" where
  "pushField f =
     vseq (applyCost 1) (vbind (vget (\<lambda>s. f (vcontext s))) (\<lambda>x.
       case x of None \<Rightarrow> vfail ErrContext | Some d \<Rightarrow> pushDataStack d True))"

definition pushNumField :: "lib \<Rightarrow> (Context \<Rightarrow> u64 option) \<Rightarrow> unit vmop" where
  "pushNumField L f =
     vseq (applyCost 1) (vbind (vget (\<lambda>s. f (vcontext s))) (\<lambda>x.
       case x of None \<Rightarrow> vfail ErrContext | Some n \<Rightarrow> pushBigInt L (uNewInt L n) True))"

definition opAsset :: "unit vmop" where
  "opAsset = pushField AssetID"

definition opAmount :: "lib \<Rightarrow> unit vmop" where
  "opAmount L = pushNumField L Amount"

definition opProgram :: "unit vmop" where
  "opProgram = pushField (\<lambda>c. Some (Code c))"

definition opIndex :: "lib \<Rightarrow> unit vmop" where
  "opIndex L = pushNumField L DestPos"

definition opEntryID :: "unit vmop" where
  "opEntryID = pushField (\<lambda>c. Some (EntryID c))"

definition opOutputID :: "unit vmop" where
  "opOutputID = pushField SpentOutputID"

definition opBlockHeight :: "lib \<Rightarrow> unit vmop" where
  "opBlockHeight L = pushNumField L BlockHeight"

end
