(* ===== verification/VmExec.thy ===== *)
theory VmExec
  imports VmParse VmStack VmNumeric VmCrypto
begin

text \<open>
  The execution loop: the operations of \<^verbatim>\<open>pushdata.go\<close> and \<^verbatim>\<open>control.go\<close>, the dispatch
  through the opcode table, and \<^verbatim>\<open>step\<close>, \<^verbatim>\<open>run\<close> and \<^verbatim>\<open>Verify\<close> of \<^verbatim>\<open>vm.go\<close>. Programs may loop,
  so \<open>run_loop\<close> carries a bound on the number of steps, shared with the machines that
  \<^verbatim>\<open>CHECKPREDICATE\<close> spawns; a run that the bound cuts off is \<open>NoFuel\<close>, never a result.
\<close>

section \<open>pushdata.go and control.go\<close>

definition opFalse :: "unit vmop" where
  "opFalse = vseq (applyCost 1) (pushBool False False)"

definition opPushdata :: "unit vmop" where
  "opPushdata = vseq (applyCost 1) (vbind (vget data) (\<lambda>d. pushBytes d False))"

definition opNop :: "unit vmop" where
  "opNop = applyCost 1"

definition opVerify :: "unit vmop" where
  "opVerify =
     vseq (applyCost 1) (vbind (popBytes True) (\<lambda>p. if AsBool p then vret () else vfail ErrVerifyFailed))"

definition opFail :: "unit vmop" where
  "opFail = vseq (applyCost 1) (vfail ErrReturn)"

definition opJump :: "unit vmop" where
  "opJump = vseq (applyCost 1) (vmodify (\<lambda>s. s\<lparr>nextPC := le_Uint32 (data s)\<rparr>))"

definition opJumpIf :: "unit vmop" where
  "opJumpIf =
     vseq (applyCost 1) (vbind (popBytes True) (\<lambda>p.
       if AsBool p then vmodify (\<lambda>s. s\<lparr>nextPC := le_Uint32 (data s)\<rparr>) else vret ()))"

text \<open>The composite literal \<^verbatim>\<open>childVM\<close>: the fields it does not name have their zero values.\<close>

definition childVM :: "virtualMachine \<Rightarrow> slice \<Rightarrow> int \<Rightarrow> slice list \<Rightarrow> virtualMachine" where
  "childVM s predicate limit st =
     \<lparr>vcontext = vcontext s, program = predicate, pc = 0, nextPC = 0, runLimit = limit,
      deferredCost = 0, expansionReserved = False, data = [], depth = depth s + 1,
      dataStack = st, altStack = [], altStackNil = True, heap = heap s\<rparr>"

text \<open>
  Running the child on everything above position \<open>k\<close> of the data stack. A panic of the child
  unwinds through the parent.
\<close>

definition runChild :: "unit vmop \<Rightarrow> slice \<Rightarrow> int \<Rightarrow> nat \<Rightarrow> unit vmop" where
  "runChild childRun predicate limit k s =
     (case childRun (childVM s predicate limit (drop k (dataStack s))) of (r, c) \<Rightarrow>
        let s1 = s\<lparr>dataStack := take k (dataStack s), heap := heap c\<rparr> in
        case r of
          Panic \<Rightarrow> (Panic, s1)
        | NoFuel \<Rightarrow> (NoFuel, s1)
        | _ \<Rightarrow>
          (vseq (deferCost (i64 (- runLimit c)))
            (vseq (deferCost (i64 (- stackCost (dataStack c))))
              (vseq (deferCost (i64 (- stackCost (altStack c))))
                (pushBool (r = Ret () \<and> \<not> falseResult c) True)))) s1)"

definition opCheckPredicate :: "lib \<Rightarrow> unit vmop \<Rightarrow> unit vmop" where
  "opCheckPredicate L childRun =
     vseq (applyCost 256) (vseq (deferCost (- 256 + 64))
       (vbind (popInt64 L) (\<lambda>limit. vbind (pop True) (\<lambda>predicate. vbind (popInt64 L) (\<lambda>n.
         vbind (vget (\<lambda>s. int (length (dataStack s)))) (\<lambda>l.
           let n' = (if n = 0 then l else n) in
           if n' > l then vfail ErrDataStackUnderflow
           else vbind (vget runLimit) (\<lambda>rl.
             let limit' = (if limit = 0 then rl else limit) in
             vseq (applyCost limit') (runChild childRun predicate limit' (nat (l - n'))))))))))"

section \<open>Dispatch\<close>

primrec exec_op :: "lib \<Rightarrow> unit vmop \<Rightarrow> opfn \<Rightarrow> unit vmop" where
  "exec_op L childRun Fn_opFalse = opFalse"
| "exec_op L childRun Fn_opPushdata = opPushdata"
| "exec_op L childRun Fn_opNop = opNop"
| "exec_op L childRun Fn_opJump = opJump"
| "exec_op L childRun Fn_opJumpIf = opJumpIf"
| "exec_op L childRun Fn_opVerify = opVerify"
| "exec_op L childRun Fn_opFail = opFail"
| "exec_op L childRun Fn_opToAltStack = opToAltStack"
| "exec_op L childRun Fn_opFromAltStack = opFromAltStack"
| "exec_op L childRun Fn_op2Drop = op2Drop"
| "exec_op L childRun Fn_op2Dup = op2Dup"
| "exec_op L childRun Fn_op3Dup = op3Dup"
| "exec_op L childRun Fn_op2Over = op2Over"
| "exec_op L childRun Fn_op2Rot = op2Rot"
| "exec_op L childRun Fn_op2Swap = op2Swap"
| "exec_op L childRun Fn_opIfDup = opIfDup"
| "exec_op L childRun Fn_opDepth = opDepth L"
| "exec_op L childRun Fn_opDrop = opDrop"
| "exec_op L childRun Fn_opDup = opDup"
| "exec_op L childRun Fn_opNip = opNip"
| "exec_op L childRun Fn_opOver = opOver"
| "exec_op L childRun Fn_opPick = opPick L"
| "exec_op L childRun Fn_opRoll = opRoll L"
| "exec_op L childRun Fn_opRot = opRot"
| "exec_op L childRun Fn_opSwap = opSwap"
| "exec_op L childRun Fn_opTuck = opTuck"
| "exec_op L childRun Fn_opCat = opCat L"
| "exec_op L childRun Fn_opSubstr = opSubstr L"
| "exec_op L childRun Fn_opLeft = opLeft L"
| "exec_op L childRun Fn_opRight = opRight L"
| "exec_op L childRun Fn_opSize = opSize L"
| "exec_op L childRun Fn_opCatpushdata = opCatpushdata L"
| "exec_op L childRun Fn_opInvert = opInvert"
| "exec_op L childRun Fn_opAnd = opAnd"
| "exec_op L childRun Fn_opOr = opOr"
| "exec_op L childRun Fn_opXor = opXor"
| "exec_op L childRun Fn_opEqual = opEqual"
| "exec_op L childRun Fn_opEqualVerify = opEqualVerify"
| "exec_op L childRun Fn_op1Add = op1Add L"
| "exec_op L childRun Fn_op1Sub = op1Sub L"
| "exec_op L childRun Fn_op2Mul = op2Mul L"
| "exec_op L childRun Fn_op2Div = op2Div L"
| "exec_op L childRun Fn_opNot = opNot L"
| "exec_op L childRun Fn_op0NotEqual = op0NotEqual L"
| "exec_op L childRun Fn_opAdd = opAdd L"
| "exec_op L childRun Fn_opSub = opSub L"
| "exec_op L childRun Fn_opMul = opMul L"
| "exec_op L childRun Fn_opDiv = opDiv L"
| "exec_op L childRun Fn_opMod = opMod L"
| "exec_op L childRun Fn_opLshift = opLshift L"
| "exec_op L childRun Fn_opRshift = opRshift L"
| "exec_op L childRun Fn_opBoolAnd = opBoolAnd"
| "exec_op L childRun Fn_opBoolOr = opBoolOr"
| "exec_op L childRun Fn_opNumEqual = opNumEqual L"
| "exec_op L childRun Fn_opNumEqualVerify = opNumEqualVerify L"
| "exec_op L childRun Fn_opNumNotEqual = opNumNotEqual L"
| "exec_op L childRun Fn_opLessThan = opLessThan L"
| "exec_op L childRun Fn_opGreaterThan = opGreaterThan L"
| "exec_op L childRun Fn_opLessThanOrEqual = opLessThanOrEqual L"
| "exec_op L childRun Fn_opGreaterThanOrEqual = opGreaterThanOrEqual L"
| "exec_op L childRun Fn_opMin = opMin L"
| "exec_op L childRun Fn_opMax = opMax L"
| "exec_op L childRun Fn_opWithin = opWithin L"
| "exec_op L childRun Fn_opSha256 = opSha256 L"
| "exec_op L childRun Fn_opSha3 = opSha3 L"
| "exec_op L childRun Fn_opHash160 = opHash160 L"
| "exec_op L childRun Fn_opCheckSig = opCheckSig L"
| "exec_op L childRun Fn_opCheckMultiSig = opCheckMultiSig L"
| "exec_op L childRun Fn_opTxSigHash = opTxSigHash"
| "exec_op L childRun Fn_opCheckOutput = opCheckOutput L"
| "exec_op L childRun Fn_opAsset = opAsset"
| "exec_op L childRun Fn_opAmount = opAmount L"
| "exec_op L childRun Fn_opProgram = opProgram"
| "exec_op L childRun Fn_opIndex = opIndex L"
| "exec_op L childRun Fn_opEntryID = opEntryID"
| "exec_op L childRun Fn_opOutputID = opOutputID"
| "exec_op L childRun Fn_opBlockHeight = opBlockHeight L"
| "exec_op L childRun Fn_opCheckPredicate = opCheckPredicate L childRun"

section \<open>step, run and Verify\<close>

definition step :: "lib \<Rightarrow> unit vmop \<Rightarrow> unit vmop" where
  "step L childRun s =
     (case ParseOp (slice_bytes (heap s) (program s)) (pc s) of
        Inl e \<Rightarrow> (Fail e, s)
      | Inr inst \<Rightarrow>
          let s1 = s\<lparr>nextPC := pc s + Len inst\<rparr> in
          if isExpansion (Op inst) then
            (if expansionReserved s1 then (Fail ErrDisallowedOpcode, s1)
             else applyCost 1 (s1\<lparr>pc := nextPC s1\<rparr>))
          else
            vseq (exec_op L childRun (op_fn (ops (Op inst))))
              (vbind (vget deferredCost) (\<lambda>d.
                 vseq (applyCost d) (vmodify (\<lambda>s. s\<lparr>pc := nextPC s\<rparr>))))
              (s1\<lparr>deferredCost := 0, data := Data inst\<rparr>))"

fun run_loop :: "lib \<Rightarrow> nat \<Rightarrow> unit vmop" where
  "run_loop L 0 s = (NoFuel, s)"
| "run_loop L (Suc n) s =
     (if pc s < of_nat (s_len (program s))
      then vseq (step L (\<lambda>c. run_loop L n (c\<lparr>pc := 0\<rparr>))) (run_loop L n) s
      else (Ret (), s))"

definition run :: "lib \<Rightarrow> nat \<Rightarrow> unit vmop" where
  "run L n s = run_loop L n (s\<lparr>pc := 0\<rparr>)"

fun push_all :: "(slice \<Rightarrow> bool \<Rightarrow> unit vmop) \<Rightarrow> slice list \<Rightarrow> unit vmop" where
  "push_all p [] = vret ()"
| "push_all p (x # xs) = vseq (p x False) (push_all p xs)"

definition initVM :: "Context \<Rightarrow> int \<Rightarrow> store \<Rightarrow> virtualMachine" where
  "initVM c gasLimit h =
     \<lparr>vcontext = c, program = Code c, pc = 0, nextPC = 0, runLimit = gasLimit, deferredCost = 0,
      expansionReserved = (TxVersion c = Some 1), data = [], depth = 0,
      dataStack = [], altStack = [], altStackNil = True, heap = h\<rparr>"

text \<open>
  The result of \<^verbatim>\<open>Verify\<close>: the gas left, the error and the memory left behind; \<open>None\<close> when the
  step bound was too small. The deferred function turns a panic into \<open>ErrUnexpected\<close>, with
  the zero value of the result \<^verbatim>\<open>gasLeft\<close>.
\<close>

definition Verify :: "lib \<Rightarrow> nat \<Rightarrow> Context \<Rightarrow> int \<Rightarrow> store \<Rightarrow> (int \<times> vmerr option \<times> store) option" where
  "Verify L fuel c gasLimit h =
     (if VMVersion c \<noteq> 1 then Some (gasLimit, Some ErrUnsupportedVM, h)
      else case vseq (push_all pushAltStack (StateData c))
                  (vseq (push_all pushDataStack (Arguments c)) (run L fuel)) (initVM c gasLimit h) of
        (Ret _, s) \<Rightarrow> Some (runLimit s, if falseResult s then Some ErrFalseVMResult else None, heap s)
      | (Fail e, s) \<Rightarrow> Some (runLimit s, Some e, heap s)
      | (Panic, s) \<Rightarrow> Some (0, Some ErrUnexpected, heap s)
      | (NoFuel, s) \<Rightarrow> None)"

end
