(* ===== verification/VmArith.thy ===== *)
theory VmArith
  imports VmExec
begin

text \<open>
  What the numeric opcodes compute. \<open>num_binop\<close> is the specification over natural numbers
  below \<open>2 ^ 255\<close>; the theorems show that the opcodes, which work on byte strings through
  256-bit words, implement it, errors included.
\<close>

definition num_of :: "lib \<Rightarrow> store \<Rightarrow> slice \<Rightarrow> nat option" where
  "num_of L h x = (case AsBigInt L (slice_bytes h x) of Inl _ \<Rightarrow> None | Inr v \<Rightarrow> Some (unat v))"

definition ranged :: "nat \<Rightarrow> vmerr + nat" where
  "ranged n = (if n < 2 ^ 255 then Inr n else Inl ErrRange)"

definition truth :: "bool \<Rightarrow> vmerr + nat" where
  "truth b = Inr (if b then 1 else 0)"

definition num_binops :: "(opfn \<times> (nat \<Rightarrow> nat \<Rightarrow> vmerr + nat)) list" where
  "num_binops =
     [(Fn_opAdd, \<lambda>x y. ranged (x + y)),
      (Fn_opSub, \<lambda>x y. if y \<le> x then Inr (x - y) else Inl ErrRange),
      (Fn_opMul, \<lambda>x y. ranged (x * y)),
      (Fn_opDiv, \<lambda>x y. if y = 0 then Inl ErrDivZero else Inr (x div y)),
      (Fn_opMod, \<lambda>x y. if y = 0 then Inl ErrDivZero else Inr (x mod y)),
      (Fn_opLshift, \<lambda>x y. if y < 256 then ranged (x * 2 ^ y mod 2 ^ 256) else Inr 0),
      (Fn_opRshift, \<lambda>x y. Inr (x div 2 ^ y)),
      (Fn_opNumEqual, \<lambda>x y. truth (x = y)),
      (Fn_opNumNotEqual, \<lambda>x y. truth (x \<noteq> y)),
      (Fn_opLessThan, \<lambda>x y. truth (x < y)),
      (Fn_opGreaterThan, \<lambda>x y. truth (x > y)),
      (Fn_opLessThanOrEqual, \<lambda>x y. truth (x \<le> y)),
      (Fn_opGreaterThanOrEqual, \<lambda>x y. truth (x \<ge> y)),
      (Fn_opMin, \<lambda>x y. Inr (min x y)),
      (Fn_opMax, \<lambda>x y. Inr (max x y))]"

section \<open>Popping and pushing numbers\<close>

lemma num_of_Some:
  assumes "u256_ok L" "num_of L h x = Some n"
  obtains v where "AsBigInt L (slice_bytes h x) = Inr v" "unat v = n" "n < 2 ^ 255"
  using assms AsBigInt_range [OF assms(1)] by (auto simp: num_of_def split: sum.splits)

lemma applyCost_ok: "n \<le> runLimit s \<Longrightarrow> \<exists>R. applyCost n s = (Ret (), s\<lparr>runLimit := R\<rparr>)"
  by (auto simp: applyCost_def)

lemma popBigInt_num:
  assumes "dataStack s = st @ [x]" "AsBigInt L (slice_bytes (heap s) x) = Inr v"
  shows "\<exists>D. popBigInt L True s = (Ret v, s\<lparr>dataStack := st, deferredCost := D\<rparr>)"
  using assms by (simp add: popBigInt_def popBytes_def vbind_def pop_def read_def vget_def vlift_def Let_def) blast

lemma popTwo_num:
  assumes "cost \<le> runLimit s" "dataStack s = st @ [a, b]"
    and "AsBigInt L (slice_bytes (heap s) a) = Inr x" "AsBigInt L (slice_bytes (heap s) b) = Inr y"
  shows "\<exists>R D. popTwo L cost f s = f x y (s\<lparr>runLimit := R, dataStack := st, deferredCost := D\<rparr>)"
proof -
  obtain R where 1: "applyCost cost s = (Ret (), s\<lparr>runLimit := R\<rparr>)" using applyCost_ok [OF assms(1)] by blast
  let ?s1 = "s\<lparr>runLimit := R\<rparr>"
  obtain D1 where 2: "popBigInt L True ?s1 = (Ret y, ?s1\<lparr>dataStack := st @ [a], deferredCost := D1\<rparr>)"
    using popBigInt_num [of ?s1 "st @ [a]" b L y] assms by auto
  let ?s2 = "?s1\<lparr>dataStack := st @ [a], deferredCost := D1\<rparr>"
  obtain D where 3: "popBigInt L True ?s2 = (Ret x, ?s2\<lparr>dataStack := st, deferredCost := D\<rparr>)"
    using popBigInt_num [of ?s2 st a L x] assms by auto
  show ?thesis
    using 1 2 3 by (auto simp: popTwo_def vbind_def)
qed

text \<open>The state after pushing the number \<open>k\<close> on the stack \<open>st\<close>.\<close>

definition num_pushed :: "lib \<Rightarrow> slice list \<Rightarrow> nat \<Rightarrow> unit outcome \<times> virtualMachine \<Rightarrow> bool" where
  "num_pushed L st k res \<longleftrightarrow> fst res = Ret () \<and>
     (\<exists>d. dataStack (snd res) = st @ [d] \<and> num_of L (heap (snd res)) d = Some k)"

lemma pushBigInt_pushed:
  assumes "u256_ok L" "unat z < 2 ^ 255"
  shows "num_pushed L (dataStack s) (unat z) (pushBigInt L z True s)"
  using AsBigInt_BigIntBytes [OF assms]
  by (simp add: num_pushed_def pushBigInt_def pushBytes_def pushDataStack_def vbind_def vnew_def deferCost_def
      vmodify_def num_of_def)

definition true_intact :: "store \<Rightarrow> bool" where
  "true_intact h \<longleftrightarrow> h \<noteq> [] \<and> h ! 0 = [1]"

lemma AsBigInt_bool: "u256_ok L \<Longrightarrow> AsBigInt L [] = Inr 0" "u256_ok L \<Longrightarrow> AsBigInt L [1] = Inr 1"
  by (simp_all add: AsBigInt_spec nat_of_be_def)

lemma pushBool_pushed:
  assumes "u256_ok L" "true_intact (heap s)"
  shows "num_pushed L (dataStack s) (if b then 1 else 0) (pushBool b True s)"
proof (cases b)
  case True
  have "slice_bytes (heap s) trueBytes = [1]" using assms(2) by (simp add: true_intact_def slice_bytes_def)
  with True AsBigInt_bool(2) [OF assms(1)] show ?thesis
    by (simp add: num_pushed_def pushBool_def BoolBytes_def pushDataStack_def vbind_def vret_def deferCost_def
        vmodify_def num_of_def)
next
  case False
  with AsBigInt_bool(1) [OF assms(1)] show ?thesis
    by (simp add: num_pushed_def pushBool_def BoolBytes_def pushDataStack_def vbind_def vnew_def deferCost_def
        vmodify_def num_of_def)
qed

section \<open>The opcodes implement their specification\<close>

definition implements :: "lib \<Rightarrow> slice list \<Rightarrow> vmerr + nat \<Rightarrow> unit outcome \<times> virtualMachine \<Rightarrow> bool" where
  "implements L st spec res \<longleftrightarrow> (case spec of Inl e \<Rightarrow> fst res = Fail e | Inr k \<Rightarrow> num_pushed L st k res)"

lemma implements_pushBool:
  "u256_ok L \<Longrightarrow> true_intact (heap s) \<Longrightarrow> dataStack s = st \<Longrightarrow> b = c \<Longrightarrow>
   implements L st (truth b) (pushBool c True s)"
  using pushBool_pushed [of L s c] by (auto simp: implements_def truth_def)

lemma implements_pushBigInt:
  "u256_ok L \<Longrightarrow> unat z = k \<Longrightarrow> k < 2 ^ 255 \<Longrightarrow> dataStack s = st \<Longrightarrow> implements L st (Inr k) (pushBigInt L z True s)"
  using pushBigInt_pushed [of L z s] by (auto simp: implements_def)

lemma implements_ranged:
  assumes "u256_ok L" "unat z = k" "dataStack s = st"
  shows "implements L st (ranged k) ((if uSign L z < 0 then vfail ErrRange else pushBigInt L z True) s)"
proof (cases "k < 2 ^ 255")
  case True
  with assms have "\<not> uSign L z < 0" by (simp add: u256_ok_def)
  with True implements_pushBigInt [OF assms(1,2) True assms(3)] show ?thesis by (simp add: ranged_def)
next
  case False
  with assms have "uSign L z < 0" by (auto simp: u256_ok_def)
  with False show ?thesis by (simp add: ranged_def implements_def vfail_def)
qed

text \<open>The bodies, after the two operands have been popped.\<close>

abbreviation operands :: "u256 \<Rightarrow> u256 \<Rightarrow> nat \<Rightarrow> nat \<Rightarrow> bool" where
  "operands x y m n \<equiv> unat x = m \<and> unat y = n \<and> m < 2 ^ 255 \<and> n < 2 ^ 255"

lemma body_add:
  assumes "u256_ok L" "operands x y m n" "dataStack s = st"
  shows "implements L st (ranged (m + n)) ((let z = uAdd L x y in
           if uSign L z < 0 then vfail ErrRange else pushBigInt L z True) s)"
proof -
  have "m + n < 2 ^ 256" using assms(2) by simp
  then have "unat (uAdd L x y) = m + n"
    using assms(1,2) by (auto simp: u256_ok_def unat_word_ariths)
  then show ?thesis using implements_ranged [OF assms(1) _ assms(3), of "uAdd L x y"] by (simp add: Let_def)
qed

lemma body_sub:
  assumes "u256_ok L" "operands x y m n" "dataStack s = st"
  shows "implements L st (if n \<le> m then Inr (m - n) else Inl ErrRange) ((let z = uSub L x y in
           if uSign L z < 0 then vfail ErrRange else pushBigInt L z True) s)"
proof -
  have z: "uSub L x y = x - y" using assms(1) by (simp add: u256_ok_def)
  have "unat (x - y) = (if n \<le> m then m - n else 2 ^ 256 + m - n)"
    using assms(2) by (auto simp: unat_sub_if_size word_size)
  then have "implements L st (ranged (if n \<le> m then m - n else 2 ^ 256 + m - n)) ((let z = uSub L x y in
           if uSign L z < 0 then vfail ErrRange else pushBigInt L z True) s)"
    using implements_ranged [OF assms(1) _ assms(3), of "x - y"] by (simp add: z Let_def)
  moreover have "ranged (if n \<le> m then m - n else 2 ^ 256 + m - n) = (if n \<le> m then Inr (m - n) else Inl ErrRange)"
    using assms(2) by (auto simp: ranged_def)
  ultimately show ?thesis by simp
qed

lemma body_mul:
  assumes "u256_ok L" "operands x y m n" "dataStack s = st"
  shows "implements L st (ranged (m * n)) ((case uMulOverflow L x y of (z, overflow) \<Rightarrow>
           if overflow \<or> uSign L z < 0 then vfail ErrRange else pushBigInt L z True) s)"
proof (cases "m * n < 2 ^ 256")
  case True
  then have "unat (x * y) = m * n" using assms(2) by (auto simp: unat_word_ariths)
  moreover have "uMulOverflow L x y = (x * y, False)" using assms(1,2) True by (auto simp: u256_ok_def)
  ultimately show ?thesis using implements_ranged [OF assms(1) _ assms(3), of "x * y"] by simp
next
  case False
  moreover have "uMulOverflow L x y = (x * y, True)" using assms(1,2) False by (auto simp: u256_ok_def)
  ultimately show ?thesis by (simp add: ranged_def implements_def vfail_def)
qed

lemma body_div_mod:
  assumes "u256_ok L" "operands x y m n" "dataStack s = st"
  shows "implements L st (if n = 0 then Inl ErrDivZero else Inr (m div n))
           ((if uIsZero L y then vfail ErrDivZero else pushBigInt L (uDiv L x y) True) s)"
    and "implements L st (if n = 0 then Inl ErrDivZero else Inr (m mod n))
           ((if uIsZero L y then vfail ErrDivZero else pushBigInt L (uMod L x y) True) s)"
proof -
  have z: "uIsZero L y \<longleftrightarrow> n = 0" using assms(1,2) by (auto simp: u256_ok_def unat_eq_0)
  have le: "m div n < 2 ^ 255" "m mod n < 2 ^ 255"
    using assms(2) div_le_dividend [of m n] mod_less_eq_dividend [of m n] by linarith+
  have "unat (uDiv L x y) = m div n" "n \<noteq> 0 \<Longrightarrow> unat (uMod L x y) = m mod n"
    using assms(1,2) by (auto simp: u256_ok_def unat_div_distrib unat_mod_distrib unat_eq_0)
  then show "implements L st (if n = 0 then Inl ErrDivZero else Inr (m div n))
           ((if uIsZero L y then vfail ErrDivZero else pushBigInt L (uDiv L x y) True) s)"
    "implements L st (if n = 0 then Inl ErrDivZero else Inr (m mod n))
           ((if uIsZero L y then vfail ErrDivZero else pushBigInt L (uMod L x y) True) s)"
    using z le by (auto simp: implements_def vfail_def [of ErrDivZero]
        intro!: implements_pushBigInt [OF assms(1) _ _ assms(3), unfolded implements_def, simplified])
qed

lemma shift_amount:
  assumes "u256_ok L" "unat y = n"
  shows "uLtUint64 L y 256 \<longleftrightarrow> n < 256" "n < 256 \<Longrightarrow> unat (uUint64 L y) = n"
  using assms by (auto simp: u256_ok_def unsigned_ucast_eq take_bit_nat_eq_self)

lemma body_lshift:
  assumes "u256_ok L" "operands x y m n" "dataStack s = st"
  shows "implements L st (if n < 256 then ranged (m * 2 ^ n mod 2 ^ 256) else Inr 0)
     ((let z = (if uLtUint64 L y 256 then uLsh L x (unat (uUint64 L y)) else uClear L) in
       if uSign L z < 0 then vfail ErrRange else pushBigInt L z True) s)"
proof -
  let ?z = "if uLtUint64 L y 256 then uLsh L x (unat (uUint64 L y)) else uClear L"
  have "unat (push_bit n x) = m * 2 ^ n mod 2 ^ 256"
    using assms(2) unfolding unsigned_push_bit_eq by (simp add: take_bit_eq_mod push_bit_eq_mult)
  then have "unat ?z = (if n < 256 then m * 2 ^ n mod 2 ^ 256 else 0)"
    using shift_amount [OF assms(1), of y n] assms(1,2) by (simp add: u256_ok_def)
  from implements_ranged [OF assms(1) this assms(3)] show ?thesis
    by (simp add: Let_def ranged_def split: if_splits)
qed

lemma body_rshift:
  assumes "u256_ok L" "operands x y m n" "dataStack s = st"
  shows "implements L st (Inr (m div 2 ^ n))
     ((let z = (if uLtUint64 L y 256 then uRsh L x (unat (uUint64 L y)) else uClear L) in pushBigInt L z True) s)"
proof -
  let ?z = "if uLtUint64 L y 256 then uRsh L x (unat (uUint64 L y)) else uClear L"
  have "unat (drop_bit n x) = m div 2 ^ n"
    using assms(2) unfolding unsigned_drop_bit_eq by (simp add: drop_bit_eq_div take_bit_nat_eq_self)
  moreover have "m div 2 ^ n = 0" if "\<not> n < 256"
  proof -
    have "(2::nat) ^ 255 \<le> 2 ^ n" using that by (intro power_increasing) simp_all
    then show ?thesis using assms(2) by (intro div_less) linarith
  qed
  ultimately have "unat ?z = m div 2 ^ n"
    using shift_amount [OF assms(1), of y n] assms(1,2) by (auto simp: u256_ok_def)
  moreover have "m div 2 ^ n < 2 ^ 255" using assms(2) div_le_dividend [of m "2 ^ n"] by linarith
  ultimately show ?thesis unfolding Let_def by (intro implements_pushBigInt [OF assms(1) _ _ assms(3)])
qed

lemma uCmp_operands:
  assumes "u256_ok L" "operands x y m n"
  shows "uCmp L x y = (if m < n then - 1 else if m = n then 0 else 1)"
proof -
  have "uCmp L x y = (if x < y then - 1 else if x = y then 0 else 1)"
    using assms(1) by (simp add: u256_ok_def)
  then show ?thesis using assms(2) by (auto simp: word_less_nat_alt word_unat_eq_iff)
qed

lemma body_compare:
  assumes "u256_ok L" "operands x y m n" "dataStack s = st" "true_intact (heap s)"
  shows "implements L st (truth (cmp_result c (if m < n then - 1 else if m = n then 0 else 1)))
           (pushBool (cmp_result c (uCmp L x y)) True s)"
proof -
  have "uCmp L x y = (if m < n then - 1 else if m = n then 0 else 1)"
    using assms(2) by (rule uCmp_operands [OF assms(1)])
  then show ?thesis using implements_pushBool [OF assms(1,4,3)] by simp
qed

lemma body_min_max:
  assumes "u256_ok L" "operands x y m n" "dataStack s = st"
  shows "implements L st (Inr (min m n)) ((if uCmp L x y > 0 then pushBigInt L y True else pushBigInt L x True) s)"
    and "implements L st (Inr (max m n)) ((if uCmp L x y < 0 then pushBigInt L y True else pushBigInt L x True) s)"
proof -
  have "uCmp L x y = (if m < n then - 1 else if m = n then 0 else 1)"
    using assms(2) by (rule uCmp_operands [OF assms(1)])
  then show "implements L st (Inr (min m n)) ((if uCmp L x y > 0 then pushBigInt L y True else pushBigInt L x True) s)"
    "implements L st (Inr (max m n)) ((if uCmp L x y < 0 then pushBigInt L y True else pushBigInt L x True) s)"
    using assms(2) by (auto simp: min_def max_def intro!: implements_pushBigInt [OF assms(1) _ _ assms(3)])
qed

lemma popTwo_implements:
  assumes "cost \<le> runLimit s" "dataStack s = st @ [a, b]" "u256_ok L"
    and "num_of L (heap s) a = Some m" "num_of L (heap s) b = Some n"
    and body: "\<And>x y s'. operands x y m n \<Longrightarrow> dataStack s' = st \<Longrightarrow> heap s' = heap s \<Longrightarrow> implements L st sp (f x y s')"
  shows "implements L st sp (popTwo L cost f s)"
proof -
  obtain x where x: "AsBigInt L (slice_bytes (heap s) a) = Inr x" "unat x = m" "m < 2 ^ 255"
    by (rule num_of_Some [OF assms(3,4)])
  obtain y where y: "AsBigInt L (slice_bytes (heap s) b) = Inr y" "unat y = n" "n < 2 ^ 255"
    by (rule num_of_Some [OF assms(3,5)])
  obtain R D where "popTwo L cost f s = f x y (s\<lparr>runLimit := R, dataStack := st, deferredCost := D\<rparr>)"
    using popTwo_num [OF assms(1,2) x(1) y(1)] by blast
  then show ?thesis using body [of x y] x y by simp
qed

definition cmp_nat :: "nat \<Rightarrow> nat \<Rightarrow> int" where
  "cmp_nat m n = (if m < n then - 1 else if m = n then 0 else 1)"

lemma cmp_truth:
  "(m = n) = cmp_result cmpEqual (cmp_nat m n)" "(m \<noteq> n) = cmp_result cmpNotEqual (cmp_nat m n)"
  "(m < n) = cmp_result cmpLess (cmp_nat m n)" "(m > n) = cmp_result cmpGreater (cmp_nat m n)"
  "(m \<le> n) = cmp_result cmpLessEqual (cmp_nat m n)" "(m \<ge> n) = cmp_result cmpGreaterEqual (cmp_nat m n)"
  by (auto simp: cmp_nat_def)

lemmas binop_defs = opAdd_def opSub_def opMul_def opDiv_def opMod_def opLshift_def opRshift_def opMin_def opMax_def

lemmas compare_defs = opNumEqual_def opNumNotEqual_def opLessThan_def opGreaterThan_def opLessThanOrEqual_def
  opGreaterThanOrEqual_def doNumCompare_def

lemma numeric_binop_implements:
  assumes "u256_ok L" "true_intact (heap s)" "8 \<le> runLimit s" "dataStack s = st @ [a, b]"
    and "num_of L (heap s) a = Some m" "num_of L (heap s) b = Some n" "(fn, spec) \<in> set num_binops"
  shows "implements L st (spec m n) (exec_op L c fn s)"
proof -
  have two: "implements L st sp (popTwo L cost f s)"
    if "cost \<le> 8" "\<And>x y s'. operands x y m n \<Longrightarrow> dataStack s' = st \<Longrightarrow> true_intact (heap s') \<Longrightarrow> implements L st sp (f x y s')"
    for cost sp f
    using that assms by (intro popTwo_implements [OF _ assms(4,1,5,6)]) auto
  note bodies = body_add [OF assms(1)] body_sub [OF assms(1)] body_mul [OF assms(1)] body_div_mod [OF assms(1)]
    body_lshift [OF assms(1)] body_rshift [OF assms(1)] body_min_max [OF assms(1)]
  have arith: "implements L st (ranged (m + n)) (opAdd L s)"
    "implements L st (if n \<le> m then Inr (m - n) else Inl ErrRange) (opSub L s)"
    "implements L st (ranged (m * n)) (opMul L s)"
    "implements L st (if n = 0 then Inl ErrDivZero else Inr (m div n)) (opDiv L s)"
    "implements L st (if n = 0 then Inl ErrDivZero else Inr (m mod n)) (opMod L s)"
    "implements L st (if n < 256 then ranged (m * 2 ^ n mod 2 ^ 256) else Inr 0) (opLshift L s)"
    "implements L st (Inr (m div 2 ^ n)) (opRshift L s)"
    "implements L st (Inr (min m n)) (opMin L s)" "implements L st (Inr (max m n)) (opMax L s)"
    unfolding binop_defs by (intro two bodies; simp)+
  have c: "implements L st (truth (cmp_result k (cmp_nat m n))) (doNumCompare L k s)" for k
    unfolding doNumCompare_def by (intro two body_compare [OF assms(1), folded cmp_nat_def]; simp)
  have cmp: "implements L st (truth (m = n)) (opNumEqual L s)"
    "implements L st (truth (m \<noteq> n)) (opNumNotEqual L s)"
    "implements L st (truth (m < n)) (opLessThan L s)"
    "implements L st (truth (m > n)) (opGreaterThan L s)"
    "implements L st (truth (m \<le> n)) (opLessThanOrEqual L s)"
    "implements L st (truth (m \<ge> n)) (opGreaterThanOrEqual L s)"
    unfolding compare_defs(1-6)
    using c [of cmpEqual] c [of cmpNotEqual] c [of cmpLess] c [of cmpGreater] c [of cmpLessEqual] c [of cmpGreaterEqual]
    by (simp_all only: cmp_truth [where m = m and n = n, symmetric])
  show ?thesis
    using assms(7) arith cmp unfolding num_binops_def list.set insert_iff prod.inject
    by (elim disjE; (elim conjE)?; simp)
qed

end
