(* ===== verification/VmFrame.thy ===== *)
theory VmFrame
  imports VmExec "HOL-Library.Sublist"
begin

text \<open>
  What an operation leaves alone: the program, the context, the flags of the machine and, for every
  opcode but \<^verbatim>\<open>CAT\<close>, \<^verbatim>\<open>CATPUSHDATA\<close> and \<^verbatim>\<open>CHECKPREDICATE\<close>, the arrays that are already in the
  store. Only \<^verbatim>\<open>PICK\<close> can panic by itself.
\<close>

definition same_env :: "virtualMachine \<Rightarrow> virtualMachine \<Rightarrow> bool" where
  "same_env s s' \<longleftrightarrow> program s' = program s \<and> vcontext s' = vcontext s \<and>
     expansionReserved s' = expansionReserved s \<and> depth s' = depth s"

text \<open>\<open>frame w p m\<close>: without \<open>w\<close> the old arrays are kept, without \<open>p\<close> there is no panic.\<close>

definition frame :: "bool \<Rightarrow> bool \<Rightarrow> 'a vmop \<Rightarrow> bool" where
  "frame w p m \<longleftrightarrow> (\<forall>s. same_env s (snd (m s)) \<and> fst (m s) \<noteq> NoFuel \<and>
     (fst (m s) = Panic \<longrightarrow> p) \<and> (\<not> w \<longrightarrow> prefix (heap s) (heap (snd (m s)))))"

lemma frame_bind:
  assumes "frame w p m" "\<And>x. frame w p (f x)"
  shows "frame w p (vbind m f)"
  unfolding frame_def
proof
  fix s
  obtain r s1 where m: "m s = (r, s1)" by fastforce
  show "same_env s (snd (vbind m f s)) \<and> fst (vbind m f s) \<noteq> NoFuel \<and> (fst (vbind m f s) = Panic \<longrightarrow> p) \<and>
        (\<not> w \<longrightarrow> prefix (heap s) (heap (snd (vbind m f s))))"
  proof (cases r)
    case (Ret x)
    have "same_env s s1" "\<not> w \<longrightarrow> prefix (heap s) (heap s1)" using assms(1) m by (auto simp: frame_def dest: spec [of _ s])
    moreover have "same_env s1 (snd (f x s1))" "\<not> w \<longrightarrow> prefix (heap s1) (heap (snd (f x s1)))"
      "fst (f x s1) \<noteq> NoFuel" "fst (f x s1) = Panic \<longrightarrow> p"
      using assms(2) [of x] by (auto simp: frame_def)
    ultimately show ?thesis
      using m Ret by (auto simp: same_env_def intro: prefix_order.trans)
  qed (use assms(1) m in \<open>auto simp: frame_def vbind_def dest: spec [of _ s]\<close>)
qed

lemma frame_prim:
  "frame w p (vret y)" "frame w p (vfail e)" "frame w p (vget f)" "frame w True vpanic"
  "frame w p (vlift r)" "frame w p (applyCost n)" "frame w p (deferCost n)" "frame w p (pop b)"
  "frame w p (vnew bs)" "frame w p top_item" "frame w p (read x)"
  "frame w p (vmodify (\<lambda>s. s\<lparr>dataStack := g1 s\<rparr>))"
  "frame w p (vmodify (\<lambda>s. s\<lparr>nextPC := g2 s\<rparr>))"
  "frame w p (vmodify (\<lambda>s. s\<lparr>altStack := g3 s, altStackNil := b\<rparr>))"
  "frame w p (vmodify (\<lambda>s. s\<lparr>dataStack := g1 s, altStack := g3 s\<rparr>))"
  "frame w p (vmodify (\<lambda>s. s\<lparr>altStack := g3 s, altStackNil := b, dataStack := g1 s\<rparr>))"
  by (auto simp: frame_def vm_defs same_env_def alloc_def Let_def split: sum.splits)

lemma frame_append: "frame True p (vappend L a bs)"
  by (auto simp: frame_def vm_defs same_env_def split: prod.splits)

lemma frame_append_nil: "frame w p (vappend L nil_slice bs)"
  by (auto simp: frame_def vm_defs same_env_def go_append_def nil_slice_def slice_bytes_def write_at_def Let_def
      list_update_id split: prod.splits)

lemma frame_if: "frame w p m1 \<Longrightarrow> frame w p m2 \<Longrightarrow> frame w p (if b then m1 else m2)"
  by simp

lemma frame_option: "frame w p m1 \<Longrightarrow> (\<And>x. frame w p (m2 x)) \<Longrightarrow> frame w p (case z of None \<Rightarrow> m1 | Some x \<Rightarrow> m2 x)"
  by (simp split: option.splits)

lemma frame_prod: "(\<And>x y. frame w p (m x y)) \<Longrightarrow> frame w p (case z of (x, y) \<Rightarrow> m x y)"
  by (simp split: prod.splits)

lemma frame_push:
  "frame w p (pushDataStack d b)" "frame w p (pushAltStack d b)" "frame w p (pushBytes bs b)" "frame w p (pushBool c b)"
  unfolding pushDataStack_def pushAltStack_def pushBool_def pushBytes_def BoolBytes_def
  by (intro frame_bind frame_if frame_prim)+

lemma frame_pops: "frame w p (popBytes b)" "frame w p (popBigInt L b)" "frame w p (popInt64 L)"
  "frame w p (pushBigInt L n b)"
  unfolding popBytes_def popBigInt_def popInt64_def pushBigInt_def
  by (intro frame_bind frame_prim frame_push)+

lemma frame_popN: "frame w p (popN n)"
  by (induction n) (auto intro!: frame_bind frame_prim)

lemma frame_repeat: "frame w p m \<Longrightarrow> frame w p (vrepeat n m)"
  by (induction n) (auto intro!: frame_bind frame_prim)

lemmas frame_intros = frame_bind frame_prim frame_if frame_option frame_prod frame_push frame_pops frame_popN
  frame_repeat

lemma frame_stack:
  "frame w p opToAltStack" "frame w p opFromAltStack" "frame w p op2Drop" "frame w p op2Dup" "frame w p op3Dup"
  "frame w p op2Over" "frame w p op2Rot" "frame w p op2Swap" "frame w p opIfDup" "frame w p (opDepth L)"
  "frame w p opDrop" "frame w p opDup" "frame w p opNip" "frame w p opOver" "frame w True (opPick L)"
  "frame w p (opRoll L)" "frame w p opRot" "frame w p opSwap" "frame w p opTuck"
  unfolding opToAltStack_def opFromAltStack_def op2Drop_def op2Dup_def op3Dup_def op2Over_def op2Rot_def
    op2Swap_def opIfDup_def opDepth_def opDrop_def opDup_def opNip_def opOver_def opPick_def opRoll_def
    opRot_def opSwap_def opTuck_def nDup_def push_nth_def rot_def Let_def
  by (intro frame_intros)+

lemma frame_numeric:
  "frame w p (op1Add L)" "frame w p (op1Sub L)" "frame w p (op2Mul L)" "frame w p (op2Div L)"
  "frame w p (opNot L)" "frame w p (op0NotEqual L)" "frame w p (opAdd L)" "frame w p (opSub L)"
  "frame w p (opMul L)" "frame w p (opDiv L)" "frame w p (opMod L)" "frame w p (opLshift L)"
  "frame w p (opRshift L)" "frame w p opBoolAnd" "frame w p opBoolOr" "frame w p (opNumEqual L)"
  "frame w p (opNumEqualVerify L)" "frame w p (opNumNotEqual L)" "frame w p (opLessThan L)"
  "frame w p (opGreaterThan L)" "frame w p (opLessThanOrEqual L)" "frame w p (opGreaterThanOrEqual L)"
  "frame w p (opMin L)" "frame w p (opMax L)" "frame w p (opWithin L)"
  unfolding op1Add_def op1Sub_def op2Mul_def op2Div_def opNot_def op0NotEqual_def popTwo_def opAdd_def opSub_def
    opMul_def opDiv_def opMod_def opLshift_def opRshift_def opBoolAnd_def opBoolOr_def doNumCompare_def
    opNumEqual_def opNumEqualVerify_def opNumNotEqual_def opLessThan_def opGreaterThan_def
    opLessThanOrEqual_def opGreaterThanOrEqual_def opMin_def opMax_def opWithin_def Let_def
  by (intro frame_intros)+

lemma frame_bits:
  "frame w p opInvert" "frame w p opAnd" "frame w p opOr" "frame w p opXor" "frame w p opEqual"
  "frame w p opEqualVerify" "frame w p (opSubstr L)" "frame w p (opLeft L)" "frame w p (opRight L)"
  "frame w p (opSize L)"
  unfolding opInvert_def opAnd_def doOr_def opOr_def opXor_def doEqual_def opEqual_def opEqualVerify_def
    opSubstr_def opLeft_def opRight_def opSize_def Let_def
  by (intro frame_intros)+

lemma frame_cat: "frame True p (opCat L)" "frame True p (opCatpushdata L)"
  unfolding opCat_def opCatpushdata_def Let_def by (intro frame_intros frame_append)+

lemma frame_crypto:
  "frame w p (opSha256 L)" "frame w p (opSha3 L)" "frame w p (opHash160 L)" "frame w p (opCheckSig L)"
  "frame w p (opCheckMultiSig L)" "frame w p opTxSigHash" "frame w True (opCheckOutput L)" "frame w p opAsset"
  "frame w p (opAmount L)" "frame w p opProgram" "frame w p (opIndex L)" "frame w p opEntryID"
  "frame w p opOutputID" "frame w p (opBlockHeight L)"
  unfolding opSha256_def opSha3_def opHash160_def doHash_def opCheckSig_def opCheckMultiSig_def
    opTxSigHash_def opCheckOutput_def pushField_def pushNumField_def opAsset_def opAmount_def opProgram_def
    opIndex_def opEntryID_def opOutputID_def opBlockHeight_def Let_def
  by (intro frame_intros frame_append_nil)+

lemma frame_control:
  "frame w p opFalse" "frame w p opPushdata" "frame w p opNop" "frame w p opVerify" "frame w p opFail"
  "frame w p opJump" "frame w p opJumpIf"
  unfolding opFalse_def opPushdata_def opNop_def opVerify_def opFail_def opJump_def opJumpIf_def
  by (intro frame_intros)+

lemmas frame_ops = frame_stack frame_numeric frame_bits frame_cat frame_crypto frame_control

lemma frame_exec_op:
  assumes "fn \<noteq> Fn_opCheckPredicate" "fn = Fn_opCat \<or> fn = Fn_opCatpushdata \<Longrightarrow> w" "fn = Fn_opPick \<or> fn = Fn_opCheckOutput \<Longrightarrow> p"
  shows "frame w p (exec_op L childRun fn)"
  using assms by (cases fn) (simp_all add: frame_ops)

end
