(* ===== verification/VmGas.thy ===== *)
theory VmGas
  imports VmExec "HOL-Library.Multiset"
begin

text \<open>
  Gas accounting. The potential \<open>Phi\<close> of a machine is its run limit plus the price of the items on
  its stacks minus the deferred cost: pushing and popping leave it alone, every charge lowers
  it. Triples \<open>gas\<close> for the operations bound the potential from above and show that every
  opcode but \<^verbatim>\<open>CHECKPREDICATE\<close> lowers the measure \<open>mu\<close>, which bounds the number of steps.
\<close>

section \<open>The potential\<close>

definition SC :: "slice list \<Rightarrow> int" where
  "SC st = sum_list (map (\<lambda>x. 8 + int (s_len x)) st)"

definition Phi :: "virtualMachine \<Rightarrow> int" where
  "Phi s = runLimit s + SC (dataStack s) + SC (altStack s) - deferredCost s"

definition mu :: "virtualMachine \<Rightarrow> int" where
  "mu s = 2 * Phi s + int (length (dataStack s))"

text \<open>Slices and gas limits below this bound cannot make the 64-bit arithmetic wrap.\<close>

abbreviation gas_cap :: int where
  "gas_cap \<equiv> 2305843009213693952"

definition small_slice :: "slice \<Rightarrow> bool" where
  "small_slice x \<longleftrightarrow> int (s_len x) < gas_cap"

definition ctx_small :: "Context \<Rightarrow> bool" where
  "ctx_small c \<longleftrightarrow> small_slice (Code c) \<and> small_slice (EntryID c) \<and>
     pred_option small_slice (AssetID c) \<and> pred_option small_slice (SpentOutputID c) \<and>
     pred_option small_slice (TxSigHash c)"

definition gas_inv :: "int \<Rightarrow> virtualMachine \<Rightarrow> bool" where
  "gas_inv M s \<longleftrightarrow> M \<le> gas_cap \<and> 0 \<le> runLimit s \<and> deferredCost s \<le> 0 \<and> Phi s \<le> M \<and>
     ctx_small (vcontext s) \<and> int (length (data s)) < gas_cap"

text \<open>After the deferred push that may end an operation the deferred cost can be positive.\<close>

definition gas_end :: "int \<Rightarrow> virtualMachine \<Rightarrow> bool" where
  "gas_end M s \<longleftrightarrow> 0 \<le> M \<and> M \<le> gas_cap \<and> 0 \<le> runLimit s \<and> \<bar>deferredCost s\<bar> \<le> gas_cap + 72 \<and> Phi s \<le> M \<and>
     ctx_small (vcontext s)"

lemma SC_simps [simp]:
  "SC [] = 0" "SC (x # xs) = 8 + int (s_len x) + SC xs" "SC (xs @ ys) = SC xs + SC ys"
  by (simp_all add: SC_def)

lemma SC_nonneg [simp]: "0 \<le> SC st"
  by (simp add: SC_def sum_list_nonneg_int)

lemma SC_butlast: "st \<noteq> [] \<Longrightarrow> SC (butlast st) = SC st - 8 - int (s_len (last st))"
  by (simp add: SC_def sum_list_butlast)

lemma SC_take_drop: "SC (take n st) + SC (drop n st) = SC st"
  by (simp add: SC_def sum_list_take_drop)

lemma SC_member: "x \<in> set st \<Longrightarrow> 8 + int (s_len x) \<le> SC st"
proof (induction st)
  case (Cons y st)
  then show ?case using SC_nonneg [of st] by auto
qed simp

lemma SC_length: "8 * int (length st) \<le> SC st"
  by (induction st) auto

lemma SC_perm: "mset xs = mset ys \<Longrightarrow> SC xs = SC ys"
  unfolding SC_def by (metis mset_map sum_mset_sum_list)

lemma gas_inv_bounds:
  assumes "gas_inv M s"
  shows "0 \<le> runLimit s" "runLimit s \<le> M" "M \<le> gas_cap" "deferredCost s \<le> 0" "- M \<le> deferredCost s"
    "SC (dataStack s) \<le> M" "SC (altStack s) \<le> M"
  using assms SC_nonneg [of "dataStack s"] SC_nonneg [of "altStack s"]
  unfolding gas_inv_def Phi_def by linarith+

section \<open>Triples\<close>

text \<open>
  \<open>gas M k P m\<close>: from a state within budget, \<open>m\<close> lowers the measure by at least \<open>k\<close>, its
  result satisfies \<open>P\<close>, and a failure leaves a run limit within the budget.
\<close>

abbreviation gas_post :: "int \<Rightarrow> int \<Rightarrow> ('a \<Rightarrow> bool) \<Rightarrow> virtualMachine \<Rightarrow> 'a outcome \<times> virtualMachine \<Rightarrow> bool" where
  "gas_post M k P s rs \<equiv>
     (case rs of
        (Ret x, s') \<Rightarrow> gas_inv M s' \<and> mu s' + k \<le> mu s \<and> P x
      | (Fail e, s') \<Rightarrow> 0 \<le> runLimit s' \<and> runLimit s' \<le> M
      | _ \<Rightarrow> True)"

abbreviation op_post :: "int \<Rightarrow> int \<Rightarrow> virtualMachine \<Rightarrow> unit outcome \<times> virtualMachine \<Rightarrow> bool" where
  "op_post M k s rs \<equiv>
     (case rs of
        (Ret x, s') \<Rightarrow> gas_end M s' \<and> mu s' + k \<le> mu s
      | (Fail e, s') \<Rightarrow> 0 \<le> runLimit s' \<and> runLimit s' \<le> M
      | _ \<Rightarrow> True)"

definition gas :: "int \<Rightarrow> int \<Rightarrow> ('a \<Rightarrow> bool) \<Rightarrow> 'a vmop \<Rightarrow> bool" where
  "gas M k P m \<longleftrightarrow> (\<forall>s. gas_inv M s \<longrightarrow> gas_post M k P s (m s))"

definition gas_op :: "int \<Rightarrow> int \<Rightarrow> unit vmop \<Rightarrow> bool" where
  "gas_op M k m \<longleftrightarrow> (\<forall>s. gas_inv M s \<longrightarrow> op_post M k s (m s))"

lemma gas_bind:
  assumes "gas M a P m" "\<And>x. P x \<Longrightarrow> gas M (k - a) Q (f x)"
  shows "gas M k Q (vbind m f)"
  unfolding gas_def
proof (intro allI impI)
  fix s assume s: "gas_inv M s"
  show "gas_post M k Q s (vbind m f s)"
  proof (cases "m s")
    case (Pair r s1)
    show ?thesis
    proof (cases r)
      case (Ret x)
      with assms(1) s Pair have m: "gas_inv M s1" "mu s1 + a \<le> mu s" "P x" by (auto simp: gas_def)
      with assms(2) [of x] have "gas_post M (k - a) Q s1 (f x s1)" by (auto simp: gas_def)
      with m(2) Pair Ret show ?thesis by (auto split: prod.splits outcome.splits)
    qed (use assms(1) s Pair in \<open>auto simp: gas_def vbind_def\<close>)
  qed
qed

lemma gas_op_bind:
  assumes "gas M a P m" "\<And>x. P x \<Longrightarrow> gas_op M (k - a) (f x)"
  shows "gas_op M k (vbind m f)"
  unfolding gas_op_def
proof (intro allI impI)
  fix s assume s: "gas_inv M s"
  show "op_post M k s (vbind m f s)"
  proof (cases "m s")
    case (Pair r s1)
    show ?thesis
    proof (cases r)
      case (Ret x)
      with assms(1) s Pair have m: "gas_inv M s1" "mu s1 + a \<le> mu s" "P x" by (auto simp: gas_def)
      with assms(2) [of x] have "op_post M (k - a) s1 (f x s1)" by (auto simp: gas_op_def)
      with m(2) Pair Ret show ?thesis by (auto split: prod.splits outcome.splits)
    qed (use assms(1) s Pair in \<open>auto simp: gas_def vbind_def\<close>)
  qed
qed

lemma gas_inv_end:
  assumes "gas_inv M s"
  shows "gas_end M s"
proof -
  have "\<bar>deferredCost s\<bar> \<le> gas_cap + 72" "0 \<le> M"
    using gas_inv_bounds [OF assms] by linarith+
  with assms show ?thesis by (simp add: gas_end_def gas_inv_def)
qed

lemma gas_imp_gas_op:
  fixes m :: "unit vmop"
  assumes "gas M k P m"
  shows "gas_op M k m"
  unfolding gas_op_def
proof (intro allI impI)
  fix s assume s: "gas_inv M s"
  obtain r s' where "m s = (r, s')" by fastforce
  with assms s gas_inv_end [of M s'] show "op_post M k s (m s)"
    by (cases r) (auto simp: gas_def)
qed

lemma gasD: "gas M k P m \<Longrightarrow> gas_inv M s \<Longrightarrow> gas_post M k P s (m s)"
  by (simp add: gas_def)

lemma gas_weaken: "gas M k P m \<Longrightarrow> k' \<le> k \<Longrightarrow> (\<And>x. P x \<Longrightarrow> Q x) \<Longrightarrow> gas M k' Q m"
  by (fastforce simp: gas_def split: prod.splits outcome.splits)

section \<open>Primitives\<close>

lemma gas_ret: "k \<le> 0 \<Longrightarrow> P x \<Longrightarrow> gas M k P (vret x)"
  by (simp add: gas_def vret_def)

lemma gas_fail: "gas M k P (vfail e)"
  by (auto simp: gas_def vfail_def dest: gas_inv_bounds)

lemma gas_panic: "gas M k P vpanic"
  by (simp add: gas_def vpanic_def)

lemma gas_get: "gas M 0 (\<lambda>_. True) (vget f)"
  by (simp add: gas_def vget_def)

lemma gas_read: "gas M 0 (\<lambda>bs. length bs \<le> s_len x) (read x)"
  by (simp add: gas_def read_def vget_def length_slice_bytes_le)

lemma gas_lift: "gas M 0 (\<lambda>x. r = Inr x) (vlift r)"
  by (auto simp: gas_def vlift_def split: sum.splits dest: gas_inv_bounds)

lemma gas_inv_heap [simp]:
  "gas_inv M (s\<lparr>heap := h\<rparr>) = gas_inv M s" "mu (s\<lparr>heap := h\<rparr>) = mu s"
  "gas_inv M (s\<lparr>nextPC := p\<rparr>) = gas_inv M s" "mu (s\<lparr>nextPC := p\<rparr>) = mu s"
  by (simp_all add: gas_inv_def mu_def Phi_def)

lemma gas_vnew: "gas M 0 (\<lambda>x. s_len x = length bs) (vnew bs)"
  by (simp add: gas_def vnew_def)

lemma gas_append: "gas M 0 (\<lambda>x. s_len x = s_len a + length bs) (vappend L a bs)"
  using go_append_len [of "growcap L" _ a bs] by (auto simp: gas_def vappend_def case_prod_beta)

lemma gas_BoolBytes: "gas M 0 (\<lambda>x. s_len x \<le> 1) (BoolBytes b)"
  using gas_vnew [of M "[]"] by (auto simp: BoolBytes_def intro!: gas_ret elim: gas_weaken)

lemma gas_applyCost:
  assumes "0 \<le> n"
  shows "gas M (2 * n) (\<lambda>_. n \<le> gas_cap) (applyCost n)"
  unfolding gas_def
proof (intro allI impI)
  fix s assume s: "gas_inv M s"
  note b = gas_inv_bounds [OF s]
  show "gas_post M (2 * n) (\<lambda>_. n \<le> gas_cap) s (applyCost n s)"
  proof (cases "n > runLimit s")
    case True
    then show ?thesis using b by (simp add: applyCost_def)
  next
    case False
    then have "i64 (runLimit s - n) = runLimit s - n" "n \<le> gas_cap"
      using b assms by (auto intro!: i64_id)
    with False s b assms show ?thesis by (simp add: applyCost_def gas_inv_def mu_def Phi_def)
  qed
qed

lemma itemCost_eq: "int (s_len x) \<le> gas_cap + 64 \<Longrightarrow> itemCost x = 8 + int (s_len x)"
  by (simp add: itemCost_def i64_id)

lemma SC_last_small:
  assumes "gas_inv M s" "dataStack s \<noteq> []"
  shows "8 + int (s_len (last (dataStack s))) \<le> M"
  using SC_member [of "last (dataStack s)" "dataStack s"] gas_inv_bounds(6) [OF assms(1)] assms(2) by simp

lemma gas_top: "gas M 0 small_slice top_item"
  unfolding gas_def
proof (intro allI impI)
  fix s assume s: "gas_inv M s"
  then show "gas_post M 0 small_slice s (top_item s)"
    using SC_last_small [OF s] gas_inv_bounds [OF s] by (auto simp: top_item_def small_slice_def)
qed

lemma gas_pop: "gas M 1 small_slice (pop b)"
  unfolding gas_def
proof (intro allI impI)
  fix s assume s: "gas_inv M s"
  note b = gas_inv_bounds [OF s]
  show "gas_post M 1 small_slice s (pop b s)"
  proof (cases "dataStack s = []")
    case True
    then show ?thesis using b by (simp add: pop_def)
  next
    case False
    define c where "c = 8 + int (s_len (last (dataStack s)))"
    have c: "c \<le> M" using SC_last_small [OF s False] by (simp add: c_def)
    have cost: "itemCost (last (dataStack s)) = c" using b c unfolding c_def by (intro itemCost_eq) simp
    have SC: "SC (dataStack s) = SC (butlast (dataStack s)) + c" using SC_butlast [OF False] by (simp add: c_def)
    have "deferredCost s - c \<ge> - M" "runLimit s + c \<le> M"
      using s SC SC_nonneg [of "butlast (dataStack s)"] SC_nonneg [of "altStack s"]
      unfolding gas_inv_def Phi_def by linarith+
    moreover have "0 \<le> c" "small_slice (last (dataStack s))" using c b by (auto simp: c_def small_slice_def)
    ultimately have "i64 (- c) = - c" "i64 (deferredCost s - c) = deferredCost s - c"
      "i64 (runLimit s + c) = runLimit s + c" "0 \<le> c" "small_slice (last (dataStack s))"
      using b c by (auto intro!: i64_id)
    with False s SC c b show ?thesis
      by (cases b) (auto simp: pop_def cost gas_inv_def mu_def Phi_def Let_def of_nat_diff Suc_le_eq)
  qed
qed

lemma gas_popBytes: "gas M 1 (\<lambda>bs. int (length bs) < gas_cap) (popBytes b)"
  unfolding popBytes_def
  by (rule gas_bind [OF gas_pop], rule gas_weaken [OF gas_read]) (auto simp: small_slice_def)

lemma gas_popBigInt: "gas M 1 (\<lambda>_. True) (popBigInt L b)"
  unfolding popBigInt_def
  by (rule gas_bind [OF gas_popBytes], rule gas_weaken [OF gas_lift]) auto

lemma bigIntInt64_range: "bigIntInt64 L n = Inr x \<Longrightarrow> 0 \<le> x \<and> x \<le> MaxInt64"
  using swrap_range [of 64 "uint (uUint64 L n)"]
  by (auto simp: bigIntInt64_def int64_of_def in_swrap_def Let_def split: if_splits)

lemma gas_popInt64: "gas M 1 (\<lambda>n. 0 \<le> n \<and> n \<le> MaxInt64) (popInt64 L)"
  unfolding popInt64_def
  by (rule gas_bind [OF gas_popBigInt], rule gas_weaken [OF gas_lift]) (auto dest: bigIntInt64_range)

lemma gas_popN: "gas M (int n) (\<lambda>_. True) (popN n)"
proof (induction n)
  case (Suc n)
  show ?case
    unfolding popN.simps
    by (rule gas_bind [OF gas_pop], rule gas_bind [OF Suc.IH], rule gas_ret) auto
qed (simp add: gas_ret)

lemma gas_push_now:
  assumes "int (s_len d) \<le> gas_cap + 64"
  shows "gas M (- 1) (\<lambda>_. True) (pushDataStack d False)"
  unfolding gas_def
proof (intro allI impI)
  fix s assume s: "gas_inv M s"
  note b = gas_inv_bounds [OF s]
  define c where "c = 8 + int (s_len d)"
  have cost: "itemCost d = c" using itemCost_eq [OF assms] by (simp add: c_def)
  show "gas_post M (- 1) (\<lambda>_. True) s (pushDataStack d False s)"
  proof (cases "c > runLimit s")
    case True
    then show ?thesis using b by (simp add: pushDataStack_def vbind_def applyCost_def cost)
  next
    case False
    then have "i64 (runLimit s - c) = runLimit s - c" using b by (auto simp: c_def intro!: i64_id)
    with False s b show ?thesis
      by (simp add: pushDataStack_def vbind_def applyCost_def cost vmodify_def gas_inv_def mu_def Phi_def c_def)
  qed
qed

lemma gas_op_push:
  assumes "int (s_len d) \<le> gas_cap + 64" "k \<le> - 1"
  shows "gas_op M k (pushDataStack d True)"
  unfolding gas_op_def
proof (intro allI impI)
  fix s assume s: "gas_inv M s"
  note b = gas_inv_bounds [OF s]
  have cost: "itemCost d = 8 + int (s_len d)" using itemCost_eq [OF assms(1)] .
  have i: "i64 (deferredCost s + (8 + int (s_len d))) = deferredCost s + (8 + int (s_len d))"
    using b assms(1) by (auto intro!: i64_id)
  have "\<bar>deferredCost s + (8 + int (s_len d))\<bar> \<le> gas_cap + 72" "0 \<le> M" using b assms(1) by linarith+
  with i s assms(2) show "op_post M k s (pushDataStack d True s)"
    by (simp add: pushDataStack_def vbind_def deferCost_def cost vmodify_def gas_inv_def gas_end_def mu_def Phi_def)
qed

lemma gas_opD:
  "gas_op M k m \<Longrightarrow> gas_inv M s \<Longrightarrow>
     op_post M k s (m s)"
  by (auto simp: gas_op_def)

lemma gas_op_refund:
  assumes "0 \<le> n" "n \<le> gas_cap \<Longrightarrow> gas_op M k f"
  shows "gas_op M k (vseq (applyCost n) (vseq (deferCost (i64 (- n))) f))"
  unfolding gas_op_def
proof (intro allI impI)
  fix s assume s: "gas_inv M s"
  note b = gas_inv_bounds [OF s]
  let ?m = "vseq (applyCost n) (vseq (deferCost (i64 (- n))) f)"
  show "op_post M k s (?m s)"
  proof (cases "n > runLimit s")
    case True
    then show ?thesis using b by (simp add: vbind_def applyCost_def)
  next
    case False
    let ?s = "s\<lparr>runLimit := runLimit s - n, deferredCost := deferredCost s - n\<rparr>"
    have "- M \<le> deferredCost s - n"
      using False s SC_nonneg [of "dataStack s"] SC_nonneg [of "altStack s"] unfolding gas_inv_def Phi_def by linarith
    with False have "i64 (runLimit s - n) = runLimit s - n" "i64 (- n) = - n" "n \<le> gas_cap"
      "i64 (deferredCost s + - n) = deferredCost s + - n"
      using b assms(1) by (auto intro!: i64_id)
    then have "?m s = f ?s" "n \<le> gas_cap" using False by (simp_all add: vbind_def applyCost_def deferCost_def)
    moreover have "gas_inv M ?s" "mu ?s = mu s" using False s assms(1) by (auto simp: gas_inv_def mu_def Phi_def)
    moreover from assms(2) calculation(2) have "gas_op M k f" by simp
    ultimately show ?thesis using gas_opD [of M k f ?s] by (simp only:)
  qed
qed

section \<open>Operations\<close>

lemma gas_op_pushBool: "k \<le> - 1 \<Longrightarrow> gas_op M k (pushBool b True)"
  unfolding pushBool_def by (rule gas_op_bind [OF gas_BoolBytes], rule gas_op_push) auto

lemma gas_op_pushBytes: "int (length bs) \<le> gas_cap + 64 \<Longrightarrow> k \<le> - 1 \<Longrightarrow> gas_op M k (pushBytes bs True)"
  unfolding pushBytes_def by (rule gas_op_bind [OF gas_vnew], rule gas_op_push) auto

lemma gas_op_pushBigInt: "u256_ok L \<Longrightarrow> k \<le> - 1 \<Longrightarrow> gas_op M k (pushBigInt L n True)"
  using length_BigIntBytes [of L n] unfolding pushBigInt_def by (intro gas_op_pushBytes) auto

lemma gas_pushBytes: "int (length bs) \<le> gas_cap + 64 \<Longrightarrow> gas M (- 1) (\<lambda>_. True) (pushBytes bs False)"
  unfolding pushBytes_def
  by (rule gas_bind [OF gas_vnew], rule gas_weaken [OF gas_push_now]) auto

lemma gas_pushBigInt: "u256_ok L \<Longrightarrow> gas M (- 1) (\<lambda>_. True) (pushBigInt L n False)"
  using length_BigIntBytes [of L n] unfolding pushBigInt_def by (intro gas_pushBytes) auto

lemma gas_pushBool: "gas M (- 1) (\<lambda>_. True) (pushBool b False)"
  unfolding pushBool_def
  by (rule gas_bind [OF gas_BoolBytes], rule gas_weaken [OF gas_push_now]) auto

lemma gas_op_weaken: "gas_op M k m \<Longrightarrow> k' \<le> k \<Longrightarrow> gas_op M k' m"
  by (fastforce simp: gas_op_def split: prod.splits outcome.splits)

lemma gas_op_if: "(b \<Longrightarrow> gas_op M k m1) \<Longrightarrow> (\<not> b \<Longrightarrow> gas_op M k m2) \<Longrightarrow> gas_op M k (if b then m1 else m2)"
  by simp

lemma gas_op_leaf: "gas M a P m \<Longrightarrow> k \<le> a \<Longrightarrow> gas_op M k m" for m :: "unit vmop"
  by (rule gas_imp_gas_op, rule gas_weaken [where Q = "\<lambda>_. True"]) auto

lemmas gas_intros =
  gas_op_refund
  gas_op_bind [OF gas_applyCost] gas_op_bind [OF gas_pop] gas_op_bind [OF gas_popBytes]
  gas_op_bind [OF gas_popBigInt] gas_op_bind [OF gas_popInt64] gas_op_bind [OF gas_popN]
  gas_op_bind [OF gas_read] gas_op_bind [OF gas_get] gas_op_bind [OF gas_lift]
  gas_op_bind [OF gas_top] gas_op_bind [OF gas_vnew] gas_op_bind [OF gas_append]
  gas_op_push gas_op_pushBool gas_op_pushBytes gas_op_pushBigInt
  gas_op_leaf [OF gas_pushBool] gas_op_leaf [OF gas_pushBytes] gas_op_leaf [OF gas_pushBigInt]
  gas_op_leaf [OF gas_push_now] gas_op_leaf [OF gas_applyCost]
  gas_imp_gas_op [OF gas_fail] gas_imp_gas_op [OF gas_panic] gas_imp_gas_op [OF gas_ret]
  gas_op_if

lemmas numeric_defs =
  op1Add_def op1Sub_def op2Mul_def op2Div_def opNot_def op0NotEqual_def popTwo_def opAdd_def opSub_def
  opMul_def opDiv_def opMod_def opLshift_def opRshift_def opBoolAnd_def opBoolOr_def doNumCompare_def
  opNumEqual_def opNumEqualVerify_def opNumNotEqual_def opLessThan_def opGreaterThan_def
  opLessThanOrEqual_def opGreaterThanOrEqual_def opMin_def opMax_def opWithin_def

lemma gas_numeric:
  assumes "u256_ok L"
  shows "gas_op M 1 (op1Add L)" "gas_op M 1 (op1Sub L)" "gas_op M 1 (op2Mul L)" "gas_op M 1 (op2Div L)"
    "gas_op M 1 (opNot L)" "gas_op M 1 (op0NotEqual L)" "gas_op M 1 (opAdd L)" "gas_op M 1 (opSub L)"
    "gas_op M 1 (opMul L)" "gas_op M 1 (opDiv L)" "gas_op M 1 (opMod L)" "gas_op M 1 (opLshift L)"
    "gas_op M 1 (opRshift L)" "gas_op M 1 opBoolAnd" "gas_op M 1 opBoolOr"
  unfolding numeric_defs Let_def case_prod_beta by (intro gas_intros assms; simp)+

lemma gas_numeric2:
  assumes "u256_ok L"
  shows "gas_op M 1 (opNumEqual L)" "gas_op M 1 (opNumEqualVerify L)"
    "gas_op M 1 (opNumNotEqual L)" "gas_op M 1 (opLessThan L)" "gas_op M 1 (opGreaterThan L)"
    "gas_op M 1 (opLessThanOrEqual L)" "gas_op M 1 (opGreaterThanOrEqual L)"
    "gas_op M 1 (opMin L)" "gas_op M 1 (opMax L)" "gas_op M 1 (opWithin L)"
  unfolding numeric_defs Let_def by (intro gas_intros assms; simp)+

lemmas bit_defs = opAnd_def doOr_def opOr_def opXor_def doEqual_def opEqual_def opEqualVerify_def
lemmas splice_defs = opCat_def opSubstr_def opLeft_def opRight_def opSize_def opCatpushdata_def

lemma length_or_bytes [simp]: "length (or_bytes b x y) = max (length x) (length y)"
  by (simp add: or_bytes_def)

lemma vbind_assoc: "vbind (vbind m f) g = vbind m (\<lambda>x. vbind (f x) g)"
  by (rule ext) (simp add: vbind_def split: prod.splits outcome.splits)

lemma vbind_ret [simp]: "vbind (vret x) f = f x"
  by (rule ext) (simp add: vbind_def vret_def)

lemma vseq_ret [simp]: "vseq m (vret ()) = m"
  by (rule ext) (simp add: vbind_def vret_def split: prod.splits outcome.splits)

lemma gas_bits: "gas_op M 1 opAnd" "gas_op M 1 opOr" "gas_op M 1 opXor" "gas_op M 1 opEqual" "gas_op M 1 opEqualVerify"
  unfolding bit_defs vbind_assoc vbind_ret by (intro gas_intros; simp add: small_slice_def)+

lemma length_PushDataBytes: "length (PushDataBytes bs) \<le> length bs + 5"
  by (simp add: PushDataBytes_def Let_def)

lemma i64_len: "int n \<le> 2 * gas_cap \<Longrightarrow> i64 (int n) = int n"
  by (simp add: i64_id)

lemma gas_splice:
  assumes "u256_ok L"
  shows "gas_op M 1 (opCat L)" "gas_op M 1 (opCatpushdata L)"
proof -
  have *: "i64 (int (s_len a) + int (s_len b)) = int (s_len a) + int (s_len b)"
    if "small_slice a" "small_slice b" for a b
    using that by (intro i64_id) (simp_all add: small_slice_def)
  show "gas_op M 1 (opCat L)"
    unfolding splice_defs Let_def by (intro gas_intros; simp add: *)
  have "int (s_len xd) \<le> gas_cap + 64"
    if "int (s_len xb) + int (s_len xa) \<le> gas_cap" "length xc \<le> s_len xa"
      "s_len xd = s_len xb + length (PushDataBytes xc)" for xa xb xd :: slice and xc
    using that length_PushDataBytes [of xc] by linarith
  then show "gas_op M 1 (opCatpushdata L)"
    unfolding splice_defs Let_def by (intro gas_intros; simp add: *)
qed

lemma gas_substr: "gas_op M 1 (opSubstr L)"
proof -
  have "int (nat e - nat b) \<le> gas_cap + 64" if "small_slice x" "\<not> int (s_len x) < e" for x e b
    using that unfolding small_slice_def by linarith
  then show ?thesis
    unfolding splice_defs case_prod_beta by (intro gas_intros; simp)
qed

lemma gas_left_right_size:
  assumes "u256_ok L"
  shows "gas_op M 1 (opLeft L)" "gas_op M 1 (opRight L)" "gas_op M 1 (opSize L)"
  unfolding splice_defs Let_def by (intro gas_intros assms; simp add: small_slice_def)+

lemmas crypto_defs = opSha256_def opSha3_def opHash160_def doHash_def opCheckSig_def opTxSigHash_def
lemmas introspection_defs = opCheckOutput_def pushField_def pushNumField_def opAsset_def opAmount_def
  opProgram_def opIndex_def opEntryID_def opOutputID_def opBlockHeight_def

lemma gas_hash:
  assumes "hash_ok L"
  shows "gas_op M 1 (opSha256 L)" "gas_op M 1 (opSha3 L)" "gas_op M 1 (opHash160 L)"
proof -
  have "length (sha256 L x) = 32" "length (sha3_256 L x) = 32" "length (ripemd160 L x) = 20" for x
    using assms by (auto simp: hash_ok_def)
  moreover have "i64 (int (s_len x) + 64) = int (s_len x) + 64" if "small_slice x" for x
    using that by (intro i64_id) (simp_all add: small_slice_def)
  ultimately show "gas_op M 1 (opSha256 L)" "gas_op M 1 (opSha3 L)" "gas_op M 1 (opHash160 L)"
    unfolding crypto_defs Let_def by (intro gas_intros; simp add: nil_slice_def)+
qed

lemma gas_checksig: "gas_op M 1 (opCheckSig L)"
  unfolding crypto_defs by (intro gas_intros; simp)

lemma gas_checkmultisig: "gas_op M 1 (opCheckMultiSig L)"
proof -
  have mul: "0 \<le> fst (MulInt64 x 1024)" if "0 \<le> x" "x \<le> MaxInt64" "snd (MulInt64 x 1024)" for x
    using that int64.mul_law [of x 1024] by (auto simp: in_i64_iff exact_or_fail_def split: if_splits)
  have mul2: "- x - y - 2 * fst (MulInt64 x 1024) \<le> 1"
    if "0 \<le> y" "\<not> x < y" "x \<le> MaxInt64" "snd (MulInt64 x 1024)" for x y
    using that mul [of x] by simp
  show ?thesis
    unfolding opCheckMultiSig_def case_prod_beta by (intro gas_intros; simp add: mul mul2)
qed

lemma gas_checkoutput: "gas_op M 1 (opCheckOutput L)"
  unfolding opCheckOutput_def case_prod_beta option.case_eq_if by (intro gas_intros; simp)

lemma gas_op_get: "(\<And>s. gas_inv M s \<Longrightarrow> op_post M k s (g (f s) s)) \<Longrightarrow> gas_op M k (vbind (vget f) g)"
  by (simp add: gas_op_def vbind_def vget_def)

lemma gas_pushField:
  assumes "\<And>c. ctx_small c \<Longrightarrow> pred_option small_slice (f c)"
  shows "gas_op M 1 (pushField f)"
proof -
  have "op_post M (1 - 2 * 1) s ((case f (vcontext s) of None \<Rightarrow> vfail ErrContext | Some d \<Rightarrow> pushDataStack d True) s)"
    if s: "gas_inv M s" for s
  proof (cases "f (vcontext s)")
    case None
    then show ?thesis using gas_inv_bounds [OF s] by (simp add: vfail_def)
  next
    case (Some d)
    with assms [of "vcontext s"] s have "int (s_len d) \<le> gas_cap + 64"
      by (simp add: gas_inv_def small_slice_def)
    with gas_opD [OF gas_op_push s] Some show ?thesis by simp
  qed
  then show ?thesis
    unfolding pushField_def by (intro gas_op_bind [OF gas_applyCost] gas_op_get) auto
qed

lemma gas_introspection:
  assumes "u256_ok L"
  shows "gas_op M 1 opAsset" "gas_op M 1 opProgram" "gas_op M 1 opEntryID" "gas_op M 1 opOutputID"
    "gas_op M 1 (opAmount L)" "gas_op M 1 (opIndex L)" "gas_op M 1 (opBlockHeight L)"
  unfolding opAsset_def opProgram_def opEntryID_def opOutputID_def
     apply (intro gas_pushField; simp add: ctx_small_def)+
  unfolding introspection_defs option.case_eq_if by (intro gas_intros assms; simp)+

lemma gas_TxSigHash: "gas_op M 1 opTxSigHash"
proof -
  have "op_post M (1 - 2 * 256) s ((case TxSigHash (vcontext s) of None \<Rightarrow> vfail ErrContext | Some d \<Rightarrow> pushDataStack d False) s)"
    if s: "gas_inv M s" for s
  proof (cases "TxSigHash (vcontext s)")
    case None
    then show ?thesis using gas_inv_bounds [OF s] by (simp add: vfail_def)
  next
    case (Some d)
    with s have "int (s_len d) \<le> gas_cap + 64"
      by (simp add: gas_inv_def small_slice_def ctx_small_def)
    with gas_opD [OF gas_op_leaf [OF gas_push_now] s, of d "1 - 2 * 256"] Some show ?thesis by simp
  qed
  then show ?thesis
    unfolding opTxSigHash_def by (intro gas_op_bind [OF gas_applyCost] gas_op_get) auto
qed

section \<open>Stack operations\<close>

lemma gas_op_modify:
  assumes "\<And>s. gas_inv M s \<Longrightarrow> \<not> c (dataStack s) \<Longrightarrow>
      SC (g (dataStack s)) = SC (dataStack s) \<and> length (g (dataStack s)) = length (dataStack s)"
    and "k \<le> 0"
  shows "gas_op M k (vbind (vget dataStack) (\<lambda>st.
           if c st then vfail e else vmodify (\<lambda>s. s\<lparr>dataStack := g st\<rparr>)))"
proof (rule gas_op_get)
  fix s assume s: "gas_inv M s"
  let ?s = "s\<lparr>dataStack := g (dataStack s)\<rparr>"
  show "op_post M k s ((if c (dataStack s) then vfail e
      else vmodify (\<lambda>s'. s'\<lparr>dataStack := g (dataStack s)\<rparr>)) s)"
  proof (cases "c (dataStack s)")
    case True
    then show ?thesis using gas_inv_bounds [OF s] by (simp add: vfail_def)
  next
    case False
    then have "gas_inv M ?s" "mu ?s = mu s" using assms(1) [OF s False] s by (auto simp: gas_inv_def mu_def Phi_def)
    with gas_inv_end [of M ?s] False assms(2) show ?thesis by (simp add: vmodify_def)
  qed
qed

lemma SC_cut: "n < length st \<Longrightarrow> SC st = SC (take n st) + (8 + int (s_len (st ! n))) + SC (drop (Suc n) st)"
  by (metis SC_simps(2,3) id_take_nth_drop add.assoc)

lemma SC_update_swap:
  "i < length st \<Longrightarrow> j < length st \<Longrightarrow> SC (st[i := st ! j, j := st ! i]) = SC st"
  by (intro SC_perm) (simp add: mset_swap)

lemmas gas_op_perm = gas_op_bind [OF gas_applyCost] gas_op_modify gas_imp_gas_op [OF gas_fail] gas_op_if

lemma SC_rot: "n < length st \<Longrightarrow> SC (take n st @ drop (n + 1) st @ [st ! n]) = SC st"
  using SC_cut [of n st] by simp

lemma gas_rot: "k \<le> 0 \<Longrightarrow> gas_op M k (rot n)"
  unfolding rot_def Let_def by (intro gas_op_perm conjI SC_rot; simp)

lemma SC_rot2:
  assumes "n \<le> length st" "1 < n"
  shows "SC (take (length st - n) st @ drop (length st - (n - 2)) st @
            [st ! (length st - n)] @ [st ! (length st - (n - 1))]) = SC st"
proof -
  have "Suc (length st - n) = length st - (n - 1)" "Suc (length st - (n - 1)) = length st - (n - 2)"
    using assms by simp_all
  then show ?thesis
    using assms SC_cut [of "length st - n" st] SC_cut [of 0 "drop (length st - (n - 1)) st"] by simp
qed

lemma gas_perm_ops:
  "gas_op M 1 opRot" "gas_op M 1 op2Rot" "gas_op M 1 op2Swap" "gas_op M 1 opSwap"
  unfolding opRot_def op2Rot_def op2Swap_def opSwap_def Let_def
  using SC_rot2 [of 6] SC_rot2 [of 4] 
  by (intro gas_op_perm gas_rot; simp add: SC_update_swap)+

lemma gas_roll: "gas_op M 1 (opRoll L)"
  unfolding opRoll_def case_prod_beta by (intro gas_intros gas_rot; simp)

text \<open>Operations that copy an item found by its depth.\<close>

lemma gas_push_nth:
  assumes "gas_inv M s" "0 < n" "n \<le> length (dataStack s)"
  shows "gas_post M (- 1) (\<lambda>_. True) s (push_nth n s) \<and>
         (\<forall>s'. push_nth n s = (Ret (), s') \<longrightarrow> n \<le> length (dataStack s'))"
proof -
  let ?x = "dataStack s ! (length (dataStack s) - n)"
  have "8 + int (s_len ?x) \<le> SC (dataStack s)" using assms by (intro SC_member) simp
  then have "int (s_len ?x) \<le> gas_cap + 64" using gas_inv_bounds [OF assms(1)] by linarith
  then have "gas_post M (- 1) (\<lambda>_. True) s (pushDataStack ?x False s)"
    by (intro gasD [OF gas_push_now] assms)
  moreover have "n \<le> length (dataStack s')" if "pushDataStack ?x False s = (Ret (), s')" for s'
    using that assms(3) by (auto simp: vm_defs elim!: vbind_RetE split: if_splits)
  ultimately show ?thesis by (simp add: push_nth_def vbind_def vget_def)
qed

lemma gas_repeat_push:
  assumes "gas_inv M s" "0 < n" "n \<le> length (dataStack s)"
  shows "gas_post M (- int j) (\<lambda>_. True) s (vrepeat j (push_nth n) s)"
  using assms
proof (induction j arbitrary: s)
  case (Suc j)
  obtain r s1 where r: "push_nth n s = (r, s1)" by fastforce
  show ?case
  proof (cases r)
    case (Ret u)
    with gas_push_nth [OF Suc.prems] r have "gas_inv M s1" "mu s1 - 1 \<le> mu s" "n \<le> length (dataStack s1)"
      by auto
    with Suc.IH [of s1] Suc.prems(2) r Ret show ?thesis
      by (auto split: prod.splits outcome.splits)
  qed (use gas_push_nth [OF Suc.prems] r in \<open>auto simp: vbind_def\<close>)
qed (simp add: vret_def)

lemma gas_op_repeat:
  assumes "0 < n" "k + int j \<le> 0"
  shows "gas_op M k (vbind (vget dataStack) (\<lambda>st. if length st < n then vfail e else vrepeat j (push_nth n)))"
proof (rule gas_op_get)
  fix s assume s: "gas_inv M s"
  show "op_post M k s ((if length (dataStack s) < n then vfail e else vrepeat j (push_nth n)) s)"
  proof (cases "length (dataStack s) < n")
    case True
    then show ?thesis using gas_inv_bounds [OF s] by (simp add: vfail_def)
  next
    case False
    with gas_repeat_push [OF s assms(1), of j] assms(2) show ?thesis
      by (auto split: prod.splits outcome.splits intro: gas_inv_end)
  qed
qed

lemma gas_dup_ops: "gas_op M 1 op2Dup" "gas_op M 1 op3Dup" "gas_op M 1 opDup" "gas_op M 1 op2Over"
  unfolding op2Dup_def op3Dup_def opDup_def op2Over_def nDup_def
  by (intro gas_op_bind [OF gas_applyCost] gas_op_repeat; simp)+

lemma gas_over: "gas_op M 1 opOver"
  unfolding opOver_def
  by (intro gas_op_bind [OF gas_applyCost] gas_op_repeat [of 2 _ "Suc 0", unfolded vrepeat.simps vseq_ret]) simp_all

lemma gas_pick: "gas_op M 1 (opPick L)"
proof -
  have *: "op_post M (1 - 2 * 2 - 1) s
     ((if int (length (dataStack s)) < off then vfail ErrDataStackUnderflow
       else let idx = i64 (int (length (dataStack s)) - off) in
         if idx < 0 \<or> int (length (dataStack s)) \<le> idx then vpanic
         else pushDataStack (dataStack s ! nat idx) False) s)" if s: "gas_inv M s" for s off
  proof -
    define idx where "idx = i64 (int (length (dataStack s)) - off)"
    have "int (s_len (dataStack s ! nat idx)) \<le> gas_cap + 64" if "\<not> (idx < 0 \<or> int (length (dataStack s)) \<le> idx)"
      using that SC_member [of "dataStack s ! nat idx" "dataStack s"] gas_inv_bounds [OF s]
      by (simp add: nth_mem nat_less_iff)
    from gas_opD [OF gas_op_leaf [OF gas_push_now [OF this]] s, of "1 - 2 * 2 - 1"] gas_inv_bounds [OF s]
    show ?thesis unfolding idx_def [symmetric] Let_def by (auto simp: vfail_def vpanic_def)
  qed
  show ?thesis
    unfolding opPick_def case_prod_beta
    by (intro gas_op_bind [OF gas_applyCost] gas_op_bind [OF gas_popBigInt] gas_op_if gas_op_get
        gas_imp_gas_op [OF gas_fail] *) simp_all
qed

lemma gas_alt_ops: "gas_op M 1 opToAltStack" "gas_op M 1 opFromAltStack"
proof -
  have e: "gas_end M s'" if "gas_inv M s" "runLimit s' = runLimit s" "deferredCost s' = deferredCost s"
    "vcontext s' = vcontext s" "SC (dataStack s') + SC (altStack s') = SC (dataStack s) + SC (altStack s)"
    "data s' = data s" for s s'
    using that by (intro gas_inv_end) (simp add: gas_inv_def Phi_def)
  have *: "op_post M (1 - 2 * 2) s ((if dataStack s = [] then vfail ErrDataStackUnderflow
      else vmodify (\<lambda>s'. s'\<lparr>altStack := altStack s' @ [last (dataStack s)], altStackNil := False,
                              dataStack := butlast (dataStack s)\<rparr>)) s)" if s: "gas_inv M s" for s
    using s gas_inv_bounds [OF s]
    by (auto simp: vfail_def vmodify_def mu_def Phi_def SC_butlast of_nat_diff Suc_le_eq intro!: e [OF s])
  show "gas_op M 1 opToAltStack"
    unfolding opToAltStack_def by (intro gas_op_bind [OF gas_applyCost] gas_op_get *) simp_all
  have *: "op_post M (1 - 2 * 2) s ((if altStack s = [] then vfail ErrAltStackUnderflow
      else vmodify (\<lambda>s'. s'\<lparr>dataStack := dataStack s' @ [last (altStack s)], altStack := butlast (altStack s)\<rparr>)) s)"
    if s: "gas_inv M s" for s
    using s gas_inv_bounds [OF s]
    by (auto simp: vfail_def vmodify_def mu_def Phi_def SC_butlast intro!: e [OF s])
  show "gas_op M 1 opFromAltStack"
    unfolding opFromAltStack_def by (intro gas_op_bind [OF gas_applyCost] gas_op_get *) simp_all
qed

text \<open>The remaining stack operations and those of the execution loop.\<close>

lemma gas_IfDup: "gas_op M 1 opIfDup"
  unfolding opIfDup_def by (intro gas_intros; simp add: small_slice_def)

lemma gas_drop_ops: "gas_op M 1 opDrop" "gas_op M 1 op2Drop"
  unfolding opDrop_def op2Drop_def numeral_2_eq_2 vrepeat.simps vbind_assoc vbind_ret
  by (intro gas_intros; simp)+

lemma gas_depth: "u256_ok L \<Longrightarrow> gas_op M 1 (opDepth L)"
  unfolding opDepth_def by (intro gas_intros; simp)

lemma gas_invert: "gas_op M 1 opInvert"
proof -
  let ?put = "\<lambda>x. vmodify (\<lambda>s. s\<lparr>dataStack := butlast (dataStack s) @ [x]\<rparr>)"
  let ?m = "\<lambda>top. vbind (read top) (\<lambda>bs. vbind (vnew (map NOT bs)) ?put)"
  have *: "op_post M k s (vseq (applyCost n) (?m (last (dataStack s))) s)"
    if "gas_inv M s" "dataStack s \<noteq> []" "0 \<le> n" "k \<le> 0" for s n k
  proof -
    define bs where "bs = map NOT (slice_bytes (heap s) (last (dataStack s)))"
    have len: "int (length bs) \<le> int (s_len (last (dataStack s)))"
      by (simp add: bs_def length_slice_bytes_le)
    obtain r s1 where r: "applyCost n s = (r, s1)" by fastforce
    have a: "gas_post M (2 * n) (\<lambda>_. n \<le> gas_cap) s (r, s1)"
      using gasD [OF gas_applyCost [OF that(3)] that(1)] r by simp
    show ?thesis
    proof (cases r)
      case (Ret u)
      let ?s = "s1\<lparr>dataStack := butlast (dataStack s1) @ [snd (alloc (heap s1) bs)], heap := fst (alloc (heap s1) bs)\<rparr>"
      have s1: "dataStack s1 = dataStack s" "heap s1 = heap s" using r Ret by (auto simp: applyCost_def split: if_splits)
      then have "vseq (applyCost n) (?m (last (dataStack s))) s = (Ret (), ?s)"
        using r Ret by (simp add: vbind_def read_def vget_def vnew_def vmodify_def bs_def)
      moreover have "gas_inv M ?s" "mu ?s \<le> mu s1"
        using a Ret len that(2) s1 SC_butlast [OF that(2)]
        by (auto simp: gas_inv_def mu_def Phi_def)
      ultimately show ?thesis using a Ret that(3,4) gas_inv_end [of M ?s] by simp
    qed (use a r in \<open>auto simp: vbind_def\<close>)
  qed
  have "gas_op M (1 - 2 * 1) (vbind top_item (\<lambda>top. vseq (applyCost (int (s_len top))) (?m top)))"
    unfolding gas_op_def
  proof (intro allI impI)
    fix s assume s: "gas_inv M s"
    show "op_post M (1 - 2 * 1) s (vbind top_item (\<lambda>top. vseq (applyCost (int (s_len top))) (?m top)) s)"
    proof (cases "dataStack s = []")
      case True
      then show ?thesis using gas_inv_bounds [OF s] by (simp add: vbind_def top_item_def)
    next
      case False
      then have "vbind top_item (\<lambda>top. vseq (applyCost (int (s_len top))) (?m top)) s =
          vseq (applyCost (int (s_len (last (dataStack s))))) (?m (last (dataStack s))) s"
        by (simp add: vbind_def top_item_def)
      with * [OF s False, of "int (s_len (last (dataStack s)))" "1 - 2 * 1"] show ?thesis by simp
    qed
  qed
  then show ?thesis
    unfolding opInvert_def by (intro gas_op_bind [OF gas_applyCost]) simp_all
qed

lemma gas_Nip: "gas_op M 1 opNip"
proof -
  let ?m = "vbind top_item (\<lambda>top. vseq (vmodify (\<lambda>s. s\<lparr>dataStack := butlast (dataStack s)\<rparr>))
      (vbind (pop False) (\<lambda>_. vmodify (\<lambda>s. s\<lparr>dataStack := dataStack s @ [top]\<rparr>))))"
  have "gas_op M (1 - 2 * 1) ?m"
    unfolding gas_op_def
  proof (intro allI impI)
    fix s assume s: "gas_inv M s"
    note b = gas_inv_bounds [OF s]
    consider "dataStack s = []" | t where "dataStack s = [t]" | xs y t where "dataStack s = xs @ [y, t]"
      by (cases "dataStack s" rule: rev_cases; cases "butlast (dataStack s)" rule: rev_cases) auto
    then show "op_post M (1 - 2 * 1) s (?m s)"
    proof cases
      case 3
      define c where "c = 8 + int (s_len y)"
      have c: "0 \<le> c" "c \<le> M" "runLimit s + c \<le> M"
        using s SC_nonneg [of xs] SC_nonneg [of "altStack s"] unfolding gas_inv_def Phi_def c_def 3 SC_simps
        by linarith+
      then have i: "itemCost y = c" "i64 (runLimit s + c) = runLimit s + c"
        using b unfolding c_def by (auto intro!: itemCost_eq i64_id)
      let ?s = "s\<lparr>dataStack := xs @ [t], runLimit := runLimit s + c\<rparr>"
      have "?m s = (Ret (), ?s)"
        using 3 i by (simp add: vbind_def top_item_def vmodify_def pop_def Let_def butlast_append)
      moreover have "gas_inv M ?s" "mu ?s \<le> mu s" using s 3 c by (auto simp: gas_inv_def mu_def Phi_def c_def)
      ultimately show ?thesis using gas_inv_end [of M ?s] by simp
    qed (use b in \<open>auto simp: vbind_def top_item_def vmodify_def pop_def\<close>)
  qed
  then show ?thesis unfolding opNip_def by (intro gas_op_bind [OF gas_applyCost]) simp_all
qed

lemma gas_Tuck: "gas_op M 1 opTuck"
proof -
  let ?m = "\<lambda>st. if length st < 2 then vfail ErrDataStackUnderflow
     else vseq (vmodify (\<lambda>s. s\<lparr>dataStack := take (length st - 2) st\<rparr>))
       (vseq (pushDataStack (drop (length st - 2) st ! 1) False)
         (vmodify (\<lambda>s. s\<lparr>dataStack := dataStack s @ drop (length st - 2) st\<rparr>)))"
  have *: "op_post M (1 - 2 * 1) s (?m (dataStack s) s)" if s: "gas_inv M s" for s
  proof (cases "length (dataStack s) < 2")
    case True
    then show ?thesis using gas_inv_bounds [OF s] by (simp add: vfail_def)
  next
    case False
    then obtain xs a t where st: "dataStack s = xs @ [a, t]"
      by (cases "dataStack s" rule: rev_cases; cases "butlast (dataStack s)" rule: rev_cases) auto
    note b = gas_inv_bounds [OF s]
    define c where "c = 8 + int (s_len t)"
    have "0 \<le> c" "c \<le> M" using b(6) SC_nonneg [of xs] unfolding c_def st SC_simps by linarith+
    then have cost: "itemCost t = c" using b unfolding c_def by (auto intro!: itemCost_eq)
    show ?thesis
    proof (cases "c > runLimit s")
      case True
      then show ?thesis using st b by (simp add: vbind_def vmodify_def pushDataStack_def cost applyCost_def)
    next
      case False
      let ?s = "s\<lparr>dataStack := xs @ [t, a, t], runLimit := runLimit s - c\<rparr>"
      have "i64 (runLimit s - c) = runLimit s - c" using False b \<open>0 \<le> c\<close> by (auto intro!: i64_id)
      then have "?m (dataStack s) s = (Ret (), ?s)"
        using st False by (simp add: vbind_def vmodify_def pushDataStack_def cost applyCost_def)
      moreover have "gas_inv M ?s" "mu ?s \<le> mu s + 1" using s st False by (auto simp: gas_inv_def mu_def Phi_def c_def)
      ultimately show ?thesis using gas_inv_end [of M ?s] by simp
    qed
  qed
  show ?thesis unfolding opTuck_def Let_def by (intro gas_op_bind [OF gas_applyCost] gas_op_get *) simp_all
qed

lemma gas_op_jump: "k \<le> 0 \<Longrightarrow> gas_op M k (vmodify (\<lambda>s. s\<lparr>nextPC := f s\<rparr>))"
  using gas_inv_end by (auto simp: gas_op_def vmodify_def)

lemma gas_op_pushdata: "gas_op M 1 opPushdata"
proof -
  have "op_post M (1 - 2 * 1) s (pushBytes (data s) False s)" if s: "gas_inv M s" for s
    using s by (intro gas_opD [OF gas_op_leaf [OF gas_pushBytes]]) (auto simp: gas_inv_def)
  then show ?thesis
    unfolding opPushdata_def by (intro gas_op_bind [OF gas_applyCost] gas_op_get) simp_all
qed

lemma gas_control:
  "gas_op M 1 opFalse" "gas_op M 1 opNop" "gas_op M 1 opVerify" "gas_op M 1 opFail"
  "gas_op M 1 opJump" "gas_op M 1 opJumpIf"
  unfolding opFalse_def opNop_def opVerify_def opFail_def opJump_def opJumpIf_def
  by (intro gas_intros gas_op_jump; simp)+

lemmas gas_ops = gas_control gas_op_pushdata gas_Nip gas_Tuck gas_invert gas_depth gas_drop_ops gas_IfDup
  gas_alt_ops gas_pick gas_over gas_dup_ops gas_roll gas_perm_ops gas_TxSigHash gas_introspection
  gas_checkoutput gas_checkmultisig gas_checksig gas_hash gas_left_right_size gas_substr gas_splice
  gas_bits gas_numeric gas_numeric2

lemma gas_exec_op:
  assumes "u256_ok L" "hash_ok L" "fn \<noteq> Fn_opCheckPredicate"
  shows "gas_op M 1 (exec_op L childRun fn)"
  using assms(3) by (cases fn) (simp_all add: gas_ops assms(1,2) gas_numeric [OF assms(1)] gas_introspection [OF assms(1)])

section \<open>Steps\<close>

text \<open>At the boundary between two steps the deferred cost has been settled.\<close>

definition gas_state :: "int \<Rightarrow> virtualMachine \<Rightarrow> bool" where
  "gas_state M s \<longleftrightarrow> M \<le> gas_cap \<and> 0 \<le> runLimit s \<and> runLimit s + SC (dataStack s) + SC (altStack s) \<le> M \<and>
     ctx_small (vcontext s)"

definition nu :: "virtualMachine \<Rightarrow> int" where
  "nu s = 2 * (runLimit s + SC (dataStack s) + SC (altStack s)) + int (length (dataStack s))"

lemma nu_bounds:
  assumes "gas_state M s"
  shows "0 \<le> nu s" "nu s \<le> 3 * M" "0 \<le> runLimit s" "runLimit s \<le> M"
proof -
  have "0 \<le> runLimit s" "runLimit s + SC (dataStack s) + SC (altStack s) \<le> M"
    using assms by (simp_all add: gas_state_def)
  moreover have "0 \<le> SC (dataStack s)" "0 \<le> SC (altStack s)" "8 * int (length (dataStack s)) \<le> SC (dataStack s)"
    by (simp_all add: SC_length)
  ultimately show "0 \<le> nu s" "nu s \<le> 3 * M" "0 \<le> runLimit s" "runLimit s \<le> M"
    unfolding nu_def distrib_left by linarith+
qed

lemma parse_data_small:
  assumes "parse_data prog p l opcode skip len = Inr inst"
  shows "length (Data inst) < 2 ^ 32"
  using parse_data_Inr [OF assms] unsigned_less [of l, where ?'a = nat] by (auto simp: window_def)

lemma ParseOp_Data_small: "ParseOp prog p = Inr inst \<Longrightarrow> length (Data inst) < 2 ^ 32"
  unfolding ParseOp_def Let_def
  by (auto split: if_splits prod.splits simp del: power_numeral numeral_power_eq_of_nat_cancel_iff dest: parse_data_small) simp_all

abbreviation step_post :: "int \<Rightarrow> virtualMachine \<Rightarrow> unit outcome \<times> virtualMachine \<Rightarrow> bool" where
  "step_post M s rs \<equiv>
     (case rs of
        (Ret _, s') \<Rightarrow> gas_state M s' \<and> nu s' + 1 \<le> nu s
      | (Fail e, s') \<Rightarrow> 0 \<le> runLimit s' \<and> runLimit s' \<le> M
      | _ \<Rightarrow> True)"

lemma settle_post:
  assumes "gas_end M s1" "mu s1 + 1 \<le> nu s"
  shows "step_post M s ((vbind (vget deferredCost) (\<lambda>d.
           vseq (applyCost d) (vmodify (\<lambda>s. s\<lparr>pc := nextPC s\<rparr>)))) s1)"
proof -
  have b: "0 \<le> M" "M \<le> gas_cap" "0 \<le> runLimit s1" "\<bar>deferredCost s1\<bar> \<le> gas_cap + 72" "Phi s1 \<le> M" "ctx_small (vcontext s1)"
    using assms(1) by (auto simp: gas_end_def)
  have S: "0 \<le> SC (dataStack s1)" "0 \<le> SC (altStack s1)" by simp_all
  show ?thesis
  proof (cases "deferredCost s1 > runLimit s1")
    case True
    then show ?thesis using b S by (auto simp: vbind_def vget_def applyCost_def Phi_def)
  next
    case False
    then have "i64 (runLimit s1 - deferredCost s1) = runLimit s1 - deferredCost s1"
      using b S unfolding Phi_def by (intro i64_id) linarith+
    with False b assms(2) show ?thesis
      by (simp add: vbind_def vget_def applyCost_def vmodify_def gas_state_def nu_def mu_def Phi_def)
  qed
qed

lemma table_no_CheckPredicate: "map_of ops_table b \<noteq> Some (nm, Fn_opCheckPredicate)"
proof
  assume "map_of ops_table b = Some (nm, Fn_opCheckPredicate)"
  then have "(b, nm, Fn_opCheckPredicate) \<in> set ops_table" by (rule map_of_SomeD)
  then show False by (simp add: ops_table_def)
qed

lemma not_CheckPredicate: "b \<noteq> OP_CHECKPREDICATE \<Longrightarrow> op_fn (ops b) \<noteq> Fn_opCheckPredicate"
  using table_no_CheckPredicate [of b] by (auto simp: ops_def named_op_def split: option.splits if_splits)

lemma step_gas:
  assumes "u256_ok L" "hash_ok L" "gas_state M s"
    and "\<And>inst. ParseOp (slice_bytes (heap s) (program s)) (pc s) = Inr inst \<Longrightarrow> Op inst \<noteq> OP_CHECKPREDICATE"
  shows "step_post M s (step L childRun s)"
proof (cases "ParseOp (slice_bytes (heap s) (program s)) (pc s)")
  case (Inl e)
  then show ?thesis using nu_bounds [OF assms(3)] by (simp add: step_def)
next
  case (Inr inst)
  let ?s1 = "s\<lparr>nextPC := pc s + Len inst\<rparr>"
  let ?s2 = "?s1\<lparr>deferredCost := 0, data := Data inst\<rparr>"
  have g: "M \<le> gas_cap" "0 \<le> runLimit s" "runLimit s \<le> M" "0 \<le> M"
    using assms(3) nu_bounds [OF assms(3)] by (auto simp: gas_state_def)
  show ?thesis
  proof (cases "isExpansion (Op inst)")
    case True
    have "i64 (runLimit s - 1) = runLimit s - 1" if "1 \<le> runLimit s"
      using g that by (intro i64_id) simp_all
    with True Inr g assms(3) show ?thesis
      by (auto simp: step_def Let_def applyCost_def gas_state_def nu_def)
  next
    case False
    let ?op = "exec_op L childRun (op_fn (ops (Op inst)))"
    have "op_fn (ops (Op inst)) \<noteq> Fn_opCheckPredicate"
      using assms(4) [OF Inr] by (rule not_CheckPredicate)
    then have op: "gas_op M 1 ?op" using assms(1,2) by (intro gas_exec_op)
    have "gas_inv M ?s2" "mu ?s2 = nu s"
      using assms(3) ParseOp_Data_small [OF Inr] by (auto simp: gas_state_def gas_inv_def Phi_def mu_def nu_def)
    with gas_opD [OF op, of ?s2] have p: "op_post M 1 ?s2 (?op ?s2)" "mu ?s2 = nu s" by simp_all
    obtain r s3 where r: "?op ?s2 = (r, s3)" by fastforce
    have "step L childRun s = vseq ?op (vbind (vget deferredCost) (\<lambda>d.
        vseq (applyCost d) (vmodify (\<lambda>s. s\<lparr>pc := nextPC s\<rparr>)))) ?s2"
      using Inr False by (simp add: step_def Let_def)
    with p r settle_post [of M s3 s] show ?thesis
      by (cases r) (auto simp: vbind_def [of ?op])
  qed
qed

end
