(* ===== verification/VmSpec.thy ===== *)
theory VmSpec
  imports VmArith VmFrame VmGas
begin

text \<open>
  What the signature, string, bitwise and stack opcodes compute, stated on the contents of
  the stack.
\<close>

section \<open>Signature matching\<close>

lemma multisig_loop_subseq:
  "multisig_loop V sigs pks = [] \<longleftrightarrow> (\<exists>ps. subseq ps pks \<and> list_all2 (\<lambda>sg pk. V pk sg) sigs ps)"
proof (induction V sigs pks rule: multisig_loop.induct)
  case (1 V sg sigs pk pks)
  have tail: "subseq ps (pk # pks) \<Longrightarrow> ps = p # ps' \<Longrightarrow> subseq ps' pks" for ps p ps'
    by (metis list.inject subseq_Cons2_iff subseq_Cons')
  show ?case
  proof (cases "V pk sg")
    case True
    then have "multisig_loop V (sg # sigs) (pk # pks) = [] \<longleftrightarrow>
        (\<exists>ps. subseq ps pks \<and> list_all2 (\<lambda>sg pk. V pk sg) sigs ps)"
      using 1(1) by simp
    also have "\<dots> \<longleftrightarrow> (\<exists>ps. subseq ps (pk # pks) \<and> list_all2 (\<lambda>sg pk. V pk sg) (sg # sigs) ps)"
    proof
      assume "\<exists>ps. subseq ps pks \<and> list_all2 (\<lambda>sg pk. V pk sg) sigs ps"
      then obtain ps where "subseq ps pks" "list_all2 (\<lambda>sg pk. V pk sg) sigs ps" by blast
      then show "\<exists>ps. subseq ps (pk # pks) \<and> list_all2 (\<lambda>sg pk. V pk sg) (sg # sigs) ps"
        using True by (intro exI [of _ "pk # ps"]) simp
    qed (auto simp: list_all2_Cons1 dest: tail)
    finally show ?thesis .
  next
    case False
    have "subseq ps pks" if "subseq ps (pk # pks)" "list_all2 (\<lambda>sg pk. V pk sg) (sg # sigs) ps" for ps
      using that False by (auto simp: list_all2_Cons1 subseq_Cons2_iff split: if_splits)
    then show ?thesis using False 1(2) by (auto intro: subseq_Cons')
  qed
qed (auto simp: neq_Nil_conv list_all2_Cons1 dest!: list_emb_Nil2 intro: exI [of _ "[]"])

lemma popN_rev:
  "dataStack s = st @ rev xs \<Longrightarrow> \<exists>D. popN (length xs) s = (Ret xs, s\<lparr>dataStack := st, deferredCost := D\<rparr>)"
proof (induction xs arbitrary: s)
  case Nil
  then show ?case by (cases s) (simp add: vret_def)
next
  case (Cons x xs)
  let ?s1 = "s\<lparr>dataStack := st @ rev xs, deferredCost := i64 (deferredCost s + i64 (- itemCost x))\<rparr>"
  have p: "pop True s = (Ret x, ?s1)" using Cons.prems by (simp add: pop_def Let_def butlast_append)
  obtain D where "popN (length xs) ?s1 = (Ret xs, ?s1\<lparr>dataStack := st, deferredCost := D\<rparr>)"
    using Cons.IH [of ?s1] by auto
  then show ?case using p by (auto simp: vbind_def vret_def)
qed

lemma popInt64_num:
  assumes "u256_ok L" "dataStack s = st @ [x]" "num_of L (heap s) x = Some n" "int n \<le> MaxInt64"
  shows "\<exists>D. popInt64 L s = (Ret (int n), s\<lparr>dataStack := st, deferredCost := D\<rparr>)"
proof -
  obtain v where v: "AsBigInt L (slice_bytes (heap s) x) = Inr v" "unat v = n" "n < 2 ^ 255"
    by (rule num_of_Some [OF assms(1,3)])
  obtain D where D: "popBigInt L True s = (Ret v, s\<lparr>dataStack := st, deferredCost := D\<rparr>)"
    using popBigInt_num [OF assms(2) v(1)] by blast
  have u: "unat (ucast v :: u64) = n" using v(2) assms(4) by (simp add: unsigned_ucast_eq take_bit_nat_eq_self)
  then have "uint (ucast v :: u64) = int n" by (metis of_nat_unat)
  moreover have "i64 (int n) = int n" using assms(4) by (simp add: i64_id)
  ultimately have "bigIntInt64 L v = Inr (int n)"
    using assms(1,4) v(2) by (simp add: bigIntInt64_def int64_of_def u256_ok_def)
  with D show ?thesis by (auto simp: popInt64_def vlift_def)
qed

lemma pop_snoc: "dataStack s = st @ [x] \<Longrightarrow> \<exists>D. pop True s = (Ret x, s\<lparr>dataStack := st, deferredCost := D\<rparr>)"
  by (auto simp: pop_def Let_def)

lemma opCheckMultiSig_spec:
  assumes "u256_ok L" "true_intact (heap s)" "dataStack s = st @ rev sigs @ [msg] @ rev pks @ [ns, np]"
    and "num_of L (heap s) ns = Some (length sigs)" "num_of L (heap s) np = Some (length pks)"
    and "0 < length sigs" "length sigs \<le> length pks" "1024 * int (length pks) \<le> runLimit s" "runLimit s \<le> MaxInt64"
    and "s_len msg = 32" "\<forall>p\<in>set pks. s_len p = PublicKeySize"
  shows "num_pushed L st
     (if \<exists>ps. subseq ps pks \<and> list_all2 (\<lambda>sg pk. ed25519_Verify L (slice_bytes (heap s) pk)
          (slice_bytes (heap s) msg) (slice_bytes (heap s) sg)) sigs ps then 1 else 0) (opCheckMultiSig L s)"
proof -
  let ?n = "int (length pks)" and ?m = "int (length sigs)"
  obtain D1 where 1: "popInt64 L s = (Ret ?n, s\<lparr>dataStack := st @ rev sigs @ [msg] @ rev pks @ [ns], deferredCost := D1\<rparr>)"
    (is "_ = (_, ?s1)")
    using popInt64_num [of L s "st @ rev sigs @ [msg] @ rev pks @ [ns]" np "length pks"] assms by auto
  have mul: "MulInt64 ?n 1024 = (?n * 1024, True)"
    using assms(8,9) int64.mul_law [of ?n 1024] by (auto simp: in_i64_iff exact_or_fail_def)
  obtain R where 2: "applyCost (?n * 1024) ?s1 = (Ret (), ?s1\<lparr>runLimit := R\<rparr>)" (is "_ = (_, ?s2)")
    using applyCost_ok [of "?n * 1024" ?s1] assms(8) by auto
  obtain D3 where 3: "popInt64 L ?s2 = (Ret ?m, ?s2\<lparr>dataStack := st @ rev sigs @ [msg] @ rev pks, deferredCost := D3\<rparr>)"
    (is "_ = (_, ?s3)")
    using popInt64_num [of L ?s2 "st @ rev sigs @ [msg] @ rev pks" ns "length sigs"] assms by auto
  obtain D4 where 4: "popN (length pks) ?s3 = (Ret pks, ?s3\<lparr>dataStack := st @ rev sigs @ [msg], deferredCost := D4\<rparr>)"
    (is "_ = (_, ?s4)")
    using popN_rev [of ?s3 "st @ rev sigs @ [msg]" pks] by auto
  obtain D5 where 5: "pop True ?s4 = (Ret msg, ?s4\<lparr>dataStack := st @ rev sigs, deferredCost := D5\<rparr>)"
    (is "_ = (_, ?s5)")
    using pop_snoc [of ?s4 "st @ rev sigs" msg] by auto
  obtain D6 where 6: "popN (length sigs) ?s5 = (Ret sigs, ?s5\<lparr>dataStack := st, deferredCost := D6\<rparr>)"
    (is "_ = (_, ?s6)")
    using popN_rev [of ?s5 st sigs] by auto
  have "opCheckMultiSig L s = pushBool (multisig_loop (\<lambda>pk sg. ed25519_Verify L (slice_bytes (heap s) pk)
      (slice_bytes (heap s) msg) (slice_bytes (heap s) sg)) sigs pks = []) True ?s6"
    using 1 2 3 4 5 6 mul assms(6,7,10,11)
    by (simp add: opCheckMultiSig_def vbind_def [of "vget _"] vget_def list_ex_iff)
  then show ?thesis
    using pushBool_pushed [OF assms(1), of ?s6] assms(2) by (simp add: multisig_loop_subseq)
qed

section \<open>Stack manipulation\<close>

text \<open>
  The number of items an opcode needs and, for the items \<open>xs\<close> on top of the stack (the top
  one last), the positions in \<open>xs\<close> of the items it leaves instead.
\<close>

definition stack_moves :: "(opfn \<times> nat \<times> nat list) list" where
  "stack_moves =
     [(Fn_opDrop, 1, []), (Fn_op2Drop, 2, []), (Fn_opDup, 1, [0, 0]), (Fn_op2Dup, 2, [0, 1, 0, 1]),
      (Fn_op3Dup, 3, [0, 1, 2, 0, 1, 2]), (Fn_opNip, 2, [1]), (Fn_opOver, 2, [0, 1, 0]),
      (Fn_op2Over, 4, [0, 1, 2, 3, 0, 1]), (Fn_opRot, 3, [1, 2, 0]), (Fn_op2Rot, 6, [2, 3, 4, 5, 0, 1]),
      (Fn_opSwap, 2, [1, 0]), (Fn_op2Swap, 4, [2, 3, 0, 1]), (Fn_opTuck, 2, [1, 0, 1])]"

definition moved :: "virtualMachine \<Rightarrow> slice list \<Rightarrow> unit outcome \<times> virtualMachine \<Rightarrow> bool" where
  "moved s st res \<longleftrightarrow> fst res = Ret () \<and> dataStack (snd res) = st \<and> altStack (snd res) = altStack s \<and>
     heap (snd res) = heap s"

lemma applyCost_eval:
  "n \<le> runLimit s \<Longrightarrow> 0 \<le> n \<Longrightarrow> runLimit s \<le> gas_cap \<Longrightarrow> 0 \<le> runLimit s \<Longrightarrow>
   applyCost n s = (Ret (), s\<lparr>runLimit := runLimit s - n\<rparr>)"
  by (simp add: applyCost_def i64_id)

lemma push_now_eval:
  "8 + int (s_len x) \<le> runLimit s \<Longrightarrow> runLimit s \<le> gas_cap \<Longrightarrow>
   pushDataStack x False s = (Ret (), s\<lparr>runLimit := runLimit s - (8 + int (s_len x)), dataStack := dataStack s @ [x]\<rparr>)"
  by (simp add: pushDataStack_def itemCost_eq vbind_def applyCost_def vmodify_def i64_id)

lemma push_nth_eval:
  "dataStack s = ys \<Longrightarrow> 8 + int (s_len (ys ! (length ys - n))) \<le> runLimit s \<Longrightarrow> runLimit s \<le> gas_cap \<Longrightarrow>
   push_nth n s = (Ret (), s\<lparr>runLimit := runLimit s - (8 + int (s_len (ys ! (length ys - n)))),
                            dataStack := ys @ [ys ! (length ys - n)]\<rparr>)"
  by (simp add: push_nth_def vbind_def [of "vget _"] vget_def push_now_eval)

lemmas move_defs = opDrop_def op2Drop_def opDup_def op2Dup_def op3Dup_def nDup_def opNip_def opOver_def op2Over_def
  opRot_def op2Rot_def rot_def opSwap_def op2Swap_def opTuck_def

lemma stack_move_enough:
  assumes "(fn, k, idx) \<in> set stack_moves" "dataStack s = st @ xs" "length xs = k"
    and "4 + SC xs \<le> runLimit s" "runLimit s \<le> gas_cap"
  shows "moved s (st @ map ((!) xs) idx) (exec_op L c fn s)"
  using assms
  by (auto simp: stack_moves_def moved_def move_defs numeral_eq_Suc length_Suc_conv vbind_def [of "vget _"] vget_def
      vbind_def [of top_item] vbind_def [of "vmodify _"] vbind_def [of "pop _"] vmodify_def top_item_def pop_def vret_def
      applyCost_eval push_nth_eval push_now_eval nth_append Let_def butlast_append list_update_append)

lemma applyCost_fst: "n \<le> runLimit s \<Longrightarrow> applyCost n s = (Ret (), s\<lparr>runLimit := i64 (runLimit s - n)\<rparr>)"
  by (simp add: applyCost_def)

lemma stack_move_underflow:
  assumes "(fn, k, idx) \<in> set stack_moves" "length (dataStack s) < k" "3 \<le> runLimit s"
  shows "fst (exec_op L c fn s) = Fail ErrDataStackUnderflow"
proof -
  have "applyCost n s = (Ret (), s\<lparr>runLimit := i64 (runLimit s - n)\<rparr>)" if "n \<le> 3" for n
    using assms(3) that by (intro applyCost_fst) simp
  moreover have "fst ((vbind top_item (\<lambda>top. vseq (vmodify (\<lambda>s. s\<lparr>dataStack := butlast (dataStack s)\<rparr>))
       (vbind (pop False) (\<lambda>_. vmodify (\<lambda>s. s\<lparr>dataStack := dataStack s @ [top]\<rparr>))))) s') = Fail ErrDataStackUnderflow"
    if "length (dataStack s') < 2" for s'
    using that by (cases "dataStack s'") (simp_all add: vbind_def top_item_def vmodify_def pop_def)
  moreover have "fst (vrepeat 2 (vbind (pop False) (\<lambda>_. vret ())) s') = Fail ErrDataStackUnderflow"
    if "length (dataStack s') < 2" for s'
    using that by (cases "dataStack s'") (simp_all add: numeral_2_eq_2 vbind_def vret_def pop_def Let_def)
  ultimately show ?thesis
    using assms(1,2)
    by (auto simp: stack_moves_def move_defs vbind_def [of "vget _"] vget_def vfail_def Let_def
        vbind_def [of "pop _"] pop_def)
qed

section \<open>Strings and bits\<close>

definition bytes_pushed :: "slice list \<Rightarrow> bytes \<Rightarrow> unit outcome \<times> virtualMachine \<Rightarrow> bool" where
  "bytes_pushed st bs res \<longleftrightarrow> fst res = Ret () \<and>
     (\<exists>d. dataStack (snd res) = st @ [d] \<and> slice_bytes (heap (snd res)) d = bs)"

lemma push_deferred: "pushDataStack d True s = (Ret (), s\<lparr>deferredCost := i64 (deferredCost s + itemCost d), dataStack := dataStack s @ [d]\<rparr>)"
  by (simp add: pushDataStack_def vbind_def deferCost_def vmodify_def)

lemma pushBytes_pushed: "dataStack s = st \<Longrightarrow> bytes_pushed st bs (pushBytes bs True s)"
  by (simp add: bytes_pushed_def pushBytes_def vbind_def [of "vnew _"] vnew_def push_deferred)

lemma opCat_spec:
  assumes "dataStack s = st @ [a, b]" "wf_slice (heap s) a" "small_slice a" "small_slice b"
    and "4 + int (s_len a) + int (s_len b) \<le> runLimit s" "runLimit s \<le> gas_cap"
  shows "bytes_pushed st (slice_bytes (heap s) a @ slice_bytes (heap s) b) (opCat L s)"
proof -
  have i: "i64 (int (s_len a) + int (s_len b)) = int (s_len a) + int (s_len b)"
    "i64 (runLimit s - 4) = runLimit s - 4"
    using assms by (auto simp: small_slice_def intro!: i64_id)
  show ?thesis
    using assms i go_append_bytes [OF assms(2), of "growcap L" "slice_bytes (heap s) b"]
    by (simp add: opCat_def vbind_def [of "applyCost _"] vbind_def [of "pop _"] vbind_def [of "deferCost _"]
        vbind_def [of "read _"] vbind_def [of "vappend _ _ _"] applyCost_def pop_def deferCost_def read_def vget_def vappend_def
        push_deferred bytes_pushed_def Let_def butlast_append case_prod_beta)
qed

lemma opSubstr_spec:
  assumes "u256_ok L" "dataStack s = st @ [str, off, sz]" "num_of L (heap s) off = Some i" "num_of L (heap s) sz = Some n"
    and "int i \<le> MaxInt64" "4 + int n \<le> runLimit s" "runLimit s \<le> gas_cap" "small_slice str"
  shows "if i + n \<le> s_len str then bytes_pushed st (take n (drop i (slice_bytes (heap s) str))) (opSubstr L s)
         else fst (opSubstr L s) = Fail ErrBadValue"
proof -
  have 1: "applyCost 4 s = (Ret (), s\<lparr>runLimit := runLimit s - 4\<rparr>)" (is "_ = (_, ?s1)")
    using assms by (simp add: applyCost_def i64_id)
  obtain D1 where 2: "popInt64 L ?s1 = (Ret (int n), ?s1\<lparr>dataStack := st @ [str, off], deferredCost := D1\<rparr>)" (is "_ = (_, ?s2)")
    using popInt64_num [of L ?s1 "st @ [str, off]" sz n] assms by auto
  obtain R where 3: "applyCost (int n) ?s2 = (Ret (), ?s2\<lparr>runLimit := R\<rparr>)" (is "_ = (_, ?s3)")
    using applyCost_ok [of "int n" ?s2] assms by auto
  obtain D2 where 4: "deferCost (i64 (- int n)) ?s3 = (Ret (), ?s3\<lparr>deferredCost := D2\<rparr>)" (is "_ = (_, ?s4)")
    by (simp add: deferCost_def)
  obtain D3 where 5: "popInt64 L ?s4 = (Ret (int i), ?s4\<lparr>dataStack := st @ [str], deferredCost := D3\<rparr>)" (is "_ = (_, ?s5)")
    using popInt64_num [of L ?s4 "st @ [str]" off i] assms by auto
  obtain D4 where 6: "pop True ?s5 = (Ret str, ?s5\<lparr>dataStack := st, deferredCost := D4\<rparr>)" (is "_ = (_, ?s6)")
    using pop_snoc [of ?s5 st str] by auto
  have add: "AddInt64 (int i) (int n) = exact_or_fail 64 (int i + int n)"
    using assms by (intro int64.add_law) (auto simp: in_i64_iff)
  have "opSubstr L s = (case exact_or_fail 64 (int i + int n) of (e, ok) \<Rightarrow>
      if \<not> ok \<or> e > int (s_len str) then vfail ErrBadValue
      else pushDataStack (sub_slice str i (nat e)) True) ?s6"
    using 1 2 3 4 5 6 by (simp add: opSubstr_def add split: prod.splits)
  then show ?thesis
    using assms(7,8) sub_slice_bytes [of i "i + n" str "heap s"]
    by (auto simp: exact_or_fail_def in_i64_iff small_slice_def vfail_def push_deferred bytes_pushed_def nat_add_distrib
        nat_int_add)
qed

text \<open>The operations that take two strings and charge by their lengths.\<close>

lemma two_strings:
  assumes "dataStack s = st @ [a, b]" "1 + int (k a b) \<le> runLimit s" "runLimit s \<le> gas_cap"
  shows "\<exists>R D. vseq (applyCost 1) (vbind (pop True) (\<lambda>b. vbind (pop True) (\<lambda>a.
           vseq (applyCost (int (k a b))) (vbind (read a) (\<lambda>as. vbind (read b) (f as)))))) s =
         f (slice_bytes (heap s) a) (slice_bytes (heap s) b) (s\<lparr>dataStack := st, deferredCost := D, runLimit := R\<rparr>)"
proof -
  have "i64 (runLimit s - 1) = runLimit s - 1" using assms(2,3) by (intro i64_id) simp_all
  then show ?thesis
    using assms by (simp add: vbind_def [of "applyCost _"] vbind_def [of "pop _"] vbind_def [of "read _"]
        applyCost_def pop_def read_def vget_def Let_def butlast_append) blast
qed

lemma opAnd_spec:
  assumes "dataStack s = st @ [a, b]" "1 + int (min (s_len a) (s_len b)) \<le> runLimit s" "runLimit s \<le> gas_cap"
  shows "bytes_pushed st (map2 (AND) (slice_bytes (heap s) a) (slice_bytes (heap s) b)) (opAnd s)"
  using two_strings [OF assms(1) _ assms(3), where k = "\<lambda>a b. min (s_len a) (s_len b)" and f = "\<lambda>as bs. pushBytes (map2 (AND) as bs) True"]
  assms(2) by (auto simp: opAnd_def intro!: pushBytes_pushed)

lemma doOr_spec:
  assumes "dataStack s = st @ [a, b]" "1 + int (max (s_len a) (s_len b)) \<le> runLimit s" "runLimit s \<le> gas_cap"
  shows "bytes_pushed st (or_bytes x (slice_bytes (heap s) a) (slice_bytes (heap s) b)) (doOr x s)"
  using two_strings [OF assms(1) _ assms(3), where k = "\<lambda>a b. max (s_len a) (s_len b)" and f = "\<lambda>as bs. pushBytes (or_bytes x as bs) True"]
  assms(2) by (auto simp: doOr_def intro!: pushBytes_pushed)

lemma doEqual_eval:
  assumes "dataStack s = st @ [a, b]" "1 + int (min (s_len a) (s_len b)) \<le> runLimit s" "runLimit s \<le> gas_cap"
  shows "\<exists>R D. doEqual s = (Ret (slice_bytes (heap s) a = slice_bytes (heap s) b), s\<lparr>dataStack := st, deferredCost := D, runLimit := R\<rparr>)"
  using two_strings [OF assms(1) _ assms(3), where k = "\<lambda>a b. min (s_len a) (s_len b)" and f = "\<lambda>as bs. vret (as = bs)"] assms(2) by (auto simp: doEqual_def vret_def)

lemma opEqual_spec:
  assumes "dataStack s = st @ [a, b]" "1 + int (min (s_len a) (s_len b)) \<le> runLimit s" "runLimit s \<le> gas_cap"
    and "u256_ok L" "true_intact (heap s)"
  shows "num_pushed L st (if slice_bytes (heap s) a = slice_bytes (heap s) b then 1 else 0) (opEqual s)"
proof -
  obtain R D where e: "doEqual s = (Ret (slice_bytes (heap s) a = slice_bytes (heap s) b),
      s\<lparr>dataStack := st, deferredCost := D, runLimit := R\<rparr>)" (is "_ = (_, ?s)")
    using doEqual_eval [OF assms(1,2,3)] by blast
  then show ?thesis
    using pushBool_pushed [OF assms(4), of ?s] assms(5) by (auto simp: opEqual_def)
qed

lemma nth_or_bytes:
  "i < max (length x) (length y) \<Longrightarrow>
   or_bytes b x y ! i = (if b then byte_at x i XOR byte_at y i else byte_at x i OR byte_at y i)"
  by (simp add: or_bytes_def)

lemma or_bytes_self: "or_bytes True x x = replicate (length x) 0" "or_bytes False x x = x"
  by (auto intro!: nth_equalityI simp: or_bytes_def byte_at_def)

end
