(* ===== verification/VmRun.thy ===== *)
theory VmRun
  imports VmGas VmFrame
begin

text \<open>
  Runs of the machine: the step bound of the model is only a bound (more fuel never changes
  a result), and programs without \<^verbatim>\<open>CHECKPREDICATE\<close>, \<^verbatim>\<open>CAT\<close> and \<^verbatim>\<open>CATPUSHDATA\<close> bytes halt within
  a number of steps linear in their gas limit.
\<close>

section \<open>More fuel never changes a result\<close>

definition refines :: "'a vmop \<Rightarrow> 'a vmop \<Rightarrow> bool" where
  "refines m m' \<longleftrightarrow> (\<forall>s. fst (m s) \<noteq> NoFuel \<longrightarrow> m' s = m s)"

lemma refines_refl [simp]: "refines m m"
  by (simp add: refines_def)

lemma refines_bind:
  assumes "refines m m'" "\<And>x. refines (f x) (f' x)"
  shows "refines (vbind m f) (vbind m' f')"
  unfolding refines_def
proof (intro allI impI)
  fix s assume nf: "fst (vbind m f s) \<noteq> NoFuel"
  obtain r s1 where m: "m s = (r, s1)" by fastforce
  show "vbind m' f' s = vbind m f s"
  proof (cases r)
    case (Ret x)
    with nf m have "fst (f x s1) \<noteq> NoFuel" "fst (m s) \<noteq> NoFuel" by simp_all
    with assms m Ret have "m' s = (Ret x, s1)" "f' x s1 = f x s1" by (simp_all add: refines_def)
    then show ?thesis using m Ret by simp
  qed (use assms(1) nf m in \<open>auto simp: refines_def vbind_def\<close>)
qed

lemma refines_if: "refines m1 m1' \<Longrightarrow> refines m2 m2' \<Longrightarrow> refines (if b then m1 else m2) (if b then m1' else m2')"
  by simp

lemma refines_runChild: "refines c c' \<Longrightarrow> refines (runChild c x n k) (runChild c' x n k)"
  unfolding refines_def
proof (intro allI impI)
  fix s
  assume c: "\<forall>s. fst (c s) \<noteq> NoFuel \<longrightarrow> c' s = c s" and nf: "fst (runChild c x n k s) \<noteq> NoFuel"
  let ?v = "childVM s x n (drop k (dataStack s))"
  have "fst (c ?v) \<noteq> NoFuel"
    using nf by (auto simp: runChild_def Let_def split: prod.splits outcome.splits)
  with c show "runChild c' x n k s = runChild c x n k s" by (simp add: runChild_def)
qed

lemma refines_exec_op: "refines c c' \<Longrightarrow> refines (exec_op L c fn) (exec_op L c' fn)"
  by (cases fn) (simp_all add: opCheckPredicate_def Let_def refines_bind refines_if refines_runChild)

lemma refines_step: "refines c c' \<Longrightarrow> refines (step L c) (step L c')"
  unfolding refines_def [of "step L c"]
proof (intro allI impI)
  fix s assume c: "refines c c'" and nf: "fst (step L c s) \<noteq> NoFuel"
  show "step L c' s = step L c s"
  proof (cases "ParseOp (slice_bytes (heap s) (program s)) (pc s)")
    case (Inr inst)
    have "refines (vseq (exec_op L c (op_fn (ops (Op inst)))) g) (vseq (exec_op L c' (op_fn (ops (Op inst)))) g)" for g :: "unit vmop"
      by (intro refines_bind refines_exec_op c refines_refl)
    with nf Inr show ?thesis by (auto simp: step_def Let_def refines_def)
  qed (simp add: step_def)
qed

lemma run_loop_mono: "refines (run_loop L n) (run_loop L (n + k))"
proof (induction n)
  case 0
  then show ?case by (simp add: refines_def)
next
  case (Suc n)
  have c: "refines (\<lambda>c. run_loop L n (c\<lparr>pc := 0\<rparr>)) (\<lambda>c. run_loop L (n + k) (c\<lparr>pc := 0\<rparr>))"
    using Suc.IH by (simp add: refines_def)
  have "refines (vseq (step L (\<lambda>c. run_loop L n (c\<lparr>pc := 0\<rparr>))) (run_loop L n))
          (vseq (step L (\<lambda>c. run_loop L (n + k) (c\<lparr>pc := 0\<rparr>))) (run_loop L (n + k)))"
    by (intro refines_bind refines_step c Suc.IH)
  then show ?case by (simp add: refines_def)
qed

section \<open>Programs that halt\<close>

definition simple_code :: "bytes \<Rightarrow> bool" where
  "simple_code prog \<longleftrightarrow> OP_CHECKPREDICATE \<notin> set prog \<and> OP_CAT \<notin> set prog \<and> OP_CATPUSHDATA \<notin> set prog"

lemma ParseOp_Op_mem:
  assumes "ParseOp prog p = Inr inst"
  shows "Op inst \<in> set prog"
proof -
  have "unat (of_nat (length prog) :: u32) \<le> length prog"
    by (simp add: unat_of_nat)
  with ParseOp_bounds [OF assms] have "unat p < length prog" "Op inst = prog ! unat p" by simp_all
  then show ?thesis by simp
qed

lemma table_cat: "map_of ops_table b = Some (nm, fn) \<Longrightarrow> fn = Fn_opCat \<or> fn = Fn_opCatpushdata \<Longrightarrow>
    b = OP_CAT \<or> b = OP_CATPUSHDATA"
  by (drule map_of_SomeD) (auto simp: ops_table_def)

lemma op_fn_cat: "op_fn (ops b) = Fn_opCat \<or> op_fn (ops b) = Fn_opCatpushdata \<Longrightarrow> b = OP_CAT \<or> b = OP_CATPUSHDATA"
  using table_cat [of b] by (auto simp: ops_def named_op_def split: option.splits if_splits)

text \<open>A step of such a program keeps the arrays of the store, and hence the program.\<close>

lemma step_frame:
  assumes "\<And>inst. ParseOp (slice_bytes (heap s) (program s)) (pc s) = Inr inst \<Longrightarrow>
      op_fn (ops (Op inst)) \<notin> {Fn_opCheckPredicate, Fn_opCat, Fn_opCatpushdata}"
  shows "same_env s (snd (step L c s)) \<and> prefix (heap s) (heap (snd (step L c s))) \<and> fst (step L c s) \<noteq> NoFuel"
proof (cases "ParseOp (slice_bytes (heap s) (program s)) (pc s)")
  case (Inr inst)
  let ?m = "vseq (exec_op L c (op_fn (ops (Op inst)))) (vbind (vget deferredCost) (\<lambda>d.
              vseq (applyCost d) (vmodify (\<lambda>s. s\<lparr>pc := nextPC s\<rparr>))))"
  have "frame False True (vmodify (\<lambda>s. s\<lparr>pc := nextPC s\<rparr>))"
    by (simp add: frame_def vmodify_def same_env_def)
  then have "frame False True ?m"
    using assms [OF Inr] by (intro frame_bind frame_exec_op frame_prim) auto
  then have m: "same_env s' (snd (?m s'))" "prefix (heap s') (heap (snd (?m s')))" "fst (?m s') \<noteq> NoFuel" for s'
    by (auto simp: frame_def)
  show ?thesis
  proof (cases "isExpansion (Op inst)")
    case True
    with Inr show ?thesis by (simp add: step_def Let_def applyCost_def same_env_def)
  next
    case False
    let ?s = "s\<lparr>nextPC := pc s + Len inst, deferredCost := 0, data := Data inst\<rparr>"
    have "step L c s = ?m ?s" using Inr False by (simp add: step_def Let_def)
    then show ?thesis using m [of ?s] by (simp add: same_env_def)
  qed
qed (simp add: step_def same_env_def)

lemma simple_step:
  assumes "simple_code (slice_bytes (heap s) (program s))"
  shows "same_env s (snd (step L c s)) \<and> prefix (heap s) (heap (snd (step L c s))) \<and> fst (step L c s) \<noteq> NoFuel"
    and "\<And>inst. ParseOp (slice_bytes (heap s) (program s)) (pc s) = Inr inst \<Longrightarrow> Op inst \<noteq> OP_CHECKPREDICATE"
proof -
  show c: "\<And>inst. ParseOp (slice_bytes (heap s) (program s)) (pc s) = Inr inst \<Longrightarrow> Op inst \<noteq> OP_CHECKPREDICATE"
    using assms by (auto simp: simple_code_def dest: ParseOp_Op_mem)
  have "op_fn (ops (Op inst)) \<notin> {Fn_opCheckPredicate, Fn_opCat, Fn_opCatpushdata}"
    if "ParseOp (slice_bytes (heap s) (program s)) (pc s) = Inr inst" for inst
    using assms ParseOp_Op_mem [OF that] not_CheckPredicate [OF c [OF that]] op_fn_cat [of "Op inst"]
    unfolding simple_code_def by auto
  then show "same_env s (snd (step L c s)) \<and> prefix (heap s) (heap (snd (step L c s))) \<and> fst (step L c s) \<noteq> NoFuel"
    by (rule step_frame)
qed

abbreviation run_post :: "int \<Rightarrow> virtualMachine \<Rightarrow> unit outcome \<times> virtualMachine \<Rightarrow> bool" where
  "run_post M s rs \<equiv> fst rs \<noteq> NoFuel \<and> prefix (heap s) (heap (snd rs)) \<and>
     (fst rs \<noteq> Panic \<longrightarrow> 0 \<le> runLimit (snd rs) \<and> runLimit (snd rs) \<le> M)"

lemma run_loop_simple:
  assumes "u256_ok L" "hash_ok L"
    and "gas_state M s" "simple_code (slice_bytes (heap s) (program s))" "s_arr (program s) < length (heap s)"
    and "nu s < int n"
  shows "run_post M s (run_loop L n s)"
  using assms(3-)
proof (induction n arbitrary: s)
  case 0
  then show ?case using nu_bounds(1) [of M s] by simp
next
  case (Suc n)
  show ?case
  proof (cases "pc s < of_nat (s_len (program s))")
    case False
    then show ?thesis using nu_bounds [OF Suc.prems(1)] by simp
  next
    case True
    let ?c = "\<lambda>c. run_loop L n (c\<lparr>pc := 0\<rparr>)"
    obtain r s1 where r: "step L ?c s = (r, s1)" by fastforce
    note f = simple_step(1) [OF Suc.prems(2), of L ?c]
    note g = step_gas [OF assms(1,2) Suc.prems(1) simple_step(2) [OF Suc.prems(2)], of ?c]
    show ?thesis
    proof (cases r)
      case (Ret u)
      obtain ext where ext: "heap s1 = heap s @ ext" using f r by (auto elim: prefixE)
      have "gas_state M s1" "nu s1 < int n" "program s1 = program s"
        using g f r Ret Suc.prems(4) by (auto simp: same_env_def)
      then have "run_post M s1 (run_loop L n s1)"
        using Suc.prems(2,3) ext by (intro Suc.IH) auto
      then show ?thesis using True r Ret ext by (auto intro: prefix_order.trans [of _ "heap s @ ext"])
    qed (use True f g r in \<open>auto simp: vbind_def\<close>)
  qed
qed

section \<open>Verify\<close>

abbreviation push_post :: "int \<Rightarrow> virtualMachine \<Rightarrow> unit outcome \<times> virtualMachine \<Rightarrow> bool" where
  "push_post M s rs \<equiv>
     (case rs of
        (Ret _, s') \<Rightarrow> gas_state M s' \<and> same_env s s' \<and> heap s' = heap s
      | (Fail e, s') \<Rightarrow> 0 \<le> runLimit s' \<and> runLimit s' \<le> M \<and> heap s' = heap s
      | _ \<Rightarrow> False)"

lemma push_gas_state:
  assumes "gas_state M s" "small_slice x"
  shows "push_post M s (pushDataStack x False s)" "push_post M s (pushAltStack x False s)"
proof -
  have cost: "itemCost x = 8 + int (s_len x)" using assms(2) by (intro itemCost_eq) (simp add: small_slice_def)
  have "i64 (runLimit s - (8 + int (s_len x))) = runLimit s - (8 + int (s_len x))"
    if "\<not> 8 + int (s_len x) > runLimit s"
    using that nu_bounds(3,4) [OF assms(1)] assms(1) by (intro i64_id) (auto simp: gas_state_def)
  then show "push_post M s (pushDataStack x False s)" "push_post M s (pushAltStack x False s)"
    using assms(1) nu_bounds [OF assms(1)]
    by (auto simp: pushDataStack_def pushAltStack_def vbind_def applyCost_def cost vmodify_def gas_state_def same_env_def)
qed

lemma push_all_gas:
  assumes "gas_state M s" "\<forall>x\<in>set xs. small_slice x"
    and p: "\<And>s x. gas_state M s \<Longrightarrow> small_slice x \<Longrightarrow> push_post M s (p x False s)"
  shows "push_post M s (push_all p xs s)"
  using assms(1,2)
proof (induction xs arbitrary: s)
  case (Cons x xs)
  obtain r s1 where r: "p x False s = (r, s1)" by fastforce
  with p [OF Cons.prems(1), of x] Cons.prems(2) have x: "push_post M s (r, s1)" by simp
  show ?case
  proof (cases r)
    case (Ret u)
    with x Cons.prems Cons.IH [of s1] have "push_post M s1 (push_all p xs s1)" by simp
    with x r Ret show ?thesis by (auto simp: same_env_def split: prod.splits outcome.splits)
  qed (use x r in \<open>auto simp: vbind_def\<close>)
qed (simp add: vret_def same_env_def)

definition small_ctx :: "Context \<Rightarrow> bool" where
  "small_ctx c \<longleftrightarrow> ctx_small c \<and> (\<forall>x\<in>set (StateData c). small_slice x) \<and> (\<forall>x\<in>set (Arguments c). small_slice x)"

definition gas_bounded :: "int \<Rightarrow> store \<Rightarrow> (int \<times> vmerr option \<times> store) option \<Rightarrow> bool" where
  "gas_bounded g h res \<longleftrightarrow>
     (case res of None \<Rightarrow> False | Some (left, e, h') \<Rightarrow> 0 \<le> left \<and> left \<le> g \<and> prefix h h')"

lemma vbind_of_Ret: "m s = (Ret x, s') \<Longrightarrow> vbind m f s = f x s'"
  by simp

lemma Verify_simple:
  assumes "u256_ok L" "hash_ok L" "small_ctx c" "0 \<le> g" "g \<le> gas_cap"
    and "simple_code (slice_bytes h (Code c))" "s_arr (Code c) < length h" "3 * g < int fuel"
  shows "gas_bounded g h (Verify L fuel c g h)"
proof -
  let ?i = "initVM c g h"
  have i: "gas_state g ?i" "heap ?i = h" "program ?i = Code c"
    using assms(3,4,5) by (auto simp: gas_state_def initVM_def small_ctx_def)
  have a: "push_post g ?i (push_all pushAltStack (StateData c) ?i)"
    using assms(3) by (intro push_all_gas i push_gas_state) (auto simp: small_ctx_def)
  obtain r1 s1 where r1: "push_all pushAltStack (StateData c) ?i = (r1, s1)" by fastforce
  show ?thesis
  proof (cases r1)
    case (Ret u)
    with a r1 i have s1: "gas_state g s1" "heap s1 = h" "program s1 = Code c" by (auto simp: same_env_def)
    have d: "push_post g s1 (push_all pushDataStack (Arguments c) s1)"
      using assms(3) by (intro push_all_gas s1 push_gas_state) (auto simp: small_ctx_def)
    obtain r2 s2 where r2: "push_all pushDataStack (Arguments c) s1 = (r2, s2)" by fastforce
    show ?thesis
    proof (cases r2)
      case (Ret u2)
      let ?s = "s2\<lparr>pc := 0\<rparr>"
      have s: "gas_state g ?s" "heap ?s = h" "program ?s = Code c"
        using d r2 Ret s1 by (auto simp: same_env_def gas_state_def)
      have "nu ?s < int fuel" using nu_bounds(2) [OF s(1)] assms(8) by linarith
      then have "run_post g ?s (run_loop L fuel ?s)"
        using assms(6,7) s by (intro run_loop_simple assms(1,2)) auto
      with s(2) assms(4) r1 \<open>r1 = Ret u\<close> r2 Ret show ?thesis
        by (auto simp: gas_bounded_def Verify_def run_def split: prod.splits outcome.splits)
    qed (use d r1 \<open>r1 = Ret u\<close> r2 in \<open>auto simp: gas_bounded_def Verify_def assms(4) s1 vbind_def [of "push_all pushDataStack _"]\<close>)
  qed (use a r1 i in \<open>auto simp: gas_bounded_def Verify_def assms(4) vbind_def [of "push_all pushAltStack _"]\<close>)
qed

end
