(* ===== verification/VmEval.thy ===== *)
theory VmEval
  imports VmRun VmArith
begin

text \<open>
  Execution on concrete programs: a library that behaves as documented, and the rules by
  which the simplifier runs the machine.
\<close>

definition sample_lib :: lib where
  "sample_lib =
     \<lparr>uNewInt = ucast, uSetBytes = (\<lambda>bs. of_nat (nat_of_be bs)), uBytes = (\<lambda>x. be_of_nat (unat x)),
      uSign = (\<lambda>x. if x = 0 then 0 else if unat x < 2 ^ 255 then 1 else - 1),
      uAdd = (+), uSub = (-), uMul = (*), uMulOverflow = (\<lambda>x y. (x * y, 2 ^ 256 \<le> unat x * unat y)),
      uDiv = (div), uMod = (\<lambda>x y. if y = 0 then 0 else x mod y),
      uLsh = (\<lambda>x n. push_bit n x), uRsh = (\<lambda>x n. drop_bit n x), uClear = 0,
      uCmp = (\<lambda>x y. if x < y then - 1 else if x = y then 0 else 1), uEq = (=), uIsZero = (\<lambda>x. x = 0),
      uLtUint64 = (\<lambda>x n. unat x < unat n), uUint64 = ucast, uIsUint64 = (\<lambda>x. unat x < 2 ^ 64),
      uUint64WithOverflow = (\<lambda>x. (ucast x, 2 ^ 64 \<le> unat x)),
      sha256 = (\<lambda>bs. take 32 (bs @ replicate 32 1)), sha3_256 = (\<lambda>bs. take 32 (bs @ replicate 32 2)),
      ripemd160 = (\<lambda>bs. take 20 (bs @ replicate 20 3)),
      ed25519_Verify = (\<lambda>pk m sg. sg = pk), growcap = (\<lambda>old n. 2 * old)\<rparr>"

lemma sample_lib_ok: "u256_ok sample_lib" "hash_ok sample_lib"
  by (auto simp: u256_ok_def hash_ok_def sample_lib_def)

definition sample_ctx :: Context where
  "sample_ctx =
     \<lparr>VMVersion = 1, Code = \<lparr>s_arr = 1, s_off = 0, s_len = 0, s_cap = 0\<rparr>, StateData = [], Arguments = [],
      EntryID = nil_slice, TxVersion = Some 1, BlockHeight = None, NumResults = None, AssetID = None,
      Amount = None, DestPos = None, SpentOutputID = None, TxSigHash = None, CheckOutput = None\<rparr>"

definition run_code :: "lib \<Rightarrow> nat \<Rightarrow> byte list \<Rightarrow> int \<Rightarrow> bytes \<Rightarrow> (int \<times> vmerr option \<times> store) option" where
  "run_code L fuel code limit true_cell =
     Verify L fuel (sample_ctx\<lparr>Code := \<lparr>s_arr = 1, s_off = 0, s_len = length code, s_cap = length code\<rparr>\<rparr>)
       limit [true_cell, code]"

lemma run_loop_numeral [simp]:
  "run_loop L (numeral k) s =
     (if pc s < of_nat (s_len (program s))
      then vseq (step L (\<lambda>c. run_loop L (pred_numeral k) (c\<lparr>pc := 0\<rparr>))) (run_loop L (pred_numeral k)) s
      else (Ret (), s))"
  by (simp add: numeral_eq_Suc)

lemma i64_eval [simp]:
  "numeral k \<le> MaxInt64 \<Longrightarrow> i64 (numeral k) = numeral k"
  "MinInt64 \<le> - numeral k \<Longrightarrow> i64 (- numeral k) = - numeral k" "i64 0 = 0" "i64 1 = 1" "i64 (- 1) = - 1"
  by (simp_all add: i64_id)

lemmas eval_machine = run_code_def Verify_def initVM_def sample_ctx_def run_def step_def slice_bytes_def
  ParseOp_def parse_data_def AddUint32_def window_def OP_DATA_def ops_def named_op_def ops_table_def isExpansion_def
  vm_defs vbind_def Let_def alloc_def itemCost_def falseResult_def AsBool_def word_le_nat_alt word_less_nat_alt

lemma u256_eqs:
  assumes "u256_ok L"
  shows "uNewInt L n = ucast n" "uBytes L x = be_of_nat (unat x)"
    "uSign L x = (if x = 0 then 0 else if unat x < 2 ^ 255 then 1 else - 1)"
    "uAdd L x y = x + y" "uSub L x y = x - y" "uMul L x y = x * y" "uDiv L x y = x div y"
    "uCmp L x y = (if x < y then - 1 else if x = y then 0 else 1)" "uEq L x y = (x = y)" "uIsZero L x = (x = 0)"
    "uUint64 L x = ucast x" "uIsUint64 L x = (unat x < 2 ^ 64)"
  using assms by (simp_all add: u256_ok_def)

lemmas eval_num = popTwo_def popInt64_def bigIntInt64_def int64_of_def AsBigInt_spec nat_of_be_def BigIntBytes_def
  be_of_nat.simps [of "numeral _"] be_of_nat.simps [of 1]

lemmas eval_op = opPushdata_def opFalse_def opAdd_def opNumEqual_def doNumCompare_def opLeft_def opCat_def opDrop_def opJump_def
  opPick_def opProgram_def pushField_def opCheckPredicate_def runChild_def childVM_def stackCost_def
  sub_slice_def go_append_def write_at_def opNop_def

definition spin_code :: bytes where
  "spin_code = [OP_0, 1, OP_PROGRAM, 0x52, OP_CHECKPREDICATE, OP_DROP, OP_JUMP, 0, 0, 0, 0] @ replicate 52 OP_NOP"

lemma spin_parse:
  "ParseOp spin_code 0 = Inr \<lparr>Op = 0, Len = 1, Data = []\<rparr>"
  "ParseOp spin_code 1 = Inr \<lparr>Op = 1, Len = 2, Data = [OP_PROGRAM]\<rparr>"
  "ParseOp spin_code 3 = Inr \<lparr>Op = 0x52, Len = 1, Data = [2]\<rparr>"
  "ParseOp spin_code 4 = Inr \<lparr>Op = OP_CHECKPREDICATE, Len = 1, Data = []\<rparr>"
  "ParseOp spin_code 5 = Inr \<lparr>Op = OP_DROP, Len = 1, Data = []\<rparr>"
  "ParseOp spin_code 6 = Inr \<lparr>Op = OP_JUMP, Len = 5, Data = [0, 0, 0, 0]\<rparr>"
  "ParseOp [OP_PROGRAM] 0 = Inr \<lparr>Op = OP_PROGRAM, Len = 1, Data = []\<rparr>"
  "length spin_code = 63"
  by (simp_all add: spin_code_def ParseOp_def parse_data_def AddUint32_def window_def OP_DATA_def Let_def
      word_le_nat_alt word_less_nat_alt)

lemma spin_fn: "op_fn (ops 0) = Fn_opFalse" "op_fn (ops 1) = Fn_opPushdata" "op_fn (ops 0x52) = Fn_opPushdata"
   "op_fn (ops OP_CHECKPREDICATE) = Fn_opCheckPredicate" "op_fn (ops OP_DROP) = Fn_opDrop"
   "op_fn (ops OP_JUMP) = Fn_opJump" "op_fn (ops OP_PROGRAM) = Fn_opProgram"
   "\<not> isExpansion 0" "\<not> isExpansion 1" "\<not> isExpansion 0x52" "\<not> isExpansion OP_CHECKPREDICATE" "\<not> isExpansion OP_DROP"
   "\<not> isExpansion OP_JUMP" "\<not> isExpansion OP_PROGRAM"
  by (simp_all add: ops_def named_op_def ops_table_def isExpansion_def)

definition spin_state :: "int \<Rightarrow> virtualMachine \<Rightarrow> bool" where
  "spin_state R s \<longleftrightarrow> pc s = 0 \<and> runLimit s = R \<and> dataStack s = [] \<and> 1 < length (heap s) \<and>
     heap s ! 1 = spin_code \<and> program s = \<lparr>s_arr = 1, s_off = 0, s_len = 63, s_cap = 63\<rparr> \<and>
     Code (vcontext s) = program s"

lemma spin_lap:
  assumes "u256_ok L" "spin_state R s" "1000 \<le> R" "R \<le> gas_cap"
  shows "\<exists>s'. spin_state R s' \<and> run_loop L (m + 6) s = run_loop L m s'"
proof -
  have "run_loop L (Suc (Suc (Suc (Suc (Suc (Suc m)))))) s =
    run_loop L m (s\<lparr>pc := 0, nextPC := 0, deferredCost := 0, data := [0, 0, 0, 0], heap := heap s @ [[], [OP_PROGRAM], [2], []]\<rparr>)"
    using assms
    by (cases s) (simp add: spin_state_def step_def slice_bytes_def spin_parse spin_fn Let_def eval_op
        vm_defs vbind_def alloc_def itemCost_def i64_id word_less_nat_alt nth_append eval_num u256_eqs le_Uint32_def)
  with assms(2) show ?thesis
    by (intro exI conjI) (auto simp: spin_state_def nth_append numeral_eq_Suc)
qed

lemma spin_forever:
  assumes "u256_ok L" "1000 \<le> R" "R \<le> gas_cap"
  shows "spin_state R s \<Longrightarrow> fst (run_loop L n s) = NoFuel"
proof (induction n arbitrary: s rule: less_induct)
  case (less n)
  obtain s' where lap: "spin_state R s'" "run_loop L (n - 6 + 6) s = run_loop L (n - 6) s'"
    using spin_lap [OF assms(1) less.prems assms(2,3)] by blast
  show ?case
  proof (cases "6 \<le> n")
    case True
    with less.IH [of "n - 6" s'] lap show ?thesis by simp
  next
    case False
    have "fst (run_loop L 6 s) = NoFuel" using lap(2) False by simp
    with run_loop_mono [of L n "6 - n"] False show ?thesis by (auto simp: refines_def)
  qed
qed

end
