(* ===== verification/VmProps.thy ===== *)
theory VmProps
  imports VmSpec VmEval
begin

text \<open>
  The properties of the virtual machine, with the concrete executions that show their
  hypotheses can be met.
\<close>

section \<open>Gas and termination\<close>

text \<open>
  C30. A program without the bytes of \<^verbatim>\<open>CHECKPREDICATE\<close>, \<^verbatim>\<open>CAT\<close> and \<^verbatim>\<open>CATPUSHDATA\<close> halts within a
  number of steps linear in the gas limit; the gas left is between zero and the limit, and
  the memory the caller passed in is not modified.
\<close>

theorem Verify_halts_within_gas:
  assumes "u256_ok L" "hash_ok L" "small_ctx c" "0 \<le> gasLimit" "gasLimit \<le> gas_cap"
    and "simple_code (slice_bytes h (Code c))" "s_arr (Code c) < length h" "3 * gasLimit < int fuel"
  shows "\<exists>gasLeft err h'. Verify L fuel c gasLimit h = Some (gasLeft, err, h') \<and>
           0 \<le> gasLeft \<and> gasLeft \<le> gasLimit \<and> prefix h h'"
  using Verify_simple [OF assms] by (auto simp: gas_bounded_def split: option.splits)

lemma sample_small: "small_ctx (sample_ctx\<lparr>Code := \<lparr>s_arr = 1, s_off = 0, s_len = n, s_cap = n\<rparr>\<rparr>)" if "n < 100"
  using that by (simp add: small_ctx_def ctx_small_def small_slice_def sample_ctx_def nil_slice_def)

lemma Verify_halts_within_gas_witness:
  "\<exists>gasLeft err h'. Verify sample_lib 301 (sample_ctx\<lparr>Code := \<lparr>s_arr = 1, s_off = 0, s_len = 1, s_cap = 1\<rparr>\<rparr>)
     100 [[1], [OP_1]] = Some (gasLeft, err, h') \<and> 0 \<le> gasLeft \<and> gasLeft \<le> 100 \<and> prefix [[1], [OP_1]] h'"
  by (rule Verify_halts_within_gas [OF sample_lib_ok sample_small])
    (simp_all add: simple_code_def slice_bytes_def)



text \<open>
  A step of any opcode but \<^verbatim>\<open>CHECKPREDICATE\<close> cannot create gas: the run limit plus the price of
  the items on the stacks never grows, the run limit stays non-negative also when the step
  fails, and the measure \<open>nu\<close> drops, so that no sequence of such steps is endless.
\<close>

theorem step_creates_no_gas:
  assumes "u256_ok L" "hash_ok L" "gas_state M s"
    and "\<And>inst. ParseOp (slice_bytes (heap s) (program s)) (pc s) = Inr inst \<Longrightarrow> Op inst \<noteq> OP_CHECKPREDICATE"
    and "step L childRun s = (r, s')"
  shows "(r = Ret () \<longrightarrow> gas_state M s' \<and> nu s' < nu s) \<and>
         (\<forall>e. r = Fail e \<longrightarrow> 0 \<le> runLimit s' \<and> runLimit s' \<le> M)"
  using step_gas [OF assms(1-4), of childRun] assms(5) by (auto split: outcome.splits)

definition sample_vm :: "bytes \<Rightarrow> int \<Rightarrow> virtualMachine" where
  "sample_vm code limit = initVM (sample_ctx\<lparr>Code := \<lparr>s_arr = 1, s_off = 0, s_len = length code, s_cap = length code\<rparr>\<rparr>)
     limit [[1], code]"

lemma sample_vm_gas: "length code < 100 \<Longrightarrow> 0 \<le> g \<Longrightarrow> g \<le> gas_cap \<Longrightarrow> gas_state g (sample_vm code g)"
  using sample_small [of "length code"] by (simp add: gas_state_def sample_vm_def initVM_def small_ctx_def)

lemma step_creates_no_gas_witness:
  "\<exists>s'. step sample_lib (run_loop sample_lib 0) (sample_vm [OP_1] 100) = (Ret (), s') \<and> gas_state 100 s' \<and>
      nu s' < nu (sample_vm [OP_1] 100)"
proof -
  let ?s = "sample_vm [OP_1] 100"
  have p: "slice_bytes (heap ?s) (program ?s) = [OP_1]" "pc ?s = 0"
    by (simp_all add: sample_vm_def initVM_def slice_bytes_def)
  have o: "Op inst \<noteq> OP_CHECKPREDICATE"
    if "ParseOp (slice_bytes (heap ?s) (program ?s)) (pc ?s) = Inr inst" for inst
    using that unfolding p by (auto simp: ParseOp_def)
  obtain s' where "step sample_lib (run_loop sample_lib 0) ?s = (Ret (), s')"
    by (simp add: sample_vm_def eval_machine eval_op)
  with step_creates_no_gas [OF sample_lib_ok sample_vm_gas [of "[OP_1]" 100] o this] show ?thesis by simp
qed

text \<open>
  C31. With \<^verbatim>\<open>CHECKPREDICATE\<close> gas is not conserved: a child that fails because it cannot pay for a
  deferred push still has that item on its stack, and the parent is refunded for it. The
  program \<open>spin_code\<close> uses the refund to pay for a jump to its own start, so it runs forever
  on any gas limit from 1000 up: no step bound is enough for it.
\<close>

theorem spin_code_never_halts:
  assumes "u256_ok L" "1000 \<le> gasLimit" "gasLimit \<le> gas_cap"
  shows "run_code L fuel spin_code gasLimit [1] = None"
proof -
  let ?c = "sample_ctx\<lparr>Code := \<lparr>s_arr = 1, s_off = 0, s_len = length spin_code, s_cap = length spin_code\<rparr>\<rparr>"
  have "spin_state gasLimit ((initVM ?c gasLimit [[1], spin_code])\<lparr>pc := 0\<rparr>)"
    by (simp add: spin_state_def initVM_def sample_ctx_def spin_parse)
  then have "fst (run L fuel (initVM ?c gasLimit [[1], spin_code])) = NoFuel"
    using spin_forever [OF assms] by (simp add: run_def)
  moreover have "VMVersion ?c = 1" "StateData ?c = []" "Arguments ?c = []" by (simp_all add: sample_ctx_def)
  ultimately show ?thesis
    by (simp add: run_code_def Verify_def case_prod_beta split: outcome.splits prod.splits)
qed

lemma spin_code_never_halts_witness: "run_code sample_lib 1000 spin_code 100000 [1] = None"
  by (rule spin_code_never_halts [OF sample_lib_ok(1)]) simp_all

section \<open>Aliasing, panics and reserved opcodes\<close>

definition poison_code :: bytes where
  "poison_code = [OP_1, OP_1, OP_NUMEQUAL, OP_0, OP_LEFT, 1, 0, OP_CAT, OP_1]"

text \<open>
  C33. The opcodes that push a true value push the package variable \<^verbatim>\<open>trueBytes\<close> itself, and \<^verbatim>\<open>CAT\<close>
  appends in place: \<open>poison_code\<close> succeeds and leaves a zero in that variable, after which a
  program that compares two equal numbers fails, although it succeeds before.
\<close>

theorem true_value_can_be_overwritten:
  assumes "u256_ok L"
  shows "(\<exists>gasLeft h'. run_code L 10 poison_code 1000 [1] = Some (gasLeft, None, [0] # h')) \<and>
    (\<exists>gasLeft h'. run_code L 10 [OP_1, OP_1, OP_NUMEQUAL] 1000 [1] = Some (gasLeft, None, h')) \<and>
    (\<exists>gasLeft h'. run_code L 10 [OP_1, OP_1, OP_NUMEQUAL] 1000 [0] = Some (gasLeft, Some ErrFalseVMResult, h'))"
  using assms by (intro conjI) (simp_all add: eval_machine eval_op eval_num u256_eqs poison_code_def)

lemma true_value_can_be_overwritten_witness:
  "(\<exists>gasLeft h'. run_code sample_lib 10 poison_code 1000 [1] = Some (gasLeft, None, [0] # h')) \<and>
   (\<exists>gasLeft h'. run_code sample_lib 10 [OP_1, OP_1, OP_NUMEQUAL] 1000 [1] = Some (gasLeft, None, h')) \<and>
   (\<exists>gasLeft h'. run_code sample_lib 10 [OP_1, OP_1, OP_NUMEQUAL] 1000 [0] = Some (gasLeft, Some ErrFalseVMResult, h'))"
  using true_value_can_be_overwritten [OF sample_lib_ok(1)] by simp





section \<open>What the opcodes compute\<close>

definition with_stack :: "bytes list \<Rightarrow> virtualMachine" where
  "with_stack items = (sample_vm [] 5000)\<lparr>
     dataStack := map (\<lambda>i. \<lparr>s_arr = i + 2, s_off = 0, s_len = length (items ! i), s_cap = length (items ! i)\<rparr>) [0..<length items],
     heap := [[1], []] @ items\<rparr>"

lemmas with_stack_defs = with_stack_def sample_vm_def initVM_def

text \<open>
  C34. Each of the fifteen binary numeric opcodes implements its specification \<open>num_binops\<close> on the two
  numbers on top of the stack: the exact result on the remaining stack, or the error the
  specification names (a result of \<open>2 ^ 255\<close> or more, a negative difference, a zero divisor).
\<close>

theorem numeric_opcodes_exact:
  assumes "u256_ok L" "true_intact (heap s)" "8 \<le> runLimit s" "dataStack s = st @ [a, b]"
    and "num_of L (heap s) a = Some m" "num_of L (heap s) b = Some n" "(fn, spec) \<in> set num_binops"
  shows "case spec m n of
           Inl e \<Rightarrow> fst (exec_op L childRun fn s) = Fail e
         | Inr k \<Rightarrow> fst (exec_op L childRun fn s) = Ret () \<and>
             (\<exists>d. dataStack (snd (exec_op L childRun fn s)) = st @ [d] \<and>
                  num_of L (heap (snd (exec_op L childRun fn s))) d = Some k)"
  using numeric_binop_implements [OF assms, of childRun]
  by (simp add: implements_def num_pushed_def split: sum.splits)

lemma numeric_opcodes_exact_witness:
  "fst (exec_op sample_lib opNop Fn_opSub (with_stack [[7], [2]])) = Ret () \<and>
   (\<exists>d. dataStack (snd (exec_op sample_lib opNop Fn_opSub (with_stack [[7], [2]]))) = [d] \<and>
     num_of sample_lib (heap (snd (exec_op sample_lib opNop Fn_opSub (with_stack [[7], [2]])))) d = Some 5)"
  using numeric_opcodes_exact [OF sample_lib_ok(1), of "with_stack [[7], [2]]" "[]"
      "\<lparr>s_arr = 2, s_off = 0, s_len = 1, s_cap = 1\<rparr>" "\<lparr>s_arr = 3, s_off = 0, s_len = 1, s_cap = 1\<rparr>" 7 2 Fn_opSub
      "\<lambda>x y. if y \<le> x then Inr (x - y) else Inl ErrRange" opNop]
  by (simp add: with_stack_defs true_intact_def num_of_def AsBigInt_spec [OF sample_lib_ok(1)] slice_bytes_def
      nat_of_be_def num_binops_def)

text \<open>
  Each of the thirteen opcodes that move items on the data stack replaces the items on top by the
  arrangement that \<open>stack_moves\<close> gives for it and touches nothing else, and fails with an
  underflow when the stack is too short.
\<close>

theorem stack_opcodes_move:
  assumes "(fn, k, idx) \<in> set stack_moves" "runLimit s \<le> gas_cap"
  shows "(\<forall>st xs. dataStack s = st @ xs \<and> length xs = k \<and> 4 + SC xs \<le> runLimit s \<longrightarrow>
            fst (exec_op L childRun fn s) = Ret () \<and>
            dataStack (snd (exec_op L childRun fn s)) = st @ map ((!) xs) idx \<and>
            altStack (snd (exec_op L childRun fn s)) = altStack s \<and> heap (snd (exec_op L childRun fn s)) = heap s) \<and>
         (length (dataStack s) < k \<and> 3 \<le> runLimit s \<longrightarrow> fst (exec_op L childRun fn s) = Fail ErrDataStackUnderflow)"
  using stack_move_enough [OF assms(1) _ _ _ assms(2), of _ _ L childRun] stack_move_underflow [OF assms(1), of s L childRun]
  by (auto simp: moved_def)

lemma stack_opcodes_move_witness:
  "dataStack (snd (exec_op sample_lib opNop Fn_opRot (with_stack [[1], [2], [3]]))) =
     map ((!) (dataStack (with_stack [[1], [2], [3]]))) [1, 2, 0]"
proof -
  let ?s = "with_stack [[1], [2], [3]]"
  have "(Fn_opRot, 3, [1, 2, 0]) \<in> set stack_moves" "runLimit ?s \<le> gas_cap" "length (dataStack ?s) = 3"
    "4 + SC (dataStack ?s) \<le> runLimit ?s"
    by (simp_all add: stack_moves_def with_stack_defs)
  with stack_opcodes_move [of Fn_opRot 3 "[1, 2, 0]" ?s sample_lib opNop] show ?thesis
    by (metis append_Nil)
qed

text \<open>
  C35. \<^verbatim>\<open>CHECKMULTISIG\<close> succeeds exactly when the signatures match, in order, keys of a subsequence of the
  given keys: trying the keys one after the other misses no match.
\<close>

theorem CHECKMULTISIG_matches_in_order:
  assumes "u256_ok L" "true_intact (heap s)" "dataStack s = st @ rev sigs @ [msg] @ rev pks @ [ns, np]"
    and "num_of L (heap s) ns = Some (length sigs)" "num_of L (heap s) np = Some (length pks)"
    and "0 < length sigs" "length sigs \<le> length pks" "1024 * int (length pks) \<le> runLimit s" "runLimit s \<le> MaxInt64"
    and "s_len msg = 32" "\<forall>p\<in>set pks. s_len p = PublicKeySize"
  shows "fst (opCheckMultiSig L s) = Ret () \<and>
     (\<exists>d. dataStack (snd (opCheckMultiSig L s)) = st @ [d] \<and>
        num_of L (heap (snd (opCheckMultiSig L s))) d = Some (if \<exists>ps. subseq ps pks \<and>
          list_all2 (\<lambda>sg pk. ed25519_Verify L (slice_bytes (heap s) pk) (slice_bytes (heap s) msg)
            (slice_bytes (heap s) sg)) sigs ps then 1 else 0))"
  using opCheckMultiSig_spec [OF assms] by (simp add: num_pushed_def)

definition key32 :: "byte \<Rightarrow> bytes" where
  "key32 b = replicate 32 b"

lemma CHECKMULTISIG_matches_in_order_witness:
  "\<exists>d. dataStack (snd (opCheckMultiSig sample_lib (with_stack [key32 5, key32 9, key32 5, key32 4, [1], [2]]))) = [d] \<and>
     num_of sample_lib (heap (snd (opCheckMultiSig sample_lib
       (with_stack [key32 5, key32 9, key32 5, key32 4, [1], [2]])))) d = Some 1"
proof -
  let ?s = "with_stack [key32 5, key32 9, key32 5, key32 4, [1], [2]]"
  let ?x = "\<lambda>i n. \<lparr>s_arr = i, s_off = 0, s_len = n, s_cap = n\<rparr>"
  have st: "dataStack ?s = [] @ rev [?x 2 32] @ [?x 3 32] @ rev [?x 5 32, ?x 4 32] @ [?x 6 1, ?x 7 1]"
    by (simp add: with_stack_defs key32_def)
  have h: "slice_bytes (heap ?s) (?x 2 32) = key32 5" "slice_bytes (heap ?s) (?x 4 32) = key32 5"
    "slice_bytes (heap ?s) (?x 6 1) = [1]" "slice_bytes (heap ?s) (?x 7 1) = [2]"
    by (simp_all add: with_stack_defs key32_def slice_bytes_def)
  have "subseq [?x 4 32] [?x 5 32, ?x 4 32]" by simp
  then have m: "\<exists>ps. subseq ps [?x 5 32, ?x 4 32] \<and> list_all2 (\<lambda>sg pk. ed25519_Verify sample_lib
      (slice_bytes (heap ?s) pk) (slice_bytes (heap ?s) (?x 3 32)) (slice_bytes (heap ?s) sg)) [?x 2 32] ps"
    by (intro exI [of _ "[?x 4 32]"]) (simp add: h sample_lib_def)
  have t: "true_intact (heap ?s)" "1024 * int (length [?x 5 32, ?x 4 32]) \<le> runLimit ?s" "runLimit ?s \<le> MaxInt64"
    by (simp_all add: with_stack_defs true_intact_def)
  have n: "num_of sample_lib (heap ?s) (?x 6 1) = Some (length [?x 2 32])"
    "num_of sample_lib (heap ?s) (?x 7 1) = Some (length [?x 5 32, ?x 4 32])"
    unfolding num_of_def h by (simp_all add: AsBigInt_spec [OF sample_lib_ok(1)] nat_of_be_def)
  have "\<forall>p\<in>set [?x 5 32, ?x 4 32]. s_len p = PublicKeySize" by (simp add: PublicKeySize_def)
  from CHECKMULTISIG_matches_in_order [OF sample_lib_ok(1) t(1) st n _ _ t(2,3) _ this] m show ?thesis
    by (simp only: if_True append_Nil) simp
qed

text \<open>
  \<^verbatim>\<open>CAT\<close> leaves the concatenation of the two strings on the stack, whether the runtime can
  append in place or has to reallocate.
\<close>

theorem CAT_concatenates:
  assumes "dataStack s = st @ [a, b]" "wf_slice (heap s) a" "small_slice a" "small_slice b"
    and "4 + int (s_len a) + int (s_len b) \<le> runLimit s" "runLimit s \<le> gas_cap"
  shows "fst (opCat L s) = Ret () \<and> (\<exists>d. dataStack (snd (opCat L s)) = st @ [d] \<and>
           slice_bytes (heap (snd (opCat L s))) d = slice_bytes (heap s) a @ slice_bytes (heap s) b)"
  using opCat_spec [OF assms] by (simp add: bytes_pushed_def)

lemma CAT_concatenates_witness:
  "\<exists>d. dataStack (snd (opCat sample_lib (with_stack [[1, 2], [3]]))) = [d] \<and>
     slice_bytes (heap (snd (opCat sample_lib (with_stack [[1, 2], [3]])))) d = [1, 2, 3]"
  using CAT_concatenates [of "with_stack [[1, 2], [3]]" "[]" "\<lparr>s_arr = 2, s_off = 0, s_len = 2, s_cap = 2\<rparr>"
      "\<lparr>s_arr = 3, s_off = 0, s_len = 1, s_cap = 1\<rparr>" sample_lib]
  by (simp add: with_stack_defs wf_slice_def small_slice_def slice_bytes_def)

text \<open>
  \<^verbatim>\<open>SUBSTR\<close> leaves the requested window of the string when it lies inside the string and fails with
  a bad value otherwise, also when offset plus size would overflow.
\<close>

theorem SUBSTR_window_or_error:
  assumes "u256_ok L" "dataStack s = st @ [str, off, sz]" "num_of L (heap s) off = Some i" "num_of L (heap s) sz = Some n"
    and "int i \<le> MaxInt64" "4 + int n \<le> runLimit s" "runLimit s \<le> gas_cap" "small_slice str"
  shows "if i + n \<le> s_len str
         then fst (opSubstr L s) = Ret () \<and> (\<exists>d. dataStack (snd (opSubstr L s)) = st @ [d] \<and>
                slice_bytes (heap (snd (opSubstr L s))) d = take n (drop i (slice_bytes (heap s) str)))
         else fst (opSubstr L s) = Fail ErrBadValue"
  using opSubstr_spec [OF assms] by (simp add: bytes_pushed_def split: if_splits)

lemma SUBSTR_window_or_error_witness:
  "\<exists>d. dataStack (snd (opSubstr sample_lib (with_stack [[4, 5, 6, 7], [1], [2]]))) = [d] \<and>
     slice_bytes (heap (snd (opSubstr sample_lib (with_stack [[4, 5, 6, 7], [1], [2]])))) d = [5, 6]"
  using SUBSTR_window_or_error [OF sample_lib_ok(1), of "with_stack [[4, 5, 6, 7], [1], [2]]" "[]"
      "\<lparr>s_arr = 2, s_off = 0, s_len = 4, s_cap = 4\<rparr>" "\<lparr>s_arr = 3, s_off = 0, s_len = 1, s_cap = 1\<rparr>"
      "\<lparr>s_arr = 4, s_off = 0, s_len = 1, s_cap = 1\<rparr>" 1 2]
  by (simp add: with_stack_defs small_slice_def num_of_def AsBigInt_spec [OF sample_lib_ok(1)] slice_bytes_def nat_of_be_def)

text \<open>
  \<^verbatim>\<open>AND\<close>, \<^verbatim>\<open>OR\<close> and \<^verbatim>\<open>XOR\<close> combine the two strings byte by byte, the first over the shorter and
  the others over the longer string padded with zeros, and \<^verbatim>\<open>EQUAL\<close> compares the contents.
\<close>

theorem bitwise_opcodes:
  assumes "u256_ok L" "true_intact (heap s)" "dataStack s = st @ [a, b]"
    and "1 + int (max (s_len a) (s_len b)) \<le> runLimit s" "runLimit s \<le> gas_cap"
    and "x = slice_bytes (heap s) a" "y = slice_bytes (heap s) b"
  shows "bytes_pushed st (map2 (AND) x y) (opAnd s) \<and>
         bytes_pushed st (map (\<lambda>i. byte_at x i OR byte_at y i) [0..<max (length x) (length y)]) (opOr s) \<and>
         bytes_pushed st (map (\<lambda>i. byte_at x i XOR byte_at y i) [0..<max (length x) (length y)]) (opXor s) \<and>
         num_pushed L st (if x = y then 1 else 0) (opEqual s)"
proof -
  have "1 + int (min (s_len a) (s_len b)) \<le> runLimit s" using assms(4) by linarith
  with opAnd_spec [OF assms(3) _ assms(5)] opEqual_spec [OF assms(3) _ assms(5,1,2)]
    doOr_spec [OF assms(3,4,5), of False] doOr_spec [OF assms(3,4,5), of True]
  show ?thesis by (simp add: assms(6,7) opOr_def opXor_def or_bytes_def)
qed

lemma bitwise_opcodes_witness:
  "bytes_pushed [] [2] (opAnd (with_stack [[3], [6, 8]])) \<and> bytes_pushed [] [7, 8] (opOr (with_stack [[3], [6, 8]])) \<and>
   bytes_pushed [] [5, 8] (opXor (with_stack [[3], [6, 8]])) \<and> num_pushed sample_lib [] 0 (opEqual (with_stack [[3], [6, 8]]))"
  using bitwise_opcodes [OF sample_lib_ok(1), of "with_stack [[3], [6, 8]]" "[]"
      "\<lparr>s_arr = 2, s_off = 0, s_len = 1, s_cap = 1\<rparr>" "\<lparr>s_arr = 3, s_off = 0, s_len = 2, s_cap = 2\<rparr>" "[3]" "[6, 8]"]
  by (simp add: with_stack_defs true_intact_def slice_bytes_def byte_at_def upt_rec)

section \<open>Encodings and the frame\<close>

text \<open>
  A program assembled from data pushes is parsed back into exactly these pushes, for every
  length of data, up to the maximal program length.
\<close>

theorem ParseProgram_of_pushes:
  assumes "length (concat (map PushDataBytes ds)) \<le> 0x7fffffff"
  shows "\<exists>insts. ParseProgram (concat (map PushDataBytes ds)) = Inr insts \<and> map Data insts = ds \<and>
           list_all2 (\<lambda>inst d. Len inst = of_nat (length (PushDataBytes d))) insts ds"
proof -
  have "list_all2 parses (map PushDataBytes ds) (map data_inst ds)"
    by (simp add: list_all2_map1 list_all2_map2 list_all2_same parses_PushDataBytes)
  from ParseProgram_parses [OF this assms] show ?thesis
    by (intro exI [of _ "map data_inst ds"])
      (simp add: data_inst_def comp_def list_all2_map1 list_all2_same)
qed

lemma ParseProgram_of_pushes_witness:
  "\<exists>insts. ParseProgram (concat (map PushDataBytes [[7, 8], [], [9]])) = Inr insts \<and> map Data insts = [[7, 8], [], [9]] \<and>
     list_all2 (\<lambda>inst d. Len inst = of_nat (length (PushDataBytes d))) insts [[7, 8], [], [9]]"
  by (rule ParseProgram_of_pushes) (simp add: PushDataBytes_def)

text \<open>
  Numbers below \<open>2 ^ 255\<close> survive the trip through their little-endian byte strings, the byte
  strings have at most 32 bytes, and a number from \<open>2 ^ 255\<close> up is refused when read back.
\<close>

theorem number_round_trip:
  assumes "u256_ok L"
  shows "length (BigIntBytes L x) \<le> 32 \<and>
         AsBigInt L (BigIntBytes L x) = (if unat x < 2 ^ 255 then Inr x else Inl ErrRange)"
proof -
  have "rev (BigIntBytes L x) = be_of_nat (unat x)"
    using assms by (simp add: BigIntBytes_def u256_ok_def)
  then show ?thesis
    using length_BigIntBytes [OF assms, of x] by (simp add: AsBigInt_spec [OF assms])
qed

lemma number_round_trip_witness: "AsBigInt sample_lib (BigIntBytes sample_lib 300) = Inr 300"
  using number_round_trip [OF sample_lib_ok(1), of 300] by simp



end
