(* ===== verification/Script.thy ===== *)
theory Script
  imports VmParse
begin

text \<open>
  Standard programs: the program builder and the script generators of package
  \<^verbatim>\<open>protocol/vm/vmutil\<close>, and the recognisers and converters of \<^verbatim>\<open>consensus/segwit\<close> and
  \<^verbatim>\<open>consensus/bcrp\<close>.
\<close>

section \<open>Results\<close>

text \<open>The errors these packages return, and \<open>GoPanic\<close> for an index out of range.\<close>

datatype script_err = ParseErr vmerr | ErrUnresolvedJump | BadQuorum | UnknownVersion | UnsupportedProgram

datatype 'a goresult = GoOk 'a | GoErr script_err | GoPanic

section \<open>builder.go\<close>

text \<open>
  \<^verbatim>\<open>jumpPlaceholders\<close> is a map that \<^verbatim>\<open>Build\<close> ranges over; the list gives its entries in the order
  in which they are visited.
\<close>

record Builder =
  bprogram :: bytes
  jumpCounter :: int
  jumpAddr :: "int \<rightharpoonup> u32"
  jumpPlaceholders :: "(int \<times> nat list) list"

definition NewBuilder :: Builder where
  "NewBuilder = \<lparr>bprogram = [], jumpCounter = 0, jumpAddr = Map.empty, jumpPlaceholders = []\<rparr>"

definition AddUint64B :: "lib \<Rightarrow> u64 \<Rightarrow> Builder \<Rightarrow> Builder" where
  "AddUint64B L n b = b\<lparr>bprogram := bprogram b @ PushDataUint64 L n\<rparr>"

definition AddData :: "bytes \<Rightarrow> Builder \<Rightarrow> Builder" where
  "AddData d b = b\<lparr>bprogram := bprogram b @ PushDataBytes d\<rparr>"

definition AddRawBytes :: "bytes \<Rightarrow> Builder \<Rightarrow> Builder" where
  "AddRawBytes d b = b\<lparr>bprogram := bprogram b @ d\<rparr>"

definition AddOp :: "byte \<Rightarrow> Builder \<Rightarrow> Builder" where
  "AddOp opc b = b\<lparr>bprogram := bprogram b @ [opc]\<rparr>"

definition NewJumpTarget :: "Builder \<Rightarrow> int \<times> Builder" where
  "NewJumpTarget b = (i64 (jumpCounter b + 1), b\<lparr>jumpCounter := i64 (jumpCounter b + 1)\<rparr>)"

fun add_placeholder :: "int \<Rightarrow> nat \<Rightarrow> (int \<times> nat list) list \<Rightarrow> (int \<times> nat list) list" where
  "add_placeholder t p [] = [(t, [p])]"
| "add_placeholder t p ((t', ps) # rest) =
     (if t' = t then (t', ps @ [p]) # rest else (t', ps) # add_placeholder t p rest)"

definition addJump :: "byte \<Rightarrow> int \<Rightarrow> Builder \<Rightarrow> Builder" where
  "addJump opc target b =
     (let b1 = AddOp opc b;
          b2 = b1\<lparr>jumpPlaceholders := add_placeholder target (length (bprogram b1)) (jumpPlaceholders b1)\<rparr>
      in AddRawBytes [0, 0, 0, 0] b2)"

definition AddJump :: "int \<Rightarrow> Builder \<Rightarrow> Builder" where
  "AddJump target = addJump OP_JUMP target"

definition AddJumpIf :: "int \<Rightarrow> Builder \<Rightarrow> Builder" where
  "AddJumpIf target = addJump OP_JUMPIF target"

definition SetJumpTarget :: "int \<Rightarrow> Builder \<Rightarrow> Builder" where
  "SetJumpTarget target b = b\<lparr>jumpAddr := (jumpAddr b)(target \<mapsto> of_nat (length (bprogram b)))\<rparr>"

definition put_addr :: "u32 \<Rightarrow> nat \<Rightarrow> bytes \<Rightarrow> bytes" where
  "put_addr addr p prog = write_at prog p (le_put 4 (unat addr))"

fun build_loop :: "(int \<rightharpoonup> u32) \<Rightarrow> (int \<times> nat list) list \<Rightarrow> bytes \<Rightarrow> bytes goresult" where
  "build_loop addrs [] prog = GoOk prog"
| "build_loop addrs ((target, ps) # rest) prog =
     (case addrs target of
        None \<Rightarrow> GoErr ErrUnresolvedJump
      | Some addr \<Rightarrow> build_loop addrs rest (fold (put_addr addr) ps prog))"

definition Build :: "Builder \<Rightarrow> bytes goresult" where
  "Build b = build_loop (jumpAddr b) (jumpPlaceholders b) (bprogram b)"

section \<open>script.go\<close>

definition IsUnspendable :: "bytes \<Rightarrow> bool" where
  "IsUnspendable prog \<longleftrightarrow> length prog > 0 \<and> prog ! 0 = OP_FAIL"

definition checkMultiSigParams :: "int \<Rightarrow> int \<Rightarrow> bool" where
  "checkMultiSigParams nrequired npubkeys \<longleftrightarrow>
     \<not> (nrequired < 0 \<or> npubkeys < 0 \<or> nrequired > npubkeys \<or> (nrequired = 0 \<and> npubkeys > 0))"

definition addP2SPMultiSig :: "lib \<Rightarrow> bytes list \<Rightarrow> int \<Rightarrow> Builder \<Rightarrow> Builder goresult" where
  "addP2SPMultiSig L pubkeys nrequired b =
     (if \<not> checkMultiSigParams nrequired (int (length pubkeys)) then GoErr BadQuorum
      else GoOk (AddOp OP_CHECKMULTISIG (AddUint64B L (of_nat (length pubkeys))
                  (AddUint64B L (of_int nrequired) (fold AddData pubkeys (AddOp OP_TXSIGHASH b))))))"

definition DefaultCoinbaseProgram :: "bytes goresult" where
  "DefaultCoinbaseProgram = Build (AddOp OP_TRUE NewBuilder)"

definition P2WPKHProgram :: "lib \<Rightarrow> bytes \<Rightarrow> bytes goresult" where
  "P2WPKHProgram L hash = Build (AddData hash (AddUint64B L 0 NewBuilder))"

definition P2WSHProgram :: "lib \<Rightarrow> bytes \<Rightarrow> bytes goresult" where
  "P2WSHProgram L hash = Build (AddData hash (AddUint64B L 0 NewBuilder))"

definition RetireProgram :: "bytes \<Rightarrow> bytes goresult" where
  "RetireProgram comm =
     (let b = AddOp OP_FAIL NewBuilder in Build (if length comm \<noteq> 0 then AddData comm b else b))"

definition BCRP :: bytes where
  "BCRP = [0x62, 0x63, 0x72, 0x70]"

definition Version :: byte where
  "Version = 1"

definition RegisterProgram :: "bytes \<Rightarrow> bytes goresult" where
  "RegisterProgram contract =
     Build (AddData contract (AddData [Version] (AddData BCRP (AddOp OP_FAIL NewBuilder))))"

definition CallContractProgram :: "bytes \<Rightarrow> bytes goresult" where
  "CallContractProgram hash = Build (AddData hash (AddData BCRP NewBuilder))"

definition P2PKHSigProgram :: "bytes \<Rightarrow> bytes goresult" where
  "P2PKHSigProgram pubkeyHash =
     Build (AddOp OP_CHECKSIG (AddOp OP_SWAP (AddOp OP_TXSIGHASH (AddOp OP_EQUALVERIFY
       (AddData pubkeyHash (AddOp OP_HASH160 (AddOp OP_DUP NewBuilder)))))))"

definition P2SHProgram :: "lib \<Rightarrow> bytes \<Rightarrow> bytes goresult" where
  "P2SHProgram L scriptHash =
     Build (AddOp OP_CHECKPREDICATE (AddUint64B L 0 (AddOp OP_SWAP (AddUint64B L 0 (AddOp OP_EQUALVERIFY
       (AddData scriptHash (AddOp OP_SHA3 (AddOp OP_DUP NewBuilder))))))))"

definition P2SPMultiSigProgram :: "lib \<Rightarrow> bytes list \<Rightarrow> int \<Rightarrow> bytes goresult" where
  "P2SPMultiSigProgram L pubkeys nrequired =
     (case addP2SPMultiSig L pubkeys nrequired NewBuilder of
        GoOk b \<Rightarrow> Build b | GoErr e \<Rightarrow> GoErr e | GoPanic \<Rightarrow> GoPanic)"

definition P2SPMultiSigProgramWithHeight :: "lib \<Rightarrow> bytes list \<Rightarrow> int \<Rightarrow> u64 \<Rightarrow> bytes goresult" where
  "P2SPMultiSigProgramWithHeight L pubkeys nrequired blockHeight =
     (let b = (if blockHeight > 0
               then AddOp OP_VERIFY (AddOp OP_GREATERTHAN (AddOp OP_BLOCKHEIGHT (AddUint64B L blockHeight NewBuilder)))
               else NewBuilder) in
      case addP2SPMultiSig L pubkeys nrequired b of
        GoOk b' \<Rightarrow> Build b' | GoErr e \<Rightarrow> GoErr e | GoPanic \<Rightarrow> GoPanic)"

definition GetIssuanceProgramRestrictHeight :: "lib \<Rightarrow> bytes \<Rightarrow> u64" where
  "GetIssuanceProgramRestrictHeight L prog =
     (case ParseProgram prog of
        Inl e \<Rightarrow> 0
      | Inr insts \<Rightarrow>
          if length insts \<ge> 4 \<and> IsPushdata (insts ! 0) \<and> Op (insts ! 1) = OP_BLOCKHEIGHT \<and>
             Op (insts ! 2) = OP_GREATERTHAN \<and> Op (insts ! 3) = OP_VERIFY
          then (case AsBigInt L (Data (insts ! 0)) of
                  Inl e \<Rightarrow> 0
                | Inr heightInt \<Rightarrow> (case uUint64WithOverflow L heightInt of
                    (height, overflow) \<Rightarrow> if overflow then 0 else height))
          else 0)"

section \<open>segwit.go\<close>

abbreviation (input) PayToWitnessPubKeyHashDataSize :: nat where
  "PayToWitnessPubKeyHashDataSize \<equiv> 20"

abbreviation (input) PayToWitnessScriptHashDataSize :: nat where
  "PayToWitnessScriptHashDataSize \<equiv> 32"

abbreviation (input) BCRPContractHashDataSize :: nat where
  "BCRPContractHashDataSize \<equiv> 32"

definition IsStraightforward :: "bytes \<Rightarrow> bool" where
  "IsStraightforward prog =
     (case ParseProgram prog of
        Inl e \<Rightarrow> False
      | Inr insts \<Rightarrow> length insts = 1 \<and> (Op (insts ! 0) = OP_TRUE \<or> Op (insts ! 0) = OP_FAIL))"

definition IsP2WPKHScript :: "bytes \<Rightarrow> bool" where
  "IsP2WPKHScript prog =
     (case ParseProgram prog of
        Inl e \<Rightarrow> False
      | Inr insts \<Rightarrow> length insts = 2 \<and> Op (insts ! 0) = OP_0 \<and> Op (insts ! 1) = OP_DATA 20 \<and>
          length (Data (insts ! 1)) = PayToWitnessPubKeyHashDataSize)"

definition IsP2WSHScript :: "bytes \<Rightarrow> bool" where
  "IsP2WSHScript prog =
     (case ParseProgram prog of
        Inl e \<Rightarrow> False
      | Inr insts \<Rightarrow> length insts = 2 \<and> Op (insts ! 0) = OP_0 \<and> Op (insts ! 1) = OP_DATA 32 \<and>
          length (Data (insts ! 1)) = PayToWitnessScriptHashDataSize)"

definition IsP2WScript :: "bytes \<Rightarrow> bool" where
  "IsP2WScript prog \<longleftrightarrow> IsP2WPKHScript prog \<or> IsP2WSHScript prog \<or> IsStraightforward prog"

text \<open>The converters index the instructions without looking at their number.\<close>

definition ConvertP2PKHSigProgram :: "bytes \<Rightarrow> bytes goresult" where
  "ConvertP2PKHSigProgram prog =
     (case ParseProgram prog of
        Inl e \<Rightarrow> GoErr (ParseErr e)
      | Inr insts \<Rightarrow>
          if length insts = 0 then GoPanic
          else if Op (insts ! 0) = OP_0
          then (if length insts < 2 then GoPanic else P2PKHSigProgram (Data (insts ! 1)))
          else GoErr UnknownVersion)"

definition ConvertP2SHProgram :: "lib \<Rightarrow> bytes \<Rightarrow> bytes goresult" where
  "ConvertP2SHProgram L prog =
     (case ParseProgram prog of
        Inl e \<Rightarrow> GoErr (ParseErr e)
      | Inr insts \<Rightarrow>
          if length insts = 0 then GoPanic
          else if Op (insts ! 0) = OP_0
          then (if length insts < 2 then GoPanic else P2SHProgram L (Data (insts ! 1)))
          else GoErr UnknownVersion)"

definition GetHashFromStandardProg :: "bytes \<Rightarrow> bytes goresult" where
  "GetHashFromStandardProg prog =
     (case ParseProgram prog of
        Inl e \<Rightarrow> GoErr (ParseErr e)
      | Inr insts \<Rightarrow> if length insts < 2 then GoPanic else GoOk (Data (insts ! 1)))"

section \<open>bcrp.go\<close>

definition IsBCRPScript :: "bytes \<Rightarrow> bool" where
  "IsBCRPScript prog =
     (case ParseProgram prog of
        Inl e \<Rightarrow> False
      | Inr inst \<Rightarrow> length inst = 4 \<and> Op (inst ! 0) = OP_FAIL \<and>
          Op (inst ! 1) = OP_DATA 4 \<and> Data (inst ! 1) = BCRP \<and>
          Op (inst ! 2) = OP_DATA 1 \<and> Data (inst ! 2) = [Version] \<and>
          length (Data (inst ! 3)) > 0)"

definition IsCallContractScript :: "bytes \<Rightarrow> bool" where
  "IsCallContractScript prog =
     (case ParseProgram prog of
        Inl e \<Rightarrow> False
      | Inr insts \<Rightarrow> length insts = 2 \<and> Op (insts ! 0) = OP_DATA 4 \<and> Data (insts ! 0) = BCRP \<and>
          Op (insts ! 1) = OP_DATA 32 \<and> length (Data (insts ! 1)) = BCRPContractHashDataSize)"

definition ParseContract :: "bytes \<Rightarrow> bytes goresult" where
  "ParseContract prog =
     (case ParseProgram prog of
        Inl e \<Rightarrow> GoErr (ParseErr e)
      | Inr insts \<Rightarrow> if length insts \<noteq> 4 then GoErr UnsupportedProgram else GoOk (Data (insts ! 3)))"

text \<open>\<^verbatim>\<open>copy(hash[:], data)\<close> into an array of 32 zero bytes.\<close>

definition ParseContractHash :: "bytes \<Rightarrow> bytes goresult" where
  "ParseContractHash prog =
     (case ParseProgram prog of
        Inl e \<Rightarrow> GoErr (ParseErr e)
      | Inr insts \<Rightarrow> if length insts \<noteq> 2 then GoErr UnsupportedProgram
          else GoOk (let d = take 32 (Data (insts ! 1)) in d @ replicate (32 - length d) 0))"

section \<open>The generated programs\<close>

lemmas builder_defs = AddUint64B_def AddData_def AddRawBytes_def AddOp_def NewBuilder_def Build_def

lemma fold_AddData: "fold AddData ds b = b\<lparr>bprogram := bprogram b @ concat (map PushDataBytes ds)\<rparr>"
  by (induction ds arbitrary: b) (simp_all add: AddData_def)

lemma programs_eq:
  "P2WPKHProgram L h = GoOk (concat [[OP_0], PushDataBytes h])"
  "P2WSHProgram L h = GoOk (concat [[OP_0], PushDataBytes h])"
  "RegisterProgram c = GoOk (concat [[OP_FAIL], PushDataBytes BCRP, PushDataBytes [Version], PushDataBytes c])"
  "CallContractProgram h = GoOk (concat [PushDataBytes BCRP, PushDataBytes h])"
  "P2PKHSigProgram h = GoOk (concat [[OP_DUP], [OP_HASH160], PushDataBytes h, [OP_EQUALVERIFY], [OP_TXSIGHASH],
      [OP_SWAP], [OP_CHECKSIG]])"
  "P2SHProgram L h = GoOk (concat [[OP_DUP], [OP_SHA3], PushDataBytes h, [OP_EQUALVERIFY], [OP_0], [OP_SWAP], [OP_0],
      [OP_CHECKPREDICATE]])"
  by (simp_all add: P2WPKHProgram_def P2WSHProgram_def RegisterProgram_def CallContractProgram_def P2PKHSigProgram_def
      P2SHProgram_def builder_defs PushDataUint64_def)

text \<open>What the parser makes of the parts.\<close>

lemma parses_plain [simp]:
  "parses [OP_0] \<lparr>Op = OP_0, Len = 1, Data = []\<rparr>" "parses [OP_FAIL] \<lparr>Op = OP_FAIL, Len = 1, Data = []\<rparr>"
  "parses [OP_TXSIGHASH] \<lparr>Op = OP_TXSIGHASH, Len = 1, Data = []\<rparr>"
  "parses [OP_CHECKMULTISIG] \<lparr>Op = OP_CHECKMULTISIG, Len = 1, Data = []\<rparr>"
  "parses [OP_BLOCKHEIGHT] \<lparr>Op = OP_BLOCKHEIGHT, Len = 1, Data = []\<rparr>"
  "parses [OP_GREATERTHAN] \<lparr>Op = OP_GREATERTHAN, Len = 1, Data = []\<rparr>"
  "parses [OP_VERIFY] \<lparr>Op = OP_VERIFY, Len = 1, Data = []\<rparr>"
  by (intro parses_plain_op; simp add: plain_op_def word_le_nat_alt)+

lemma Data_data_inst [simp]: "Data (data_inst d) = d"
  by (simp add: data_inst_def)

lemma Op_data_inst: "0 < length d \<Longrightarrow> length d \<le> 75 \<Longrightarrow> Op (data_inst d) = OP_DATA (length d)"
  by (simp add: data_inst_def PushDataBytes_def OP_DATA_def Let_def)

lemma length_PushDataBytes_le: "length (PushDataBytes d) \<le> length d + 5"
  by (simp add: PushDataBytes_def Let_def)

section \<open>Reading a parse backwards\<close>

text \<open>\<open>reads prog p insts\<close>: from position \<open>p\<close> the program consists of exactly these instructions.\<close>

fun reads :: "bytes \<Rightarrow> nat \<Rightarrow> Instruction list \<Rightarrow> bool" where
  "reads prog p [] \<longleftrightarrow> length prog \<le> p"
| "reads prog p (i # is) \<longleftrightarrow> p < length prog \<and> ParseOp prog (of_nat p) = Inr i \<and> reads prog (p + unat (Len i)) is"

lemma parse_loop_reads:
  assumes "length prog < 2 ^ 32" "p \<le> length prog"
    and "parse_loop prog (of_nat p) acc = Inr res"
  shows "\<exists>is. res = acc @ is \<and> reads prog p is"
  using assms(2,3)
proof (induction "length prog - p" arbitrary: p acc rule: less_induct)
  case less
  show ?case
  proof (cases "p < length prog")
    case False
    with less.prems have "res = acc" by (simp add: parse_loop.simps)
    with False show ?thesis by (intro exI [of _ "[]"]) simp
  next
    case True
    then have lt: "of_nat p < (of_nat (length prog) :: u32)"
      using assms(1) by (simp add: word_less_nat_alt unat_of_nat)
    then obtain i where i: "ParseOp prog (of_nat p) = Inr i" using less.prems(2)
      by (auto simp: parse_loop.simps [of prog "of_nat p"] split: sum.splits)
    have u: "unat (of_nat p :: u32) = p" "unat (of_nat (length prog) :: u32) = length prog"
      using True assms(1) by (simp_all add: unat_of_nat)
    with ParseOp_bounds [OF i] have b: "1 \<le> unat (Len i)" "p + unat (Len i) \<le> length prog" by simp_all
    have "AddUint32 (of_nat p) (of_nat (unat (Len i))) = (of_nat (p + unat (Len i)), True)"
      using b(2) assms(1) by (intro AddUint32_of_nat) simp
    then have "parse_loop prog (of_nat (p + unat (Len i))) (acc @ [i]) = Inr res"
      using less.prems(2) lt i by (simp add: parse_loop.simps [of prog "of_nat p"] del: of_nat_add)
    moreover have "length prog - (p + unat (Len i)) < length prog - p" using b(1) True by linarith
    ultimately obtain "is" where "res = acc @ i # is" "reads prog (p + unat (Len i)) is"
      using less.hyps [of "p + unat (Len i)" "acc @ [i]"] b(2) by auto
    then show ?thesis using True i by (intro exI [of _ "i # is"]) simp
  qed
qed

lemma ParseProgram_reads: "length prog < 2 ^ 32 \<Longrightarrow> ParseProgram prog = Inr is \<Longrightarrow> reads prog 0 is"
  using parse_loop_reads [of prog 0 "[]" "is"] by (auto simp: ParseProgram_def)

text \<open>The opcodes of the witness programs determine their bytes.\<close>

lemma ParseOp_zero: "ParseOp prog (of_nat p) = Inr i \<Longrightarrow> Op i = OP_0 \<Longrightarrow> Len i = 1 \<and> Data i = []"
  by (auto simp: ParseOp_def Let_def OP_DATA_def word_le_nat_alt split: if_splits prod.splits dest!: parse_data_Inr)

lemma ParseOp_data:
  assumes "ParseOp prog (of_nat p) = Inr i" "Op i = OP_DATA n" "1 \<le> n" "n \<le> 75" "p < length prog" "length prog < 2 ^ 32"
  shows "unat (Len i) = n + 1" "Data i = window prog (p + 1) (p + 1 + n)" "prog ! p = OP_DATA n"
proof -
  have u: "unat (of_nat p :: u32) = p" "unat (of_nat p + 1 :: u32) = p + 1"
    using assms(5,6) by (simp_all add: unat_of_nat unat_word_ariths)
  have o: "prog ! p = OP_DATA n" using ParseOp_bounds [OF assms(1)] assms(2) u by simp
  have n: "unat (OP_DATA n) = n" using assms(4) by (simp add: OP_DATA_def unat_of_nat)
  have "parse_data prog (of_nat p) (of_nat (length prog)) (OP_DATA n) 1 (1 + ucast (OP_DATA n)) = Inr i"
    using assms(1,3,4) o n u by (auto simp: ParseOp_def Let_def word_le_nat_alt OP_DATA_def unat_of_nat split: if_splits)
  from parse_data_Inr [OF this] have "Len i = 1 + ucast (OP_DATA n)"
    "Data i = window prog (unat (of_nat p + 1 :: u32)) (p + unat (Len i))" using u by auto
  moreover have "unat (1 + ucast (OP_DATA n) :: u32) = 1 + n" using n by (simp add: unat_data_len)
  ultimately show "unat (Len i) = n + 1" "Data i = window prog (p + 1) (p + 1 + n)" "prog ! p = OP_DATA n"
    using u o by (simp_all add: add.commute add.left_commute)
qed

lemma reads_witness_program:
  assumes "reads prog 0 [i, j]" "Op i = OP_0" "Op j = OP_DATA n" "1 \<le> n" "n \<le> 75" "length prog < 2 ^ 32"
  shows "prog = [OP_0, OP_DATA n] @ Data j" "length (Data j) = n"
proof -
  have i: "ParseOp prog (of_nat 0) = Inr i" "0 < length prog" and li: "Len i = 1"
    using assms(1) ParseOp_zero [of prog 0 i] assms(2) by auto
  have j: "ParseOp prog (of_nat 1) = Inr j" "1 < length prog" "length prog \<le> 1 + unat (Len j)"
    using assms(1) li by auto
  note d = ParseOp_data [OF j(1) assms(3-5) j(2) assms(6)]
  have "1 + unat (Len j) \<le> length prog"
    using ParseOp_bounds [OF j(1)] j(2) assms(6) by (simp add: unat_of_nat)
  with d j(3) have len: "length prog = n + 2" by simp
  have p0: "prog ! 0 = OP_0" using ParseOp_bounds [OF i(1)] assms(2) by simp
  show "length (Data j) = n" using d(2) len by (simp add: window_def)
  show "prog = [OP_0, OP_DATA n] @ Data j"
  proof (rule nth_equalityI)
    show "length prog = length ([OP_0, OP_DATA n] @ Data j)" using len d(2) by (simp add: window_def)
    fix k assume "k < length prog"
    then show "prog ! k = ([OP_0, OP_DATA n] @ Data j) ! k"
      using len d p0 by (cases k; cases "k - 1") (simp_all add: window_def)
  qed
qed

lemma witness_program_parse:
  assumes "length h = n" "1 \<le> n" "n \<le> 75"
  shows "ParseProgram ([OP_0, OP_DATA n] @ h) = Inr [\<lparr>Op = OP_0, Len = 1, Data = []\<rparr>, data_inst h]"
proof -
  have "PushDataBytes h = OP_DATA n # h"
    using assms by (auto simp: PushDataBytes_def OP_DATA_def Let_def)
  moreover have "ParseProgram (concat [[OP_0], PushDataBytes h]) = Inr [\<lparr>Op = OP_0, Len = 1, Data = []\<rparr>, data_inst h]"
    using assms length_PushDataBytes_le [of h] by (intro ParseProgram_parses) (simp_all add: parses_PushDataBytes)
  ultimately show ?thesis by simp
qed

end
