(* ===== verification/ScriptProps.thy ===== *)
theory ScriptProps
  imports Script VmEval
begin

text \<open>
  Properties of the standard programs: recognisers accept exactly the generated programs,
  what is put into a program is read back from it, jumps are resolved, and the
  pay-to-public-key-hash program accepts exactly the matching key and signature.
\<close>

section \<open>Witness programs\<close>

text \<open>
  The recognisers of witness programs accept exactly the programs that the generators produce for
  hashes of the right size; the conversion recovers the program that checks the hash.
\<close>

theorem witness_programs_recognised:
  assumes "length prog < 2 ^ 32"
  shows "(IsP2WPKHScript prog \<longleftrightarrow> (\<exists>h. length h = 20 \<and> P2WPKHProgram L h = GoOk prog)) \<and>
         (IsP2WSHScript prog \<longleftrightarrow> (\<exists>h. length h = 32 \<and> P2WSHProgram L h = GoOk prog)) \<and>
         (\<forall>h. length h = 20 \<and> P2WPKHProgram L h = GoOk prog \<longrightarrow>
            ConvertP2PKHSigProgram prog = P2PKHSigProgram h \<and> GetHashFromStandardProg prog = GoOk h) \<and>
         (\<forall>h. length h = 32 \<and> P2WSHProgram L h = GoOk prog \<longrightarrow>
            ConvertP2SHProgram L prog = P2SHProgram L h \<and> GetHashFromStandardProg prog = GoOk h)"
proof -
  have gen: "P2WPKHProgram L h = GoOk ([OP_0, OP_DATA (length h)] @ h)" "P2WSHProgram L h = GoOk ([OP_0, OP_DATA (length h)] @ h)"
    if "length h = 20 \<or> length h = 32" for h
    using that by (auto simp: programs_eq PushDataBytes_def OP_DATA_def)
  have rec: "(\<exists>i j. ParseProgram prog = Inr [i, j] \<and> Op i = OP_0 \<and> Op j = OP_DATA n \<and> length (Data j) = n) \<longleftrightarrow>
      (\<exists>h. length h = n \<and> prog = [OP_0, OP_DATA n] @ h)" if "1 \<le> n" "n \<le> 75" for n
  proof
    assume "\<exists>i j. ParseProgram prog = Inr [i, j] \<and> Op i = OP_0 \<and> Op j = OP_DATA n \<and> length (Data j) = n"
    then obtain i j where "ParseProgram prog = Inr [i, j]" "Op i = OP_0" "Op j = OP_DATA n" by blast
    with reads_witness_program [OF ParseProgram_reads [OF assms]] that assms
    show "\<exists>h. length h = n \<and> prog = [OP_0, OP_DATA n] @ h" by blast
  next
    assume "\<exists>h. length h = n \<and> prog = [OP_0, OP_DATA n] @ h"
    then obtain h where h: "length h = n" "prog = [OP_0, OP_DATA n] @ h" by blast
    then have "ParseProgram prog = Inr [\<lparr>Op = OP_0, Len = 1, Data = []\<rparr>, data_inst h]"
      using witness_program_parse [OF h(1) that] by simp
    then show "\<exists>i j. ParseProgram prog = Inr [i, j] \<and> Op i = OP_0 \<and> Op j = OP_DATA n \<and> length (Data j) = n"
      using Op_data_inst [of h] h(1) that
      by (intro exI [of _ "\<lparr>Op = OP_0, Len = 1, Data = []\<rparr>"] exI [of _ "data_inst h"]) simp
  qed
  have two: "(case ParseProgram prog of Inl e \<Rightarrow> False | Inr insts \<Rightarrow> length insts = 2 \<and> Op (insts ! 0) = OP_0 \<and>
      Op (insts ! 1) = OP_DATA n \<and> length (Data (insts ! 1)) = n) \<longleftrightarrow>
      (\<exists>i j. ParseProgram prog = Inr [i, j] \<and> Op i = OP_0 \<and> Op j = OP_DATA n \<and> length (Data j) = n)" for n
    by (auto simp: numeral_2_eq_2 length_Suc_conv split: sum.splits)
  have conv: "ConvertP2PKHSigProgram ([OP_0, OP_DATA (length h)] @ h) = P2PKHSigProgram h \<and>
      ConvertP2SHProgram L ([OP_0, OP_DATA (length h)] @ h) = P2SHProgram L h \<and>
      GetHashFromStandardProg ([OP_0, OP_DATA (length h)] @ h) = GoOk h" if "length h = 20 \<or> length h = 32" for h
    using witness_program_parse [of h "length h"] that
    by (auto simp: ConvertP2PKHSigProgram_def ConvertP2SHProgram_def GetHashFromStandardProg_def)
  have a: "IsP2WPKHScript prog \<longleftrightarrow> (\<exists>h. length h = 20 \<and> P2WPKHProgram L h = GoOk prog)"
    unfolding IsP2WPKHScript_def two using rec [of 20] gen(1) by auto
  have b: "IsP2WSHScript prog \<longleftrightarrow> (\<exists>h. length h = 32 \<and> P2WSHProgram L h = GoOk prog)"
    unfolding IsP2WSHScript_def two using rec [of 32] gen(2) by auto
  have c: "ConvertP2PKHSigProgram prog = P2PKHSigProgram h \<and> ConvertP2SHProgram L prog = P2SHProgram L h \<and>
      GetHashFromStandardProg prog = GoOk h"
    if "length h = 20 \<or> length h = 32" "P2WPKHProgram L h = GoOk prog \<or> P2WSHProgram L h = GoOk prog" for h
    using conv [OF that(1)] gen [OF that(1)] that(2) by auto
  show ?thesis by (intro conjI a b allI impI) (auto dest: c [OF disjI1 disjI1] c [OF disjI2 disjI2])
qed

lemma witness_programs_recognised_witness:
  "IsP2WPKHScript ([OP_0, 20] @ replicate 20 7) \<and> ConvertP2PKHSigProgram ([OP_0, 20] @ replicate 20 7) = P2PKHSigProgram (replicate 20 7)"
proof -
  have p: "P2WPKHProgram sample_lib (replicate 20 7) = GoOk ([OP_0, 20] @ replicate 20 7)"
    by (simp add: programs_eq PushDataBytes_def OP_DATA_def)
  have "length ([OP_0, 20] @ replicate 20 7 :: bytes) < 2 ^ 32" "length (replicate 20 7 :: bytes) = 20" by simp_all
  with witness_programs_recognised [OF this(1), of sample_lib] p show ?thesis by blast
qed

text \<open>
  A contract registered with \<^verbatim>\<open>RegisterProgram\<close> is recognised and read back unchanged, the program cannot
  be spent, and a call program for a 32-byte hash is recognised and gives that hash back.
\<close>

theorem BCRP_round_trip:
  assumes "contract \<noteq> []" "length contract \<le> 0x7fffff00" "length hash = 32"
  shows "\<exists>reg call. RegisterProgram contract = GoOk reg \<and> CallContractProgram hash = GoOk call \<and>
           IsBCRPScript reg \<and> ParseContract reg = GoOk contract \<and> IsUnspendable reg \<and> \<not> IsCallContractScript reg \<and>
           IsCallContractScript call \<and> ParseContractHash call = GoOk hash \<and> \<not> IsBCRPScript call"
proof -
  let ?reg = "concat [[OP_FAIL], PushDataBytes BCRP, PushDataBytes [Version], PushDataBytes contract]"
  let ?call = "concat [PushDataBytes BCRP, PushDataBytes hash]"
  have l: "length (PushDataBytes BCRP) = 5" "length (PushDataBytes [Version]) = 2"
    by (simp_all add: PushDataBytes_def BCRP_def)
  have "ParseProgram ?reg = Inr [\<lparr>Op = OP_FAIL, Len = 1, Data = []\<rparr>, data_inst BCRP, data_inst [Version], data_inst contract]"
    using assms(2) length_PushDataBytes_le [of contract] l
    by (intro ParseProgram_parses) (simp_all add: parses_PushDataBytes)
  moreover have "ParseProgram ?call = Inr [data_inst BCRP, data_inst hash]"
    using assms(3) length_PushDataBytes_le [of hash] l by (intro ParseProgram_parses) (simp_all add: parses_PushDataBytes)
  moreover have "Op (data_inst BCRP) = OP_DATA 4" "Op (data_inst [Version]) = OP_DATA 1" "Op (data_inst hash) = OP_DATA 32"
    using Op_data_inst [of BCRP] Op_data_inst [of "[Version]"] Op_data_inst [of hash] assms(3)
    by (simp_all add: BCRP_def numeral_eq_Suc)
  ultimately show ?thesis
    using assms by (intro exI [of _ ?reg] exI [of _ ?call])
      (simp add: programs_eq IsBCRPScript_def ParseContract_def IsUnspendable_def IsCallContractScript_def
        ParseContractHash_def Let_def)
qed

lemma BCRP_round_trip_witness:
  "\<exists>reg call. RegisterProgram [1, 2] = GoOk reg \<and> CallContractProgram (replicate 32 5) = GoOk call \<and>
     IsBCRPScript reg \<and> ParseContract reg = GoOk [1, 2] \<and> IsUnspendable reg \<and> \<not> IsCallContractScript reg \<and>
     IsCallContractScript call \<and> ParseContractHash call = GoOk (replicate 32 5) \<and> \<not> IsBCRPScript call"
  by (rule BCRP_round_trip) simp_all

lemma parses_uint64:
  assumes "u256_ok L"
  shows "\<exists>inst. parses (PushDataUint64 L n) inst \<and> IsPushdata inst \<and> AsBigInt L (Data inst) = Inr (ucast n)"
proof -
  have un: "unat (ucast n :: u256) = unat n"
    using unsigned_less [of n, where ?'a = nat] by (simp add: unsigned_ucast_eq take_bit_nat_eq_self)
  consider "n = 0" | "1 \<le> n" "n \<le> 16" | "n \<noteq> 0" "\<not> n \<le> 16" by (metis word_gt_0 word_le_0_iff inc_le linorder_not_less add_0)
  then show ?thesis
  proof cases
    case 1
    then show ?thesis
      by (intro exI [of _ "\<lparr>Op = OP_0, Len = 1, Data = []\<rparr>"])
        (simp add: PushDataUint64_def IsPushdata_def AsBigInt_spec [OF assms] nat_of_be_def)
  next
    case 2
    define b :: byte where "b = OP_1 + ucast n - 1"
    have n: "unat n \<le> 16" "1 \<le> unat n" using 2 by (simp_all add: word_le_nat_alt)
    then have uc: "unat (ucast n :: byte) = unat n" by (simp add: unsigned_ucast_eq take_bit_nat_eq_self)
    then have ub: "unat b = 80 + unat n" using n by (simp add: b_def unat_word_ariths)
    have "b - OP_1 + 1 = ucast n" by (simp add: b_def)
    moreover have "OP_1 \<le> b" "b \<le> OP_16" using ub n by (simp_all add: word_le_nat_alt)
    moreover from this have "op_fn (ops b) = Fn_opPushdata" by (simp add: ops_def named_op_def)
    moreover have "op_fn (ops OP_1) = Fn_opPushdata" by (simp add: ops_def named_op_def)
    moreover have "of_nat (unat n) = (ucast n :: u256)" using un n by (simp add: word_unat_eq_iff unat_of_nat)
    ultimately show ?thesis
      using 2 parses_num_op [of b] n uc
      by (intro exI [of _ "\<lparr>Op = b, Len = 1, Data = [b - OP_1 + 1]\<rparr>"])
        (auto simp: PushDataUint64_def IsPushdata_def AsBigInt_spec [OF assms] nat_of_be_def b_def [symmetric])
  next
    case 3
    let ?d = "Uint64Bytes L n"
    have d: "?d = rev (be_of_nat (unat n))"
      using assms un by (simp add: Uint64Bytes_def BigIntBytes_def u256_ok_def)
    have "unat n < 256 ^ 8" using unsigned_less [of n, where ?'a = nat] by simp
    then have l: "length ?d \<le> 8" using length_be_of_nat [of "unat n" 8] by (simp add: d)
    have "unat n \<noteq> 0" using 3(1) by (simp add: unat_eq_0)
    then have "be_of_nat (unat n) \<noteq> []" by (simp add: be_of_nat.simps [of "unat n"])
    then have l0: "0 < length ?d" by (simp add: d)
    have "OP_DATA (length ?d) \<le> 75" "1 \<le> OP_DATA (length ?d)"
      using l l0 by (simp_all add: OP_DATA_def word_le_nat_alt unat_of_nat Suc_le_eq)
    then have "IsPushdata (data_inst ?d)"
      using Op_data_inst [of ?d] l l0 by (simp add: IsPushdata_def ops_def named_op_def)
    moreover have "AsBigInt L ?d = Inr (ucast n)"
      unfolding Uint64Bytes_def using assms un unsigned_less [of n, where ?'a = nat]
      by (subst AsBigInt_BigIntBytes) (simp_all add: u256_ok_def)
    ultimately show ?thesis
      using 3 parses_PushDataBytes [of ?d] by (intro exI [of _ "data_inst ?d"]) (simp add: PushDataUint64_def)
  qed
qed

lemma parses_data_list: "list_all2 parses (map PushDataBytes ds) (map data_inst ds)"
  by (simp add: list_all2_map1 list_all2_map2 list_all2_same parses_PushDataBytes)

lemma multisig_segments:
  assumes "u256_ok L" "addP2SPMultiSig L pks m b = GoOk b'"
  shows "\<exists>segs insts. bprogram b' = bprogram b @ concat ([OP_TXSIGHASH] # segs) \<and>
           list_all2 parses ([OP_TXSIGHASH] # segs) (\<lparr>Op = OP_TXSIGHASH, Len = 1, Data = []\<rparr> # insts) \<and>
           jumpAddr b' = jumpAddr b \<and> jumpPlaceholders b' = jumpPlaceholders b"
proof -
  obtain i j where i: "parses (PushDataUint64 L (of_int m)) i" and j: "parses (PushDataUint64 L (of_nat (length pks))) j"
    using parses_uint64 [OF assms(1)] by meson
  let ?segs = "map PushDataBytes pks @ [PushDataUint64 L (of_int m), PushDataUint64 L (of_nat (length pks)), [OP_CHECKMULTISIG]]"
  let ?insts = "map data_inst pks @ [i, j, \<lparr>Op = OP_CHECKMULTISIG, Len = 1, Data = []\<rparr>]"
  have "list_all2 parses ([OP_TXSIGHASH] # ?segs) (\<lparr>Op = OP_TXSIGHASH, Len = 1, Data = []\<rparr> # ?insts)"
    using i j parses_data_list [of pks] by (simp add: list_all2_appendI)
  then show ?thesis
    using assms(2) by (intro exI [of _ ?segs] exI [of _ ?insts])
      (auto simp: addP2SPMultiSig_def fold_AddData AddUint64B_def AddOp_def split: if_splits)
qed

text \<open>
  The height with which a multi-signature issuance program was generated is read back from
  it, also the absent height zero.
\<close>

theorem restrict_height_round_trip:
  assumes "u256_ok L" "P2SPMultiSigProgramWithHeight L pubkeys nrequired blockHeight = GoOk prog"
    and "length prog \<le> 0x7fffffff"
  shows "GetIssuanceProgramRestrictHeight L prog = blockHeight"
proof -
  obtain k where k: "parses (PushDataUint64 L blockHeight) k" "IsPushdata k" "AsBigInt L (Data k) = Inr (ucast blockHeight)"
    using parses_uint64 [OF assms(1)] by blast
  let ?b = "if blockHeight > 0
      then AddOp OP_VERIFY (AddOp OP_GREATERTHAN (AddOp OP_BLOCKHEIGHT (AddUint64B L blockHeight NewBuilder))) else NewBuilder"
  obtain b' where b': "addP2SPMultiSig L pubkeys nrequired ?b = GoOk b'" "Build b' = GoOk prog"
    using assms(2) by (auto simp: P2SPMultiSigProgramWithHeight_def Let_def split: goresult.splits if_splits)
  obtain segs insts where s: "bprogram b' = bprogram ?b @ concat ([OP_TXSIGHASH] # segs)"
    "list_all2 parses ([OP_TXSIGHASH] # segs) (\<lparr>Op = OP_TXSIGHASH, Len = 1, Data = []\<rparr> # insts)"
    "jumpPlaceholders b' = jumpPlaceholders ?b"
    using multisig_segments [OF assms(1) b'(1)] by blast
  have "jumpPlaceholders ?b = []" by (simp add: builder_defs)
  with s(3) b'(2) have prog: "prog = bprogram ?b @ concat ([OP_TXSIGHASH] # segs)" using s(1) by (simp add: Build_def)
  have fns: "op_fn (ops OP_TXSIGHASH) = Fn_opTxSigHash" "op_fn (ops OP_1) = Fn_opPushdata" "op_fn (ops OP_0) = Fn_opFalse"
    by (simp_all add: ops_def named_op_def ops_table_def)
  show ?thesis
  proof (cases "blockHeight = 0")
    case True
    then have "prog = concat ([OP_TXSIGHASH] # segs)" using prog by (simp add: NewBuilder_def)
    then have "ParseProgram prog = Inr (\<lparr>Op = OP_TXSIGHASH, Len = 1, Data = []\<rparr> # insts)"
      using ParseProgram_parses [OF s(2)] assms(3) by simp
    then show ?thesis using True by (simp add: GetIssuanceProgramRestrictHeight_def IsPushdata_def fns)
  next
    case False
    then have pos: "blockHeight > 0" by (simp add: word_gt_0)
    let ?segs = "[PushDataUint64 L blockHeight, [OP_BLOCKHEIGHT], [OP_GREATERTHAN], [OP_VERIFY]] @ [OP_TXSIGHASH] # segs"
    let ?insts = "[k, \<lparr>Op = OP_BLOCKHEIGHT, Len = 1, Data = []\<rparr>, \<lparr>Op = OP_GREATERTHAN, Len = 1, Data = []\<rparr>,
        \<lparr>Op = OP_VERIFY, Len = 1, Data = []\<rparr>] @ \<lparr>Op = OP_TXSIGHASH, Len = 1, Data = []\<rparr> # insts"
    have "prog = concat ?segs" using prog pos by (simp add: builder_defs)
    moreover have "list_all2 parses ?segs ?insts" using s(2) k(1) by simp
    ultimately have "ParseProgram prog = Inr ?insts" using ParseProgram_parses [of ?segs ?insts] assms(3) by simp
    moreover have "unat (ucast blockHeight :: u256) < 2 ^ 64" "ucast (ucast blockHeight :: u256) = blockHeight"
      using unsigned_less [of blockHeight, where ?'a = nat]
      by (simp_all add: unsigned_ucast_eq take_bit_nat_eq_self take_bit_word_eq_self)
    ultimately show ?thesis using k(2,3) assms(1)
      by (simp add: GetIssuanceProgramRestrictHeight_def u256_ok_def)
  qed
qed

lemma restrict_height_round_trip_witness:
  "\<exists>prog. P2SPMultiSigProgramWithHeight sample_lib [[9, 9]] 1 300 = GoOk prog \<and> GetIssuanceProgramRestrictHeight sample_lib prog = 300"
proof -
  have n: "PushDataUint64 sample_lib 300 = [2, 0x2c, 1]"
    by (simp add: PushDataUint64_def Uint64Bytes_def BigIntBytes_def sample_lib_def be_of_nat.simps [of 300] be_of_nat.simps [of "Suc 0"]
        PushDataBytes_def OP_DATA_def word_le_nat_alt)
  have p: "P2SPMultiSigProgramWithHeight sample_lib [[9, 9]] 1 300 =
      GoOk [2, 0x2c, 1, OP_BLOCKHEIGHT, OP_GREATERTHAN, OP_VERIFY, OP_TXSIGHASH, 2, 9, 9, OP_1, OP_1, OP_CHECKMULTISIG]"
    by (simp add: P2SPMultiSigProgramWithHeight_def addP2SPMultiSig_def checkMultiSigParams_def builder_defs n
        PushDataBytes_def OP_DATA_def PushDataUint64_def [of _ 1])
  show ?thesis using p restrict_height_round_trip [OF sample_lib_ok(1) p] by simp
qed

end
