(* ===== verification/BuilderProps.thy ===== *)
theory BuilderProps
  imports Script VmEval
begin

text \<open>
  The program builder resolves jumps: the builders that the interface can produce, their
  invariant, and what \<^verbatim>\<open>Build\<close> makes of them.
\<close>

inductive built :: "lib \<Rightarrow> Builder \<Rightarrow> bool" for L where
  new: "built L NewBuilder"
| uint64: "built L b \<Longrightarrow> built L (AddUint64B L n b)"
| data: "built L b \<Longrightarrow> built L (AddData d b)"
| raw: "built L b \<Longrightarrow> built L (AddRawBytes d b)"
| opc: "built L b \<Longrightarrow> built L (AddOp c b)"
| target: "built L b \<Longrightarrow> built L (snd (NewJumpTarget b))"
| jump: "built L b \<Longrightarrow> built L (AddJump t b)"
| jumpif: "built L b \<Longrightarrow> built L (AddJumpIf t b)"
| set_target: "built L b \<Longrightarrow> built L (SetJumpTarget t b)"

text \<open>All placeholders with their targets.\<close>

definition places :: "(int \<times> nat list) list \<Rightarrow> (int \<times> nat) list" where
  "places js = concat (map (\<lambda>(t, ps). map (Pair t) ps) js)"

definition apart :: "(int \<times> nat) list \<Rightarrow> bool" where
  "apart ps \<longleftrightarrow> distinct ps \<and> (\<forall>x\<in>set ps. \<forall>y\<in>set ps. x \<noteq> y \<longrightarrow> snd x + 4 \<le> snd y \<or> snd y + 4 \<le> snd x)"

definition builder_inv :: "Builder \<Rightarrow> bool" where
  "builder_inv b \<longleftrightarrow> apart (places (jumpPlaceholders b)) \<and>
     (\<forall>(t, p) \<in> set (places (jumpPlaceholders b)). p + 4 \<le> length (bprogram b))"

lemma places_Cons [simp]: "places ((t, ps) # js) = map (Pair t) ps @ places js"
  by (simp add: places_def)

lemma places_Nil [simp]: "places [] = []"
  by (simp add: places_def)

lemma mset_places_add:
  "mset (places (add_placeholder t p js)) = add_mset (t, p) (mset (places js))"
  by (induction t p js rule: add_placeholder.induct) auto

lemma apart_mset: "mset xs = mset ys \<Longrightarrow> apart xs = apart ys"
  by (metis apart_def mset_eq_imp_distinct_iff mset_eq_setD)

lemma builder_inv_addJump:
  assumes "builder_inv b"
  shows "builder_inv (addJump c t b)"
proof -
  let ?p = "length (bprogram b) + 1" and ?js = "jumpPlaceholders b"
  have m: "mset (places (add_placeholder t ?p ?js)) = mset ((t, ?p) # places ?js)"
    by (simp add: mset_places_add)
  have "apart ((t, ?p) # places ?js)"
    using assms unfolding builder_inv_def apart_def by fastforce
  moreover have "set (places (add_placeholder t ?p ?js)) = insert (t, ?p) (set (places ?js))"
    using mset_eq_setD [OF m] by simp
  ultimately show ?thesis
    using assms apart_mset [OF m] unfolding builder_inv_def
    by (auto simp: addJump_def Let_def AddOp_def AddRawBytes_def)
qed

lemma built_inv: "built L b \<Longrightarrow> builder_inv b"
proof (induction rule: built.induct)
  case new
  then show ?case by (simp add: builder_inv_def NewBuilder_def apart_def)
qed (auto simp: AddJump_def AddJumpIf_def builder_inv_addJump,
     auto simp: builder_inv_def AddUint64B_def AddData_def AddRawBytes_def AddOp_def NewJumpTarget_def SetJumpTarget_def)

section \<open>Filling in addresses\<close>

lemma nth_write_at:
  "p + length bs \<le> length arr \<Longrightarrow> i < length arr \<Longrightarrow>
   write_at arr p bs ! i = (if p \<le> i \<and> i < p + length bs then bs ! (i - p) else arr ! i)"
  by (auto simp: write_at_def nth_append)

lemma build_loop_patch:
  "build_loop addrs js prog =
     (if \<forall>(t, ps) \<in> set js. addrs t \<noteq> None
      then GoOk (fold (\<lambda>(t, p). put_addr (the (addrs t)) p) (places js) prog) else GoErr ErrUnresolvedJump)"
proof (induction addrs js prog rule: build_loop.induct)
  case (2 addrs target ps rest prog)
  have "fold (put_addr addr) ps prog = fold (\<lambda>(t, p). put_addr (the (addrs t)) p) (map (Pair target) ps) prog"
    if "addrs target = Some addr" for addr prog
    using that by (induction ps arbitrary: prog) simp_all
  with 2 show ?case by (auto split: option.splits)
qed simp

lemma length_put_addr [simp]: "p + 4 \<le> length prog \<Longrightarrow> length (put_addr a p prog) = length prog"
  by (simp add: put_addr_def)

lemma fold_put_addr:
  assumes "apart ps" "\<forall>(t, p) \<in> set ps. p + 4 \<le> length prog" "i < length prog"
  shows "length (fold (\<lambda>(t, p). put_addr (f t) p) ps prog) = length prog \<and>
     (\<forall>(t, p) \<in> set ps. p \<le> i \<and> i < p + 4 \<longrightarrow>
        fold (\<lambda>(t, p). put_addr (f t) p) ps prog ! i = le_put 4 (unat (f t)) ! (i - p)) \<and>
     ((\<forall>(t, p) \<in> set ps. \<not> (p \<le> i \<and> i < p + 4)) \<longrightarrow> fold (\<lambda>(t, p). put_addr (f t) p) ps prog ! i = prog ! i)"
  using assms
proof (induction ps arbitrary: prog)
  case (Cons x ps)
  obtain t p where x: "x = (t, p)" by fastforce
  let ?prog = "put_addr (f t) p prog"
  have len: "length ?prog = length prog" using Cons.prems(2) x by simp
  have ap1: "apart ps" using Cons.prems(1) unfolding apart_def by auto
  have ap2: "\<forall>(t', p') \<in> set ps. p' + 4 \<le> p \<or> p + 4 \<le> p'"
    using Cons.prems(1) x unfolding apart_def by fastforce
  have at: "?prog ! i = (if p \<le> i \<and> i < p + 4 then le_put 4 (unat (f t)) ! (i - p) else prog ! i)"
    using Cons.prems(2,3) x nth_write_at [of p "le_put 4 (unat (f t))" prog i] by (simp add: put_addr_def)
  note IH = Cons.IH [OF ap1, of ?prog]
  have IH': "length (fold (\<lambda>(t, p). put_addr (f t) p) ps ?prog) = length prog \<and>
     (\<forall>(t', p') \<in> set ps. p' \<le> i \<and> i < p' + 4 \<longrightarrow>
        fold (\<lambda>(t, p). put_addr (f t) p) ps ?prog ! i = le_put 4 (unat (f t')) ! (i - p')) \<and>
     ((\<forall>(t', p') \<in> set ps. \<not> (p' \<le> i \<and> i < p' + 4)) \<longrightarrow> fold (\<lambda>(t, p). put_addr (f t) p) ps ?prog ! i = ?prog ! i)"
    using IH Cons.prems(2,3) len by auto
  have hit: "\<forall>(t', p') \<in> set ps. \<not> (p' \<le> i \<and> i < p' + 4)" if "p \<le> i" "i < p + 4"
    using ap2 that by fastforce
  show ?case
    using IH' at hit unfolding x by auto
qed simp

lemma window_eqI:
  assumes "p + n \<le> length prog" "length xs = n" "\<And>k. k < n \<Longrightarrow> prog ! (p + k) = xs ! k"
  shows "window prog p (p + n) = xs"
  using assms by (intro nth_equalityI) (simp_all add: window_def)

text \<open>
  For every builder the interface can produce, \<^verbatim>\<open>Build\<close> fails exactly when a jump uses a target that was
  never set; otherwise each placeholder holds the little-endian address of its target, and all
  other bytes are those that were added.
\<close>

theorem Build_resolves_jumps:
  assumes "built L b"
  shows "(Build b = GoErr ErrUnresolvedJump \<longleftrightarrow> (\<exists>t ps. (t, ps) \<in> set (jumpPlaceholders b) \<and> jumpAddr b t = None)) \<and>
     (\<forall>prog. Build b = GoOk prog \<longrightarrow> length prog = length (bprogram b) \<and>
        (\<forall>t ps p. (t, ps) \<in> set (jumpPlaceholders b) \<and> p \<in> set ps \<longrightarrow>
           (\<exists>addr. jumpAddr b t = Some addr \<and> le_Uint32 (window prog p (p + 4)) = addr)) \<and>
        (\<forall>i < length prog. (\<forall>t ps p. (t, ps) \<in> set (jumpPlaceholders b) \<and> p \<in> set ps \<longrightarrow> \<not> (p \<le> i \<and> i < p + 4)) \<longrightarrow>
           prog ! i = bprogram b ! i))"
proof -
  let ?js = "jumpPlaceholders b" and ?f = "\<lambda>t. the (jumpAddr b t)"
  let ?prog = "fold (\<lambda>(t, p). put_addr (?f t) p) (places ?js) (bprogram b)"
  have inv: "apart (places ?js)" "\<forall>(t, p) \<in> set (places ?js). p + 4 \<le> length (bprogram b)"
    using built_inv [OF assms] by (auto simp: builder_inv_def)
  have mem: "(t, p) \<in> set (places ?js) \<longleftrightarrow> (\<exists>ps. (t, ps) \<in> set ?js \<and> p \<in> set ps)" for t p
    by (force simp: places_def)
  note at = fold_put_addr [OF inv, where f = ?f]
  have len: "length ?prog = length (bprogram b)"
  proof (cases "bprogram b")
    case Nil
    then have "places ?js = []" using inv(2) by (cases "places ?js") auto
    then show ?thesis by simp
  qed (use at [of 0] in simp)
  have win: "window ?prog p (p + 4) = le_put 4 (unat (?f t))" if "(t, p) \<in> set (places ?js)" for t p
  proof (rule window_eqI)
    show "p + 4 \<le> length ?prog" using inv(2) that len by auto
    fix k :: nat assume "k < 4"
    then show "?prog ! (p + k) = le_put 4 (unat (?f t)) ! k"
      using at [of "p + k"] that inv(2) by fastforce
  qed simp
  have addr: "le_Uint32 (le_put 4 (unat a)) = a" for a :: u32
    using unsigned_less [of a, where ?'a = nat] by (simp add: le_Uint32_def)
  have ok: "Build b = (if \<forall>(t, ps) \<in> set ?js. jumpAddr b t \<noteq> None then GoOk ?prog else GoErr ErrUnresolvedJump)"
    by (simp add: Build_def build_loop_patch)
  have bytes: "?prog ! i = bprogram b ! i"
    if "i < length (bprogram b)" "\<forall>(t, p) \<in> set (places ?js). \<not> (p \<le> i \<and> i < p + 4)" for i
    using at [OF that(1)] that(2) by blast
  have jumps: "\<exists>addr. jumpAddr b t = Some addr \<and> le_Uint32 (window ?prog p (p + 4)) = addr"
    if h: "\<forall>(t, ps) \<in> set ?js. jumpAddr b t \<noteq> None" "(t, ps) \<in> set ?js" "p \<in> set ps" for t ps p
  proof -
    obtain a where "jumpAddr b t = Some a" using h(1,2) by auto
    moreover have "(t, p) \<in> set (places ?js)" using mem [of t p] h(2,3) by blast
    ultimately show ?thesis using win [of t p] addr [of a] by simp
  qed
  show ?thesis
  proof (cases "\<forall>(t, ps) \<in> set ?js. jumpAddr b t \<noteq> None")
    case True
    then have e: "Build b = GoOk ?prog" "\<not> (\<exists>t ps. (t, ps) \<in> set ?js \<and> jumpAddr b t = None)" using ok by auto
    have j: "\<forall>t ps p. (t, ps) \<in> set ?js \<and> p \<in> set ps \<longrightarrow>
        (\<exists>addr. jumpAddr b t = Some addr \<and> le_Uint32 (window ?prog p (p + 4)) = addr)"
      using jumps [OF True] by blast
    have i: "\<forall>i < length ?prog. (\<forall>t ps p. (t, ps) \<in> set ?js \<and> p \<in> set ps \<longrightarrow> \<not> (p \<le> i \<and> i < p + 4)) \<longrightarrow>
        ?prog ! i = bprogram b ! i"
    proof (intro allI impI)
      fix i assume h: "i < length ?prog" "\<forall>t ps p. (t, ps) \<in> set ?js \<and> p \<in> set ps \<longrightarrow> \<not> (p \<le> i \<and> i < p + 4)"
      then have "\<forall>(t, p) \<in> set (places ?js). \<not> (p \<le> i \<and> i < p + 4)" using mem by (metis (mono_tags, lifting) case_prodI2)
      with bytes [of i] h(1) len show "?prog ! i = bprogram b ! i" by simp
    qed
    show ?thesis
    proof (rule conjI, use e in simp, intro allI impI)
      fix prog assume "Build b = GoOk prog"
      then have p: "prog = ?prog" using e(1) by simp
      show "length prog = length (bprogram b) \<and>
        (\<forall>t ps p. (t, ps) \<in> set ?js \<and> p \<in> set ps \<longrightarrow>
           (\<exists>addr. jumpAddr b t = Some addr \<and> le_Uint32 (window prog p (p + 4)) = addr)) \<and>
        (\<forall>i < length prog. (\<forall>t ps p. (t, ps) \<in> set ?js \<and> p \<in> set ps \<longrightarrow> \<not> (p \<le> i \<and> i < p + 4)) \<longrightarrow>
           prog ! i = bprogram b ! i)"
        unfolding p by (intro conjI len j i)
    qed
  next
    case False
    then show ?thesis using ok by auto
  qed
qed

lemma Build_resolves_jumps_witness:
  "\<exists>prog. Build (SetJumpTarget 1 (AddOp OP_NOP (AddJump 1 (snd (NewJumpTarget NewBuilder))))) = GoOk prog \<and> length prog = 6 \<and>
     le_Uint32 (window prog 1 5) = 6"
proof -
  let ?b = "SetJumpTarget 1 (AddOp OP_NOP (AddJump 1 (snd (NewJumpTarget NewBuilder))))"
  have b: "built sample_lib ?b" by (intro built.intros)
  have v: "jumpPlaceholders ?b = [(1, [1])]" "jumpAddr ?b = [1 \<mapsto> 6]" "length (bprogram ?b) = 6"
    by (simp_all add: SetJumpTarget_def AddOp_def AddJump_def addJump_def AddRawBytes_def NewJumpTarget_def NewBuilder_def Let_def)
  obtain prog where p: "Build ?b = GoOk prog" by (simp add: Build_def v)
  have "length prog = 6 \<and> (\<exists>addr. jumpAddr ?b 1 = Some addr \<and> le_Uint32 (window prog 1 (1 + 4)) = addr)"
    using Build_resolves_jumps [OF b] p v by (metis list.set_intros(1))
  with p v show ?thesis by simp
qed

end
