(* ===== verification/P2pkh.thy ===== *)
theory P2pkh
  imports Script VmEval
begin

text \<open>
  The pay-to-public-key-hash program, run by the machine: it accepts exactly a public key
  with the given hash and a signature that verifies under it.
\<close>

definition p2pkh_code :: "bytes \<Rightarrow> bytes" where
  "p2pkh_code h = concat [[OP_DUP], [OP_HASH160], PushDataBytes h, [OP_EQUALVERIFY], [OP_TXSIGHASH], [OP_SWAP], [OP_CHECKSIG]]"

lemma parses_at:
  "parses seg inst \<Longrightarrow> prog = pre @ seg @ post \<Longrightarrow> length prog \<le> 0x7fffffff \<Longrightarrow> of_nat (length pre) = k \<Longrightarrow>
   ParseOp prog k = Inr inst"
  by (auto simp: parses_def)

lemma p2pkh_parse:
  assumes "length h = 20"
  shows "ParseOp (p2pkh_code h) 0 = Inr \<lparr>Op = OP_DUP, Len = 1, Data = []\<rparr>"
    "ParseOp (p2pkh_code h) 1 = Inr \<lparr>Op = OP_HASH160, Len = 1, Data = []\<rparr>"
    "ParseOp (p2pkh_code h) 2 = Inr \<lparr>Op = 20, Len = 21, Data = h\<rparr>"
    "ParseOp (p2pkh_code h) 23 = Inr \<lparr>Op = OP_EQUALVERIFY, Len = 1, Data = []\<rparr>"
    "ParseOp (p2pkh_code h) 24 = Inr \<lparr>Op = OP_TXSIGHASH, Len = 1, Data = []\<rparr>"
    "ParseOp (p2pkh_code h) 25 = Inr \<lparr>Op = OP_SWAP, Len = 1, Data = []\<rparr>"
    "ParseOp (p2pkh_code h) 26 = Inr \<lparr>Op = OP_CHECKSIG, Len = 1, Data = []\<rparr>"
    "length (p2pkh_code h) = 27"
proof -
  have P: "PushDataBytes h = 20 # h" using assms by (auto simp: PushDataBytes_def OP_DATA_def)
  have d: "parses (20 # h) \<lparr>Op = 20, Len = 21, Data = h\<rparr>"
    using parses_PushDataBytes [of h] assms by (simp add: data_inst_def P)
  have pl: "plain_op OP_DUP" "plain_op OP_HASH160" "plain_op OP_EQUALVERIFY" "plain_op OP_TXSIGHASH" "plain_op OP_SWAP"
    "plain_op OP_CHECKSIG" by (simp_all add: plain_op_def word_le_nat_alt)
  note p = parses_plain_op [OF pl(1)] parses_plain_op [OF pl(2)] parses_plain_op [OF pl(3)] parses_plain_op [OF pl(4)]
    parses_plain_op [OF pl(5)] parses_plain_op [OF pl(6)]
  show "ParseOp (p2pkh_code h) 0 = Inr \<lparr>Op = OP_DUP, Len = 1, Data = []\<rparr>"
    by (rule parses_at [OF p(1), where pre = "[]" and post = "[OP_HASH160] @ (20 # h) @ [OP_EQUALVERIFY, OP_TXSIGHASH, OP_SWAP, OP_CHECKSIG]"]) (simp_all add: p2pkh_code_def P assms)
  show "ParseOp (p2pkh_code h) 1 = Inr \<lparr>Op = OP_HASH160, Len = 1, Data = []\<rparr>"
    by (rule parses_at [OF p(2), where pre = "[OP_DUP]" and post = "(20 # h) @ [OP_EQUALVERIFY, OP_TXSIGHASH, OP_SWAP, OP_CHECKSIG]"]) (simp_all add: p2pkh_code_def P assms)
  show "ParseOp (p2pkh_code h) 2 = Inr \<lparr>Op = 20, Len = 21, Data = h\<rparr>"
    by (rule parses_at [OF d, where pre = "[OP_DUP, OP_HASH160]" and post = "[OP_EQUALVERIFY, OP_TXSIGHASH, OP_SWAP, OP_CHECKSIG]"]) (simp_all add: p2pkh_code_def P assms)
  show "ParseOp (p2pkh_code h) 23 = Inr \<lparr>Op = OP_EQUALVERIFY, Len = 1, Data = []\<rparr>"
    by (rule parses_at [OF p(3), where pre = "[OP_DUP, OP_HASH160] @ (20 # h)" and post = "[OP_TXSIGHASH, OP_SWAP, OP_CHECKSIG]"]) (simp_all add: p2pkh_code_def P assms)
  show "ParseOp (p2pkh_code h) 24 = Inr \<lparr>Op = OP_TXSIGHASH, Len = 1, Data = []\<rparr>"
    by (rule parses_at [OF p(4), where pre = "[OP_DUP, OP_HASH160] @ (20 # h) @ [OP_EQUALVERIFY]" and post = "[OP_SWAP, OP_CHECKSIG]"]) (simp_all add: p2pkh_code_def P assms)
  show "ParseOp (p2pkh_code h) 25 = Inr \<lparr>Op = OP_SWAP, Len = 1, Data = []\<rparr>"
    by (rule parses_at [OF p(5), where pre = "[OP_DUP, OP_HASH160] @ (20 # h) @ [OP_EQUALVERIFY, OP_TXSIGHASH]" and post = "[OP_CHECKSIG]"]) (simp_all add: p2pkh_code_def P assms)
  show "ParseOp (p2pkh_code h) 26 = Inr \<lparr>Op = OP_CHECKSIG, Len = 1, Data = []\<rparr>"
    by (rule parses_at [OF p(6), where pre = "[OP_DUP, OP_HASH160] @ (20 # h) @ [OP_EQUALVERIFY, OP_TXSIGHASH, OP_SWAP]" and post = "[]"]) (simp_all add: p2pkh_code_def P assms)
  show "length (p2pkh_code h) = 27" using assms by (simp add: p2pkh_code_def P)
qed

lemma p2pkh_fns:
  "op_fn (ops OP_DUP) = Fn_opDup" "op_fn (ops OP_HASH160) = Fn_opHash160" "op_fn (ops 20) = Fn_opPushdata"
  "op_fn (ops OP_EQUALVERIFY) = Fn_opEqualVerify" "op_fn (ops OP_TXSIGHASH) = Fn_opTxSigHash"
  "op_fn (ops OP_SWAP) = Fn_opSwap" "op_fn (ops OP_CHECKSIG) = Fn_opCheckSig"
  "\<not> isExpansion OP_DUP" "\<not> isExpansion OP_HASH160" "\<not> isExpansion 20" "\<not> isExpansion OP_EQUALVERIFY"
  "\<not> isExpansion OP_TXSIGHASH" "\<not> isExpansion OP_SWAP" "\<not> isExpansion OP_CHECKSIG"
  by (simp_all add: ops_def named_op_def ops_table_def isExpansion_def)

text \<open>The situation in which a spend is checked.\<close>

definition p2pkh_setting :: "lib \<Rightarrow> Context \<Rightarrow> bytes \<Rightarrow> slice \<Rightarrow> slice \<Rightarrow> slice \<Rightarrow> int \<Rightarrow> store \<Rightarrow> bool" where
  "p2pkh_setting L c h sg pk txh g hp \<longleftrightarrow> VMVersion c = 1 \<and> StateData c = [] \<and> Arguments c = [sg, pk] \<and>
     TxSigHash c = Some txh \<and> slice_bytes hp (Code c) = p2pkh_code h \<and> s_len (Code c) = 27 \<and> length h = 20 \<and>
     s_len sg = 64 \<and> s_len pk = 32 \<and> s_len txh = 32 \<and> 2000 \<le> g \<and> g \<le> gas_cap \<and>
     (\<forall>x \<in> {sg, pk, txh, Code c}. s_arr x < length hp) \<and> true_intact hp"

lemmas p2pkh_ops = opDup_def nDup_def push_nth_def opHash160_def opPushdata_def opEqualVerify_def doEqual_def
  opTxSigHash_def opSwap_def opCheckSig_def go_append_def nil_slice_def PublicKeySize_def

lemma slice_new:
  "slice_bytes (hp @ x # ys) \<lparr>s_arr = length hp, s_off = 0, s_len = n, s_cap = cp\<rparr> = take n x"
  "slice_bytes (hp @ x # y # ys) \<lparr>s_arr = Suc (length hp), s_off = 0, s_len = n, s_cap = cp\<rparr> = take n y"
  "slice_bytes hp \<lparr>s_arr = 0, s_off = 0, s_len = 0, s_cap = 0\<rparr> = []"
  by (simp_all add: slice_bytes_def nth_append)

definition p2pkh_at :: "Context \<Rightarrow> u32 \<Rightarrow> int \<Rightarrow> int \<Rightarrow> slice list \<Rightarrow> store \<Rightarrow> virtualMachine" where
  "p2pkh_at c p R D st hp =
     \<lparr>vcontext = c, program = Code c, pc = p, nextPC = p, runLimit = R, deferredCost = D,
      expansionReserved = (TxVersion c = Some 1), data = [], depth = 0, dataStack = st, altStack = [],
      altStackNil = True, heap = hp\<rparr>"

lemmas p2pkh_eval = step_def p2pkh_parse p2pkh_fns Let_def p2pkh_ops hash_ok_def vm_defs vbind_def alloc_def itemCost_def
  i64_id word_less_nat_alt slice_new

lemma p2pkh_first:
  assumes "hash_ok L" "p2pkh_setting L c h sg pk txh g hp"
  shows "\<exists>arr s'. run_loop L (Suc (Suc (Suc (Suc n)))) (p2pkh_at c 0 (g - 112) 0 [sg, pk] hp) =
     (if ripemd160 L (slice_bytes hp pk) = h
      then run_loop L n (p2pkh_at c 24 (g - 231) (- 56) [sg, pk] (hp @ [arr, h]))
      else (Fail ErrVerifyFailed, s'))"
  using assms by (simp add: p2pkh_setting_def p2pkh_at_def p2pkh_eval) blast

lemma p2pkh_second:
  assumes "p2pkh_setting L c h sg pk txh g hp"
  shows "\<exists>s'. run_loop L (Suc (Suc (Suc (Suc n)))) (p2pkh_at c 24 (g - 231) (- 56) [sg, pk] (hp @ [arr, h])) = (Ret (), s') \<and>
     (falseResult s' \<longleftrightarrow> \<not> ed25519_Verify L (slice_bytes hp pk) (slice_bytes hp txh) (slice_bytes hp sg))"
  using assms
  by (simp add: p2pkh_setting_def p2pkh_at_def p2pkh_eval falseResult_def AsBool_def true_intact_def)
    (simp add: slice_bytes_def nth_append)

text \<open>
  C39. Spending an output controlled by \<^verbatim>\<open>P2PKHSigProgram\<close> succeeds exactly when the public key among the
  arguments has the committed hash and the signature verifies for the transaction hash; a
  wrong key and a wrong signature are told apart by the error.
\<close>

theorem P2PKH_accepts_exactly:
  assumes "u256_ok L" "hash_ok L" "P2PKHSigProgram pubkeyHash = GoOk (slice_bytes hp (Code c))" "length pubkeyHash = 20"
    and "s_len (Code c) = 27" "VMVersion c = 1" "StateData c = []" "Arguments c = [sg, pk]" "TxSigHash c = Some txh"
    and "s_len sg = 64" "s_len pk = 32" "s_len txh = 32" "2000 \<le> gasLimit" "gasLimit \<le> gas_cap"
    and "\<forall>x \<in> {sg, pk, txh, Code c}. s_arr x < length hp" "true_intact hp"
  shows "\<exists>gasLeft h'. Verify L (n + 8) c gasLimit hp = Some (gasLeft,
     (if ripemd160 L (slice_bytes hp pk) \<noteq> pubkeyHash then Some ErrVerifyFailed
      else if ed25519_Verify L (slice_bytes hp pk) (slice_bytes hp txh) (slice_bytes hp sg) then None
      else Some ErrFalseVMResult), h')"
proof -
  have s: "p2pkh_setting L c pubkeyHash sg pk txh gasLimit hp"
    using assms by (auto simp: p2pkh_setting_def p2pkh_code_def programs_eq)
  have v: "vseq (push_all pushAltStack (StateData c)) (vseq (push_all pushDataStack (Arguments c)) (run L (n + 8)))
      (initVM c gasLimit hp) = run_loop L (n + 8) (p2pkh_at c 0 (gasLimit - 112) 0 [sg, pk] hp)"
    using assms by (simp add: pushDataStack_def vbind_def applyCost_def itemCost_def i64_id vmodify_def initVM_def run_def
        vret_def p2pkh_at_def)
  have n: "n + 8 = Suc (Suc (Suc (Suc (Suc (Suc (Suc (Suc n)))))))" by simp
  obtain arr s' where f: "run_loop L (n + 8) (p2pkh_at c 0 (gasLimit - 112) 0 [sg, pk] hp) =
     (if ripemd160 L (slice_bytes hp pk) = pubkeyHash
      then run_loop L (Suc (Suc (Suc (Suc n)))) (p2pkh_at c 24 (gasLimit - 231) (- 56) [sg, pk] (hp @ [arr, pubkeyHash]))
      else (Fail ErrVerifyFailed, s'))"
    using p2pkh_first [OF assms(2) s, of "Suc (Suc (Suc (Suc n)))"] unfolding n by blast
  show ?thesis
    using v f assms(6) p2pkh_second [OF s, of n arr] by (auto simp: Verify_def)
qed

lemma P2PKH_accepts_exactly_witness:
  "\<exists>gasLeft h'. Verify sample_lib (0 + 8)
     (sample_ctx\<lparr>Code := \<lparr>s_arr = 1, s_off = 0, s_len = 27, s_cap = 27\<rparr>,
       Arguments := [\<lparr>s_arr = 2, s_off = 0, s_len = 64, s_cap = 64\<rparr>, \<lparr>s_arr = 3, s_off = 0, s_len = 32, s_cap = 32\<rparr>],
       TxSigHash := Some \<lparr>s_arr = 4, s_off = 0, s_len = 32, s_cap = 32\<rparr>\<rparr>) 2000
     [[1], p2pkh_code (replicate 20 6), replicate 64 6, replicate 32 6, replicate 32 8] =
       Some (gasLeft, Some ErrFalseVMResult, h')"
proof -
  let ?c = "sample_ctx\<lparr>Code := \<lparr>s_arr = 1, s_off = 0, s_len = 27, s_cap = 27\<rparr>,
       Arguments := [\<lparr>s_arr = 2, s_off = 0, s_len = 64, s_cap = 64\<rparr>, \<lparr>s_arr = 3, s_off = 0, s_len = 32, s_cap = 32\<rparr>],
       TxSigHash := Some \<lparr>s_arr = 4, s_off = 0, s_len = 32, s_cap = 32\<rparr>\<rparr>"
  let ?h = "[[1], p2pkh_code (replicate 20 6), replicate 64 6, replicate 32 6, replicate 32 8] :: store"
  have "P2PKHSigProgram (replicate 20 6) = GoOk (slice_bytes ?h (Code ?c))"
    using p2pkh_parse(8) [of "replicate 20 6"] by (simp add: programs_eq slice_bytes_def) (simp add: p2pkh_code_def)
  from P2PKH_accepts_exactly [OF sample_lib_ok this, of "\<lparr>s_arr = 2, s_off = 0, s_len = 64, s_cap = 64\<rparr>"
      "\<lparr>s_arr = 3, s_off = 0, s_len = 32, s_cap = 32\<rparr>" "\<lparr>s_arr = 4, s_off = 0, s_len = 32, s_cap = 32\<rparr>" 2000 0]
  show ?thesis by (simp add: sample_ctx_def true_intact_def slice_bytes_def sample_lib_def)
qed

end
