(* ===== verification/Encoding.thy ===== *)
theory Encoding
  imports Prelude
begin

text \<open>
  Package \<^verbatim>\<open>encoding/blockchain\<close>: variable-length integers, strings and lists of strings, and
  the extensible strings that carry a suffix unknown to the reader. A \<^verbatim>\<open>Reader\<close> is the buffer
  of unread bytes; a reading function returns its result and the buffer it leaves. A writer is
  the in-memory buffer or hash state the repository writes to, whose \<^verbatim>\<open>Write\<close> appends and never
  fails; a writing function returns the count and error of the source and what it appended.
\<close>

text \<open>\<open>Malformed\<close> carries the message of an error that a callback of another package reports.\<close>

datatype io_err = EOF | UnexpectedEOF | VarintOverflow | ValueRange | Malformed string

type_synonym Reader = bytes

type_synonym 'a reading = "Reader \<Rightarrow> (io_err + 'a) \<times> Reader"

text \<open>The count, the error if any, and the bytes appended to the writer.\<close>

type_synonym written = "nat \<times> io_err option \<times> bytes"

definition ReadByte :: "byte reading" where
  "ReadByte r = (case r of [] \<Rightarrow> (Inl EOF, []) | b # r' \<Rightarrow> (Inr b, r'))"

section \<open>encoding/binary\<close>

text \<open>
  \<^verbatim>\<open>binary.PutUvarint\<close> of the standard library: seven bits per byte, least significant first,
  the high bit set on all but the last. It panics on a buffer that is too short, which is
  \<open>None\<close> here.
\<close>

function uvarint :: "u64 \<Rightarrow> bytes" where
  "uvarint x = (if x < 128 then [ucast x] else (ucast x OR 128) # uvarint (drop_bit 7 x))"
  by pat_completeness auto

lemma unat_drop_bit_7: "unat (drop_bit 7 x) = unat x div 128" for x :: u64
  by (simp add: drop_bit_eq_div unat_div)

termination uvarint
proof (relation "measure unat")
  fix x :: u64
  assume "\<not> x < 128"
  then have "unat x \<noteq> 0" by (auto simp: word_less_nat_alt)
  then show "(drop_bit 7 x, x) \<in> measure unat"
    by (simp add: unat_drop_bit_7)
qed simp

declare uvarint.simps [simp del]

definition PutUvarint :: "nat \<Rightarrow> u64 \<Rightarrow> bytes option" where
  "PutUvarint buflen x = (if length (uvarint x) \<le> buflen then Some (uvarint x) else None)"

text \<open>
  \<^verbatim>\<open>binary.ReadUvarint\<close>: at most ten bytes. An end of input after the first byte is
  \<open>UnexpectedEOF\<close>. The first argument counts the remaining rounds, \<open>i\<close> is the round.
\<close>

primrec read_uvarint :: "nat \<Rightarrow> nat \<Rightarrow> u64 \<Rightarrow> u64 reading" where
  "read_uvarint 0 i x r = (Inl VarintOverflow, r)"
| "read_uvarint (Suc k) i x r =
     (case ReadByte r of
        (Inl e, r') \<Rightarrow> (Inl (if i > 0 \<and> e = EOF then UnexpectedEOF else e), r')
      | (Inr b, r') \<Rightarrow>
          if b < 128 then
            if i = 9 \<and> b > 1 then (Inl VarintOverflow, r')
            else (Inr (x OR push_bit (7 * i) (ucast b)), r')
          else read_uvarint k (i + 1) (x OR push_bit (7 * i) (ucast (b AND 127))) r')"

definition ReadUvarint :: "u64 reading" where
  "ReadUvarint = read_uvarint 10 0 0"

section \<open>blockchain.go\<close>

definition ReadVarint31 :: "u32 reading" where
  "ReadVarint31 r =
     (case ReadUvarint r of
        (Inl e, r') \<Rightarrow> (Inl e, r')
      | (Inr v, r') \<Rightarrow> if unat v > 2147483647 then (Inl ValueRange, r') else (Inr (ucast v), r'))"

definition ReadVarint63 :: "u64 reading" where
  "ReadVarint63 r =
     (case ReadUvarint r of
        (Inl e, r') \<Rightarrow> (Inl e, r')
      | (Inr v, r') \<Rightarrow> if unat v > 9223372036854775807 then (Inl ValueRange, r') else (Inr v, r'))"

text \<open>A nil string is the empty one: no caller tells them apart.\<close>

definition ReadVarstr31 :: "bytes reading" where
  "ReadVarstr31 r =
     (case ReadVarint31 r of
        (Inl e, r') \<Rightarrow> (Inl e, r')
      | (Inr l, r') \<Rightarrow>
          if l = 0 then (Inr [], r')
          else if unat l > length r' then (Inl UnexpectedEOF, r')
          else (Inr (take (unat l) r'), drop (unat l) r'))"

text \<open>
  The loop of \<^verbatim>\<open>ReadVarstrList\<close>: it stops at the first error, and the comparison after it
  replaces the error when more than as many elements were left as had been read.
\<close>

primrec read_list :: "nat \<Rightarrow> bytes list \<Rightarrow> bytes list reading" where
  "read_list 0 acc r = (Inr acc, r)"
| "read_list (Suc n) acc r =
     (case ReadVarstr31 r of
        (Inl e, r') \<Rightarrow> (Inl (if length acc + 1 < n then UnexpectedEOF else e), r')
      | (Inr s, r') \<Rightarrow> read_list n (acc @ [s]) r')"

text \<open>\<open>None\<close> is a nil list, which is what an empty list is read as.\<close>

definition ReadVarstrList :: "bytes list option reading" where
  "ReadVarstrList r =
     (case ReadVarint31 r of
        (Inl e, r') \<Rightarrow> (Inl e, r')
      | (Inr n, r') \<Rightarrow>
          if n = 0 then (Inr None, r')
          else (case read_list (unat n) [] r' of
                  (Inl e, r'') \<Rightarrow> (Inl e, r'')
                | (Inr l, r'') \<Rightarrow> (Inr (Some l), r'')))"

definition ReadExtensibleString :: "'a reading \<Rightarrow> ('a \<times> bytes) reading" where
  "ReadExtensibleString f r =
     (case ReadVarstr31 r of
        (Inl e, r') \<Rightarrow> (Inl e, r')
      | (Inr s, r') \<Rightarrow>
          (case f s of
             (Inl e, _) \<Rightarrow> (Inl e, r')
           | (Inr a, sfx) \<Rightarrow> (Inr (a, sfx), r')))"

text \<open>
  The writers. \<open>None\<close> is the panic of a varint that does not fit the pooled buffer. The argument
  of \<^verbatim>\<open>WriteVarint31\<close> is a length in all its uses, a natural number here.
\<close>

definition WriteVarint31 :: "nat \<Rightarrow> written option" where
  "WriteVarint31 v =
     (if v > 2147483647 then Some (0, Some ValueRange, [])
      else (case PutUvarint 9 (of_nat v) of None \<Rightarrow> None | Some b \<Rightarrow> Some (length b, None, b)))"

definition WriteVarint63 :: "u64 \<Rightarrow> written option" where
  "WriteVarint63 v =
     (if unat v > 9223372036854775807 then Some (0, Some ValueRange, [])
      else (case PutUvarint 9 v of None \<Rightarrow> None | Some b \<Rightarrow> Some (length b, None, b)))"

definition WriteVarstr31 :: "bytes \<Rightarrow> written option" where
  "WriteVarstr31 s =
     (case WriteVarint31 (length s) of
        None \<Rightarrow> None
      | Some (n, Some e, b) \<Rightarrow> Some (n, Some e, b)
      | Some (n, None, b) \<Rightarrow> Some (n + length s, None, b @ s))"

primrec write_list :: "nat \<Rightarrow> bytes \<Rightarrow> bytes list \<Rightarrow> written option" where
  "write_list n w [] = Some (n, None, w)"
| "write_list n w (s # l) =
     (case WriteVarstr31 s of
        None \<Rightarrow> None
      | Some (n2, Some e, b) \<Rightarrow> Some (n + n2, Some e, w @ b)
      | Some (n2, None, b) \<Rightarrow> write_list (n + n2) (w @ b) l)"

definition WriteVarstrList :: "bytes list \<Rightarrow> written option" where
  "WriteVarstrList l =
     (case WriteVarint31 (length l) of
        None \<Rightarrow> None
      | Some (n, Some e, b) \<Rightarrow> Some (n, Some e, b)
      | Some (n, None, b) \<Rightarrow> write_list n b l)"

text \<open>The callback \<open>f\<close> has written \<open>b\<close> to its buffer and returned an error or none.\<close>

definition WriteExtensibleString :: "bytes \<Rightarrow> io_err option \<times> bytes \<Rightarrow> written option" where
  "WriteExtensibleString sfx f =
     (case f of
        (Some e, _) \<Rightarrow> Some (0, Some e, [])
      | (None, b) \<Rightarrow> WriteVarstr31 (b @ sfx))"

section \<open>Variable-length integers\<close>

lemma uvarint_length: "unat x < 128 ^ k \<Longrightarrow> 0 < k \<Longrightarrow> length (uvarint x) \<le> k"
proof (induction k arbitrary: x)
  case 0
  then show ?case by simp
next
  case (Suc k)
  show ?case
  proof (cases "x < 128")
    case True
    then show ?thesis by (simp add: uvarint.simps)
  next
    case False
    have "unat (drop_bit 7 x) < 128 ^ k"
      using Suc.prems by (simp add: unat_drop_bit_7 less_mult_imp_div_less mult.commute)
    moreover have "0 < k"
    proof (rule ccontr)
      assume "\<not> 0 < k"
      with Suc.prems have "unat x < 128" by simp
      with False show False by (simp add: word_less_nat_alt)
    qed
    ultimately show ?thesis
      using Suc.IH [of "drop_bit 7 x"] by (subst uvarint.simps) simp
  qed
qed

lemma bit_128_127:
  "bit (128 :: byte) n \<longleftrightarrow> n = 7" "bit (127 :: byte) n \<longleftrightarrow> n < 7"
proof -
  have small: "n \<in> {0, 1, 2, 3, 4, 5, 6, 7}" if "n < 8"
    using that by auto
  have large: "\<not> bit (b :: byte) n" if "\<not> n < 8" for b
    using that bit_imp_le_length [of b n] by auto
  show "bit (128 :: byte) n \<longleftrightarrow> n = 7"
    using small large by (cases "n < 8") auto
  show "bit (127 :: byte) n \<longleftrightarrow> n < 7"
    using small large by (cases "n < 8") auto
qed

lemma bit_uvarint_byte:
  "bit (ucast ((ucast y OR 128 :: byte) AND 127) :: u64) k \<longleftrightarrow> k < 7 \<and> bit y k" for y :: u64
  unfolding bit_unsigned_iff bit_and_iff bit_or_iff bit_128_127 by auto

lemma uvarint_byte_split:
  fixes x y :: u64
  shows "(x OR push_bit (7 * i) (ucast ((ucast y OR 128 :: byte) AND 127))) OR push_bit (7 * Suc i) (drop_bit 7 y)
         = x OR push_bit (7 * i) y"
proof (rule bit_eqI)
  fix n
  assume n: "possible_bit TYPE(64 word) n"
  have eq: "7 + (n - 7 * Suc i) = n - 7 * i" if "7 * Suc i \<le> n"
    using that by simp
  show "bit ((x OR push_bit (7 * i) (ucast ((ucast y OR 128 :: byte) AND 127))) OR push_bit (7 * Suc i) (drop_bit 7 y)) n
         \<longleftrightarrow> bit (x OR push_bit (7 * i) y) n"
    unfolding bit_or_iff bit_push_bit_iff bit_drop_bit_eq bit_uvarint_byte comp_def
    using n by (cases "7 * Suc i \<le> n") (auto simp: eq)
qed

lemma not_less_128_byte: "\<not> (b OR 128 :: byte) < 128"
proof -
  have "bit (unat (b OR 128)) 7"
    unfolding bit_unsigned_iff bit_or_iff bit_128_127 by simp
  then have "unat (b OR 128) div 2 ^ 7 \<noteq> 0"
    unfolding bit_iff_odd by (intro notI) simp
  then show ?thesis
    unfolding word_less_nat_alt by (intro notI) simp
qed

lemma ucast_byte_small: "y < 128 \<Longrightarrow> unat (ucast y :: byte) = unat y" for y :: u64
  by (simp add: unsigned_ucast_eq word_less_nat_alt take_bit_eq_mod)

lemma unat_ucast_up:
  fixes x :: "'a :: len word"
  assumes "LENGTH('a) \<le> LENGTH('b :: len)"
  shows "unat (ucast x :: 'b word) = unat x"
proof -
  have "unat x < 2 ^ LENGTH('b)"
    using unsigned_less [of x] assms by (meson less_le_trans one_le_numeral power_increasing)
  then show ?thesis by (simp only: unsigned_ucast_eq take_bit_nat_eq_self)
qed

lemma ucast_up_down:
  fixes x :: "'a :: len word"
  assumes "LENGTH('a) \<le> LENGTH('b :: len)"
  shows "(ucast (ucast x :: 'b word) :: 'a word) = x"
proof -
  have "unat (ucast (ucast x :: 'b word) :: 'a word) = take_bit LENGTH('a) (unat x)"
    unfolding unsigned_ucast_eq [where 'b = 'b and 'c = 'a] unat_ucast_up [OF assms] ..
  then show ?thesis
    by (simp add: word_unat_eq_iff take_bit_nat_eq_self)
qed

lemma read_uvarint_put:
  assumes "i \<le> 9" "unat y < 2 ^ (64 - 7 * i)"
  shows "read_uvarint (10 - i) i x (uvarint y @ r) = (Inr (x OR push_bit (7 * i) y), r)"
  using assms
proof (induction "9 - i" arbitrary: i x y)
  case 0
  then have i: "i = 9" by simp
  with 0 have "unat y < 2" by simp
  then have "unat y = 0 \<or> unat y = 1" by linarith
  then have y: "y = 0 \<or> y = 1"
    using unat_eq_zero [of y] word_unat_eq_iff [of y 1] by auto
  have u: "uvarint 0 = [0]" "uvarint 1 = [1]" and ten: "10 - (9 :: nat) = Suc 0"
    by (simp_all add: uvarint.simps)
  from y show ?case
    unfolding i ten by (elim disjE) (simp_all add: u ReadByte_def)
next
  case (Suc k)
  define m where "m = 9 - i"
  from Suc(2) have i: "i < 9" and m: "10 - i = Suc m" "m = 10 - Suc i"
    by (simp_all add: m_def)
  show ?case
  proof (cases "y < 128")
    case True
    then have "ucast (ucast y :: byte) = y" "(ucast y :: byte) < 128"
      using ucast_byte_small [OF True] by (simp_all add: word_less_nat_alt word_unat_eq_iff unat_ucast_up)
    then show ?thesis
      using True i by (simp add: m uvarint.simps [of y] ReadByte_def)
  next
    case False
    have "unat (drop_bit 7 y) < 2 ^ (64 - 7 * Suc i)"
    proof -
      have "64 - 7 * i = (64 - 7 * Suc i) + 7" using i by simp
      then have "2 ^ (64 - 7 * i) = 2 ^ (64 - 7 * Suc i) * (128 :: nat)" by (simp only: power_add) simp
      with Suc.prems show ?thesis by (simp add: unat_drop_bit_7 less_mult_imp_div_less)
    qed
    then have "read_uvarint m (Suc i) x' (uvarint (drop_bit 7 y) @ r) = (Inr (x' OR push_bit (7 * Suc i) (drop_bit 7 y)), r)" for x'
      using Suc(1) [of "Suc i" "drop_bit 7 y"] Suc(2) i by (simp add: m(2))
    then show ?thesis
      using False i uvarint_byte_split [of x i y]
      by (simp add: m(1) uvarint.simps [of y] ReadByte_def not_less_128_byte del: push_bit_eq_mult)
  qed
qed

lemma ReadUvarint_uvarint: "ReadUvarint (uvarint y @ r) = (Inr y, r)"
  using read_uvarint_put [of 0 y 0 r] unsigned_less [of y] by (simp add: ReadUvarint_def)

lemma PutUvarint_fits: "unat v \<le> 9223372036854775807 \<Longrightarrow> PutUvarint 9 v = Some (uvarint v)"
  using uvarint_length [of v 9] by (simp add: PutUvarint_def)

section \<open>The interface of the encoders\<close>

text \<open>
  What a client of a pair of functions relies on: what the encoder accepted is read back,
  whatever follows it. Two encodings that start the same input are then the same.
\<close>

locale codec =
  fixes enc :: "'a \<Rightarrow> bytes option" and dec :: "'a reading"
  assumes dec_enc: "enc x = Some b \<Longrightarrow> dec (b @ r) = (Inr x, r)"
begin

lemma prefix_free:
  assumes "enc x = Some b" "enc y = Some c" "b @ r = c @ s"
  shows "x = y \<and> r = s"
  using dec_enc [OF assms(1), of r] dec_enc [OF assms(2), of s] assms(3) by simp

lemma enc_inj: "enc x = Some b \<Longrightarrow> enc y = Some b \<Longrightarrow> x = y"
  using prefix_free [of x b y b "[]" "[]"] by simp

end

text \<open>The bytes of a write that reported no error.\<close>

definition output_of :: "written option \<Rightarrow> bytes option" where
  "output_of w = (case w of Some (n, None, b) \<Rightarrow> Some b | _ \<Rightarrow> None)"

lemma output_of_Some: "output_of w = Some b \<longleftrightarrow> (\<exists>n. w = Some (n, None, b))"
  by (auto simp: output_of_def split: option.splits)

lemma WriteVarint63_eq:
  "WriteVarint63 v = (if unat v > 9223372036854775807 then Some (0, Some ValueRange, [])
                      else Some (length (uvarint v), None, uvarint v))"
  by (simp add: WriteVarint63_def PutUvarint_fits)

lemma WriteVarint31_eq:
  "WriteVarint31 n = (if n > 2147483647 then Some (0, Some ValueRange, [])
                      else Some (length (uvarint (of_nat n)), None, uvarint (of_nat n)))"
  by (simp add: WriteVarint31_def PutUvarint_fits unat_of_nat)

interpretation varint63: codec "\<lambda>v. output_of (WriteVarint63 v)" ReadVarint63
  by unfold_locales
     (auto simp: output_of_Some WriteVarint63_eq ReadVarint63_def ReadUvarint_uvarint split: if_splits)

lemma WriteVarstr31_eq:
  "WriteVarstr31 s =
     (if length s > 2147483647 then Some (0, Some ValueRange, [])
      else Some (length (uvarint (of_nat (length s))) + length s, None, uvarint (of_nat (length s)) @ s))"
  by (simp add: WriteVarstr31_def WriteVarint31_eq)

definition varstr :: "bytes \<Rightarrow> bytes" where
  "varstr s = uvarint (of_nat (length s)) @ s"

lemma of_nat_u32:
  assumes "n \<le> 2147483647"
  shows "unat (of_nat n :: u32) = n" "(of_nat n :: u32) = 0 \<longleftrightarrow> n = 0"
proof -
  show *: "unat (of_nat n :: u32) = n"
    using assms by (simp add: unat_of_nat)
  show "(of_nat n :: u32) = 0 \<longleftrightarrow> n = 0"
    using * unat_eq_zero [of "of_nat n :: u32"] by simp
qed

lemma ReadVarint31_uvarint:
  assumes "n \<le> 2147483647"
  shows "ReadVarint31 (uvarint (of_nat n) @ r) = (Inr (of_nat n), r)"
proof -
  have "unat (ucast (of_nat n :: u64) :: u32) = unat (of_nat n :: u32)"
    using assms by (simp add: unsigned_ucast_eq unsigned_of_nat take_bit_nat_eq_self)
  then show ?thesis
    using assms by (simp add: ReadVarint31_def ReadUvarint_uvarint unat_of_nat word_unat_eq_iff)
qed

lemma ReadVarstr31_varstr: "length s \<le> 2147483647 \<Longrightarrow> ReadVarstr31 (varstr s @ r) = (Inr s, r)"
  by (simp add: ReadVarstr31_def varstr_def ReadVarint31_uvarint of_nat_u32)

interpretation varint31: codec "\<lambda>v. output_of (WriteVarint31 (unat v))" ReadVarint31
proof unfold_locales
  fix v :: u32 and b r
  assume "output_of (WriteVarint31 (unat v)) = Some b"
  then show "ReadVarint31 (b @ r) = (Inr v, r)"
    using ReadVarint31_uvarint [of "unat v" r] by (auto simp: output_of_Some WriteVarint31_eq split: if_splits)
qed

interpretation varstr31: codec "\<lambda>s. output_of (WriteVarstr31 s)" ReadVarstr31
  by unfold_locales
     (auto simp: output_of_Some WriteVarstr31_eq ReadVarstr31_varstr [unfolded varstr_def, simplified] split: if_splits)

lemma write_list_eq:
  assumes "\<forall>s \<in> set l. length s \<le> 2147483647"
  shows "write_list n w l = Some (n + length (concat (map varstr l)), None, w @ concat (map varstr l))"
  using assms by (induction l arbitrary: n w) (simp_all add: WriteVarstr31_eq varstr_def)

lemma write_list_error:
  assumes "\<exists>s \<in> set l. length s > 2147483647"
  shows "\<exists>n' b. write_list n w l = Some (n', Some ValueRange, b)"
  using assms
proof (induction l arbitrary: n w)
  case (Cons s l)
  then show ?case
    by (cases "length s > 2147483647") (simp_all add: WriteVarstr31_eq)
qed simp

lemma read_list_varstr:
  assumes "\<forall>s \<in> set l. length s \<le> 2147483647"
  shows "read_list (length l) acc (concat (map varstr l) @ r) = (Inr (acc @ l), r)"
  using assms by (induction l arbitrary: acc) (simp_all add: ReadVarstr31_varstr)

lemma ReadVarstrList_varstr:
  assumes "\<forall>s \<in> set l. length s \<le> 2147483647" "length l \<le> 2147483647"
  shows "ReadVarstrList (uvarint (of_nat (length l)) @ concat (map varstr l) @ r)
         = (Inr (if l = [] then None else Some l), r)"
  using assms by (simp add: ReadVarstrList_def ReadVarint31_uvarint read_list_varstr of_nat_u32)

section \<open>Round trips\<close>

lemma uvarint_length_9: "unat v \<le> 9223372036854775807 \<Longrightarrow> length (uvarint v) \<le> 9"
  using uvarint_length [of v 9] by simp

lemma uvarint_length_5: "unat v \<le> 2147483647 \<Longrightarrow> length (uvarint v) \<le> 5"
  using uvarint_length [of v 5] by simp

lemma WriteVarstrList_eq:
  assumes "length l \<le> 2147483647" "\<forall>s \<in> set l. length s \<le> 2147483647"
  shows "WriteVarstrList l =
           Some (length (uvarint (of_nat (length l))) + length (concat (map varstr l)), None,
                 uvarint (of_nat (length l)) @ concat (map varstr l))"
  using assms by (simp add: WriteVarstrList_def WriteVarint31_eq write_list_eq)

lemma WriteVarstrList_error:
  assumes "length l > 2147483647 \<or> (\<exists>s \<in> set l. length s > 2147483647)"
  shows "\<exists>n b. WriteVarstrList l = Some (n, Some ValueRange, b)"
  using assms write_list_error [of l]
  by (cases "length l > 2147483647") (auto simp: WriteVarstrList_def WriteVarint31_eq)

text \<open>
  What the writers of \<^verbatim>\<open>encoding/blockchain\<close> wrote is read back by the readers, with the input
  that follows left alone: integers of 31 and 63 bits, in at most five and nine bytes, so that
  the pooled buffer of nine bytes never overflows; strings; lists of strings, where an empty
  list is read as nil. A writer refuses exactly the values out of range. The suffix of an
  extensible string that its reader does not know is returned to the caller.
\<close>

theorem encoding_round_trip:
  "(if unat v \<le> 9223372036854775807
          then \<exists>b. WriteVarint63 v = Some (length b, None, b) \<and> length b \<le> 9 \<and> ReadVarint63 (b @ r) = (Inr v, r)
          else WriteVarint63 v = Some (0, Some ValueRange, [])) \<and>
         (if k \<le> 2147483647
          then \<exists>b. WriteVarint31 k = Some (length b, None, b) \<and> length b \<le> 5 \<and> ReadVarint31 (b @ r) = (Inr (of_nat k), r)
          else WriteVarint31 k = Some (0, Some ValueRange, [])) \<and>
         (if length s \<le> 2147483647
          then \<exists>b. WriteVarstr31 s = Some (length b, None, b) \<and> ReadVarstr31 (b @ r) = (Inr s, r)
          else WriteVarstr31 s = Some (0, Some ValueRange, [])) \<and>
         (if length l \<le> 2147483647 \<and> (\<forall>x \<in> set l. length x \<le> 2147483647)
          then \<exists>b. WriteVarstrList l = Some (length b, None, b) \<and>
                   ReadVarstrList (b @ r) = (Inr (if l = [] then None else Some l), r)
          else \<exists>n b. WriteVarstrList l = Some (n, Some ValueRange, b)) \<and>
         (WriteVarint63 v = Some (n, None, c) \<and> length c + length s \<le> 2147483647 \<longrightarrow>
          (\<exists>b. WriteExtensibleString s (None, c) = Some (length b, None, b) \<and>
               ReadExtensibleString ReadVarint63 (b @ r) = (Inr (v, s), r)))"
proof -
  have str: "\<exists>b. WriteVarstr31 x = Some (length b, None, b) \<and> ReadVarstr31 (b @ q) = (Inr x, q)"
    if "length x \<le> 2147483647" for x q
    using that ReadVarstr31_varstr [of x q] by (auto simp: WriteVarstr31_eq varstr_def)
  have "length (uvarint (of_nat k)) \<le> 5" if "k \<le> 2147483647"
    using that uvarint_length_5 [of "of_nat k"] by (simp add: unat_of_nat)
  moreover have "\<exists>b. WriteExtensibleString s (None, c) = Some (length b, None, b) \<and>
               ReadExtensibleString ReadVarint63 (b @ r) = (Inr (v, s), r)"
    if w: "WriteVarint63 v = Some (n, None, c)" "length c + length s \<le> 2147483647"
    using str [of "c @ s" r] w varint63.dec_enc [of v c s]
    by (auto simp: WriteExtensibleString_def ReadExtensibleString_def output_of_def)
  moreover have "\<exists>b. WriteVarstrList l = Some (length b, None, b) \<and>
                   ReadVarstrList (b @ r) = (Inr (if l = [] then None else Some l), r)"
    if "length l \<le> 2147483647" "\<forall>x \<in> set l. length x \<le> 2147483647"
    using that ReadVarstrList_varstr [of l r]
    by (intro exI [of _ "uvarint (of_nat (length l)) @ concat (map varstr l)"]) (simp add: WriteVarstrList_eq)
  ultimately show ?thesis
    using str [of s r] WriteVarstrList_error [of l]
    by (auto simp: WriteVarint63_eq WriteVarint31_eq WriteVarstr31_eq ReadVarint63_def ReadUvarint_uvarint
        ReadVarint31_uvarint uvarint_length_9 not_le)
qed

lemma encoding_round_trip_witness:
  "ReadVarstrList ([2, 3, 7, 8, 9, 0] @ [5]) = (Inr (Some [[7, 8, 9], []]), [5]) \<and>
   WriteVarstrList [[7, 8, 9], []] = Some (6, None, [2, 3, 7, 8, 9, 0])"
proof -
  have "WriteVarstrList [[7, 8, 9], []] = Some (6, None, [2, 3, 7, 8, 9, 0])"
    by (simp add: WriteVarstrList_def WriteVarint31_eq WriteVarstr31_eq uvarint.simps)
  then show ?thesis
    using encoding_round_trip [of 0 "[5]" 0 "[]" "[[7, 8, 9], []]" 0 "[]"] by simp
qed

end
