(* ===== verification/Bc.thy ===== *)
theory Bc
  imports VmTypes Encoding
begin

text \<open>
  Package \<^verbatim>\<open>protocol/bc\<close>: the entries a transaction consists of (the structs of \<^verbatim>\<open>bc.pb.go\<close>),
  hashes, asset identifiers and amounts, the serialisation of entries for hashing and the
  identifiers it gives (\<^verbatim>\<open>entry.go\<close>, \<^verbatim>\<open>hash.go\<close>, \<^verbatim>\<open>asset.go\<close> and the files of the entry types),
  and the transaction with its accessors (\<^verbatim>\<open>tx.go\<close>). A pointer is an option, \<open>None\<close> for nil. The
  programs, arguments and state data of entries are slices into the store, since the virtual
  machine works on the same arrays.
\<close>

section \<open>Hashes\<close>

record Hash =
  V0 :: u64
  V1 :: u64
  V2 :: u64
  V3 :: u64

type_synonym AssetID = Hash

text \<open>Big-endian conversions of a fixed number of bytes, \<^verbatim>\<open>binary.BigEndian\<close>.\<close>

primrec be_bytes :: "nat \<Rightarrow> nat \<Rightarrow> bytes" where
  "be_bytes 0 x = []"
| "be_bytes (Suc k) x = be_bytes k (x div 256) @ [of_nat (x mod 256)]"

definition be_Uint64 :: "bytes \<Rightarrow> u64" where
  "be_Uint64 b = of_nat (nat_of_be b)"

definition NewHash :: "bytes \<Rightarrow> Hash" where
  "NewHash b32 =
     \<lparr>V0 = be_Uint64 (take 8 b32), V1 = be_Uint64 (take 8 (drop 8 b32)),
      V2 = be_Uint64 (take 8 (drop 16 b32)), V3 = be_Uint64 (take 8 (drop 24 b32))\<rparr>"

definition Byte32 :: "Hash \<Rightarrow> bytes" where
  "Byte32 h = be_bytes 8 (unat (V0 h)) @ be_bytes 8 (unat (V1 h)) @
              be_bytes 8 (unat (V2 h)) @ be_bytes 8 (unat (V3 h))"

definition zeroHash :: Hash where
  "zeroHash = \<lparr>V0 = 0, V1 = 0, V2 = 0, V3 = 0\<rparr>"

definition IsZero :: "Hash option \<Rightarrow> bool" where
  "IsZero h = (case h of None \<Rightarrow> True | Some x \<Rightarrow> x = zeroHash)"

text \<open>The asset identifier of BTM, \<^verbatim>\<open>consensus/general.go\<close>.\<close>

definition BTMAssetID :: AssetID where
  "BTMAssetID = \<lparr>V0 = - 1, V1 = - 1, V2 = - 1, V3 = - 1\<rparr>"

text \<open>\<^verbatim>\<open>io.ReadFull\<close> of 32 bytes from the reader of package \<^verbatim>\<open>blockchain\<close>.\<close>

definition ReadFull :: "nat \<Rightarrow> bytes reading" where
  "ReadFull n r =
     (if length r \<ge> n then (Inr (take n r), drop n r)
      else (Inl (if r = [] then EOF else UnexpectedEOF), []))"

definition ReadHash :: "Hash reading" where
  "ReadHash r = (case ReadFull 32 r of (Inl e, r') \<Rightarrow> (Inl e, r') | (Inr b, r') \<Rightarrow> (Inr (NewHash b), r'))"

section \<open>Values and programs\<close>

record AssetAmount =
  aaAssetId :: "AssetID option"
  aaAmount :: u64

text \<open>\<^verbatim>\<open>AssetAmount.Equal\<close>: \<open>None\<close> is its error.\<close>

definition aaEqual :: "AssetAmount option \<Rightarrow> AssetAmount option \<Rightarrow> bool option" where
  "aaEqual a other =
     (case (a, other) of
        (Some a, Some b) \<Rightarrow>
          (case (aaAssetId a, aaAssetId b) of
             (Some x, Some y) \<Rightarrow> Some (aaAmount a = aaAmount b \<and> x = y)
           | _ \<Rightarrow> None)
      | _ \<Rightarrow> None)"

record Program =
  VmVersion :: u64
  progCode :: slice

record AssetDefinition =
  IssuanceProgram :: "Program option"
  defData :: "Hash option"

record ValueSource =
  srcRef :: "Hash option"
  srcValue :: "AssetAmount option"
  srcPosition :: u64

record ValueDestination =
  dstRef :: "Hash option"
  dstValue :: "AssetAmount option"
  dstPosition :: u64

section \<open>Entries\<close>

record TxHeader =
  hdrVersion :: u64
  hdrSerializedSize :: u64
  hdrTimeRange :: u64
  hdrResultIds :: "Hash option list"

record BlockHeader =
  bhVersion :: u64
  bhHeight :: u64
  bhPreviousBlockId :: "Hash option"
  bhTimestamp :: u64
  bhTransactionsRoot :: "Hash option"

record Mux =
  muxSources :: "ValueSource option list"
  muxProgram :: "Program option"
  muxWitnessDestinations :: "ValueDestination option list"
  muxWitnessArguments :: "slice list"

record Coinbase =
  cbWitnessDestination :: "ValueDestination option"
  cbArbitrary :: bytes

text \<open>\<open>None\<close> is nil state data, which \<^verbatim>\<open>bytesEqual\<close> of \<^verbatim>\<open>vmcontext.go\<close> tells from empty state data.\<close>

record OriginalOutput =
  ooSource :: "ValueSource option"
  ooControlProgram :: "Program option"
  ooOrdinal :: u64
  ooStateData :: "slice list option"

record VoteOutput =
  voSource :: "ValueSource option"
  voControlProgram :: "Program option"
  voOrdinal :: u64
  voVote :: bytes
  voStateData :: "slice list option"

record VetoInput =
  viSpentOutputId :: "Hash option"
  viWitnessDestination :: "ValueDestination option"
  viWitnessArguments :: "slice list"
  viOrdinal :: u64

record Retirement =
  reSource :: "ValueSource option"
  reOrdinal :: u64

record Issuance =
  isNonceHash :: "Hash option"
  isValue :: "AssetAmount option"
  isWitnessDestination :: "ValueDestination option"
  isWitnessAssetDefinition :: "AssetDefinition option"
  isWitnessArguments :: "slice list"
  isOrdinal :: u64

record Spend =
  spSpentOutputId :: "Hash option"
  spWitnessDestination :: "ValueDestination option"
  spWitnessArguments :: "slice list"
  spOrdinal :: u64

datatype Entry =
    ETxHeader TxHeader
  | EBlockHeader BlockHeader
  | EMux Mux
  | ECoinbase Coinbase
  | EOriginalOutput OriginalOutput
  | EVoteOutput VoteOutput
  | EVetoInput VetoInput
  | ERetirement Retirement
  | EIssuance Issuance
  | ESpend Spend

text \<open>The constructors and setters of the entry files.\<close>

definition NewTxHeader :: "u64 \<Rightarrow> u64 \<Rightarrow> u64 \<Rightarrow> Hash option list \<Rightarrow> TxHeader" where
  "NewTxHeader version serializedSize timeRange resultIDs =
     \<lparr>hdrVersion = version, hdrSerializedSize = serializedSize, hdrTimeRange = timeRange, hdrResultIds = resultIDs\<rparr>"

definition NewBlockHeader :: "u64 \<Rightarrow> u64 \<Rightarrow> Hash option \<Rightarrow> u64 \<Rightarrow> Hash option \<Rightarrow> BlockHeader" where
  "NewBlockHeader version height previousBlockID timestamp transactionsRoot =
     \<lparr>bhVersion = version, bhHeight = height, bhPreviousBlockId = previousBlockID,
      bhTimestamp = timestamp, bhTransactionsRoot = transactionsRoot\<rparr>"

definition NewMux :: "ValueSource option list \<Rightarrow> Program option \<Rightarrow> Mux" where
  "NewMux sources prog =
     \<lparr>muxSources = sources, muxProgram = prog, muxWitnessDestinations = [], muxWitnessArguments = []\<rparr>"

definition NewCoinbase :: "bytes \<Rightarrow> Coinbase" where
  "NewCoinbase arbitrary = \<lparr>cbWitnessDestination = None, cbArbitrary = arbitrary\<rparr>"

definition NewOriginalOutput ::
  "ValueSource option \<Rightarrow> Program option \<Rightarrow> slice list option \<Rightarrow> u64 \<Rightarrow> OriginalOutput" where
  "NewOriginalOutput source controlProgram stateData ordinal =
     \<lparr>ooSource = source, ooControlProgram = controlProgram, ooOrdinal = ordinal, ooStateData = stateData\<rparr>"

definition NewVoteOutput ::
  "ValueSource option \<Rightarrow> Program option \<Rightarrow> slice list option \<Rightarrow> u64 \<Rightarrow> bytes \<Rightarrow> VoteOutput" where
  "NewVoteOutput source controlProgram stateData ordinal vote =
     \<lparr>voSource = source, voControlProgram = controlProgram, voOrdinal = ordinal, voVote = vote, voStateData = stateData\<rparr>"

definition NewVetoInput :: "Hash option \<Rightarrow> u64 \<Rightarrow> VetoInput" where
  "NewVetoInput spentOutputID ordinal =
     \<lparr>viSpentOutputId = spentOutputID, viWitnessDestination = None, viWitnessArguments = [], viOrdinal = ordinal\<rparr>"

definition NewRetirement :: "ValueSource option \<Rightarrow> u64 \<Rightarrow> Retirement" where
  "NewRetirement source ordinal = \<lparr>reSource = source, reOrdinal = ordinal\<rparr>"

definition NewIssuance :: "Hash option \<Rightarrow> AssetAmount option \<Rightarrow> u64 \<Rightarrow> Issuance" where
  "NewIssuance nonceHash val ordinal =
     \<lparr>isNonceHash = nonceHash, isValue = val, isWitnessDestination = None, isWitnessAssetDefinition = None,
      isWitnessArguments = [], isOrdinal = ordinal\<rparr>"

definition NewSpend :: "Hash option \<Rightarrow> u64 \<Rightarrow> Spend" where
  "NewSpend spentOutputID ordinal =
     \<lparr>spSpentOutputId = spentOutputID, spWitnessDestination = None, spWitnessArguments = [], spOrdinal = ordinal\<rparr>"

text \<open>\<^verbatim>\<open>SetDestination\<close> of spends, vetos, issuances and coinbases; other entries have no such method.\<close>

definition SetDestination :: "Hash option \<Rightarrow> AssetAmount option \<Rightarrow> u64 \<Rightarrow> Entry \<Rightarrow> Entry" where
  "SetDestination i val pos e =
     (let d = Some \<lparr>dstRef = i, dstValue = val, dstPosition = pos\<rparr> in
      case e of
        ESpend s \<Rightarrow> ESpend (s\<lparr>spWitnessDestination := d\<rparr>)
      | EVetoInput v \<Rightarrow> EVetoInput (v\<lparr>viWitnessDestination := d\<rparr>)
      | EIssuance s \<Rightarrow> EIssuance (s\<lparr>isWitnessDestination := d\<rparr>)
      | ECoinbase c \<Rightarrow> ECoinbase (c\<lparr>cbWitnessDestination := d\<rparr>)
      | _ \<Rightarrow> e)"

section \<open>Serialisation for hashing\<close>

text \<open>
  \<^verbatim>\<open>writeForHash\<close> dispatches on the type of its argument and walks lists and structs by
  reflection; there is one function per type that entries have. The bytes written, and whether
  no error occurred: a string or list of more than \<open>2 ^ 31 - 1\<close> elements is an error, and what was
  written before it stays written.
\<close>

type_synonym hashed = "bytes \<times> bool"

definition wseq :: "hashed \<Rightarrow> hashed \<Rightarrow> hashed" where
  "wseq a b = (if snd a then (fst a @ fst b, snd b) else a)"

definition woutput :: "written option \<Rightarrow> hashed" where
  "woutput w = (case w of None \<Rightarrow> ([], False) | Some (_, e, b) \<Rightarrow> (b, e = None))"

definition w_u64 :: "u64 \<Rightarrow> hashed" where
  "w_u64 v = (rev (be_bytes 8 (unat v)), True)"

definition w_bytes :: "bytes \<Rightarrow> hashed" where
  "w_bytes b = woutput (WriteVarstr31 b)"

definition w_byteslist :: "bytes list \<Rightarrow> hashed" where
  "w_byteslist l = woutput (WriteVarstrList l)"

definition w_hash :: "Hash option \<Rightarrow> hashed" where
  "w_hash h = (case h of None \<Rightarrow> replicate 32 0 | Some x \<Rightarrow> Byte32 x, True)"

definition w_ptr :: "('a \<Rightarrow> hashed) \<Rightarrow> 'a option \<Rightarrow> hashed" where
  "w_ptr f p = (case p of None \<Rightarrow> ([], True) | Some x \<Rightarrow> f x)"

definition w_list :: "('a \<Rightarrow> hashed) \<Rightarrow> 'a list \<Rightarrow> hashed" where
  "w_list f l = foldl (\<lambda>acc x. wseq acc (f x)) (woutput (WriteVarint31 (length l))) l"

definition w_amount :: "AssetAmount \<Rightarrow> hashed" where
  "w_amount a = wseq (w_hash (aaAssetId a)) (w_u64 (aaAmount a))"

definition w_source :: "ValueSource \<Rightarrow> hashed" where
  "w_source s = wseq (wseq (w_hash (srcRef s)) (w_ptr w_amount (srcValue s))) (w_u64 (srcPosition s))"

definition w_program :: "store \<Rightarrow> Program \<Rightarrow> hashed" where
  "w_program st p = wseq (w_u64 (VmVersion p)) (w_bytes (slice_bytes st (progCode p)))"

definition w_state :: "store \<Rightarrow> slice list option \<Rightarrow> hashed" where
  "w_state st d = w_byteslist (map (slice_bytes st) (case d of None \<Rightarrow> [] | Some l \<Rightarrow> l))"

definition w_definition :: "store \<Rightarrow> AssetDefinition \<Rightarrow> hashed" where
  "w_definition st d = wseq (w_ptr (w_program st) (IssuanceProgram d)) (w_hash (defData d))"

primrec writeForHash :: "store \<Rightarrow> Entry \<Rightarrow> hashed" where
  "writeForHash st (ETxHeader h) =
     wseq (wseq (w_u64 (hdrVersion h)) (w_u64 (hdrTimeRange h))) (w_list w_hash (hdrResultIds h))"
| "writeForHash st (EBlockHeader b) =
     wseq (wseq (wseq (wseq (w_u64 (bhVersion b)) (w_u64 (bhHeight b))) (w_hash (bhPreviousBlockId b)))
       (w_u64 (bhTimestamp b))) (w_hash (bhTransactionsRoot b))"
| "writeForHash st (EMux m) = wseq (w_list (w_ptr w_source) (muxSources m)) (w_ptr (w_program st) (muxProgram m))"
| "writeForHash st (ECoinbase c) = w_bytes (cbArbitrary c)"
| "writeForHash st (EOriginalOutput oo) =
     wseq (wseq (w_ptr w_source (ooSource oo)) (w_ptr (w_program st) (ooControlProgram oo))) (w_state st (ooStateData oo))"
| "writeForHash st (EVoteOutput v) =
     wseq (wseq (wseq (w_ptr w_source (voSource v)) (w_ptr (w_program st) (voControlProgram v))) (w_bytes (voVote v)))
       (w_state st (voStateData v))"
| "writeForHash st (EVetoInput v) = w_hash (viSpentOutputId v)"
| "writeForHash st (ERetirement r) = w_ptr w_source (reSource r)"
| "writeForHash st (EIssuance i) = wseq (w_hash (isNonceHash i)) (w_ptr w_amount (isValue i))"
| "writeForHash st (ESpend s) = w_hash (spSpentOutputId s)"

definition str_bytes :: "string \<Rightarrow> bytes" where
  "str_bytes s = map of_char s"

primrec entry_typ :: "Entry \<Rightarrow> string" where
  "entry_typ (ETxHeader _) = ''txheader''"
| "entry_typ (EBlockHeader _) = ''blockheader''"
| "entry_typ (EMux _) = ''mux1''"
| "entry_typ (ECoinbase _) = ''coinbase1''"
| "entry_typ (EOriginalOutput _) = ''originalOutput1''"
| "entry_typ (EVoteOutput _) = ''voteOutput1''"
| "entry_typ (EVetoInput _) = ''vetoInput1''"
| "entry_typ (ERetirement _) = ''retirement1''"
| "entry_typ (EIssuance _) = ''issuance1''"
| "entry_typ (ESpend _) = ''spend1''"

text \<open>
  \<^verbatim>\<open>EntryID\<close>: the zero hash for a nil entry, and \<open>None\<close> for the panic of \<^verbatim>\<open>mustWriteForHash\<close>.
\<close>

definition EntryID_of :: "lib \<Rightarrow> store \<Rightarrow> Entry option \<Rightarrow> Hash option" where
  "EntryID_of L st e =
     (case e of
        None \<Rightarrow> Some zeroHash
      | Some x \<Rightarrow>
          (case writeForHash st x of
             (b, True) \<Rightarrow> Some (NewHash (sha3_256 L (str_bytes ''entryid:'' @ str_bytes (entry_typ x) @ str_bytes '':'' @ sha3_256 L b)))
           | (_, False) \<Rightarrow> None))"

text \<open>\<^verbatim>\<open>AssetDefinition.ComputeAssetID\<close> ignores an error of the serialisation.\<close>

definition definition_AssetID :: "lib \<Rightarrow> store \<Rightarrow> AssetDefinition \<Rightarrow> AssetID" where
  "definition_AssetID L st ad = NewHash (sha3_256 L (fst (w_definition st ad)))"

text \<open>\<^verbatim>\<open>ComputeAssetID\<close> of a program given by its contents.\<close>

definition ComputeAssetID :: "lib \<Rightarrow> bytes \<Rightarrow> u64 \<Rightarrow> Hash option \<Rightarrow> AssetID" where
  "ComputeAssetID L prog vmVersion dat =
     definition_AssetID L [prog]
       \<lparr>IssuanceProgram = Some \<lparr>VmVersion = vmVersion,
          progCode = \<lparr>s_arr = 0, s_off = 0, s_len = length prog, s_cap = length prog\<rparr>\<rparr>, defData = dat\<rparr>"

section \<open>Transactions\<close>

record Tx =
  TxHeader_of :: TxHeader
  txID :: Hash
  Entries :: "Hash \<rightharpoonup> Entry"
  InputIDs :: "Hash list"
  SpentOutputIDs :: "Hash list"

datatype bc_err = BErrEntryType | BErrMissingEntry

definition SigHash :: "lib \<Rightarrow> Tx \<Rightarrow> nat \<Rightarrow> Hash option" where
  "SigHash L tx n =
     (if n < length (InputIDs tx)
      then Some (NewHash (sha3_256 L (Byte32 (InputIDs tx ! n) @ Byte32 (txID tx)))) else None)"

definition tx_OriginalOutput :: "Tx \<Rightarrow> Hash \<Rightarrow> bc_err + OriginalOutput" where
  "tx_OriginalOutput tx i =
     (case Entries tx i of
        None \<Rightarrow> Inl BErrMissingEntry
      | Some (EOriginalOutput x) \<Rightarrow> Inr x
      | Some _ \<Rightarrow> Inl BErrEntryType)"

definition tx_Spend :: "Tx \<Rightarrow> Hash \<Rightarrow> bc_err + Spend" where
  "tx_Spend tx i =
     (case Entries tx i of
        None \<Rightarrow> Inl BErrMissingEntry
      | Some (ESpend x) \<Rightarrow> Inr x
      | Some _ \<Rightarrow> Inl BErrEntryType)"

definition tx_Issuance :: "Tx \<Rightarrow> Hash \<Rightarrow> bc_err + Issuance" where
  "tx_Issuance tx i =
     (case Entries tx i of
        None \<Rightarrow> Inl BErrMissingEntry
      | Some (EIssuance x) \<Rightarrow> Inr x
      | Some _ \<Rightarrow> Inl BErrEntryType)"

definition tx_VetoInput :: "Tx \<Rightarrow> Hash \<Rightarrow> bc_err + VetoInput" where
  "tx_VetoInput tx i =
     (case Entries tx i of
        None \<Rightarrow> Inl BErrMissingEntry
      | Some (EVetoInput x) \<Rightarrow> Inr x
      | Some _ \<Rightarrow> Inl BErrEntryType)"

definition tx_VoteOutput :: "Tx \<Rightarrow> Hash \<Rightarrow> bc_err + VoteOutput" where
  "tx_VoteOutput tx i =
     (case Entries tx i of
        None \<Rightarrow> Inl BErrMissingEntry
      | Some (EVoteOutput x) \<Rightarrow> Inr x
      | Some _ \<Rightarrow> Inl BErrEntryType)"

end
