(* ===== verification/TxTypes.thy ===== *)
theory TxTypes
  imports Bc
begin

text \<open>
  Package \<^verbatim>\<open>protocol/bc/types\<close>: the transaction as it is exchanged and stored, and its binary
  format (\<^verbatim>\<open>transaction.go\<close>, \<^verbatim>\<open>txinput.go\<close>, \<^verbatim>\<open>txoutput.go\<close>, \<^verbatim>\<open>spend.go\<close>, \<^verbatim>\<open>spend_commitment.go\<close>,
  \<^verbatim>\<open>issuance.go\<close>, \<^verbatim>\<open>veto_input.go\<close>, \<^verbatim>\<open>coinbase.go\<close>, \<^verbatim>\<open>output_commitment.go\<close>, \<^verbatim>\<open>original_output.go\<close>,
  \<^verbatim>\<open>vote_output.go\<close>). The types have a parameter \<open>'b\<close> for the programs, arguments and state data:
  \<open>bytes\<close> for a transaction read from the wire, \<open>slice\<close> for one in memory that the virtual machine
  works on. Functions that need their contents take the function \<open>rd\<close> that reads them.
\<close>

section \<open>Data\<close>

record 'b SpendCommitment =
  scAssetAmount :: AssetAmount
  scSourceID :: Hash
  scSourcePosition :: u64
  scVMVersion :: u64
  scControlProgram :: 'b
  scStateData :: "'b list option"

record 'b SpendInput =
  siSpendCommitmentSuffix :: bytes
  siArguments :: "'b list"
  siSpendCommitment :: "'b SpendCommitment"

record 'b TxVetoInput =
  tvVetoCommitmentSuffix :: bytes
  tvArguments :: "'b list"
  tvVote :: bytes
  tvSpendCommitment :: "'b SpendCommitment"

record 'b IssuanceInput =
  iiNonce :: bytes
  iiAmount :: u64
  iiAssetDefinition :: bytes
  iiVMVersion :: u64
  iiIssuanceProgram :: 'b
  iiArguments :: "'b list"
  iiassetId :: AssetID

datatype 'b TypedInput =
    IssuanceIn "'b IssuanceInput"
  | SpendIn "'b SpendInput"
  | VetoIn "'b TxVetoInput"
  | CoinbaseIn bytes

text \<open>\<open>TypedInput\<close> is \<open>None\<close> (a nil interface) after an input of an unknown asset version was read.\<close>

record 'b TxInput =
  inAssetVersion :: u64
  inTyped :: "'b TypedInput option"
  inCommitmentSuffix :: bytes
  inWitnessSuffix :: bytes

record 'b OutputCommitment =
  ocAssetAmount :: AssetAmount
  ocVMVersion :: u64
  ocControlProgram :: 'b
  ocStateData :: "'b list option"

datatype TypedOutput = OriginalTxOutput | VoteTxOutput bytes

record 'b TxOutput =
  outAssetVersion :: u64
  outCommitment :: "'b OutputCommitment"
  outCommitmentSuffix :: bytes
  outTyped :: TypedOutput

record 'b TxData =
  tdVersion :: u64
  tdSerializedSize :: u64
  tdTimeRange :: u64
  tdInputs :: "'b TxInput list"
  tdOutputs :: "'b TxOutput list"

section \<open>Asset identifiers of inputs\<close>

definition AssetDefinitionHash :: "lib \<Rightarrow> 'b IssuanceInput \<Rightarrow> Hash" where
  "AssetDefinitionHash L ii = NewHash (sha3_256 L (iiAssetDefinition ii))"

definition NonceHash :: "lib \<Rightarrow> 'b IssuanceInput \<Rightarrow> Hash" where
  "NonceHash L ii = NewHash (sha3_256 L (iiNonce ii))"

definition calcAssetID :: "lib \<Rightarrow> ('b \<Rightarrow> bytes) \<Rightarrow> 'b IssuanceInput \<Rightarrow> AssetID" where
  "calcAssetID L rd ii =
     ComputeAssetID L (rd (iiIssuanceProgram ii)) (iiVMVersion ii) (Some (AssetDefinitionHash L ii))"

text \<open>\<^verbatim>\<open>IssuanceInput.AssetID\<close> caches what it computes; the cached value is the result.\<close>

definition issuance_AssetID :: "lib \<Rightarrow> ('b \<Rightarrow> bytes) \<Rightarrow> 'b IssuanceInput \<Rightarrow> AssetID" where
  "issuance_AssetID L rd ii = (if IsZero (Some (iiassetId ii)) then calcAssetID L rd ii else iiassetId ii)"

section \<open>Writing\<close>

text \<open>
  A writing method: the bytes it has appended, and whether it returned nil, returned an error or
  panicked.
\<close>

datatype wstatus = WOk | WErr io_err | WPanic

type_synonym wr = "bytes \<times> wstatus"

definition wthen :: "wr \<Rightarrow> wr \<Rightarrow> wr" where
  "wthen a b = (if snd a = WOk then (fst a @ fst b, snd b) else a)"

definition wlift :: "written option \<Rightarrow> wr" where
  "wlift w = (case w of None \<Rightarrow> ([], WPanic)
                | Some (_, e, b) \<Rightarrow> (b, case e of None \<Rightarrow> WOk | Some x \<Rightarrow> WErr x))"

definition wraw :: "bytes \<Rightarrow> wr" where
  "wraw b = (b, WOk)"

definition wext :: "bytes \<Rightarrow> wr \<Rightarrow> wr" where
  "wext sfx f =
     (case snd f of
        WPanic \<Rightarrow> ([], WPanic)
      | WErr e \<Rightarrow> wlift (WriteExtensibleString sfx (Some e, fst f))
      | WOk \<Rightarrow> wlift (WriteExtensibleString sfx (None, fst f)))"

text \<open>\<^verbatim>\<open>AssetAmount.WriteTo\<close>: a nil asset identifier is dereferenced.\<close>

definition AssetAmount_WriteTo :: "AssetAmount \<Rightarrow> wr" where
  "AssetAmount_WriteTo a =
     (case aaAssetId a of
        None \<Rightarrow> ([], WPanic)
      | Some x \<Rightarrow> wthen (wraw (Byte32 x)) (wlift (WriteVarint63 (aaAmount a))))"

definition the_list :: "'a list option \<Rightarrow> 'a list" where
  "the_list l = (case l of None \<Rightarrow> [] | Some x \<Rightarrow> x)"

text \<open>\<^verbatim>\<open>SpendCommitment.writeContents\<close>: the suffix is part of the contents.\<close>

definition writeContents :: "('b \<Rightarrow> bytes) \<Rightarrow> 'b SpendCommitment \<Rightarrow> bytes \<Rightarrow> u64 \<Rightarrow> wr" where
  "writeContents rd sc sfx assetVersion =
     wthen
       (if assetVersion = 1 then
          wthen (wraw (Byte32 (scSourceID sc)))
            (wthen (AssetAmount_WriteTo (scAssetAmount sc))
              (wthen (wlift (WriteVarint63 (scSourcePosition sc)))
                (wthen (wlift (WriteVarint63 (scVMVersion sc)))
                  (wthen (wlift (WriteVarstr31 (rd (scControlProgram sc))))
                    (wlift (WriteVarstrList (map rd (the_list (scStateData sc)))))))))
        else wraw [])
       (wraw sfx)"

definition writeExtensibleString :: "('b \<Rightarrow> bytes) \<Rightarrow> 'b SpendCommitment \<Rightarrow> bytes \<Rightarrow> u64 \<Rightarrow> wr" where
  "writeExtensibleString rd sc sfx assetVersion = wext sfx (writeContents rd sc sfx assetVersion)"

definition OutputCommitment_writeTo :: "('b \<Rightarrow> bytes) \<Rightarrow> 'b OutputCommitment \<Rightarrow> u64 \<Rightarrow> wr" where
  "OutputCommitment_writeTo rd oc assetVersion =
     (if assetVersion = 1 then
        wthen (AssetAmount_WriteTo (ocAssetAmount oc))
          (wthen (wlift (WriteVarint63 (ocVMVersion oc)))
            (wthen (wlift (WriteVarstr31 (rd (ocControlProgram oc))))
              (wlift (WriteVarstrList (map rd (the_list (ocStateData oc)))))))
      else wraw [])"

abbreviation (input) IssuanceInputType :: byte where "IssuanceInputType \<equiv> 0"
abbreviation (input) SpendInputType :: byte where "SpendInputType \<equiv> 1"
abbreviation (input) CoinbaseInputType :: byte where "CoinbaseInputType \<equiv> 2"
abbreviation (input) VetoInputType :: byte where "VetoInputType \<equiv> 3"
abbreviation (input) OriginalOutputType :: byte where "OriginalOutputType \<equiv> 0"
abbreviation (input) VoteOutputType :: byte where "VoteOutputType \<equiv> 1"

primrec writeCommitment :: "lib \<Rightarrow> ('b \<Rightarrow> bytes) \<Rightarrow> u64 \<Rightarrow> 'b TypedInput \<Rightarrow> wr" where
  "writeCommitment L rd assetVersion (IssuanceIn ii) =
     wthen (wraw [IssuanceInputType])
       (wthen (wlift (WriteVarstr31 (iiNonce ii)))
         (wthen (wraw (Byte32 (issuance_AssetID L rd ii))) (wlift (WriteVarint63 (iiAmount ii)))))"
| "writeCommitment L rd assetVersion (SpendIn si) =
     wthen (wraw [SpendInputType])
       (writeExtensibleString rd (siSpendCommitment si) (siSpendCommitmentSuffix si) assetVersion)"
| "writeCommitment L rd assetVersion (VetoIn vi) =
     wthen (wraw [VetoInputType])
       (wthen (writeExtensibleString rd (tvSpendCommitment vi) (tvVetoCommitmentSuffix vi) assetVersion)
         (wlift (WriteVarstr31 (tvVote vi))))"
| "writeCommitment L rd assetVersion (CoinbaseIn arbitrary) =
     wthen (wraw [CoinbaseInputType]) (wlift (WriteVarstr31 arbitrary))"

primrec writeWitness :: "('b \<Rightarrow> bytes) \<Rightarrow> 'b TypedInput \<Rightarrow> wr" where
  "writeWitness rd (IssuanceIn ii) =
     wthen (wlift (WriteVarstr31 (iiAssetDefinition ii)))
       (wthen (wlift (WriteVarint63 (iiVMVersion ii)))
         (wthen (wlift (WriteVarstr31 (rd (iiIssuanceProgram ii))))
           (wlift (WriteVarstrList (map rd (iiArguments ii))))))"
| "writeWitness rd (SpendIn si) = wlift (WriteVarstrList (map rd (siArguments si)))"
| "writeWitness rd (VetoIn vi) = wlift (WriteVarstrList (map rd (tvArguments vi)))"
| "writeWitness rd (CoinbaseIn arbitrary) = wraw []"

definition writeInputCommitment :: "lib \<Rightarrow> ('b \<Rightarrow> bytes) \<Rightarrow> 'b TxInput \<Rightarrow> wr" where
  "writeInputCommitment L rd t =
     (if inAssetVersion t = 1
      then (case inTyped t of None \<Rightarrow> ([], WPanic) | Some x \<Rightarrow> writeCommitment L rd (inAssetVersion t) x)
      else wraw [])"

definition writeInputWitness :: "('b \<Rightarrow> bytes) \<Rightarrow> 'b TxInput \<Rightarrow> wr" where
  "writeInputWitness rd t =
     (if inAssetVersion t = 1
      then (case inTyped t of None \<Rightarrow> ([], WPanic) | Some x \<Rightarrow> writeWitness rd x)
      else wraw [])"

definition TxInput_writeTo :: "lib \<Rightarrow> ('b \<Rightarrow> bytes) \<Rightarrow> 'b TxInput \<Rightarrow> wr" where
  "TxInput_writeTo L rd t =
     wthen (wlift (WriteVarint63 (inAssetVersion t)))
       (wthen (wext (inCommitmentSuffix t) (writeInputCommitment L rd t))
         (wext (inWitnessSuffix t) (writeInputWitness rd t)))"

primrec OutputType :: "TypedOutput \<Rightarrow> byte" where
  "OutputType OriginalTxOutput = OriginalOutputType"
| "OutputType (VoteTxOutput vote) = VoteOutputType"

primrec TypedOutput_writeTo :: "TypedOutput \<Rightarrow> wr" where
  "TypedOutput_writeTo OriginalTxOutput = wraw []"
| "TypedOutput_writeTo (VoteTxOutput vote) = wlift (WriteVarstr31 vote)"

definition TxOutput_writeTo :: "('b \<Rightarrow> bytes) \<Rightarrow> 'b TxOutput \<Rightarrow> wr" where
  "TxOutput_writeTo rd out =
     wthen (wlift (WriteVarint63 (outAssetVersion out)))
       (wthen (wraw [OutputType (outTyped out)])
         (wthen (wext (outCommitmentSuffix out)
                  (wthen (TypedOutput_writeTo (outTyped out))
                    (OutputCommitment_writeTo rd (outCommitment out) (outAssetVersion out))))
           (wlift (WriteVarstr31 []))))"

primrec write_all :: "('a \<Rightarrow> wr) \<Rightarrow> 'a list \<Rightarrow> wr" where
  "write_all f [] = wraw []"
| "write_all f (x # l) = wthen (f x) (write_all f l)"

abbreviation (input) serRequired :: byte where "serRequired \<equiv> 7"

definition TxData_writeTo :: "lib \<Rightarrow> ('b \<Rightarrow> bytes) \<Rightarrow> 'b TxData \<Rightarrow> byte \<Rightarrow> wr" where
  "TxData_writeTo L rd tx serflags =
     wthen (wraw [serflags])
       (wthen (wlift (WriteVarint63 (tdVersion tx)))
         (wthen (wlift (WriteVarint63 (tdTimeRange tx)))
           (wthen (wlift (WriteVarint31 (length (tdInputs tx))))
             (wthen (write_all (TxInput_writeTo L rd) (tdInputs tx))
               (wthen (wlift (WriteVarint31 (length (tdOutputs tx))))
                 (write_all (TxOutput_writeTo rd) (tdOutputs tx)))))))"

section \<open>Reading\<close>

definition rret :: "'a \<Rightarrow> 'a reading" where
  "rret x r = (Inr x, r)"

definition rfail :: "io_err \<Rightarrow> 'a reading" where
  "rfail e r = (Inl e, r)"

definition rbind :: "'a reading \<Rightarrow> ('a \<Rightarrow> 'b reading) \<Rightarrow> 'b reading" where
  "rbind m f r = (case m r of (Inl e, r') \<Rightarrow> (Inl e, r') | (Inr x, r') \<Rightarrow> f x r')"

definition zeroAmount :: AssetAmount where
  "zeroAmount = \<lparr>aaAssetId = None, aaAmount = 0\<rparr>"

definition AssetAmount_ReadFrom :: "AssetAmount reading" where
  "AssetAmount_ReadFrom =
     rbind ReadHash (\<lambda>h. rbind ReadVarint63 (\<lambda>n. rret \<lparr>aaAssetId = Some h, aaAmount = n\<rparr>))"

text \<open>The structs are read into fresh values; fields that are not read keep their zero values.\<close>

definition zeroSpendCommitment :: "bytes SpendCommitment" where
  "zeroSpendCommitment =
     \<lparr>scAssetAmount = zeroAmount, scSourceID = zeroHash, scSourcePosition = 0, scVMVersion = 0,
      scControlProgram = [], scStateData = None\<rparr>"

definition SpendCommitment_readFrom :: "u64 \<Rightarrow> (bytes SpendCommitment \<times> bytes) reading" where
  "SpendCommitment_readFrom assetVersion =
     ReadExtensibleString
       (if assetVersion = 1 then
          rbind ReadHash (\<lambda>sid.
          rbind AssetAmount_ReadFrom (\<lambda>aa.
          rbind ReadVarint63 (\<lambda>pos.
          rbind ReadVarint63 (\<lambda>ver.
            if ver \<noteq> 1 then rfail (Malformed ''unrecognized VM version'')
            else rbind ReadVarstr31 (\<lambda>cp.
              rbind ReadVarstrList (\<lambda>sd.
                rret \<lparr>scAssetAmount = aa, scSourceID = sid, scSourcePosition = pos, scVMVersion = ver,
                      scControlProgram = cp, scStateData = sd\<rparr>))))))
        else rret zeroSpendCommitment)"

definition zeroOutputCommitment :: "bytes OutputCommitment" where
  "zeroOutputCommitment = \<lparr>ocAssetAmount = zeroAmount, ocVMVersion = 0, ocControlProgram = [], ocStateData = None\<rparr>"

definition OutputCommitment_readFrom :: "u64 \<Rightarrow> bytes OutputCommitment reading" where
  "OutputCommitment_readFrom assetVersion =
     (if assetVersion = 1 then
        rbind AssetAmount_ReadFrom (\<lambda>aa.
        rbind ReadVarint63 (\<lambda>ver.
          if ver \<noteq> 1 then rfail (Malformed ''unrecognized VM version'')
          else rbind ReadVarstr31 (\<lambda>cp.
            rbind ReadVarstrList (\<lambda>sd.
              rret \<lparr>ocAssetAmount = aa, ocVMVersion = ver, ocControlProgram = cp, ocStateData = sd\<rparr>))))
      else rret zeroOutputCommitment)"

text \<open>\<^verbatim>\<open>parseTypedInput\<close>: a zero value of the type the tag selects.\<close>

definition zeroIssuance :: "bytes IssuanceInput" where
  "zeroIssuance = \<lparr>iiNonce = [], iiAmount = 0, iiAssetDefinition = [], iiVMVersion = 0, iiIssuanceProgram = [],
     iiArguments = [], iiassetId = zeroHash\<rparr>"

definition parseTypedInput :: "bytes TypedInput reading" where
  "parseTypedInput =
     rbind (ReadFull 1) (\<lambda>b.
       if hd b = IssuanceInputType then rret (IssuanceIn zeroIssuance)
       else if hd b = SpendInputType then
         rret (SpendIn \<lparr>siSpendCommitmentSuffix = [], siArguments = [], siSpendCommitment = zeroSpendCommitment\<rparr>)
       else if hd b = CoinbaseInputType then rret (CoinbaseIn [])
       else if hd b = VetoInputType then
         rret (VetoIn \<lparr>tvVetoCommitmentSuffix = [], tvArguments = [], tvVote = [], tvSpendCommitment = zeroSpendCommitment\<rparr>)
       else rfail (Malformed ''unsupported input type''))"

primrec readCommitment :: "bytes TypedInput \<Rightarrow> bytes TypedInput reading" where
  "readCommitment (IssuanceIn ii) =
     rbind ReadVarstr31 (\<lambda>nonce.
     rbind ReadHash (\<lambda>aid.
     rbind ReadVarint63 (\<lambda>n. rret (IssuanceIn (ii\<lparr>iiNonce := nonce, iiassetId := aid, iiAmount := n\<rparr>)))))"
| "readCommitment (SpendIn si) =
     rbind (SpendCommitment_readFrom 1) (\<lambda>(sc, sfx).
       rret (SpendIn (si\<lparr>siSpendCommitmentSuffix := sfx, siSpendCommitment := sc\<rparr>)))"
| "readCommitment (VetoIn vi) =
     rbind (SpendCommitment_readFrom 1) (\<lambda>(sc, sfx).
     rbind ReadVarstr31 (\<lambda>v.
       rret (VetoIn (vi\<lparr>tvVetoCommitmentSuffix := sfx, tvSpendCommitment := sc, tvVote := v\<rparr>))))"
| "readCommitment (CoinbaseIn arbitrary) = rbind ReadVarstr31 (\<lambda>a. rret (CoinbaseIn a))"

primrec readWitness :: "lib \<Rightarrow> bytes TypedInput \<Rightarrow> bytes TypedInput reading" where
  "readWitness L (IssuanceIn ii) =
     rbind ReadVarstr31 (\<lambda>d.
     rbind ReadVarint63 (\<lambda>ver.
     rbind ReadVarstr31 (\<lambda>prog.
       let ii' = ii\<lparr>iiAssetDefinition := d, iiVMVersion := ver, iiIssuanceProgram := prog\<rparr> in
       if calcAssetID L id ii' \<noteq> iiassetId ii' then rfail (Malformed ''asset ID does not match other issuance parameters'')
       else rbind ReadVarstrList (\<lambda>args. rret (IssuanceIn (ii'\<lparr>iiArguments := the_list args\<rparr>))))))"
| "readWitness L (SpendIn si) = rbind ReadVarstrList (\<lambda>args. rret (SpendIn (si\<lparr>siArguments := the_list args\<rparr>)))"
| "readWitness L (VetoIn vi) = rbind ReadVarstrList (\<lambda>args. rret (VetoIn (vi\<lparr>tvArguments := the_list args\<rparr>)))"
| "readWitness L (CoinbaseIn arbitrary) = rret (CoinbaseIn arbitrary)"

definition TxInput_readFrom :: "lib \<Rightarrow> bytes TxInput reading" where
  "TxInput_readFrom L =
     rbind ReadVarint63 (\<lambda>av.
     rbind (ReadExtensibleString
              (if av \<noteq> 1 then rret None
               else rbind parseTypedInput (\<lambda>ti. rbind (readCommitment ti) (\<lambda>ti'. rret (Some ti'))))) (\<lambda>(ti, csfx).
     rbind (ReadExtensibleString
              (case ti of
                 Some x \<Rightarrow> if av = 1 then rbind (readWitness L x) (\<lambda>x'. rret (Some x')) else rret ti
               | None \<Rightarrow> rret None)) (\<lambda>(ti', wsfx).
       rret \<lparr>inAssetVersion = av, inTyped = ti', inCommitmentSuffix = csfx, inWitnessSuffix = wsfx\<rparr>)))"

definition parseTypedOutput :: "TypedOutput reading" where
  "parseTypedOutput =
     rbind (ReadFull 1) (\<lambda>b.
       if hd b = OriginalOutputType then rret OriginalTxOutput
       else if hd b = VoteOutputType then rret (VoteTxOutput [])
       else rfail (Malformed ''unsupported output type''))"

primrec TypedOutput_readFrom :: "TypedOutput \<Rightarrow> TypedOutput reading" where
  "TypedOutput_readFrom OriginalTxOutput = rret OriginalTxOutput"
| "TypedOutput_readFrom (VoteTxOutput vote) = rbind ReadVarstr31 (\<lambda>v. rret (VoteTxOutput v))"

definition TxOutput_readFrom :: "bytes TxOutput reading" where
  "TxOutput_readFrom =
     rbind ReadVarint63 (\<lambda>av.
     rbind parseTypedOutput (\<lambda>ty.
     rbind (ReadExtensibleString
              (rbind (TypedOutput_readFrom ty) (\<lambda>ty'.
               rbind (OutputCommitment_readFrom av) (\<lambda>oc. rret (ty', oc))))) (\<lambda>((ty', oc), sfx).
     rbind ReadVarstr31 (\<lambda>_.
       rret \<lparr>outAssetVersion = av, outCommitment = oc, outCommitmentSuffix = sfx, outTyped = ty'\<rparr>))))"

primrec read_all :: "'a reading \<Rightarrow> nat \<Rightarrow> 'a list reading" where
  "read_all f 0 = rret []"
| "read_all f (Suc n) = rbind f (\<lambda>x. rbind (read_all f n) (\<lambda>l. rret (x # l)))"

text \<open>\<^verbatim>\<open>TxData.readFrom\<close> appends to the inputs and outputs that its receiver already has.\<close>

definition read_tx_fields :: "lib \<Rightarrow> (u64 \<times> u64 \<times> bytes TxInput list \<times> bytes TxOutput list) reading" where
  "read_tx_fields L =
     rbind (ReadFull 1) (\<lambda>flags.
       if hd flags \<noteq> serRequired then rfail (Malformed ''unsupported serflags'')
       else
         rbind ReadVarint63 (\<lambda>ver.
         rbind ReadVarint63 (\<lambda>tr.
         rbind ReadVarint31 (\<lambda>n.
         rbind (read_all (TxInput_readFrom L) (unat n)) (\<lambda>ins.
         rbind ReadVarint31 (\<lambda>m.
         rbind (read_all TxOutput_readFrom (unat m)) (\<lambda>outs. rret (ver, tr, ins, outs))))))))"

definition TxData_readFrom :: "lib \<Rightarrow> bytes TxData \<Rightarrow> bytes TxData reading" where
  "TxData_readFrom L tx r0 =
     (case read_tx_fields L r0 of
        (Inl e, r) \<Rightarrow> (Inl e, r)
      | (Inr (ver, tr, ins, outs), r) \<Rightarrow>
          (Inr \<lparr>tdVersion = ver, tdSerializedSize = of_nat (length r0 - length r), tdTimeRange = tr,
                tdInputs = tdInputs tx @ ins, tdOutputs = tdOutputs tx @ outs\<rparr>, r))"

definition zeroTxData :: "bytes TxData" where
  "zeroTxData = \<lparr>tdVersion = 0, tdSerializedSize = 0, tdTimeRange = 0, tdInputs = [], tdOutputs = []\<rparr>"

text \<open>\<^verbatim>\<open>TxData.UnmarshalText\<close> after the hexadecimal decoding.\<close>

definition UnmarshalTx :: "lib \<Rightarrow> bytes \<Rightarrow> io_err + bytes TxData" where
  "UnmarshalTx L b =
     (case TxData_readFrom L zeroTxData b of
        (Inl e, _) \<Rightarrow> Inl e
      | (Inr tx, r) \<Rightarrow> if length r > 0 then Inl (Malformed ''trailing garbage'') else Inr tx)"

text \<open>\<^verbatim>\<open>TxData.Fee\<close>, with the wrap-around of the sums. A nil asset identifier of an output panics.\<close>

primrec input_value :: "lib \<Rightarrow> ('b \<Rightarrow> bytes) \<Rightarrow> 'b TypedInput \<Rightarrow> (AssetID \<times> u64) option" where
  "input_value L rd (IssuanceIn ii) = Some (issuance_AssetID L rd ii, iiAmount ii)"
| "input_value L rd (SpendIn si) =
     map_option (\<lambda>a. (a, aaAmount (scAssetAmount (siSpendCommitment si)))) (aaAssetId (scAssetAmount (siSpendCommitment si)))"
| "input_value L rd (VetoIn vi) =
     map_option (\<lambda>a. (a, aaAmount (scAssetAmount (tvSpendCommitment vi)))) (aaAssetId (scAssetAmount (tvSpendCommitment vi)))"
| "input_value L rd (CoinbaseIn arbitrary) = Some (zeroHash, 0)"

primrec btm_in :: "lib \<Rightarrow> ('b \<Rightarrow> bytes) \<Rightarrow> 'b TxInput list \<Rightarrow> u64 \<Rightarrow> u64 option" where
  "btm_in L rd [] acc = Some acc"
| "btm_in L rd (t # l) acc =
     (case inTyped t of
        None \<Rightarrow> None
      | Some x \<Rightarrow>
          (case input_value L rd x of
             None \<Rightarrow> None
           | Some (a, n) \<Rightarrow> btm_in L rd l (if a = BTMAssetID then acc + n else acc)))"

primrec btm_out :: "'b TxOutput list \<Rightarrow> u64 \<Rightarrow> u64 option" where
  "btm_out [] acc = Some acc"
| "btm_out (out # l) acc =
     (case aaAssetId (ocAssetAmount (outCommitment out)) of
        None \<Rightarrow> None
      | Some a \<Rightarrow> btm_out l (if a = BTMAssetID then acc + aaAmount (ocAssetAmount (outCommitment out)) else acc))"

definition Fee :: "lib \<Rightarrow> ('b \<Rightarrow> bytes) \<Rightarrow> 'b TxData \<Rightarrow> u64 option" where
  "Fee L rd tx =
     (case btm_in L rd (tdInputs tx) 0 of
        None \<Rightarrow> None
      | Some inputBTM \<Rightarrow>
          (case btm_out (tdOutputs tx) 0 of
             None \<Rightarrow> None
           | Some outputBTM \<Rightarrow> Some (if inputBTM > outputBTM then inputBTM - outputBTM else 0)))"

end
