(* ===== verification/BcProps.thy ===== *)
theory BcProps
  imports Bc VmEval
begin

text \<open>
  Entry identifiers commit to the entries: hashes and their byte strings determine each other,
  the serialisation for hashing can be read in one way only, and so an identifier determines the
  type of the entry and every field of its body, as long as the hash function does not collide on
  the strings that were hashed. Witness fields are not committed to.
\<close>

section \<open>Hashes as byte strings\<close>

lemma length_be_bytes [simp]: "length (be_bytes k x) = k"
  by (induction k arbitrary: x) simp_all

lemma nat_of_be_be_bytes: "nat_of_be (be_bytes k x) = x mod 256 ^ k"
proof (induction k arbitrary: x)
  case (Suc k)
  have "unat (of_nat (x mod 256) :: byte) = x mod 256"
    by (simp add: unat_of_nat)
  with Suc show ?case
    by (simp add: nat_of_be_snoc mod_mult2_eq)
qed simp

lemma be_bytes_nat_of_be: "be_bytes (length b) (nat_of_be b) = b"
proof (induction b rule: rev_induct)
  case (snoc x b)
  have "unat x < 256" using unsigned_less [of x] by simp
  with snoc show ?case
    by (simp add: nat_of_be_snoc)
qed simp

lemma u64_bound: "unat (x :: u64) < 18446744073709551616"
  by (rule order_less_le_trans [OF unsigned_less]) simp

lemma be_Uint64_be_bytes [simp]: "be_Uint64 (be_bytes 8 (unat x)) = x"
  using u64_bound [of x] by (simp add: be_Uint64_def nat_of_be_be_bytes)

lemma be_bytes_be_Uint64: "length b = 8 \<Longrightarrow> be_bytes 8 (unat (be_Uint64 b)) = b"
  using be_bytes_nat_of_be [of b] nat_of_be_bound [of b]
  by (simp add: be_Uint64_def unat_of_nat)

lemma length_Byte32 [simp]: "length (Byte32 h) = 32"
  by (simp add: Byte32_def)

lemma be_bytes_0: "be_bytes k 0 = replicate k 0"
  by (induction k) (simp_all add: replicate_append_same)

lemma Byte32_zero: "Byte32 zeroHash = replicate 32 0"
  by (simp add: Byte32_def zeroHash_def be_bytes_0 flip: replicate_add)

lemma NewHash_Byte32 [simp]: "NewHash (Byte32 h) = h"
  by (simp add: NewHash_def Byte32_def)

lemma Byte32_NewHash:
  assumes "length b = 32"
  shows "Byte32 (NewHash b) = b"
proof -
  have "b = take 8 b @ take 8 (drop 8 b) @ take 8 (drop 16 b) @ take 8 (drop 24 b)"
    using append_take_drop_id [of 8 b] append_take_drop_id [of 8 "drop 8 b"]
      append_take_drop_id [of 8 "drop 16 b"] assms by simp
  with assms show ?thesis
    by (simp add: Byte32_def NewHash_def be_bytes_be_Uint64)
qed

lemma Byte32_inj: "Byte32 h = Byte32 h' \<longleftrightarrow> h = h'"
  by (metis NewHash_Byte32)

lemma NewHash_inj: "length b = 32 \<Longrightarrow> length c = 32 \<Longrightarrow> NewHash b = NewHash c \<longleftrightarrow> b = c"
  by (metis Byte32_NewHash)

section \<open>Serialisations that can be read in one way\<close>

text \<open>
  The serialisation \<open>f\<close> determines \<open>g\<close> on the values that satisfy \<open>P\<close>, whatever follows it.
\<close>

definition binds :: "('x \<Rightarrow> bool) \<Rightarrow> ('x \<Rightarrow> hashed) \<Rightarrow> ('x \<Rightarrow> 'c) \<Rightarrow> bool" where
  "binds P f g \<longleftrightarrow>
     (\<forall>x y r s. P x \<longrightarrow> P y \<longrightarrow> snd (f x) \<longrightarrow> snd (f y) \<longrightarrow> fst (f x) @ r = fst (f y) @ s \<longrightarrow> g x = g y \<and> r = s)"

named_theorems binding \<open>serialisations that determine what they serialise\<close>

lemma bindsI:
  assumes "\<And>x y r s. P x \<Longrightarrow> P y \<Longrightarrow> snd (f x) \<Longrightarrow> snd (f y) \<Longrightarrow> fst (f x) @ r = fst (f y) @ s \<Longrightarrow> g x = g y \<and> r = s"
  shows "binds P f g"
  unfolding binds_def by (intro allI impI) (rule assms)

lemma bindsD:
  assumes "binds P f g" "P x" "P y" "snd (f x)" "snd (f y)" "fst (f x) @ r = fst (f y) @ s"
  shows "g x = g y \<and> r = s"
  using assms unfolding binds_def by blast

lemma binds_seq [binding]:
  assumes "binds P f1 g1" "binds P f2 g2"
  shows "binds P (\<lambda>x. wseq (f1 x) (f2 x)) (\<lambda>x. (g1 x, g2 x))"
proof (rule bindsI)
  fix x y r s
  assume *: "P x" "P y" "snd (wseq (f1 x) (f2 x))" "snd (wseq (f1 y) (f2 y))"
    "fst (wseq (f1 x) (f2 x)) @ r = fst (wseq (f1 y) (f2 y)) @ s"
  then have ok: "snd (f1 x)" "snd (f1 y)" "snd (f2 x)" "snd (f2 y)"
    by (auto simp: wseq_def split: if_splits)
  with * have eq: "fst (f1 x) @ (fst (f2 x) @ r) = fst (f1 y) @ (fst (f2 y) @ s)"
    by (simp add: wseq_def)
  from bindsD [OF assms(1) *(1,2) ok(1,2) eq] have "g1 x = g1 y" and eq2: "fst (f2 x) @ r = fst (f2 y) @ s"
    by simp_all
  with bindsD [OF assms(2) *(1,2) ok(3,4) eq2] show "(g1 x, g2 x) = (g1 y, g2 y) \<and> r = s"
    by simp
qed

lemma binds_comp:
  assumes "binds Q f g" "\<And>x. P x \<Longrightarrow> Q (h x)"
  shows "binds P (\<lambda>x. f (h x)) (\<lambda>x. g (h x))"
  using assms unfolding binds_def by blast

lemma binds_fixed:
  assumes "\<And>x. P x \<Longrightarrow> f x = (e x, True)" "\<And>x. P x \<Longrightarrow> length (e x) = n" "\<And>x. P x \<Longrightarrow> d (e x) = g x"
  shows "binds P f g"
proof (rule bindsI)
  fix x y r s
  assume *: "P x" "P y" "snd (f x)" "snd (f y)" "fst (f x) @ r = fst (f y) @ s"
  then have "e x = e y \<and> r = s"
    using assms(1,2) [OF *(1)] assms(1,2) [OF *(2)] by simp
  then show "g x = g y \<and> r = s"
    using assms(3) [OF *(1)] assms(3) [OF *(2)] by simp
qed

lemma binds_u64: "binds (\<lambda>_. True) w_u64 (\<lambda>x. x)"
  by (rule binds_fixed [where e = "\<lambda>v. rev (be_bytes 8 (unat v))" and d = "\<lambda>b. be_Uint64 (rev b)" and n = 8])
     (simp_all add: w_u64_def del: be_bytes.simps)

lemma binds_hash: "binds (\<lambda>h. h \<noteq> None) w_hash the"
  by (rule binds_fixed [where d = NewHash and e = "\<lambda>h. Byte32 (the h)" and n = 32]) (auto simp: w_hash_def)

lemma binds_codec:
  assumes "\<And>x. P x \<Longrightarrow> snd (f x) \<Longrightarrow> enc x = Some (fst (f x))" "codec enc dec"
  shows "binds P f (\<lambda>x. x)"
proof (rule bindsI)
  fix x y r s
  assume *: "P x" "P y" "snd (f x)" "snd (f y)" "fst (f x) @ r = fst (f y) @ s"
  show "x = y \<and> r = s"
    using codec.prefix_free [OF assms(2) assms(1) [OF *(1,3)] assms(1) [OF *(2,4)] *(5)] by simp
qed

lemma binds_bytes: "binds (\<lambda>_. True) w_bytes (\<lambda>x. x)"
  by (rule binds_codec [OF _ varstr31.codec_axioms])
     (auto simp: w_bytes_def woutput_def output_of_def split: option.splits)

text \<open>Lists: the length, then the elements one after the other.\<close>

primrec w_elems :: "('a \<Rightarrow> hashed) \<Rightarrow> 'a list \<Rightarrow> hashed" where
  "w_elems f [] = ([], True)"
| "w_elems f (x # l) = wseq (f x) (w_elems f l)"

lemma wseq_assoc: "wseq (wseq a b) c = wseq a (wseq b c)"
  by (simp add: wseq_def)

lemma wseq_Nil [simp]: "wseq a ([], True) = a" "wseq ([], True) a = a"
  by (auto simp: wseq_def prod_eq_iff)

lemma foldl_wseq: "foldl (\<lambda>acc x. wseq acc (f x)) a l = wseq a (w_elems f l)"
  by (induction l arbitrary: a) (simp_all add: wseq_assoc)

lemma binds_elems:
  assumes "binds P f g"
  shows "binds (\<lambda>l. length l = n \<and> list_all P l) (w_elems f) (map g)"
proof (induction n)
  case 0
  then show ?case by (intro bindsI) simp
next
  case (Suc n)
  show ?case
  proof (rule bindsI)
    fix k l r s
    assume *: "length k = Suc n \<and> list_all P k" "length l = Suc n \<and> list_all P l"
      and ok: "snd (w_elems f k)" "snd (w_elems f l)" and eq: "fst (w_elems f k) @ r = fst (w_elems f l) @ s"
    then obtain x k' y l' where kl: "k = x # k'" "l = y # l'"
      by (auto simp: length_Suc_conv)
    have oks: "snd (f x)" "snd (w_elems f k')" "snd (f y)" "snd (w_elems f l')"
      using ok by (auto simp: kl wseq_def split: if_splits)
    have "fst (f x) @ (fst (w_elems f k') @ r) = fst (f y) @ (fst (w_elems f l') @ s)"
      using eq oks by (simp add: kl wseq_def)
    with bindsD [OF assms, of x y] * oks
    have gx: "g x = g y" and eq': "fst (w_elems f k') @ r = fst (w_elems f l') @ s"
      by (simp_all add: kl)
    with bindsD [OF Suc.IH, of k' l' r s] * oks show "map g k = map g l \<and> r = s"
      by (simp add: kl)
  qed
qed

lemma w_list_eq:
  "w_list f l = wseq (if length l \<le> 2147483647 then (uvarint (of_nat (length l)), True) else ([], False)) (w_elems f l)"
  by (simp add: w_list_def foldl_wseq WriteVarint31_eq woutput_def not_less)

lemma binds_list:
  assumes "binds P f g"
  shows "binds (list_all P) (w_list f) (map g)"
proof (rule bindsI)
  fix k l r s
  assume *: "list_all P k" "list_all P l"
    and ok: "snd (w_list f k)" "snd (w_list f l)" and eq: "fst (w_list f k) @ r = fst (w_list f l) @ s"
  have short: "length k \<le> 2147483647" "length l \<le> 2147483647"
    using ok * by (auto simp: w_list_eq wseq_def split: if_splits)
  with ok * have oks: "snd (w_elems f k)" "snd (w_elems f l)"
    by (auto simp: w_list_eq wseq_def)
  have eq2: "uvarint (of_nat (length k)) @ (fst (w_elems f k) @ r) = uvarint (of_nat (length l)) @ (fst (w_elems f l) @ s)"
    using eq * short by (simp add: w_list_eq wseq_def)
  from arg_cong [OF eq2, of ReadUvarint]
  have "(of_nat (length k) :: u64) = of_nat (length l)" and eq3: "fst (w_elems f k) @ r = fst (w_elems f l) @ s"
    unfolding ReadUvarint_uvarint by simp_all
  then have "unat (of_nat (length k) :: u64) = unat (of_nat (length l) :: u64)" by simp
  with short have "length k = length l" by (simp add: unat_of_nat)
  with bindsD [OF binds_elems [OF assms, of "length l"], of k l r s] * oks eq3
  show "map g k = map g l \<and> r = s" by simp
qed

lemma w_byteslist_eq:
  assumes "snd (w_byteslist l)"
  shows "w_byteslist l = w_list w_bytes l"
proof -
  have short: "length l \<le> 2147483647" "\<forall>b \<in> set l. length b \<le> 2147483647"
    using WriteVarstrList_error [of l] assms
    by (fastforce simp: w_byteslist_def woutput_def list_all_iff not_less)+
  have "w_elems w_bytes l = (concat (map varstr l), True)"
    using short(2) by (induction l) (simp_all add: wseq_def w_bytes_def woutput_def WriteVarstr31_eq varstr_def)
  with short show ?thesis
    by (simp add: w_byteslist_def woutput_def WriteVarstrList_eq w_list_eq wseq_def)
qed

lemma binds_byteslist: "binds (\<lambda>_. True) w_byteslist (\<lambda>x. x)"
proof (rule bindsI)
  fix k l r s
  assume ok: "snd (w_byteslist k)" "snd (w_byteslist l)" and eq: "fst (w_byteslist k) @ r = fst (w_byteslist l) @ s"
  have kl: "w_byteslist k = w_list w_bytes k" "w_byteslist l = w_list w_bytes l"
    using ok by (blast intro: w_byteslist_eq)+
  show "k = l \<and> r = s"
    using bindsD [OF binds_list [OF binds_bytes], of k l] ok eq unfolding kl by (simp add: list_all_iff)
qed

lemma binds_ptr:
  assumes "binds Q f g"
  shows "binds (\<lambda>p. p \<noteq> None \<and> Q (the p)) (w_ptr f) (\<lambda>p. g (the p))"
proof (rule bindsI)
  fix p q r s
  assume *: "p \<noteq> None \<and> Q (the p)" "q \<noteq> None \<and> Q (the q)" "snd (w_ptr f p)" "snd (w_ptr f q)"
    "fst (w_ptr f p) @ r = fst (w_ptr f q) @ s"
  then obtain x y where "p = Some x" "q = Some y" by auto
  with * bindsD [OF assms, of x y r s] show "g (the p) = g (the q) \<and> r = s"
    by (simp add: w_ptr_def)
qed

section \<open>What an identifier commits to\<close>

type_synonym csource = "(Hash \<times> (AssetID \<times> u64)) \<times> u64"
type_synonym cprogram = "u64 \<times> bytes"

datatype body =
    CTxHeader "(u64 \<times> u64) \<times> Hash list"
  | CBlockHeader "(((u64 \<times> u64) \<times> Hash) \<times> u64) \<times> Hash"
  | CMux "csource list \<times> cprogram"
  | CCoinbase bytes
  | COriginalOutput "(csource \<times> cprogram) \<times> bytes list"
  | CVoteOutput "((csource \<times> cprogram) \<times> bytes) \<times> bytes list"
  | CVetoInput Hash
  | CRetirement csource
  | CIssuance "Hash \<times> (AssetID \<times> u64)"
  | CSpend Hash

definition c_amount :: "AssetAmount \<Rightarrow> AssetID \<times> u64" where
  "c_amount a = (the (aaAssetId a), aaAmount a)"

definition c_source :: "ValueSource \<Rightarrow> csource" where
  "c_source s = ((the (srcRef s), c_amount (the (srcValue s))), srcPosition s)"

definition c_program :: "store \<times> Program \<Rightarrow> cprogram" where
  "c_program x = (VmVersion (snd x), slice_bytes (fst x) (progCode (snd x)))"

definition state_bytes :: "store \<times> slice list option \<Rightarrow> bytes list" where
  "state_bytes x = map (slice_bytes (fst x)) (case snd x of None \<Rightarrow> [] | Some l \<Rightarrow> l)"

primrec committed :: "store \<Rightarrow> Entry \<Rightarrow> body" where
  "committed st (ETxHeader h) = CTxHeader ((hdrVersion h, hdrTimeRange h), map the (hdrResultIds h))"
| "committed st (EBlockHeader b) =
     CBlockHeader ((((bhVersion b, bhHeight b), the (bhPreviousBlockId b)), bhTimestamp b), the (bhTransactionsRoot b))"
| "committed st (EMux m) = CMux (map (\<lambda>s. c_source (the s)) (muxSources m), c_program (st, the (muxProgram m)))"
| "committed st (ECoinbase c) = CCoinbase (cbArbitrary c)"
| "committed st (EOriginalOutput oo) =
     COriginalOutput ((c_source (the (ooSource oo)), c_program (st, the (ooControlProgram oo))), state_bytes (st, ooStateData oo))"
| "committed st (EVoteOutput v) =
     CVoteOutput (((c_source (the (voSource v)), c_program (st, the (voControlProgram v))), voVote v), state_bytes (st, voStateData v))"
| "committed st (EVetoInput v) = CVetoInput (the (viSpentOutputId v))"
| "committed st (ERetirement r) = CRetirement (c_source (the (reSource r)))"
| "committed st (EIssuance i) = CIssuance (the (isNonceHash i), c_amount (the (isValue i)))"
| "committed st (ESpend s) = CSpend (the (spSpentOutputId s))"

text \<open>
  An entry whose body has no nil pointers, as those that \<^verbatim>\<open>MapTx\<close> builds.
\<close>

definition full_amount :: "AssetAmount option \<Rightarrow> bool" where
  "full_amount a \<longleftrightarrow> a \<noteq> None \<and> aaAssetId (the a) \<noteq> None"

definition full_source :: "ValueSource option \<Rightarrow> bool" where
  "full_source s \<longleftrightarrow> s \<noteq> None \<and> srcRef (the s) \<noteq> None \<and> full_amount (srcValue (the s))"

definition full_program :: "store \<times> Program option \<Rightarrow> bool" where
  "full_program x \<longleftrightarrow> snd x \<noteq> None"

primrec full :: "store \<Rightarrow> Entry \<Rightarrow> bool" where
  "full st (ETxHeader h) = list_all (\<lambda>x. x \<noteq> None) (hdrResultIds h)"
| "full st (EBlockHeader b) = (bhPreviousBlockId b \<noteq> None \<and> bhTransactionsRoot b \<noteq> None)"
| "full st (EMux m) = (list_all full_source (muxSources m) \<and> full_program (st, muxProgram m))"
| "full st (ECoinbase c) = True"
| "full st (EOriginalOutput oo) =
     (full_source (ooSource oo) \<and> full_program (st, ooControlProgram oo))"
| "full st (EVoteOutput v) =
     (full_source (voSource v) \<and> full_program (st, voControlProgram v))"
| "full st (EVetoInput v) = (viSpentOutputId v \<noteq> None)"
| "full st (ERetirement r) = full_source (reSource r)"
| "full st (EIssuance i) = (isNonceHash i \<noteq> None \<and> full_amount (isValue i))"
| "full st (ESpend s) = (spSpentOutputId s \<noteq> None)"

lemma binds_weaken: "binds Q f g \<Longrightarrow> (\<And>x. P x \<Longrightarrow> Q x) \<Longrightarrow> binds P f g"
  unfolding binds_def by blast

lemma binds_cong:
  assumes "binds P f g" "\<And>x. P x \<Longrightarrow> f x = f' x" "\<And>x. P x \<Longrightarrow> g x = g' x"
  shows "binds P f' g'"
proof (rule bindsI)
  fix x y r s
  assume *: "P x" "P y" and "snd (f' x)" "snd (f' y)" "fst (f' x) @ r = fst (f' y) @ s"
  then have "g x = g y \<and> r = s"
    unfolding assms(2) [OF *(1), symmetric] assms(2) [OF *(2), symmetric] by (rule bindsD [OF assms(1)])
  then show "g' x = g' y \<and> r = s"
    by (simp add: assms(3) *)
qed

lemma binds_amount: "binds (\<lambda>a. aaAssetId a \<noteq> None) w_amount c_amount"
  unfolding w_amount_def c_amount_def
  by (intro binds_seq binds_comp [OF binds_hash] binds_comp [OF binds_u64]) simp_all

lemma binds_source: "binds full_source (w_ptr w_source) (\<lambda>s. c_source (the s))"
proof -
  have "binds (\<lambda>s. srcRef s \<noteq> None \<and> full_amount (srcValue s)) w_source c_source"
    unfolding w_source_def c_source_def full_amount_def
    by (intro binds_seq binds_comp [OF binds_hash] binds_comp [OF binds_u64] binds_comp [OF binds_ptr [OF binds_amount]])
       simp_all
  from binds_ptr [OF this] show ?thesis
    by (rule binds_weaken) (simp add: full_source_def)
qed

lemma binds_program: "binds full_program (\<lambda>x. w_ptr (w_program (fst x)) (snd x)) (\<lambda>x. c_program (fst x, the (snd x)))"
proof -
  have "binds full_program
          (\<lambda>x. wseq (w_u64 (VmVersion (the (snd x)))) (w_bytes (slice_bytes (fst x) (progCode (the (snd x))))))
          (\<lambda>x. (VmVersion (the (snd x)), slice_bytes (fst x) (progCode (the (snd x)))))"
    by (intro binds_seq binds_comp [OF binds_u64] binds_comp [OF binds_bytes])
       simp_all
  then show ?thesis
    by (rule binds_cong) (auto simp: full_program_def w_ptr_def w_program_def c_program_def)
qed

lemma binds_state: "binds (\<lambda>_. True) (\<lambda>x. w_state (fst x) (snd x)) state_bytes"
  by (rule binds_cong [OF binds_comp [OF binds_byteslist, of "\<lambda>_. True" state_bytes]])
     (simp_all add: w_state_def state_bytes_def)

text \<open>The parts of an entry together with the store they are read from.\<close>

lemmas binds_parts =
  binds_comp [OF binds_u64] binds_comp [OF binds_hash] binds_comp [OF binds_bytes]
  binds_comp [OF binds_source] binds_comp [OF binds_list [OF binds_hash]] binds_comp [OF binds_list [OF binds_source]]
  binds_comp [OF binds_ptr [OF binds_amount]]
  binds_comp [OF binds_program, where h = "\<lambda>x. (fst x, p (snd x))" for p, simplified fst_conv snd_conv]
  binds_comp [OF binds_state, where h = "\<lambda>x. (fst x, p (snd x))" for p, simplified fst_conv snd_conv]

lemma binds_originalOutput:
  "binds (\<lambda>x. full (fst x) (EOriginalOutput (snd x))) (\<lambda>x. writeForHash (fst x) (EOriginalOutput (snd x)))
     (\<lambda>x. ((c_source (the (ooSource (snd x))), c_program (fst x, the (ooControlProgram (snd x)))), state_bytes (fst x, ooStateData (snd x))))"
  unfolding writeForHash.simps by (intro binds_seq binds_parts) simp_all

lemma binds_voteOutput:
  "binds (\<lambda>x. full (fst x) (EVoteOutput (snd x))) (\<lambda>x. writeForHash (fst x) (EVoteOutput (snd x)))
     (\<lambda>x. (((c_source (the (voSource (snd x))), c_program (fst x, the (voControlProgram (snd x)))), voVote (snd x)),
          state_bytes (fst x, voStateData (snd x))))"
  unfolding writeForHash.simps by (intro binds_seq binds_parts) simp_all

lemma binds_mux:
  "binds (\<lambda>x. full (fst x) (EMux (snd x))) (\<lambda>x. writeForHash (fst x) (EMux (snd x)))
     (\<lambda>x. (map (\<lambda>s. c_source (the s)) (muxSources (snd x)), c_program (fst x, the (muxProgram (snd x)))))"
  unfolding writeForHash.simps by (intro binds_seq binds_parts) simp_all

lemma binds_txHeader:
  "binds (\<lambda>h. full st (ETxHeader h)) (\<lambda>h. writeForHash st (ETxHeader h))
     (\<lambda>h. ((hdrVersion h, hdrTimeRange h), map the (hdrResultIds h)))"
  unfolding writeForHash.simps by (intro binds_seq binds_parts) simp_all

lemma binds_blockHeader:
  "binds (\<lambda>b. full st (EBlockHeader b)) (\<lambda>b. writeForHash st (EBlockHeader b))
     (\<lambda>b. ((((bhVersion b, bhHeight b), the (bhPreviousBlockId b)), bhTimestamp b), the (bhTransactionsRoot b)))"
  unfolding writeForHash.simps by (intro binds_seq binds_parts) simp_all

lemma binds_issuance:
  "binds (\<lambda>i. full st (EIssuance i)) (\<lambda>i. writeForHash st (EIssuance i)) (\<lambda>i. (the (isNonceHash i), c_amount (the (isValue i))))"
  unfolding writeForHash.simps by (intro binds_seq binds_parts) (simp_all add: full_amount_def)

lemma bindsD0: "binds P f g \<Longrightarrow> f x = (b, True) \<Longrightarrow> f y = (b, True) \<Longrightarrow> P x \<Longrightarrow> P y \<Longrightarrow> g x = g y"
  using bindsD [of P f g x y "[]" "[]"] by simp

text \<open>The same type tag: the same constructor.\<close>

lemma same_typ:
  assumes "entry_typ e = entry_typ e'"
  obtains (txHeader) h h' where "e = ETxHeader h" "e' = ETxHeader h'"
  | (blockHeader) h h' where "e = EBlockHeader h" "e' = EBlockHeader h'"
  | (mux) m m' where "e = EMux m" "e' = EMux m'"
  | (coinbase) c c' where "e = ECoinbase c" "e' = ECoinbase c'"
  | (originalOutput) x x' where "e = EOriginalOutput x" "e' = EOriginalOutput x'"
  | (voteOutput) x x' where "e = EVoteOutput x" "e' = EVoteOutput x'"
  | (vetoInput) x x' where "e = EVetoInput x" "e' = EVetoInput x'"
  | (retirement) x x' where "e = ERetirement x" "e' = ERetirement x'"
  | (issuance) x x' where "e = EIssuance x" "e' = EIssuance x'"
  | (spend) x x' where "e = ESpend x" "e' = ESpend x'"
  using assms by (cases e; cases e') simp_all

lemma writeForHash_committed:
  assumes ty: "entry_typ e = entry_typ e'" and ok: "full st e" "full st' e'"
    and w: "writeForHash st e = (b, True)" "writeForHash st' e' = (b, True)"
  shows "committed st e = committed st' e'"
  using ty
proof (cases rule: same_typ)
  case (txHeader h h')
  with ok w bindsD0 [OF binds_txHeader, of st h b h'] show ?thesis by simp
next
  case (blockHeader h h')
  with ok w bindsD0 [OF binds_blockHeader, of st h b h'] show ?thesis by simp
next
  case (mux m m')
  with ok w bindsD0 [OF binds_mux, of "(st, m)" b "(st', m')"] show ?thesis by simp
next
  case (coinbase c c')
  with ok w bindsD0 [OF binds_bytes, of "cbArbitrary c" b "cbArbitrary c'"] show ?thesis by simp
next
  case (originalOutput x x')
  with ok w bindsD0 [OF binds_originalOutput, of "(st, x)" b "(st', x')"] show ?thesis by simp
next
  case (voteOutput x x')
  with ok w bindsD0 [OF binds_voteOutput, of "(st, x)" b "(st', x')"] show ?thesis by simp
next
  case (vetoInput x x')
  with ok w bindsD0 [OF binds_hash, of "viSpentOutputId x" b "viSpentOutputId x'"] show ?thesis by simp
next
  case (retirement x x')
  with ok w bindsD0 [OF binds_source, of "reSource x" b "reSource x'"] show ?thesis by simp
next
  case (issuance x x')
  with ok w bindsD0 [OF binds_issuance, of st x b x'] show ?thesis by simp
next
  case (spend x x')
  with ok w bindsD0 [OF binds_hash, of "spSpentOutputId x" b "spSpentOutputId x'"] show ?thesis by simp
qed

section \<open>Identifiers\<close>

text \<open>The strings that are hashed to identify an entry.\<close>

definition id_preimage :: "lib \<Rightarrow> store \<Rightarrow> Entry \<Rightarrow> bytes" where
  "id_preimage L st e =
     str_bytes ''entryid:'' @ str_bytes (entry_typ e) @ str_bytes '':'' @ sha3_256 L (fst (writeForHash st e))"

definition hash_inputs :: "lib \<Rightarrow> store \<Rightarrow> Entry \<Rightarrow> bytes set" where
  "hash_inputs L st e = {fst (writeForHash st e), id_preimage L st e}"

lemma unat_of_char: "unat (of_char c :: byte) = of_char c"
proof -
  have "(of_char c :: byte) = of_nat (of_char c)" by (simp only: of_nat_of_char)
  then show ?thesis by (simp add: unat_of_nat)
qed

lemma str_bytes_inj: "str_bytes s = str_bytes t \<longleftrightarrow> s = t"
proof -
  have "inj (of_char :: char \<Rightarrow> byte)"
    by (rule injI) (metis unat_of_char of_char_eq_iff)
  then show ?thesis by (simp add: str_bytes_def inj_map_eq_map)
qed

lemma id_preimage_typ:
  assumes "hash_ok L" "id_preimage L st e = id_preimage L st' e'"
  shows "entry_typ e = entry_typ e' \<and> sha3_256 L (fst (writeForHash st e)) = sha3_256 L (fst (writeForHash st' e'))"
proof -
  have len: "length (sha3_256 L x) = 32" for x
    using assms(1) by (simp add: hash_ok_def)
  have eq: "(str_bytes (entry_typ e) @ str_bytes '':'') @ sha3_256 L (fst (writeForHash st e)) =
        (str_bytes (entry_typ e') @ str_bytes '':'') @ sha3_256 L (fst (writeForHash st' e'))"
    using assms(2) by (simp add: id_preimage_def)
  have "length (str_bytes (entry_typ e) @ str_bytes '':'') = length (str_bytes (entry_typ e') @ str_bytes '':'')"
    using arg_cong [OF eq, of length] by (simp add: len)
  with eq have "str_bytes (entry_typ e) @ str_bytes '':'' = str_bytes (entry_typ e') @ str_bytes '':''"
    and "sha3_256 L (fst (writeForHash st e)) = sha3_256 L (fst (writeForHash st' e'))"
    using append_eq_append_conv by blast+
  then show ?thesis by (simp add: str_bytes_inj)
qed

lemma EntryID_determines:
  assumes "hash_ok L" "full st e" "full st' e'"
    and "inj_on (sha3_256 L) (hash_inputs L st e \<union> hash_inputs L st' e')"
    and "EntryID_of L st (Some e) = Some i" "EntryID_of L st' (Some e') = Some i"
  shows "committed st e = committed st' e'"
proof -
  obtain b b' where w: "writeForHash st e = (b, True)" "writeForHash st' e' = (b', True)"
    and i: "NewHash (sha3_256 L (id_preimage L st e)) = NewHash (sha3_256 L (id_preimage L st' e'))"
    using assms(5,6) by (auto simp: EntryID_of_def id_preimage_def split: prod.splits bool.splits)
  have "sha3_256 L (id_preimage L st e) = sha3_256 L (id_preimage L st' e')"
    using i assms(1) by (simp add: NewHash_inj hash_ok_def)
  then have pre: "id_preimage L st e = id_preimage L st' e'"
    by (rule inj_onD [OF assms(4)]) (simp_all add: hash_inputs_def)
  from id_preimage_typ [OF assms(1) pre] have ty: "entry_typ e = entry_typ e'" and h: "sha3_256 L b = sha3_256 L b'"
    by (simp_all add: w)
  have "b = b'"
  proof (rule inj_onD [OF assms(4) h])
    show "b \<in> hash_inputs L st e \<union> hash_inputs L st' e'" by (simp add: hash_inputs_def w(1))
    show "b' \<in> hash_inputs L st e \<union> hash_inputs L st' e'" by (simp add: hash_inputs_def w(2))
  qed
  with writeForHash_committed [OF ty assms(2,3)] w show ?thesis by simp
qed

text \<open>
  C3. An entry identifier is binding: two entries with the same identifier have the same type
  and the same body (source, program, state data, amounts, results, previous output), provided
  the hash function does not collide on the four strings that were hashed for them. The bodies
  are those of the source, without the witness fields.
\<close>

theorem EntryID_binding:
  assumes "hash_ok L" "full st e" "full st' e'"
    and "inj_on (sha3_256 L) (hash_inputs L st e \<union> hash_inputs L st' e')"
    and "EntryID_of L st (Some e) = Some i" "EntryID_of L st' (Some e') = Some i"
  shows "committed st e = committed st' e'"
  using assms by (rule EntryID_determines)

definition sample_spend :: "slice list \<Rightarrow> Entry" where
  "sample_spend args =
     ESpend \<lparr>spSpentOutputId = Some zeroHash, spWitnessDestination = None, spWitnessArguments = args, spOrdinal = 0\<rparr>"

lemma EntryID_binding_witness:
  "EntryID_of sample_lib [] (Some (sample_spend [])) = EntryID_of sample_lib [] (Some (sample_spend [nil_slice])) \<and>
   committed [] (sample_spend []) = committed [] (sample_spend [nil_slice])"
proof -
  have w: "writeForHash [] (sample_spend a) = (replicate 32 0, True)" for a
    by (simp add: sample_spend_def w_hash_def Byte32_zero)
  have i: "EntryID_of sample_lib [] (Some (sample_spend a)) =
           Some (NewHash (sha3_256 sample_lib (id_preimage sample_lib [] (sample_spend []))))" for a
    by (simp add: EntryID_of_def w id_preimage_def) (simp add: sample_spend_def)
  have inp: "hash_inputs sample_lib [] (sample_spend a) = {replicate 32 0, id_preimage sample_lib [] (sample_spend [])}" for a
    by (simp add: hash_inputs_def w id_preimage_def) (simp add: sample_spend_def)
  have "hd (sha3_256 sample_lib (id_preimage sample_lib [] (sample_spend []))) = of_char CHR ''e''"
    "hd (sha3_256 sample_lib (replicate 32 0)) = 0"
    by (simp_all add: sample_lib_def id_preimage_def str_bytes_def)
  then have "sha3_256 sample_lib (id_preimage sample_lib [] (sample_spend [])) \<noteq> sha3_256 sample_lib (replicate 32 0)"
    by auto
  then have "inj_on (sha3_256 sample_lib) (hash_inputs sample_lib [] (sample_spend []) \<union> hash_inputs sample_lib [] (sample_spend [nil_slice]))"
    unfolding inp by (auto simp: inj_on_def)
  with EntryID_binding [OF sample_lib_ok(2) _ _ _ i i] show ?thesis
    unfolding i by (simp add: sample_spend_def)
qed

end
