(* ===== verification/TxProps.thy ===== *)
theory TxProps
  imports TxTypes BcProps
begin

text \<open>
  The binary format of transactions: what is written is read back, up to the changes that
  \<open>normal_tx\<close> describes.
\<close>

section \<open>Reading back\<close>

text \<open>If the write succeeded, the reader returns \<open>y\<close> and leaves what follows.\<close>

definition reads_back :: "wr \<Rightarrow> 'a reading \<Rightarrow> 'a \<Rightarrow> bool" where
  "reads_back w rdr y \<longleftrightarrow> (snd w = WOk \<longrightarrow> (\<forall>r. rdr (fst w @ r) = (Inr y, r)))"

named_theorems reread \<open>writers and readers that match\<close>

lemma back_then:
  assumes "reads_back w1 r1 y1" "reads_back w2 (k y1) y2"
  shows "reads_back (wthen w1 w2) (rbind r1 k) y2"
  using assms by (auto simp: reads_back_def wthen_def rbind_def)

text \<open>The last write of a sequence, followed by a pure continuation.\<close>

lemma back_last:
  assumes "reads_back w rdr y" "\<And>r. k y r = (Inr z, r)"
  shows "reads_back w (rbind rdr k) z"
  using assms by (auto simp: reads_back_def rbind_def)

lemma back_ret [reread]: "reads_back (wraw []) (rret y) y"
  by (simp add: reads_back_def wraw_def rret_def)

lemma wthen_ok: "snd (wthen a b) = WOk \<longleftrightarrow> snd a = WOk \<and> snd b = WOk"
  by (auto simp: wthen_def)

lemma output_of_wlift: "snd (wlift w) = WOk \<Longrightarrow> output_of w = Some (fst (wlift w))"
  by (auto simp: wlift_def output_of_def split: option.splits)

lemma back_codec:
  assumes "codec enc dec" "enc x = output_of w"
  shows "reads_back (wlift w) dec x"
  using codec.dec_enc [OF assms(1), of x] assms(2) by (simp add: reads_back_def output_of_wlift)

lemma back_varint63 [reread]: "reads_back (wlift (WriteVarint63 v)) ReadVarint63 v"
  by (rule back_codec [OF varint63.codec_axioms]) simp

lemma back_varint31 [reread]: "reads_back (wlift (WriteVarint31 n)) ReadVarint31 (of_nat n)"
  by (auto simp: reads_back_def WriteVarint31_eq wlift_def ReadVarint31_uvarint split: if_splits)

lemma back_varstr [reread]: "reads_back (wlift (WriteVarstr31 s)) ReadVarstr31 s"
  by (rule back_codec [OF varstr31.codec_axioms]) simp

definition nil_empty :: "'a list \<Rightarrow> 'a list option" where
  "nil_empty l = (if l = [] then None else Some l)"

lemma back_list [reread]:
  "reads_back (wlift (WriteVarstrList l)) ReadVarstrList (nil_empty l)"
proof (cases "length l \<le> 2147483647 \<and> (\<forall>s \<in> set l. length s \<le> 2147483647)")
  case True
  then show ?thesis
    using ReadVarstrList_varstr [of l] by (simp add: reads_back_def wlift_def WriteVarstrList_eq nil_empty_def)
next
  case False
  then obtain n b where "WriteVarstrList l = Some (n, Some ValueRange, b)"
    using WriteVarstrList_error [of l] by (auto simp: not_le)
  then show ?thesis by (simp add: reads_back_def wlift_def)
qed

lemma back_hash [reread]: "reads_back (wraw (Byte32 h)) ReadHash h"
  by (simp add: reads_back_def wraw_def ReadHash_def ReadFull_def)

lemma back_tag: "reads_back (wraw [b]) (ReadFull 1) [b]"
  by (simp add: reads_back_def wraw_def ReadFull_def)

text \<open>
  An extensible string: the reader sees the contents followed by the suffix. The contents may
  themselves end in bytes that the reader does not consume.
\<close>

lemma back_ext:
  assumes "reads_back w rdr y"
  shows "reads_back (wext sfx (wthen w (wraw extra))) (ReadExtensibleString rdr) (y, extra @ sfx)"
proof -
  have "reads_back (wlift (WriteVarstr31 ((fst w @ extra) @ sfx))) ReadVarstr31 ((fst w @ extra) @ sfx)"
    by (rule back_varstr)
  with assms show ?thesis
    by (cases "snd w")
       (auto simp: reads_back_def wext_def wthen_def wraw_def WriteExtensibleString_def ReadExtensibleString_def wlift_def)
qed

lemma wthen_nil: "wthen w (wraw []) = w"
  by (auto simp: wthen_def wraw_def prod_eq_iff)

lemma nil_wthen [simp]: "wthen (wraw []) w = w"
  by (simp add: wthen_def wraw_def)

lemma back_ext0:
  assumes "reads_back w rdr y"
  shows "reads_back (wext sfx w) (ReadExtensibleString rdr) (y, sfx)"
  using back_ext [of w rdr y sfx "[]"] assms by (simp add: wthen_nil)


section \<open>Transactions\<close>

text \<open>
  What is read back: the suffix of a spend commitment has been written twice, an empty list of
  state data is nil, an issuance has its asset identifier filled in, and the typed input or the
  commitment of an unknown asset version is not written at all.
\<close>

definition normal_sc :: "bytes SpendCommitment \<Rightarrow> bytes SpendCommitment" where
  "normal_sc sc = sc\<lparr>scStateData := nil_empty (the_list (scStateData sc))\<rparr>"

primrec normal_typed :: "lib \<Rightarrow> bytes TypedInput \<Rightarrow> bytes TypedInput" where
  "normal_typed L (IssuanceIn ii) = IssuanceIn (ii\<lparr>iiassetId := issuance_AssetID L id ii\<rparr>)"
| "normal_typed L (SpendIn si) =
     SpendIn (si\<lparr>siSpendCommitmentSuffix := siSpendCommitmentSuffix si @ siSpendCommitmentSuffix si,
                siSpendCommitment := normal_sc (siSpendCommitment si)\<rparr>)"
| "normal_typed L (VetoIn vi) =
     VetoIn (vi\<lparr>tvVetoCommitmentSuffix := tvVetoCommitmentSuffix vi @ tvVetoCommitmentSuffix vi,
                tvSpendCommitment := normal_sc (tvSpendCommitment vi)\<rparr>)"
| "normal_typed L (CoinbaseIn a) = CoinbaseIn a"

definition normal_input :: "lib \<Rightarrow> bytes TxInput \<Rightarrow> bytes TxInput" where
  "normal_input L t = t\<lparr>inTyped := (if inAssetVersion t = 1 then map_option (normal_typed L) (inTyped t) else None)\<rparr>"

definition normal_output :: "bytes TxOutput \<Rightarrow> bytes TxOutput" where
  "normal_output out =
     out\<lparr>outCommitment := (if outAssetVersion out = 1
         then (outCommitment out)\<lparr>ocStateData := nil_empty (the_list (ocStateData (outCommitment out)))\<rparr>
         else zeroOutputCommitment)\<rparr>"

definition normal_tx :: "lib \<Rightarrow> nat \<Rightarrow> bytes TxData \<Rightarrow> bytes TxData" where
  "normal_tx L n tx =
     tx\<lparr>tdSerializedSize := of_nat n, tdInputs := map (normal_input L) (tdInputs tx),
        tdOutputs := map normal_output (tdOutputs tx)\<rparr>"

text \<open>
  What the reader insists on: programs of version 1, and an asset identifier that matches the
  issuance.
\<close>

primrec typed_ok :: "lib \<Rightarrow> bytes TypedInput \<Rightarrow> bool" where
  "typed_ok L (IssuanceIn ii) \<longleftrightarrow> issuance_AssetID L id ii = calcAssetID L id ii"
| "typed_ok L (SpendIn si) \<longleftrightarrow> scVMVersion (siSpendCommitment si) = 1"
| "typed_ok L (VetoIn vi) \<longleftrightarrow> scVMVersion (tvSpendCommitment vi) = 1"
| "typed_ok L (CoinbaseIn a) \<longleftrightarrow> True"

lemma back_amount [reread]: "reads_back (AssetAmount_WriteTo a) AssetAmount_ReadFrom a"
proof (cases "aaAssetId a")
  case None
  then show ?thesis by (simp add: AssetAmount_WriteTo_def reads_back_def)
next
  case (Some x)
  then have "reads_back (wthen (wraw (Byte32 x)) (wlift (WriteVarint63 (aaAmount a)))) AssetAmount_ReadFrom a"
    unfolding AssetAmount_ReadFrom_def
    by (intro back_then [OF back_hash] back_last [OF back_varint63]) (simp add: rret_def)
  with Some show ?thesis by (simp add: AssetAmount_WriteTo_def)
qed

lemma back_commitment [reread]:
  assumes "scVMVersion sc = 1"
  shows "reads_back (writeExtensibleString id sc sfx 1) (SpendCommitment_readFrom 1) (normal_sc sc, sfx @ sfx)"
  unfolding writeExtensibleString_def writeContents_def SpendCommitment_readFrom_def if_P [OF refl]
  by (intro back_ext back_then [OF back_hash] back_then [OF back_amount] back_then [OF back_varint63])
     (auto intro!: back_then [OF back_varstr] back_last [OF back_list] simp: rret_def normal_sc_def assms)

lemma rbind_assoc: "rbind (rbind m f) g = rbind m (\<lambda>x. rbind (f x) g)"
  by (rule ext) (auto simp: rbind_def split: prod.splits sum.splits)

lemma rbind_rret [simp]: "rbind (rret x) f = f x"
  by (rule ext) (simp add: rbind_def rret_def)

text \<open>The input after its commitment has been read, before the witness.\<close>

primrec half_read :: "lib \<Rightarrow> bytes TypedInput \<Rightarrow> bytes TypedInput" where
  "half_read L (IssuanceIn ii) =
     IssuanceIn (zeroIssuance\<lparr>iiNonce := iiNonce ii, iiassetId := issuance_AssetID L id ii, iiAmount := iiAmount ii\<rparr>)"
| "half_read L (SpendIn si) =
     SpendIn \<lparr>siSpendCommitmentSuffix = siSpendCommitmentSuffix si @ siSpendCommitmentSuffix si, siArguments = [],
              siSpendCommitment = normal_sc (siSpendCommitment si)\<rparr>"
| "half_read L (VetoIn vi) =
     VetoIn \<lparr>tvVetoCommitmentSuffix = tvVetoCommitmentSuffix vi @ tvVetoCommitmentSuffix vi, tvArguments = [],
             tvVote = tvVote vi, tvSpendCommitment = normal_sc (tvSpendCommitment vi)\<rparr>"
| "half_read L (CoinbaseIn a) = CoinbaseIn a"

lemma back_tagged:
  assumes "\<And>r. prs (b # r) = (Inr z, r)" "reads_back w (k z) y"
  shows "reads_back (wthen (wraw [b]) w) (rbind prs k) y"
  using assms by (auto simp: reads_back_def wthen_def wraw_def rbind_def)

lemma parseTypedInput_tag:
  "parseTypedInput (0 # r) = (Inr (IssuanceIn zeroIssuance), r)"
  "parseTypedInput (1 # r) =
     (Inr (SpendIn \<lparr>siSpendCommitmentSuffix = [], siArguments = [], siSpendCommitment = zeroSpendCommitment\<rparr>), r)"
  "parseTypedInput (2 # r) = (Inr (CoinbaseIn []), r)"
  "parseTypedInput (3 # r) =
     (Inr (VetoIn \<lparr>tvVetoCommitmentSuffix = [], tvArguments = [], tvVote = [], tvSpendCommitment = zeroSpendCommitment\<rparr>), r)"
  by (simp_all add: parseTypedInput_def rbind_def ReadFull_def rret_def)

lemma back_readCommitment:
  assumes "typed_ok L x"
  shows "reads_back (writeCommitment L id 1 x) (rbind parseTypedInput readCommitment) (half_read L x)"
proof (cases x)
  case (IssuanceIn ii)
  then show ?thesis
    by (auto intro!: back_tagged [OF parseTypedInput_tag(1)] back_then [OF back_varstr] back_then [OF back_hash]
        back_last [OF back_varint63] simp: rret_def)
next
  case (SpendIn si)
  with assms show ?thesis
    by (auto intro!: back_tagged [OF parseTypedInput_tag(2)] back_last [OF back_commitment] simp: rret_def)
next
  case (VetoIn vi)
  with assms show ?thesis
    by (auto intro!: back_tagged [OF parseTypedInput_tag(4)] back_then [OF back_commitment] back_last [OF back_varstr]
        simp: rret_def)
next
  case (CoinbaseIn a)
  then show ?thesis
    by (auto intro!: back_tagged [OF parseTypedInput_tag(3)] back_last [OF back_varstr] simp: rret_def)
qed

lemma the_list_nil_empty [simp]: "the_list (nil_empty l) = l"
  by (simp add: the_list_def nil_empty_def)

lemma back_readWitness:
  assumes "typed_ok L x"
  shows "reads_back (writeWitness id x) (readWitness L (half_read L x)) (normal_typed L x)"
proof (cases x)
  case (IssuanceIn ii)
  let ?h = "zeroIssuance\<lparr>iiNonce := iiNonce ii, iiassetId := issuance_AssetID L id ii, iiAmount := iiAmount ii,
      iiAssetDefinition := iiAssetDefinition ii, iiVMVersion := iiVMVersion ii, iiIssuanceProgram := iiIssuanceProgram ii\<rparr>"
  have "calcAssetID L id ?h = calcAssetID L id ii"
    by (simp add: calcAssetID_def AssetDefinitionHash_def)
  then have "calcAssetID L id ?h = iiassetId ?h"
    using assms IssuanceIn by simp
  then show ?thesis
    unfolding IssuanceIn
    by (auto intro!: back_then [OF back_varstr] back_then [OF back_varint63] back_last [OF back_list]
        simp: rret_def Let_def zeroIssuance_def)
next
  case (CoinbaseIn a)
  then show ?thesis by (simp add: back_ret)
qed (auto intro!: back_last [OF back_list] simp: rret_def)

lemma back_input [reread]:
  assumes "inAssetVersion t = 1 \<Longrightarrow> pred_option (typed_ok L) (inTyped t)"
  shows "reads_back (TxInput_writeTo L id t) (TxInput_readFrom L) (normal_input L t)"
proof (cases "inAssetVersion t = 1")
  case False
  then show ?thesis
    unfolding TxInput_writeTo_def TxInput_readFrom_def writeInputCommitment_def writeInputWitness_def normal_input_def
    by (auto intro!: back_then [OF back_varint63] back_then [OF back_ext0 [OF back_ret]] back_last [OF back_ext0 [OF back_ret]]
        simp: rret_def)
next
  case True
  show ?thesis
  proof (cases "inTyped t")
    case None
    with True show ?thesis
      by (simp add: reads_back_def TxInput_writeTo_def writeInputCommitment_def wthen_ok wext_def)
  next
    case (Some x)
    then have ok: "typed_ok L x" using assms True by simp
    have c: "reads_back (writeCommitment L id 1 x) (rbind parseTypedInput (\<lambda>ti. rbind (readCommitment ti) (\<lambda>ti'. rret (Some ti')))) (Some (half_read L x))"
      unfolding rbind_assoc [symmetric] by (rule back_last [OF back_readCommitment [OF ok]]) (simp add: rret_def)
    have w: "reads_back (writeWitness id x) (rbind (readWitness L (half_read L x)) (\<lambda>x'. rret (Some x'))) (Some (normal_typed L x))"
      by (rule back_last [OF back_readWitness [OF ok]]) (simp add: rret_def)
    show ?thesis
      using True Some
      unfolding TxInput_writeTo_def TxInput_readFrom_def writeInputCommitment_def writeInputWitness_def normal_input_def
      by (auto intro!: back_then [OF back_varint63] back_then [OF back_ext0 [OF c]] back_last [OF back_ext0 [OF w]] simp: rret_def)
  qed
qed

lemma parseTypedOutput_tag:
  "parseTypedOutput (0 # r) = (Inr OriginalTxOutput, r)" "parseTypedOutput (1 # r) = (Inr (VoteTxOutput []), r)"
  by (simp_all add: parseTypedOutput_def rbind_def ReadFull_def rret_def)

lemma back_outputCommitment:
  assumes "outAssetVersion out = 1 \<Longrightarrow> ocVMVersion (outCommitment out) = 1"
  shows "reads_back (OutputCommitment_writeTo id (outCommitment out) (outAssetVersion out))
           (OutputCommitment_readFrom (outAssetVersion out)) (outCommitment (normal_output out))"
  using assms unfolding OutputCommitment_writeTo_def OutputCommitment_readFrom_def
  by (auto intro!: back_ret back_then [OF back_amount] back_then [OF back_varint63] back_then [OF back_varstr]
      back_last [OF back_list] simp: rret_def normal_output_def)

lemma back_typedOutput:
  assumes "reads_back w rdr oc"
  shows "\<exists>z. (\<forall>r. parseTypedOutput (OutputType ty # r) = (Inr z, r)) \<and>
             reads_back (wthen (TypedOutput_writeTo ty) w)
               (rbind (TypedOutput_readFrom z) (\<lambda>ty'. rbind rdr (\<lambda>oc. rret (ty', oc)))) (ty, oc)"
proof (cases ty)
  case OriginalTxOutput
  then show ?thesis
    using assms
    by (intro exI [of _ OriginalTxOutput])
       (auto simp: parseTypedOutput_tag rret_def intro!: back_last)
next
  case (VoteTxOutput v)
  then show ?thesis
    using assms
    by (intro exI [of _ "VoteTxOutput []"])
       (auto simp: parseTypedOutput_tag rret_def rbind_assoc intro!: back_then [OF back_varstr] back_last)
qed

lemma back_output [reread]:
  assumes "outAssetVersion out = 1 \<Longrightarrow> ocVMVersion (outCommitment out) = 1"
  shows "reads_back (TxOutput_writeTo id out) TxOutput_readFrom (normal_output out)"
proof -
  obtain z where z: "\<And>r. parseTypedOutput (OutputType (outTyped out) # r) = (Inr z, r)"
    and b: "reads_back (wthen (TypedOutput_writeTo (outTyped out)) (OutputCommitment_writeTo id (outCommitment out) (outAssetVersion out)))
       (rbind (TypedOutput_readFrom z) (\<lambda>ty'. rbind (OutputCommitment_readFrom (outAssetVersion out)) (\<lambda>oc. rret (ty', oc))))
       (outTyped out, outCommitment (normal_output out))"
    using back_typedOutput [OF back_outputCommitment [OF assms]] by blast
  show ?thesis
    unfolding TxOutput_writeTo_def TxOutput_readFrom_def
    by (auto intro!: back_then [OF back_varint63] back_tagged [OF z] back_then [OF back_ext0 [OF b]] back_last [OF back_varstr]
        simp: rret_def) (simp add: normal_output_def)
qed

lemma back_all [reread]:
  assumes "\<And>x. x \<in> set l \<Longrightarrow> reads_back (w x) rdr (f x)"
  shows "reads_back (write_all w l) (read_all rdr (length l)) (map f l)"
  using assms
proof (induction l)
  case Nil
  then show ?case by (simp add: back_ret)
next
  case (Cons x l)
  have h: "reads_back (w x) rdr (f x)" using Cons.prems by simp
  show ?case
    using Cons by (auto intro!: back_then [OF h] back_last simp: rret_def)
qed

definition tx_ok :: "lib \<Rightarrow> bytes TxData \<Rightarrow> bool" where
  "tx_ok L tx \<longleftrightarrow>
     (\<forall>t \<in> set (tdInputs tx). inAssetVersion t = 1 \<longrightarrow> pred_option (typed_ok L) (inTyped t)) \<and>
     (\<forall>out \<in> set (tdOutputs tx). outAssetVersion out = 1 \<longrightarrow> ocVMVersion (outCommitment out) = 1)"

text \<open>The version and the length prefixes of the lists are read back too.\<close>

lemma back_counted:
  assumes "\<And>x. x \<in> set l \<Longrightarrow> reads_back (w x) rdr (f x)" "reads_back w' (k (map f l)) y"
  shows "reads_back (wthen (wlift (WriteVarint31 (length l))) (wthen (write_all w l) w'))
           (rbind ReadVarint31 (\<lambda>n. rbind (read_all rdr (unat n)) k)) y"
proof (cases "length l \<le> 2147483647")
  case True
  have a: "reads_back (write_all w l) (read_all rdr (length l)) (map f l)"
    by (rule back_all) (rule assms(1))
  have "reads_back (wthen (write_all w l) w') (rbind (read_all rdr (length l)) k) y"
    by (rule back_then) (use a assms(2) in blast)+
  with True show ?thesis
    by (intro back_then [OF back_varint31]) (simp add: of_nat_u32)
next
  case False
  then show ?thesis
    by (simp add: reads_back_def wthen_ok WriteVarint31_eq wlift_def)
qed

lemma back_tx_fields:
  assumes "tx_ok L tx"
  shows "reads_back (TxData_writeTo L id tx 7) (read_tx_fields L)
           (tdVersion tx, tdTimeRange tx, map (normal_input L) (tdInputs tx), map normal_output (tdOutputs tx))"
proof -
  have ins: "reads_back (TxInput_writeTo L id t) (TxInput_readFrom L) (normal_input L t)" if "t \<in> set (tdInputs tx)" for t
    using assms that by (intro back_input) (auto simp: tx_ok_def)
  have outs: "reads_back (TxOutput_writeTo id out) TxOutput_readFrom (normal_output out)" if "out \<in> set (tdOutputs tx)" for out
    using assms that by (intro back_output) (auto simp: tx_ok_def)
  let ?w = "wthen (wlift (WriteVarint31 (length (tdOutputs tx)))) (write_all (TxOutput_writeTo id) (tdOutputs tx))"
  have last: "reads_back ?w
     (rbind ReadVarint31 (\<lambda>m. rbind (read_all TxOutput_readFrom (unat m)) (\<lambda>os. rret (v, tr, is, os))))
     (v, tr, is, map normal_output (tdOutputs tx))" for v tr "is"
    using back_counted [where k = "\<lambda>os. rret (v, tr, is, os)", OF outs back_ret] by (simp add: wthen_nil)
  show ?thesis
    unfolding TxData_writeTo_def read_tx_fields_def
    using back_counted [OF ins last]
    by (intro back_then [OF back_tag]) (auto intro!: back_then [OF back_varint63])
qed

text \<open>Transactions that use no suffix and none of the forms that are read back differently.\<close>

primrec plain_typed :: "lib \<Rightarrow> bytes TypedInput \<Rightarrow> bool" where
  "plain_typed L (IssuanceIn ii) \<longleftrightarrow> iiassetId ii = calcAssetID L id ii \<and> iiassetId ii \<noteq> zeroHash"
| "plain_typed L (SpendIn si) \<longleftrightarrow>
     siSpendCommitmentSuffix si = [] \<and> scVMVersion (siSpendCommitment si) = 1 \<and> scStateData (siSpendCommitment si) \<noteq> Some []"
| "plain_typed L (VetoIn vi) \<longleftrightarrow>
     tvVetoCommitmentSuffix vi = [] \<and> scVMVersion (tvSpendCommitment vi) = 1 \<and> scStateData (tvSpendCommitment vi) \<noteq> Some []"
| "plain_typed L (CoinbaseIn a) \<longleftrightarrow> True"

definition plain_tx :: "lib \<Rightarrow> bytes TxData \<Rightarrow> bool" where
  "plain_tx L tx \<longleftrightarrow>
     (\<forall>t \<in> set (tdInputs tx). inAssetVersion t = 1 \<and> (\<exists>x. inTyped t = Some x \<and> plain_typed L x)) \<and>
     (\<forall>out \<in> set (tdOutputs tx). outAssetVersion out = 1 \<and> ocVMVersion (outCommitment out) = 1 \<and> ocStateData (outCommitment out) \<noteq> Some [])"

lemma nil_empty_the_list: "x \<noteq> Some [] \<Longrightarrow> nil_empty (the_list x) = x"
  by (auto simp: nil_empty_def the_list_def split: option.splits)

lemma plain_typed_normal: "plain_typed L x \<Longrightarrow> normal_typed L x = x \<and> typed_ok L x"
  by (cases x) (auto simp: normal_sc_def nil_empty_the_list issuance_AssetID_def IsZero_def)

lemma plain_tx_normal:
  assumes "plain_tx L tx"
  shows "normal_tx L n tx = tx\<lparr>tdSerializedSize := of_nat n\<rparr>" "tx_ok L tx"
proof -
  have "normal_input L t = t" if "t \<in> set (tdInputs tx)" for t
    using assms that plain_typed_normal by (fastforce simp: plain_tx_def normal_input_def)
  moreover have "normal_output out = out" if "out \<in> set (tdOutputs tx)" for out
    using assms that by (simp add: plain_tx_def normal_output_def nil_empty_the_list)
  ultimately have "map (normal_input L) (tdInputs tx) = tdInputs tx" "map normal_output (tdOutputs tx) = tdOutputs tx"
    by (simp_all add: map_idI)
  then show "normal_tx L n tx = tx\<lparr>tdSerializedSize := of_nat n\<rparr>"
    by (simp add: normal_tx_def)
  show "tx_ok L tx"
    using assms plain_typed_normal by (fastforce simp: plain_tx_def tx_ok_def)
qed

text \<open>
  C4. A transaction that was written is read back: \<^verbatim>\<open>UnmarshalText\<close> returns \<open>normal_tx\<close> of it, with the
  number of bytes as its size, and \<^verbatim>\<open>readFrom\<close> leaves what follows. For a transaction whose spend
  commitments have no suffix, with asset version 1 throughout and no empty list of state data,
  this is the transaction itself. In general it is not: \<^verbatim>\<open>writeExtensibleString\<close> passes the suffix of a
  spend commitment both to \<^verbatim>\<open>WriteExtensibleString\<close> and to \<^verbatim>\<open>writeContents\<close>, and it comes back doubled.
\<close>

theorem tx_round_trip:
  assumes "tx_ok L tx" "TxData_writeTo L id tx 7 = (b, WOk)"
  shows "TxData_readFrom L zeroTxData (b @ r) = (Inr (normal_tx L (length b) tx), r) \<and>
         UnmarshalTx L b = Inr (normal_tx L (length b) tx) \<and>
         (plain_tx L tx \<longrightarrow> UnmarshalTx L b = Inr (tx\<lparr>tdSerializedSize := of_nat (length b)\<rparr>))"
proof -
  have "read_tx_fields L (b @ q) =
          (Inr (tdVersion tx, tdTimeRange tx, map (normal_input L) (tdInputs tx), map normal_output (tdOutputs tx)), q)" for q
    using back_tx_fields [OF assms(1)] assms(2) by (simp add: reads_back_def)
  then have *: "TxData_readFrom L zeroTxData (b @ q) = (Inr (normal_tx L (length b) tx), q)" for q
    by (simp add: TxData_readFrom_def normal_tx_def zeroTxData_def)
  from * [of "[]"] have "UnmarshalTx L b = Inr (normal_tx L (length b) tx)"
    by (simp add: UnmarshalTx_def)
  with * [of r] plain_tx_normal(1) show ?thesis by simp
qed

definition wire_tx :: "bytes \<Rightarrow> bytes TxData" where
  "wire_tx sfx =
     \<lparr>tdVersion = 1, tdSerializedSize = 0, tdTimeRange = 0,
      tdInputs = [\<lparr>inAssetVersion = 1, inTyped = Some (SpendIn \<lparr>siSpendCommitmentSuffix = sfx, siArguments = [[5]],
          siSpendCommitment = \<lparr>scAssetAmount = \<lparr>aaAssetId = Some zeroHash, aaAmount = 3\<rparr>, scSourceID = zeroHash,
            scSourcePosition = 0, scVMVersion = 1, scControlProgram = [81], scStateData = None\<rparr>\<rparr>),
          inCommitmentSuffix = [], inWitnessSuffix = []\<rparr>],
      tdOutputs = []\<rparr>"

lemma tx_round_trip_witness:
  "\<exists>b. TxData_writeTo sample_lib id (wire_tx [9]) 7 = (b, WOk) \<and>
       UnmarshalTx sample_lib b = Inr ((wire_tx [9, 9])\<lparr>tdSerializedSize := of_nat (length b)\<rparr>)"
proof -
  have "snd (TxData_writeTo sample_lib id (wire_tx [9]) 7) = WOk"
    by (simp add: TxData_writeTo_def wire_tx_def TxInput_writeTo_def writeInputCommitment_def writeInputWitness_def
        writeExtensibleString_def writeContents_def AssetAmount_WriteTo_def wthen_def wraw_def wext_def wlift_def
        WriteExtensibleString_def WriteVarint63_eq WriteVarint31_eq WriteVarstr31_eq WriteVarstrList_eq the_list_def
        uvarint.simps varstr_def)
  then obtain b where b: "TxData_writeTo sample_lib id (wire_tx [9]) 7 = (b, WOk)"
    by (metis prod.collapse)
  moreover have "tx_ok sample_lib (wire_tx [9])"
    by (simp add: tx_ok_def wire_tx_def)
  ultimately show ?thesis
    using tx_round_trip [of sample_lib "wire_tx [9]" b "[]"]
    by (simp add: normal_tx_def wire_tx_def normal_input_def normal_sc_def nil_empty_def the_list_def)
qed

end
