(* ===== verification/MapTx.thy ===== *)
theory MapTx
  imports TxTypes Script
begin

text \<open>
  \<^verbatim>\<open>protocol/bc/types/map.go\<close>: the entries of a transaction. The helper keeps pointers to entries in
  several places and changes them after they were put into the map, so the entries live in a list
  that the pointers index. \<open>None\<close> is a panic: of \<^verbatim>\<open>mustWriteForHash\<close>, of a type assertion, of a nil
  asset or of an input without a type.
\<close>

record mapHelper =
  mhHeap :: "Entry list"
  mhEntryMap :: "Hash \<rightharpoonup> nat"
  mhSpends :: "nat list"
  mhIssuances :: "nat list"
  mhVetos :: "nat list"
  mhCoinbase :: "nat option"
  mhMuxSources :: "ValueSource option list"
  mhInputIDs :: "Hash list"
  mhSpentOutputIDs :: "Hash list"
  mhResultIDs :: "Hash option list"

definition newMapHelper :: "'b TxData \<Rightarrow> mapHelper" where
  "newMapHelper td =
     \<lparr>mhHeap = [], mhEntryMap = Map.empty, mhSpends = [], mhIssuances = [], mhVetos = [], mhCoinbase = None,
      mhMuxSources = replicate (length (tdInputs td)) None, mhInputIDs = replicate (length (tdInputs td)) zeroHash,
      mhSpentOutputIDs = [], mhResultIDs = []\<rparr>"

text \<open>The identifier, the address of the entry and the helper after \<^verbatim>\<open>addEntry\<close>.\<close>

definition addEntry :: "lib \<Rightarrow> store \<Rightarrow> Entry \<Rightarrow> mapHelper \<Rightarrow> (Hash \<times> nat \<times> mapHelper) option" where
  "addEntry L st e mh =
     (case EntryID_of L st (Some e) of
        None \<Rightarrow> None
      | Some i \<Rightarrow>
          Some (i, length (mhHeap mh),
                mh\<lparr>mhHeap := mhHeap mh @ [e], mhEntryMap := (mhEntryMap mh)(i \<mapsto> length (mhHeap mh))\<rparr>))"

definition setInput :: "nat \<Rightarrow> Hash \<Rightarrow> AssetAmount \<Rightarrow> mapHelper \<Rightarrow> mapHelper" where
  "setInput i h v mh =
     mh\<lparr>mhInputIDs := (mhInputIDs mh)[i := h],
        mhMuxSources := (mhMuxSources mh)[i := Some \<lparr>srcRef = Some h, srcValue = Some v, srcPosition = 0\<rparr>]\<rparr>"

definition mapCoinbaseInput :: "lib \<Rightarrow> store \<Rightarrow> slice TxData \<Rightarrow> nat \<Rightarrow> bytes \<Rightarrow> mapHelper \<Rightarrow> mapHelper option" where
  "mapCoinbaseInput L st td i arbitrary mh =
     (case addEntry L st (ECoinbase (NewCoinbase arbitrary)) mh of
        None \<Rightarrow> None
      | Some (h, p, mh1) \<Rightarrow>
          let totalAmount = sum_list (map (\<lambda>out. aaAmount (ocAssetAmount (outCommitment out))) (tdOutputs td)) in
          Some (setInput i h \<lparr>aaAssetId = Some BTMAssetID, aaAmount = totalAmount\<rparr> (mh1\<lparr>mhCoinbase := Some p\<rparr>)))"

definition mapIssuanceInput :: "lib \<Rightarrow> store \<Rightarrow> nat \<Rightarrow> slice IssuanceInput \<Rightarrow> mapHelper \<Rightarrow> mapHelper option" where
  "mapIssuanceInput L st i input mh =
     (let val = \<lparr>aaAssetId = Some (issuance_AssetID L (slice_bytes st) input), aaAmount = iiAmount input\<rparr>;
          issuance = (NewIssuance (Some (NonceHash L input)) (Some val) (of_nat i))
            \<lparr>isWitnessAssetDefinition := Some \<lparr>IssuanceProgram = Some \<lparr>VmVersion = iiVMVersion input, progCode = iiIssuanceProgram input\<rparr>,
                                              defData = Some (AssetDefinitionHash L input)\<rparr>,
             isWitnessArguments := iiArguments input\<rparr> in
      case addEntry L st (EIssuance issuance) mh of
        None \<Rightarrow> None
      | Some (h, p, mh1) \<Rightarrow> Some (setInput i h val (mh1\<lparr>mhIssuances := mhIssuances mh1 @ [p]\<rparr>)))"

text \<open>The output that a spend commitment describes.\<close>

definition prevout_source :: "slice SpendCommitment \<Rightarrow> ValueSource" where
  "prevout_source sc = \<lparr>srcRef = Some (scSourceID sc), srcValue = Some (scAssetAmount sc), srcPosition = scSourcePosition sc\<rparr>"

definition prevout_program :: "slice SpendCommitment \<Rightarrow> Program" where
  "prevout_program sc = \<lparr>VmVersion = scVMVersion sc, progCode = scControlProgram sc\<rparr>"

definition mapSpendInput :: "lib \<Rightarrow> store \<Rightarrow> nat \<Rightarrow> slice SpendInput \<Rightarrow> mapHelper \<Rightarrow> mapHelper option" where
  "mapSpendInput L st i input mh =
     (let sc = siSpendCommitment input;
          prevout = NewOriginalOutput (Some (prevout_source sc)) (Some (prevout_program sc)) (scStateData sc) 0 in
      case addEntry L st (EOriginalOutput prevout) mh of
        None \<Rightarrow> None
      | Some (prevoutID, _, mh1) \<Rightarrow>
          (case addEntry L st (ESpend ((NewSpend (Some prevoutID) (of_nat i))\<lparr>spWitnessArguments := siArguments input\<rparr>)) mh1 of
             None \<Rightarrow> None
           | Some (h, p, mh2) \<Rightarrow>
               Some (setInput i h (scAssetAmount sc)
                 (mh2\<lparr>mhSpends := mhSpends mh2 @ [p], mhSpentOutputIDs := mhSpentOutputIDs mh2 @ [prevoutID]\<rparr>))))"

definition mapVetoInput :: "lib \<Rightarrow> store \<Rightarrow> nat \<Rightarrow> slice TxVetoInput \<Rightarrow> mapHelper \<Rightarrow> mapHelper option" where
  "mapVetoInput L st i input mh =
     (let sc = tvSpendCommitment input;
          prevout = NewVoteOutput (Some (prevout_source sc)) (Some (prevout_program sc)) (scStateData sc) 0 (tvVote input) in
      case addEntry L st (EVoteOutput prevout) mh of
        None \<Rightarrow> None
      | Some (prevoutID, _, mh1) \<Rightarrow>
          (case addEntry L st (EVetoInput ((NewVetoInput (Some prevoutID) (of_nat i))\<lparr>viWitnessArguments := tvArguments input\<rparr>)) mh1 of
             None \<Rightarrow> None
           | Some (h, p, mh2) \<Rightarrow>
               Some (setInput i h (scAssetAmount sc)
                 (mh2\<lparr>mhVetos := mhVetos mh2 @ [p], mhSpentOutputIDs := mhSpentOutputIDs mh2 @ [prevoutID]\<rparr>))))"

definition mapInput :: "lib \<Rightarrow> store \<Rightarrow> slice TxData \<Rightarrow> nat \<Rightarrow> slice TxInput \<Rightarrow> mapHelper \<Rightarrow> mapHelper option" where
  "mapInput L st td i input mh =
     (case inTyped input of
        Some (IssuanceIn x) \<Rightarrow> mapIssuanceInput L st i x mh
      | Some (SpendIn x) \<Rightarrow> mapSpendInput L st i x mh
      | Some (VetoIn x) \<Rightarrow> mapVetoInput L st i x mh
      | Some (CoinbaseIn x) \<Rightarrow> mapCoinbaseInput L st td i x mh
      | None \<Rightarrow> None)"

primrec mapInputs :: "lib \<Rightarrow> store \<Rightarrow> slice TxData \<Rightarrow> nat \<Rightarrow> slice TxInput list \<Rightarrow> mapHelper \<Rightarrow> mapHelper option" where
  "mapInputs L st td i [] mh = Some mh"
| "mapInputs L st td i (input # l) mh =
     (case mapInput L st td i input mh of None \<Rightarrow> None | Some mh' \<Rightarrow> mapInputs L st td (i + 1) l mh')"

definition set_heap :: "nat \<Rightarrow> Entry \<Rightarrow> mapHelper \<Rightarrow> mapHelper" where
  "set_heap p e mh = mh\<lparr>mhHeap := (mhHeap mh)[p := e]\<rparr>"

text \<open>What an input passes on to the mux: the value, read from the spent output or the issuance, and its position.\<close>

definition mux_input :: "mapHelper \<Rightarrow> Entry \<Rightarrow> (AssetAmount option \<times> u64) option" where
  "mux_input mh e =
     (let entry_at = (\<lambda>h. map_option (\<lambda>q. mhHeap mh ! q) (mhEntryMap mh h)) in
      case e of
        ESpend s \<Rightarrow>
          (case entry_at (the (spSpentOutputId s)) of
             Some (EOriginalOutput out) \<Rightarrow> map_option (\<lambda>src. (srcValue src, spOrdinal s)) (ooSource out)
           | _ \<Rightarrow> None)
      | EVetoInput v \<Rightarrow>
          (case entry_at (the (viSpentOutputId v)) of
             Some (EVoteOutput out) \<Rightarrow> map_option (\<lambda>src. (srcValue src, viOrdinal v)) (voSource out)
           | _ \<Rightarrow> None)
      | EIssuance i \<Rightarrow> Some (isValue i, isOrdinal i)
      | _ \<Rightarrow> None)"

definition connect :: "Hash \<Rightarrow> nat \<Rightarrow> mapHelper \<Rightarrow> mapHelper option" where
  "connect muxID p mh =
     (case mux_input mh (mhHeap mh ! p) of
        None \<Rightarrow> None
      | Some (val, pos) \<Rightarrow> Some (set_heap p (SetDestination (Some muxID) val pos (mhHeap mh ! p)) mh))"

primrec connect_all :: "Hash \<Rightarrow> nat list \<Rightarrow> mapHelper \<Rightarrow> mapHelper option" where
  "connect_all muxID [] mh = Some mh"
| "connect_all muxID (p # l) mh = (case connect muxID p mh of None \<Rightarrow> None | Some mh' \<Rightarrow> connect_all muxID l mh')"

text \<open>\<^verbatim>\<open>initMux\<close> returns the identifier and the address of the mux; its program is a new byte string.\<close>

definition initMux :: "lib \<Rightarrow> store \<Rightarrow> mapHelper \<Rightarrow> (Hash \<times> nat \<times> mapHelper \<times> store) option" where
  "initMux L st mh =
     (case alloc st [OP_TRUE] of (st1, code) \<Rightarrow>
        let mux = NewMux (mhMuxSources mh) (Some \<lparr>VmVersion = 1, progCode = code\<rparr>) in
        case addEntry L st1 (EMux mux) mh of
          None \<Rightarrow> None
        | Some (muxID, p, mh1) \<Rightarrow>
            (case connect_all muxID (mhSpends mh1 @ mhVetos mh1 @ mhIssuances mh1) mh1 of
               None \<Rightarrow> None
             | Some mh2 \<Rightarrow>
                 (case mhCoinbase mh2 of
                    None \<Rightarrow> Some (muxID, p, mh2, st1)
                  | Some c \<Rightarrow>
                      (case muxSources mux of
                         Some src # _ \<Rightarrow>
                           Some (muxID, p, set_heap c (SetDestination (Some muxID) (srcValue src) 0 (mhHeap mh2 ! c)) mh2, st1)
                       | _ \<Rightarrow> None))))"

definition output_entry :: "store \<Rightarrow> Hash \<Rightarrow> nat \<Rightarrow> slice TxOutput \<Rightarrow> Entry" where
  "output_entry st muxID i out =
     (let oc = outCommitment out;
          src = Some \<lparr>srcRef = Some muxID, srcValue = Some (ocAssetAmount oc), srcPosition = of_nat i\<rparr>;
          prog = Some \<lparr>VmVersion = ocVMVersion oc, progCode = ocControlProgram oc\<rparr> in
      if IsUnspendable (slice_bytes st (ocControlProgram oc)) then ERetirement (NewRetirement src (of_nat i))
      else case outTyped out of
        OriginalTxOutput \<Rightarrow> EOriginalOutput (NewOriginalOutput src prog (ocStateData oc) (of_nat i))
      | VoteTxOutput vote \<Rightarrow> EVoteOutput (NewVoteOutput src prog (ocStateData oc) (of_nat i) vote))"

definition add_dest :: "ValueDestination \<Rightarrow> Entry \<Rightarrow> Entry" where
  "add_dest d e = (case e of EMux m \<Rightarrow> EMux (m\<lparr>muxWitnessDestinations := muxWitnessDestinations m @ [Some d]\<rparr>) | _ \<Rightarrow> e)"

primrec mapOutputs :: "lib \<Rightarrow> store \<Rightarrow> Hash \<Rightarrow> nat \<Rightarrow> nat \<Rightarrow> slice TxOutput list \<Rightarrow> mapHelper \<Rightarrow> mapHelper option" where
  "mapOutputs L st muxID mux i [] mh = Some mh"
| "mapOutputs L st muxID mux i (out # l) mh =
     (case addEntry L st (output_entry st muxID i out) mh of
        None \<Rightarrow> None
      | Some (resultID, _, mh1) \<Rightarrow>
          mapOutputs L st muxID mux (i + 1) l
            (set_heap mux (add_dest \<lparr>dstRef = Some resultID, dstValue = Some (ocAssetAmount (outCommitment out)), dstPosition = 0\<rparr>
                             (mhHeap mh1 ! mux))
               (mh1\<lparr>mhResultIDs := mhResultIDs mh1 @ [Some resultID]\<rparr>)))"

definition generateTx :: "lib \<Rightarrow> store \<Rightarrow> slice TxData \<Rightarrow> mapHelper \<Rightarrow> Tx option" where
  "generateTx L st td mh =
     (let header = NewTxHeader (tdVersion td) (tdSerializedSize td) (tdTimeRange td) (mhResultIDs mh) in
      case addEntry L st (ETxHeader header) mh of
        None \<Rightarrow> None
      | Some (i, _, mh1) \<Rightarrow>
          Some \<lparr>TxHeader_of = header, txID = i,
                Entries = (\<lambda>h. map_option (\<lambda>p. mhHeap mh1 ! p) (mhEntryMap mh1 h)),
                InputIDs = mhInputIDs mh1, SpentOutputIDs = mhSpentOutputIDs mh1\<rparr>)"

text \<open>
  \<^verbatim>\<open>MapTx\<close>: the transaction, and the memory with the program of the mux. The helper before the
  header is added is named, for the entries it holds.
\<close>

definition map_entries :: "lib \<Rightarrow> store \<Rightarrow> slice TxData \<Rightarrow> (mapHelper \<times> store) option" where
  "map_entries L st td =
     (case mapInputs L st td 0 (tdInputs td) (newMapHelper td) of
        None \<Rightarrow> None
      | Some mh1 \<Rightarrow>
          (case initMux L st mh1 of
             None \<Rightarrow> None
           | Some (muxID, mux, mh2, st1) \<Rightarrow>
               map_option (\<lambda>mh3. (mh3, st1)) (mapOutputs L st1 muxID mux 0 (tdOutputs td) mh2)))"

definition MapTx :: "lib \<Rightarrow> store \<Rightarrow> slice TxData \<Rightarrow> (Tx \<times> store) option" where
  "MapTx L st td =
     (case map_entries L st td of
        None \<Rightarrow> None
      | Some (mh, st1) \<Rightarrow> map_option (\<lambda>tx. (tx, st1)) (generateTx L st1 td mh))"

text \<open>\<^verbatim>\<open>ComputeOutputID\<close> and \<^verbatim>\<open>TxInput.SpentOutputID\<close>; \<open>None\<close> is an error, also a recovered panic.\<close>

definition ComputeOutputID :: "lib \<Rightarrow> store \<Rightarrow> slice SpendCommitment \<Rightarrow> byte \<Rightarrow> bytes \<Rightarrow> Hash option" where
  "ComputeOutputID L st sc inputType vote =
     (if inputType = SpendInputType then
        EntryID_of L st (Some (EOriginalOutput
          (NewOriginalOutput (Some (prevout_source sc)) (Some (prevout_program sc)) (scStateData sc) 0)))
      else if inputType = VetoInputType then
        EntryID_of L st (Some (EVoteOutput
          (NewVoteOutput (Some (prevout_source sc)) (Some (prevout_program sc)) (scStateData sc) 0 vote)))
      else None)"

definition SpentOutputID_of :: "lib \<Rightarrow> store \<Rightarrow> slice TypedInput \<Rightarrow> Hash option" where
  "SpentOutputID_of L st ti =
     (case ti of
        SpendIn x \<Rightarrow> ComputeOutputID L st (siSpendCommitment x) SpendInputType []
      | VetoIn x \<Rightarrow> ComputeOutputID L st (tvSpendCommitment x) VetoInputType (tvVote x)
      | _ \<Rightarrow> Some zeroHash)"

text \<open>\<^verbatim>\<open>Tx.SetInputArguments\<close>; \<open>None\<close> is an index out of range or an input without a type.\<close>

definition SetArguments :: "'b list \<Rightarrow> 'b TypedInput \<Rightarrow> 'b TypedInput" where
  "SetArguments args ti =
     (case ti of
        IssuanceIn x \<Rightarrow> IssuanceIn (x\<lparr>iiArguments := args\<rparr>)
      | SpendIn x \<Rightarrow> SpendIn (x\<lparr>siArguments := args\<rparr>)
      | VetoIn x \<Rightarrow> VetoIn (x\<lparr>tvArguments := args\<rparr>)
      | CoinbaseIn x \<Rightarrow> CoinbaseIn x)"

definition set_witness_arguments :: "slice list \<Rightarrow> Entry \<Rightarrow> Entry" where
  "set_witness_arguments args e =
     (case e of
        EIssuance x \<Rightarrow> EIssuance (x\<lparr>isWitnessArguments := args\<rparr>)
      | ESpend x \<Rightarrow> ESpend (x\<lparr>spWitnessArguments := args\<rparr>)
      | EVetoInput x \<Rightarrow> EVetoInput (x\<lparr>viWitnessArguments := args\<rparr>)
      | _ \<Rightarrow> e)"

definition SetInputArguments :: "nat \<Rightarrow> slice list \<Rightarrow> slice TxData \<times> Tx \<Rightarrow> (slice TxData \<times> Tx) option" where
  "SetInputArguments n args x =
     (case x of (td, tx) \<Rightarrow>
        if n < length (tdInputs td) \<and> n < length (InputIDs tx)
        then
          let input = tdInputs td ! n; i = InputIDs tx ! n in
          Some (td\<lparr>tdInputs := (tdInputs td)[n := input\<lparr>inTyped := map_option (SetArguments args) (inTyped input)\<rparr>]\<rparr>,
                tx\<lparr>Entries := (\<lambda>h. if h = i then map_option (set_witness_arguments args) (Entries tx h) else Entries tx h)\<rparr>)
        else None)"

end
