(* ===== verification/Validation.thy ===== *)
theory Validation
  imports Bc Script VmExec "HOL-Library.AList"
begin

text \<open>
  Package \<^verbatim>\<open>protocol/validation\<close>: validation of a transaction (\<^verbatim>\<open>tx.go\<close>) and the context it gives to
  the virtual machine (\<^verbatim>\<open>vmcontext.go\<close>). Validation walks the graph of entries from the header. The
  state it shares through pointers is explicit: the gas status, the cache of results per entry, and
  the memory of the byte slices, which programs can write. The order in which Go iterates over a
  map is not specified; it is a parameter, a function that arranges the entries of the map.
\<close>

section \<open>Errors and state\<close>

datatype val_err = ErrTxVersion | ErrWrongTransactionSize | ErrBadTimeRange | ErrInputDoubleSend | ErrNotStandardTx
  | ErrWrongCoinbaseTransaction | ErrWrongCoinbaseAsset | ErrCoinbaseArbitraryOversize | ErrEmptyResults
  | ErrMismatchedAssetID | ErrMismatchedPosition | ErrMismatchedReference | ErrMismatchedValue | ErrMissingField
  | ErrNoSource | ErrSumOverflow | ErrPosition | ErrUnbalanced | ErrOverGasCredit | ErrGasCalculate | ErrVotePubKey
  | ErrVoteOutputAmount | ErrVoteOutputAseet | ErrVM vmerr | ErrBc bc_err | ErrEmptyAmount | ErrUnexpectedType

datatype 'a vout = VOk 'a | VErr val_err | VPanic | VNoFuel

record GasState =
  BTMValue :: u64
  GasLeft :: int
  GasUsed :: int
  StorageGas :: int

definition zeroGas :: GasState where
  "zeroGas = \<lparr>BTMValue = 0, GasLeft = 0, GasUsed = 0, StorageGas = 0\<rparr>"

text \<open>The state that the copies of \<^verbatim>\<open>validationState\<close> share.\<close>

record vshared =
  gasStatus :: GasState
  cache :: "Hash \<rightharpoonup> val_err option"
  mem :: store

type_synonym 'a vop = "vshared \<Rightarrow> 'a vout \<times> vshared"

definition vok :: "'a \<Rightarrow> 'a vop" where
  "vok x s = (VOk x, s)"

definition verr :: "val_err \<Rightarrow> 'a vop" where
  "verr e s = (VErr e, s)"

definition vcrash :: "'a vop" where
  "vcrash s = (VPanic, s)"

definition vthen :: "'a vop \<Rightarrow> ('a \<Rightarrow> 'b vop) \<Rightarrow> 'b vop" where
  "vthen m f s =
     (case m s of
        (VOk x, s') \<Rightarrow> f x s'
      | (VErr e, s') \<Rightarrow> (VErr e, s')
      | (VPanic, s') \<Rightarrow> (VPanic, s')
      | (VNoFuel, s') \<Rightarrow> (VNoFuel, s'))"

text \<open>\<open>None\<close> is a nil pointer that is dereferenced.\<close>

definition deref :: "'a option \<Rightarrow> 'a vop" where
  "deref p s = (case p of None \<Rightarrow> (VPanic, s) | Some x \<Rightarrow> (VOk x, s))"

definition check_that :: "bool \<Rightarrow> val_err \<Rightarrow> unit vop" where
  "check_that b e s = (if b then (VOk (), s) else (VErr e, s))"

primrec vforeach :: "nat \<Rightarrow> (nat \<Rightarrow> 'a \<Rightarrow> unit vop) \<Rightarrow> 'a list \<Rightarrow> unit vop" where
  "vforeach i f [] = vok ()"
| "vforeach i f (x # l) = vthen (f i x) (\<lambda>_. vforeach (i + 1) f l)"

section \<open>Gas\<close>

abbreviation (input) VMGasRate :: int where "VMGasRate \<equiv> 200"
abbreviation (input) StorageGasRate :: int where "StorageGasRate \<equiv> 1"
abbreviation (input) MaxGasAmount :: int where "MaxGasAmount \<equiv> 300000"
abbreviation (input) MinVoteOutputAmount :: u64 where "MinVoteOutputAmount \<equiv> 100000000"
abbreviation (input) CoinbaseArbitrarySizeLimit :: nat where "CoinbaseArbitrarySizeLimit \<equiv> 128"

text \<open>The methods of \<^verbatim>\<open>GasState\<close> return the state they leave, also with an error.\<close>

definition setGas :: "int \<Rightarrow> int \<Rightarrow> GasState \<Rightarrow> val_err option \<times> GasState" where
  "setGas btm txSize g =
     (if btm < 0 then (Some ErrGasCalculate, g)
      else
        let g1 = g\<lparr>BTMValue := of_int btm\<rparr> in
        case DivInt64 btm VMGasRate of (left, ok) \<Rightarrow>
          let g2 = g1\<lparr>GasLeft := left\<rparr> in
          if \<not> ok then (Some ErrGasCalculate, g2)
          else
            let g3 = (if left > MaxGasAmount then g2\<lparr>GasLeft := MaxGasAmount\<rparr> else g2) in
            case MulInt64 txSize StorageGasRate of (sg, ok2) \<Rightarrow>
              let g4 = g3\<lparr>StorageGas := sg\<rparr> in
              if ok2 then (None, g4) else (Some ErrGasCalculate, g4))"

definition chargeStorageGas :: "GasState \<Rightarrow> val_err option \<times> GasState" where
  "chargeStorageGas g =
     (case SubInt64 (GasLeft g) (StorageGas g) of (left, ok) \<Rightarrow>
        let g1 = g\<lparr>GasLeft := left\<rparr> in
        if \<not> ok \<or> left < 0 then (Some ErrGasCalculate, g1)
        else
          case AddInt64 (GasUsed g1) (StorageGas g1) of (used, ok2) \<Rightarrow>
            let g2 = g1\<lparr>GasUsed := used\<rparr> in
            if ok2 then (None, g2) else (Some ErrGasCalculate, g2))"

definition updateUsage :: "int \<Rightarrow> GasState \<Rightarrow> val_err option \<times> GasState" where
  "updateUsage gasLeft g =
     (if gasLeft < 0 then (Some ErrGasCalculate, g)
      else
        case SubInt64 (GasLeft g) gasLeft of (gasUsed, ok) \<Rightarrow>
          if \<not> ok then (Some ErrGasCalculate, g)
          else
            let g1 = g\<lparr>GasUsed := i64 (GasUsed g + gasUsed), GasLeft := gasLeft\<rparr> in
            if StorageGas g1 > GasLeft g1 then (Some ErrOverGasCredit, g1) else (None, g1))"

definition on_gas :: "(GasState \<Rightarrow> val_err option \<times> GasState) \<Rightarrow> unit vop" where
  "on_gas f s =
     (case f (gasStatus s) of (e, g) \<Rightarrow>
        (case e of None \<Rightarrow> VOk () | Some x \<Rightarrow> VErr x, s\<lparr>gasStatus := g\<rparr>))"

section \<open>vmcontext.go\<close>

definition bytesEqual :: "bytes list option \<Rightarrow> bytes list option \<Rightarrow> bool" where
  "bytesEqual a b =
     (if (a = None) \<noteq> (b = None) then False
      else case (a, b) of (Some x, Some y) \<Rightarrow> length x = length y \<and> list_all2 (=) x y | _ \<Rightarrow> True)"

text \<open>
  The callback \<^verbatim>\<open>checkOutput\<close> of the entry context. A result \<open>None\<close> is a panic: a nil pointer is
  dereferenced only if the comparisons before it did not decide.
\<close>

definition check_fields ::
  "store \<Rightarrow> u64 \<Rightarrow> bytes \<Rightarrow> u64 \<Rightarrow> bytes \<Rightarrow> bytes list option \<Rightarrow>
   (u64 \<times> bytes) option \<Rightarrow> AssetAmount option \<Rightarrow> bytes list option \<Rightarrow> (vmerr + bool) option" where
  "check_fields st amt assetID vmVersion code state prog val stateData =
     (case prog of
        None \<Rightarrow> None
      | Some (ver, c) \<Rightarrow>
          if ver \<noteq> vmVersion \<or> c \<noteq> code then Some (Inr False)
          else (case val of
                  None \<Rightarrow> None
                | Some v \<Rightarrow>
                    (case aaAssetId v of
                       None \<Rightarrow> None
                     | Some a \<Rightarrow> Some (Inr (Byte32 a = assetID \<and> aaAmount v = amt \<and> bytesEqual stateData state)))))"

definition prog_of :: "store \<Rightarrow> Program option \<Rightarrow> (u64 \<times> bytes) option" where
  "prog_of st p = map_option (\<lambda>p. (VmVersion p, slice_bytes st (progCode p))) p"

definition checkEntry ::
  "store \<Rightarrow> u64 \<Rightarrow> bytes \<Rightarrow> u64 \<Rightarrow> bytes \<Rightarrow> bytes list option \<Rightarrow> bool \<Rightarrow> Entry \<Rightarrow> (vmerr + bool) option" where
  "checkEntry st amt assetID vmVersion code state expansion e =
     (let check = check_fields st amt assetID vmVersion code state in
      case e of
        EOriginalOutput out \<Rightarrow>
          (case ooSource out of None \<Rightarrow> None
           | Some src \<Rightarrow> check (prog_of st (ooControlProgram out)) (srcValue src)
                            (map_option (map (slice_bytes st)) (ooStateData out)))
      | EVoteOutput out \<Rightarrow>
          (case voSource out of None \<Rightarrow> None
           | Some src \<Rightarrow> check (prog_of st (voControlProgram out)) (srcValue src)
                            (map_option (map (slice_bytes st)) (voStateData out)))
      | ERetirement out \<Rightarrow>
          (case reSource out of None \<Rightarrow> None
           | Some src \<Rightarrow> check (Some (0, if expansion then code else [])) (srcValue src) (Some []))
      | _ \<Rightarrow> Some (Inl ErrContext))"

definition checkMuxOutput ::
  "(Hash \<rightharpoonup> Entry) \<Rightarrow> u64 \<Rightarrow> (Entry \<Rightarrow> (vmerr + bool) option) \<Rightarrow> Mux \<Rightarrow> (vmerr + bool) option" where
  "checkMuxOutput entries index check m =
     (if unat index \<ge> length (muxWitnessDestinations m) then Some (Inl ErrBadValue)
      else case muxWitnessDestinations m ! unat index of
             None \<Rightarrow> None
           | Some d \<Rightarrow>
               (case dstRef d of
                  None \<Rightarrow> None
                | Some eID \<Rightarrow>
                    (case entries eID of None \<Rightarrow> Some (Inl ErrMissingEntry) | Some e \<Rightarrow> check e)))"

text \<open>The destination of an issuance, spend or veto: a mux, or a single entry.\<close>

definition checkDestination ::
  "(Hash \<rightharpoonup> Entry) \<Rightarrow> u64 \<Rightarrow> (Entry \<Rightarrow> (vmerr + bool) option) \<Rightarrow> ValueDestination option \<Rightarrow> (vmerr + bool) option" where
  "checkDestination entries index check dest =
     (case dest of
        None \<Rightarrow> None
      | Some wd \<Rightarrow>
          (case dstRef wd of
             None \<Rightarrow> None
           | Some ref \<Rightarrow>
               (case entries ref of
                  None \<Rightarrow> Some (Inl ErrMissingEntry)
                | Some (EMux m) \<Rightarrow> checkMuxOutput entries index check m
                | Some d \<Rightarrow> if index \<noteq> 0 then Some (Inl ErrBadValue) else check d)))"

definition checkOutput ::
  "Entry \<Rightarrow> (Hash \<rightharpoonup> Entry) \<Rightarrow> store \<Rightarrow> u64 \<Rightarrow> u64 \<Rightarrow> bytes \<Rightarrow> u64 \<Rightarrow> bytes \<Rightarrow> bytes list option \<Rightarrow> bool
   \<Rightarrow> (vmerr + bool) option" where
  "checkOutput entry entries st index amt assetID vmVersion code state expansion =
     (let check = checkEntry st amt assetID vmVersion code state expansion in
      case entry of
        EMux m \<Rightarrow> checkMuxOutput entries index check m
      | EIssuance i \<Rightarrow> checkDestination entries index check (isWitnessDestination i)
      | ESpend s \<Rightarrow> checkDestination entries index check (spWitnessDestination s)
      | EVetoInput v \<Rightarrow> checkDestination entries index check (viWitnessDestination v)
      | _ \<Rightarrow> Some (Inl ErrContext))"

text \<open>
  The environment of a validation: the libraries, the bound on the steps of the machine, the
  converter of contract calls (an error is \<open>None\<close>), the order of map iterations, the block and the
  transaction. Transactions are compared by address, \<open>blkTransactions\<close> are the addresses of those of
  the block.
\<close>

record Block =
  blkHeader :: BlockHeader
  blkID :: Hash
  blkTransactions :: "nat list"

record valEnv =
  eLib :: lib
  eFuel :: nat
  eConverter :: "bytes \<Rightarrow> bytes option"
  eRange :: "(AssetID \<times> int) list \<Rightarrow> (AssetID \<times> int) list"
  eBlock :: Block
  eTx :: Tx
  eTxRef :: nat

text \<open>
  The program to run: converted ones are new byte strings, others the slice itself. \<open>None\<close> is a panic.
\<close>

definition convertProgram :: "valEnv \<Rightarrow> slice \<Rightarrow> store \<Rightarrow> (slice \<times> store) option" where
  "convertProgram E prog st =
     (let code = slice_bytes st prog;
          fresh = (\<lambda>r. case r of
             GoOk b \<Rightarrow> Some (snd (alloc st b), fst (alloc st b)) | GoErr _ \<Rightarrow> Some (prog, st) | GoPanic \<Rightarrow> None) in
      if IsP2WPKHScript code then fresh (ConvertP2PKHSigProgram code)
      else if IsP2WSHScript code then fresh (ConvertP2SHProgram (eLib E) code)
      else if IsCallContractScript code then
        (case eConverter E code of Some b \<Rightarrow> fresh (GoOk b) | None \<Rightarrow> Some (prog, st))
      else Some (prog, st))"

text \<open>
  The optional fields of the context: asset, amount and position of an issuance or spend, and the
  spent output of a spend. The outer \<open>None\<close> is a panic.
\<close>

definition context_fields :: "Tx \<Rightarrow> Entry \<Rightarrow> ((bytes \<times> u64 \<times> u64) option \<times> bytes option) option" where
  "context_fields tx entry =
     (case entry of
        EIssuance i \<Rightarrow>
          (case (isValue i, isWitnessDestination i) of
             (Some v, Some d) \<Rightarrow>
               map_option (\<lambda>a. (Some (Byte32 a, aaAmount v, dstPosition d), None)) (aaAssetId v)
           | _ \<Rightarrow> None)
      | ESpend s \<Rightarrow>
          (case spSpentOutputId s of
             None \<Rightarrow> None
           | Some so \<Rightarrow>
               (case Entries tx so of
                  Some (EOriginalOutput out) \<Rightarrow>
                    (case (ooSource out, spWitnessDestination s) of
                       (Some src, Some d) \<Rightarrow>
                         (case srcValue src of
                            None \<Rightarrow> None
                          | Some v \<Rightarrow>
                              map_option (\<lambda>a. (Some (Byte32 a, aaAmount v, dstPosition d), Some (Byte32 so))) (aaAssetId v))
                     | _ \<Rightarrow> None)
                | _ \<Rightarrow> None))
      | _ \<Rightarrow> Some (None, None))"

definition alloc_opt :: "store \<Rightarrow> bytes option \<Rightarrow> slice option \<times> store" where
  "alloc_opt st b = (case b of None \<Rightarrow> (None, st) | Some x \<Rightarrow> (Some (snd (alloc st x)), fst (alloc st x)))"

definition NewTxVMContext ::
  "valEnv \<Rightarrow> Entry \<Rightarrow> Program \<Rightarrow> slice list option \<Rightarrow> slice list \<Rightarrow> store \<Rightarrow> (Context \<times> store) option" where
  "NewTxVMContext E entry prog stateData args st =
     (let tx = eTx E in
      case (EntryID_of (eLib E) st (Some entry), context_fields tx entry) of
        (Some eid, Some (fs, spent)) \<Rightarrow>
          (case convertProgram E (progCode prog) st of
             None \<Rightarrow> None
           | Some (code, st1) \<Rightarrow>
               (case alloc st1 (Byte32 eid) of (st2, eidS) \<Rightarrow>
                case alloc st2 (Byte32 (NewHash (sha3_256 (eLib E) (Byte32 eid @ Byte32 (txID tx))))) of (st3, sigS) \<Rightarrow>
                case alloc_opt st3 (map_option fst fs) of (assetS, st4) \<Rightarrow>
                case alloc_opt st4 spent of (spentS, st5) \<Rightarrow>
                  Some (\<lparr>VMVersion = VmVersion prog, Code = code,
                         StateData = (case stateData of None \<Rightarrow> [] | Some l \<Rightarrow> l), Arguments = args,
                         EntryID = eidS, TxVersion = Some (hdrVersion (TxHeader_of tx)),
                         BlockHeight = Some (bhHeight (blkHeader (eBlock E))),
                         NumResults = Some (of_nat (length (hdrResultIds (TxHeader_of tx)))),
                         AssetID = assetS, Amount = map_option (\<lambda>(_, n, _). n) fs,
                         DestPos = map_option (\<lambda>(_, _, p). p) fs, SpentOutputID = spentS,
                         TxSigHash = Some sigS, CheckOutput = Some (checkOutput entry (Entries tx))\<rparr>, st5)))
      | _ \<Rightarrow> None)"

text \<open>Running a program: \<^verbatim>\<open>vm.Verify\<close> on the shared memory with the gas that is left, and \<^verbatim>\<open>updateUsage\<close>.\<close>

definition runProgram :: "valEnv \<Rightarrow> Entry \<Rightarrow> Program option \<Rightarrow> slice list option \<Rightarrow> slice list \<Rightarrow> unit vop" where
  "runProgram E entry prog stateData args =
     vthen (deref prog) (\<lambda>p s.
       case NewTxVMContext E entry p stateData args (mem s) of
         None \<Rightarrow> (VPanic, s)
       | Some (ctx, st) \<Rightarrow>
           (case Verify (eLib E) (eFuel E) ctx (GasLeft (gasStatus s)) st of
              None \<Rightarrow> (VNoFuel, s)
            | Some (gasLeft, err, st') \<Rightarrow>
                (case err of
                   Some e \<Rightarrow> (VErr (ErrVM e), s\<lparr>mem := st'\<rparr>)
                 | None \<Rightarrow> on_gas (updateUsage gasLeft) (s\<lparr>mem := st'\<rparr>))))"

section \<open>checkValid\<close>

text \<open>The fields of \<^verbatim>\<open>validationState\<close> that its copies do not share.\<close>

record vpos =
  entryID :: Hash
  sourcePos :: u64
  destPos :: u64

text \<open>The destination that a value source refers to.\<close>

definition source_dest :: "Entry \<Rightarrow> u64 \<Rightarrow> ValueDestination option vop" where
  "source_dest e position =
     (case e of
        ECoinbase c \<Rightarrow> vthen (check_that (position = 0) ErrPosition) (\<lambda>_. vok (cbWitnessDestination c))
      | EIssuance i \<Rightarrow> vthen (check_that (position = 0) ErrPosition) (\<lambda>_. vok (isWitnessDestination i))
      | ESpend s \<Rightarrow> vthen (check_that (position = 0) ErrPosition) (\<lambda>_. vok (spWitnessDestination s))
      | EVetoInput v \<Rightarrow> vthen (check_that (position = 0) ErrPosition) (\<lambda>_. vok (viWitnessDestination v))
      | EMux m \<Rightarrow>
          vthen (check_that (unat position < length (muxWitnessDestinations m)) ErrPosition)
            (\<lambda>_. vok (muxWitnessDestinations m ! unat position))
      | _ \<Rightarrow> verr (ErrBc BErrEntryType))"

text \<open>
  \<^verbatim>\<open>checkValidSrc\<close>. The message of \<^verbatim>\<open>ErrMismatchedReference\<close> reads through the reference, so that a nil
  reference panics.
\<close>

definition checkValidSrc :: "(vpos \<Rightarrow> Entry option \<Rightarrow> unit vop) \<Rightarrow> valEnv \<Rightarrow> vpos \<Rightarrow> ValueSource option \<Rightarrow> unit vop" where
  "checkValidSrc rec E p src =
     (case src of
        None \<Rightarrow> verr ErrMissingField
      | Some vs \<Rightarrow>
          (case srcRef vs of
             None \<Rightarrow> verr ErrMissingField
           | Some ref \<Rightarrow>
               if srcValue vs = None \<or> aaAssetId (the (srcValue vs)) = None then verr ErrMissingField
               else case Entries (eTx E) ref of
                 None \<Rightarrow> verr (ErrBc BErrMissingEntry)
               | Some e \<Rightarrow>
                   vthen (rec (p\<lparr>entryID := ref\<rparr>) (Some e)) (\<lambda>_.
                   vthen (source_dest e (srcPosition vs)) (\<lambda>dest.
                   vthen (deref dest) (\<lambda>d.
                   vthen (deref (dstRef d)) (\<lambda>r.
                   vthen (check_that (r = entryID p) ErrMismatchedReference) (\<lambda>_.
                   vthen (check_that (dstPosition d = sourcePos p) ErrMismatchedPosition) (\<lambda>_.
                     case aaEqual (dstValue d) (srcValue vs) of
                       None \<Rightarrow> verr ErrMissingField
                     | Some eq \<Rightarrow> check_that eq ErrMismatchedValue))))))))"

definition dest_source :: "Entry \<Rightarrow> u64 \<Rightarrow> ValueSource option vop" where
  "dest_source e position =
     (case e of
        EOriginalOutput x \<Rightarrow> vthen (check_that (position = 0) ErrPosition) (\<lambda>_. vok (ooSource x))
      | ERetirement x \<Rightarrow> vthen (check_that (position = 0) ErrPosition) (\<lambda>_. vok (reSource x))
      | EVoteOutput x \<Rightarrow> vthen (check_that (position = 0) ErrPosition) (\<lambda>_. vok (voSource x))
      | EMux m \<Rightarrow>
          vthen (check_that (unat position < length (muxSources m)) ErrPosition)
            (\<lambda>_. vok (muxSources m ! unat position))
      | _ \<Rightarrow> verr (ErrBc BErrEntryType))"

definition checkValidDest :: "valEnv \<Rightarrow> vpos \<Rightarrow> ValueDestination option \<Rightarrow> unit vop" where
  "checkValidDest E p dst =
     (case dst of
        None \<Rightarrow> verr ErrMissingField
      | Some vd \<Rightarrow>
          (case dstRef vd of
             None \<Rightarrow> verr ErrMissingField
           | Some ref \<Rightarrow>
               if dstValue vd = None \<or> aaAssetId (the (dstValue vd)) = None then verr ErrMissingField
               else case Entries (eTx E) ref of
                 None \<Rightarrow> verr (ErrBc BErrMissingEntry)
               | Some e \<Rightarrow>
                   vthen (dest_source e (dstPosition vd)) (\<lambda>src.
                   vthen (deref src) (\<lambda>s.
                   vthen (deref (srcRef s)) (\<lambda>r.
                   vthen (check_that (r = entryID p) ErrMismatchedReference) (\<lambda>_.
                   vthen (check_that (srcPosition s = destPos p) ErrMismatchedPosition) (\<lambda>_.
                     case aaEqual (srcValue s) (dstValue vd) of
                       None \<Rightarrow> verr ErrMissingField
                     | Some eq \<Rightarrow> check_that eq ErrMismatchedValue)))))))"

subsection \<open>The mux\<close>

text \<open>
  The balances of the assets. The map \<^verbatim>\<open>parity\<close> is an association list without repeated keys; a
  missing key reads as 0 in the first loop and is an error in the second.
\<close>

definition parity_get :: "(AssetID \<times> int) list \<Rightarrow> AssetID \<Rightarrow> int" where
  "parity_get m a = (case map_of m a of None \<Rightarrow> 0 | Some n \<Rightarrow> n)"

definition parity_set :: "AssetID \<Rightarrow> int \<Rightarrow> (AssetID \<times> int) list \<Rightarrow> (AssetID \<times> int) list" where
  "parity_set a n m = AList.update a n m"

definition value_parts :: "AssetAmount option \<Rightarrow> (AssetID \<times> u64) vop" where
  "value_parts v = vthen (deref v) (\<lambda>v. vthen (deref (aaAssetId v)) (\<lambda>a. vok (a, aaAmount v)))"

primrec mux_sources :: "ValueSource option list \<Rightarrow> (AssetID \<times> int) list \<Rightarrow> (AssetID \<times> int) list vop" where
  "mux_sources [] m = vok m"
| "mux_sources (src # l) m =
     vthen (deref src) (\<lambda>s.
     vthen (deref (srcValue s)) (\<lambda>v.
     vthen (check_that (uint (aaAmount v) \<le> MaxInt64) ErrSumOverflow) (\<lambda>_.
     vthen (deref (aaAssetId v)) (\<lambda>a.
       case AddInt64 (parity_get m a) (uint (aaAmount v)) of (tot, ok) \<Rightarrow>
         vthen (check_that ok ErrSumOverflow) (\<lambda>_. mux_sources l (parity_set a tot m))))))"

primrec mux_dests :: "ValueDestination option list \<Rightarrow> (AssetID \<times> int) list \<Rightarrow> (AssetID \<times> int) list vop" where
  "mux_dests [] m = vok m"
| "mux_dests (dst # l) m =
     vthen (deref dst) (\<lambda>d.
     vthen (deref (dstValue d)) (\<lambda>v.
     vthen (deref (aaAssetId v)) (\<lambda>a.
       case map_of m a of
         None \<Rightarrow> verr ErrNoSource
       | Some tot \<Rightarrow>
           vthen (check_that (uint (aaAmount v) \<le> MaxInt64) ErrSumOverflow) (\<lambda>_.
             case SubInt64 tot (uint (aaAmount v)) of (diff, ok) \<Rightarrow>
               vthen (check_that ok ErrSumOverflow) (\<lambda>_. mux_dests l (parity_set a diff m))))))"

primrec mux_balance :: "int \<Rightarrow> (AssetID \<times> int) list \<Rightarrow> unit vop" where
  "mux_balance txSize [] = vok ()"
| "mux_balance txSize (x # l) =
     vthen (if fst x = BTMAssetID then on_gas (setGas (snd x) txSize) else check_that (snd x = 0) ErrUnbalanced)
       (\<lambda>_. mux_balance txSize l)"

text \<open>The conversion \<^verbatim>\<open>int64(vs.tx.SerializedSize)\<close> reinterprets the 64 bits.\<close>

definition checkMux :: "(vpos \<Rightarrow> Entry option \<Rightarrow> unit vop) \<Rightarrow> valEnv \<Rightarrow> vpos \<Rightarrow> Mux \<Rightarrow> unit vop" where
  "checkMux rec E p m =
     vthen (mux_sources (muxSources m) []) (\<lambda>m1.
     vthen (mux_dests (muxWitnessDestinations m) m1) (\<lambda>m2.
     vthen (mux_balance (int64_of (hdrSerializedSize (TxHeader_of (eTx E)))) (eRange E m2)) (\<lambda>_.
     vthen (vforeach 0 (\<lambda>i d. checkValidDest E (p\<lparr>destPos := of_nat i\<rparr>) d) (muxWitnessDestinations m)) (\<lambda>_.
     vthen (vforeach 0 (\<lambda>i s. checkValidSrc rec E (p\<lparr>sourcePos := of_nat i\<rparr>) s) (muxSources m)) (\<lambda>_.
       on_gas chargeStorageGas)))))"

subsection \<open>The other entries\<close>

definition checkTxHeader :: "(vpos \<Rightarrow> Entry option \<Rightarrow> unit vop) \<Rightarrow> valEnv \<Rightarrow> vpos \<Rightarrow> TxHeader \<Rightarrow> unit vop" where
  "checkTxHeader rec E p h =
     vthen (vforeach 0 (\<lambda>i resID. vthen (deref resID) (\<lambda>r. rec (p\<lparr>entryID := r\<rparr>) (Entries (eTx E) r))) (hdrResultIds h)) (\<lambda>_.
       check_that (\<not> (hdrVersion h = 1 \<and> length (hdrResultIds h) = 0)) ErrEmptyResults)"

definition checkVoteOutput :: "(vpos \<Rightarrow> Entry option \<Rightarrow> unit vop) \<Rightarrow> valEnv \<Rightarrow> vpos \<Rightarrow> VoteOutput \<Rightarrow> unit vop" where
  "checkVoteOutput rec E p v =
     vthen (check_that (length (voVote v) = 64) ErrVotePubKey) (\<lambda>_.
     vthen (checkValidSrc rec E (p\<lparr>sourcePos := 0\<rparr>) (voSource v)) (\<lambda>_.
     vthen (deref (voSource v)) (\<lambda>src.
     vthen (value_parts (srcValue src)) (\<lambda>(a, n).
     vthen (check_that (\<not> n < MinVoteOutputAmount) ErrVoteOutputAmount) (\<lambda>_.
       check_that (a = BTMAssetID) ErrVoteOutputAseet)))))"

definition checkIssuance :: "valEnv \<Rightarrow> vpos \<Rightarrow> Issuance \<Rightarrow> unit vop" where
  "checkIssuance E p i =
     vthen (deref (isWitnessAssetDefinition i)) (\<lambda>ad s.
       vthen (value_parts (isValue i)) (\<lambda>(a, _).
       vthen (check_that (definition_AssetID (eLib E) (mem s) ad = a) ErrMismatchedAssetID) (\<lambda>_.
       vthen (runProgram E (EIssuance i) (IssuanceProgram ad) (Some []) (isWitnessArguments i)) (\<lambda>_.
         checkValidDest E (p\<lparr>destPos := 0\<rparr>) (isWitnessDestination i)))) s)"

text \<open>The comparison of the value of a spent output with the value that goes to the destination.\<close>

definition checkSpentValue :: "ValueSource option \<Rightarrow> ValueDestination option \<Rightarrow> unit vop" where
  "checkSpentValue src dst =
     vthen (deref src) (\<lambda>s. vthen (deref dst) (\<lambda>d.
       case aaEqual (srcValue s) (dstValue d) of
         None \<Rightarrow> verr ErrEmptyAmount
       | Some eq \<Rightarrow> check_that eq ErrMismatchedValue))"

definition checkSpend :: "valEnv \<Rightarrow> vpos \<Rightarrow> Spend \<Rightarrow> unit vop" where
  "checkSpend E p sp =
     (case spSpentOutputId sp of
        None \<Rightarrow> verr ErrMissingField
      | Some so \<Rightarrow>
          (case tx_OriginalOutput (eTx E) so of
             Inl e \<Rightarrow> verr (ErrBc e)
           | Inr spentOutput \<Rightarrow>
               vthen (runProgram E (ESpend sp) (ooControlProgram spentOutput) (ooStateData spentOutput) (spWitnessArguments sp)) (\<lambda>_.
               vthen (checkSpentValue (ooSource spentOutput) (spWitnessDestination sp)) (\<lambda>_.
                 checkValidDest E (p\<lparr>destPos := 0\<rparr>) (spWitnessDestination sp)))))"

definition checkVetoInput :: "valEnv \<Rightarrow> vpos \<Rightarrow> VetoInput \<Rightarrow> unit vop" where
  "checkVetoInput E p vi =
     (case viSpentOutputId vi of
        None \<Rightarrow> verr ErrMissingField
      | Some so \<Rightarrow>
          (case tx_VoteOutput (eTx E) so of
             Inl e \<Rightarrow> verr (ErrBc e)
           | Inr voteOutput \<Rightarrow>
               vthen (check_that (length (voVote voteOutput) = 64) ErrVotePubKey) (\<lambda>_.
               vthen (runProgram E (EVetoInput vi) (voControlProgram voteOutput) (voStateData voteOutput) (viWitnessArguments vi)) (\<lambda>_.
               vthen (checkSpentValue (voSource voteOutput) (viWitnessDestination vi)) (\<lambda>_.
                 checkValidDest E (p\<lparr>destPos := 0\<rparr>) (viWitnessDestination vi))))))"

definition checkCoinbase :: "valEnv \<Rightarrow> vpos \<Rightarrow> Coinbase \<Rightarrow> unit vop" where
  "checkCoinbase E p c =
     vthen (check_that (case blkTransactions (eBlock E) of [] \<Rightarrow> False | t # _ \<Rightarrow> t = eTxRef E) ErrWrongCoinbaseTransaction) (\<lambda>_.
     vthen (deref (cbWitnessDestination c)) (\<lambda>d.
     vthen (value_parts (dstValue d)) (\<lambda>(a, _).
     vthen (check_that (a = BTMAssetID) ErrWrongCoinbaseAsset) (\<lambda>_.
     vthen (check_that (\<not> length (cbArbitrary c) > CoinbaseArbitrarySizeLimit) ErrCoinbaseArbitraryOversize) (\<lambda>_.
     vthen (checkValidDest E (p\<lparr>destPos := 0\<rparr>) (cbWitnessDestination c)) (\<lambda>_ s.
       (VOk (), s\<lparr>gasStatus := (gasStatus s)\<lparr>StorageGas := 0\<rparr>\<rparr>)))))))"

text \<open>The switch over the type of the entry; a nil entry and other types are errors.\<close>

definition checkEntryType :: "(vpos \<Rightarrow> Entry option \<Rightarrow> unit vop) \<Rightarrow> valEnv \<Rightarrow> vpos \<Rightarrow> Entry option \<Rightarrow> unit vop" where
  "checkEntryType rec E p e =
     (case e of
        Some (ETxHeader h) \<Rightarrow> checkTxHeader rec E p h
      | Some (EMux m) \<Rightarrow> checkMux rec E p m
      | Some (EOriginalOutput out) \<Rightarrow> checkValidSrc rec E (p\<lparr>sourcePos := 0\<rparr>) (ooSource out)
      | Some (ERetirement out) \<Rightarrow> checkValidSrc rec E (p\<lparr>sourcePos := 0\<rparr>) (reSource out)
      | Some (EVoteOutput out) \<Rightarrow> checkVoteOutput rec E p out
      | Some (EIssuance i) \<Rightarrow> checkIssuance E p i
      | Some (ESpend sp) \<Rightarrow> checkSpend E p sp
      | Some (EVetoInput vi) \<Rightarrow> checkVetoInput E p vi
      | Some (ECoinbase c) \<Rightarrow> checkCoinbase E p c
      | _ \<Rightarrow> verr ErrUnexpectedType)"

text \<open>The deferred function that records the result.\<close>

definition memoize :: "Hash \<Rightarrow> unit vop \<Rightarrow> unit vop" where
  "memoize i m s =
     (case m s of
        (VOk x, s') \<Rightarrow> (VOk x, s'\<lparr>cache := (cache s')(i \<mapsto> None)\<rparr>)
      | (VErr e, s') \<Rightarrow> (VErr e, s'\<lparr>cache := (cache s')(i \<mapsto> Some e)\<rparr>)
      | r \<Rightarrow> r)"

text \<open>
  \<^verbatim>\<open>checkValid\<close>. The recursion follows the references of value sources, which the source does not
  bound; \<open>n\<close> bounds its depth here, and a walk that the bound cuts off is \<open>VNoFuel\<close>.
\<close>

primrec checkValid :: "nat \<Rightarrow> valEnv \<Rightarrow> vpos \<Rightarrow> Entry option \<Rightarrow> unit vop" where
  "checkValid 0 E p e = (\<lambda>s. (VNoFuel, s))"
| "checkValid (Suc n) E p e =
     (\<lambda>s. case EntryID_of (eLib E) (mem s) e of
            None \<Rightarrow> (VPanic, s)
          | Some i \<Rightarrow>
              (case cache s i of
                 Some None \<Rightarrow> (VOk (), s)
               | Some (Some err) \<Rightarrow> (VErr err, s)
               | None \<Rightarrow> memoize i (checkEntryType (checkValid n E) E p e) s))"

section \<open>ValidateTx\<close>

primrec double_spend_loop :: "Hash set \<Rightarrow> Hash list \<Rightarrow> val_err option" where
  "double_spend_loop used [] = None"
| "double_spend_loop used (i # l) = (if i \<in> used then Some ErrInputDoubleSend else double_spend_loop (insert i used) l)"

definition checkDoubleSpend :: "Tx \<Rightarrow> val_err option" where
  "checkDoubleSpend tx = double_spend_loop {} (InputIDs tx)"

definition checkTimeRange :: "Tx \<Rightarrow> Block \<Rightarrow> val_err option" where
  "checkTimeRange tx block =
     (if hdrTimeRange (TxHeader_of tx) = 0 then None
      else if hdrTimeRange (TxHeader_of tx) < bhHeight (blkHeader block) then Some ErrBadTimeRange else None)"

text \<open>The gas status, or the error, and the memory that the programs of the transaction leave.\<close>

definition ValidateTx :: "nat \<Rightarrow> valEnv \<Rightarrow> store \<Rightarrow> GasState vout \<times> store" where
  "ValidateTx n E st =
     (let tx = eTx E; block = eBlock E; h = TxHeader_of tx in
      if bhVersion (blkHeader block) = 1 \<and> hdrVersion h \<noteq> 1 then (VErr ErrTxVersion, st)
      else if hdrSerializedSize h = 0 then (VErr ErrWrongTransactionSize, st)
      else case checkTimeRange tx block of
        Some e \<Rightarrow> (VErr e, st)
      | None \<Rightarrow>
          (case checkDoubleSpend tx of
             Some e \<Rightarrow> (VErr e, st)
           | None \<Rightarrow>
               (case checkValid n E \<lparr>entryID = txID tx, sourcePos = 0, destPos = 0\<rparr> (Some (ETxHeader h))
                       \<lparr>gasStatus = zeroGas, cache = Map.empty, mem = st\<rparr> of
                  (VOk _, s) \<Rightarrow> (VOk (gasStatus s), mem s)
                | (VErr e, s) \<Rightarrow> (VErr e, mem s)
                | (VPanic, s) \<Rightarrow> (VPanic, mem s)
                | (VNoFuel, s) \<Rightarrow> (VNoFuel, mem s))))"

end
