(* ===== verification/ValidationProps.thy ===== *)
theory ValidationProps
  imports Validation "HOL-Library.Multiset"
begin

text \<open>
  What an accepted transaction satisfies: the mux balances its assets, the gas is accounted for,
  no input is used twice.
\<close>

section \<open>Runs that succeed\<close>

lemma vthen_ok: "vthen m f s = (VOk y, s') \<longleftrightarrow> (\<exists>x s1. m s = (VOk x, s1) \<and> f x s1 = (VOk y, s'))"
  by (auto simp: vthen_def split: prod.splits vout.splits)

lemma vok_ok [simp]: "vok x s = (VOk y, s') \<longleftrightarrow> x = y \<and> s' = s"
  by (auto simp: vok_def)

lemma verr_ok [simp]: "verr e s \<noteq> (VOk y, s')"
  by (simp add: verr_def)

lemma deref_ok [simp]: "deref p s = (VOk y, s') \<longleftrightarrow> p = Some y \<and> s' = s"
  by (auto simp: deref_def split: option.splits)

lemma check_that_ok [simp]: "check_that b e s = (VOk y, s') \<longleftrightarrow> b \<and> s' = s"
  by (auto simp: check_that_def)

lemmas ok_simps = vthen_ok vok_ok verr_ok deref_ok check_that_ok

section \<open>The balance of the mux\<close>

definition src_value :: "AssetID \<Rightarrow> ValueSource option \<Rightarrow> int" where
  "src_value a s =
     (case s of
        Some src \<Rightarrow> (case srcValue src of Some v \<Rightarrow> if aaAssetId v = Some a then uint (aaAmount v) else 0 | None \<Rightarrow> 0)
      | None \<Rightarrow> 0)"

definition dst_value :: "AssetID \<Rightarrow> ValueDestination option \<Rightarrow> int" where
  "dst_value a d =
     (case d of
        Some dst \<Rightarrow> (case dstValue dst of Some v \<Rightarrow> if aaAssetId v = Some a then uint (aaAmount v) else 0 | None \<Rightarrow> 0)
      | None \<Rightarrow> 0)"

definition src_total :: "AssetID \<Rightarrow> ValueSource option list \<Rightarrow> int" where
  "src_total a l = sum_list (map (src_value a) l)"

definition dst_total :: "AssetID \<Rightarrow> ValueDestination option list \<Rightarrow> int" where
  "dst_total a l = sum_list (map (dst_value a) l)"

lemma parity_get_set: "parity_get (parity_set b n m) a = (if a = b then n else parity_get m a)"
  by (simp add: parity_get_def parity_set_def update_conv')

definition parity_ok :: "(AssetID \<times> int) list \<Rightarrow> bool" where
  "parity_ok m \<longleftrightarrow> distinct (map fst m) \<and> (\<forall>a n. map_of m a = Some n \<longrightarrow> in_i64 n)"

lemma parity_ok_get: "parity_ok m \<Longrightarrow> in_i64 (parity_get m a)"
  by (auto simp: parity_ok_def parity_get_def in_i64_iff split: option.splits)

lemma parity_ok_set: "parity_ok m \<Longrightarrow> in_i64 n \<Longrightarrow> parity_ok (parity_set a n m)"
  by (simp add: parity_ok_def parity_set_def distinct_update update_conv')

lemma keys_set: "fst ` set (parity_set a n m) = insert a (fst ` set m)"
  by (simp add: parity_set_def dom_update)

lemma amount_i64: "uint (n :: u64) \<le> MaxInt64 \<Longrightarrow> in_i64 (uint n)"
  by (simp add: in_i64_iff order_trans [of _ 0])

lemma mux_sources_ok:
  assumes "mux_sources l m s = (VOk m', s')" "parity_ok m"
  shows "s' = s \<and> parity_ok m' \<and> (\<forall>a. parity_get m' a = parity_get m a + src_total a l) \<and>
         fst ` set m \<subseteq> fst ` set m' \<and> (\<forall>a. a \<notin> fst ` set m' \<longrightarrow> src_total a l = 0)"
  using assms
proof (induction l arbitrary: m)
  case (Cons x l)
  from Cons.prems(1) obtain src v a tot where x: "x = Some src" "srcValue src = Some v" "aaAssetId v = Some a"
    "uint (aaAmount v) \<le> MaxInt64" and add: "AddInt64 (parity_get m a) (uint (aaAmount v)) = (tot, True)"
    and rest: "mux_sources l (parity_set a tot m) s = (VOk m', s')"
    by (simp add: ok_simps case_prod_beta) (metis prod.collapse)
  have tot: "tot = parity_get m a + uint (aaAmount v)" "in_i64 tot"
    using add x(4) Cons.prems(2) int64.add_ok_iff [of "parity_get m a" "uint (aaAmount v)" tot]
    by (auto simp: amount_i64 parity_ok_get)
  have v: "src_value b x = (if b = a then uint (aaAmount v) else 0)" for b
    by (simp add: src_value_def x)
  have ok: "parity_ok (parity_set a tot m)"
    by (rule parity_ok_set [OF Cons.prems(2) tot(2)])
  from Cons.IH [OF rest ok] show ?case
    by (auto simp: parity_get_set src_total_def v tot(1) keys_set)
qed (auto simp: src_total_def)

lemma mux_dests_ok:
  assumes "mux_dests l m s = (VOk m', s')" "parity_ok m"
  shows "s' = s \<and> parity_ok m' \<and> (\<forall>a. parity_get m' a = parity_get m a - dst_total a l) \<and>
         fst ` set m' = fst ` set m \<and> (\<forall>a. a \<notin> fst ` set m \<longrightarrow> dst_total a l = 0)"
  using assms
proof (induction l arbitrary: m)
  case (Cons x l)
  from Cons.prems(1) obtain dst v a old d where x: "x = Some dst" "dstValue dst = Some v" "aaAssetId v = Some a"
    "uint (aaAmount v) \<le> MaxInt64" "map_of m a = Some old" and sub: "SubInt64 old (uint (aaAmount v)) = (d, True)"
    and rest: "mux_dests l (parity_set a d m) s = (VOk m', s')"
    by (simp add: ok_simps case_prod_beta split: option.splits) (metis prod.collapse)
  have old: "parity_get m a = old" by (simp add: parity_get_def x)
  have d: "d = old - uint (aaAmount v)" "in_i64 d"
    using sub x(4) parity_ok_get [OF Cons.prems(2), of a] int64.sub_ok_iff [of old "uint (aaAmount v)" d]
    by (auto simp: amount_i64 old)
  have v: "dst_value b x = (if b = a then uint (aaAmount v) else 0)" for b
    by (simp add: dst_value_def x)
  have "a \<in> fst ` set m" using x(5) by (metis map_of_eq_None_iff option.distinct(1))
  then have keys: "fst ` set (parity_set a d m) = fst ` set m"
    by (auto simp: keys_set)
  have ok: "parity_ok (parity_set a d m)"
    by (rule parity_ok_set [OF Cons.prems(2) d(2)])
  from Cons.IH [OF rest ok] show ?case
    using \<open>a \<in> fst ` set m\<close> unfolding keys by (auto simp: parity_get_set dst_total_def v d(1) old)
qed (auto simp: dst_total_def)

text \<open>The gas that a fee buys.\<close>

definition gas_of :: "int \<Rightarrow> int" where
  "gas_of btm = min (btm div 200) 300000"

lemma setGas_ok:
  assumes "setGas btm sz g = (None, g')" "in_i64 btm" "in_i64 sz"
  shows "0 \<le> btm \<and> g' = g\<lparr>BTMValue := of_int btm, GasLeft := gas_of btm, StorageGas := sz\<rparr>"
proof -
  have b: "0 \<le> btm" using assms(1) by (auto simp: setGas_def split: if_splits)
  have "in_i64 (btm div 200)"
    using assms(2) b by (auto simp: in_i64_iff)
  then have "DivInt64 btm 200 = (btm div 200, True)" "MulInt64 sz 1 = (sz, True)"
    using assms(2,3) b int64.quo_law [of btm 200] int64.mul_law [of sz 1]
    by (simp_all add: in_i64_iff exact_or_fail_def sdiv_nonneg_eq)
  with b assms(1) show ?thesis
    by (auto simp: setGas_def Let_def gas_of_def min_def split: if_splits)
qed

lemma mux_balance_ok:
  assumes "mux_balance sz l s = (VOk (), s')" "distinct (map fst l)" "\<forall>x \<in> set l. in_i64 (snd x)" "in_i64 sz"
  shows "(\<forall>a n. (a, n) \<in> set l \<longrightarrow> (if a = BTMAssetID then 0 \<le> n else n = 0)) \<and>
         s' = (case map_of l BTMAssetID of
                 None \<Rightarrow> s
               | Some n \<Rightarrow> s\<lparr>gasStatus := (gasStatus s)\<lparr>BTMValue := of_int n, GasLeft := gas_of n, StorageGas := sz\<rparr>\<rparr>)"
  using assms
proof (induction l arbitrary: s)
  case (Cons x l)
  then obtain s1 where first: "(if fst x = BTMAssetID then on_gas (setGas (snd x) sz) else check_that (snd x = 0) ErrUnbalanced) s = (VOk (), s1)"
    and rest: "mux_balance sz l s1 = (VOk (), s')"
    by (auto simp: vthen_ok)
  note IH = Cons.IH [OF rest]
  show ?case
  proof (cases "fst x = BTMAssetID")
    case True
    have "BTMAssetID \<notin> fst ` set l" using Cons.prems(2) True by auto
    then have "map_of l BTMAssetID = None" by (simp add: map_of_eq_None_iff)
    moreover obtain g' where "setGas (snd x) sz (gasStatus s) = (None, g')" "s1 = s\<lparr>gasStatus := g'\<rparr>"
      using first True by (auto simp: on_gas_def split: prod.splits option.splits)
    ultimately show ?thesis
      using IH Cons.prems True setGas_ok [of "snd x" sz "gasStatus s" g'] \<open>BTMAssetID \<notin> fst ` set l\<close>
      by (cases x) (auto simp: image_iff)
  next
    case False
    with first have "snd x = 0" "s1 = s" by auto
    with IH Cons.prems False show ?thesis by (cases x) auto
  qed
qed simp

text \<open>What the language promises of a loop over a map: every entry comes once, in some order.\<close>

definition range_ok :: "valEnv \<Rightarrow> bool" where
  "range_ok E \<longleftrightarrow> (\<forall>m. mset (eRange E m) = mset m)"

lemma range_okD:
  assumes "range_ok E" "parity_ok m"
  shows "set (eRange E m) = set m" "distinct (map fst (eRange E m))" "map_of (eRange E m) a = map_of m a"
    "\<forall>x \<in> set (eRange E m). in_i64 (snd x)"
proof -
  have ms: "mset (eRange E m) = mset m" using assms(1) by (simp add: range_ok_def)
  then show set: "set (eRange E m) = set m" by (rule mset_eq_setD)
  have d: "distinct (map fst m)" using assms(2) by (simp add: parity_ok_def)
  have "mset (map fst (eRange E m)) = mset (map fst m)" using ms by simp
  with d show d': "distinct (map fst (eRange E m))"
    by (metis mset_eq_imp_distinct_iff)
  show "map_of (eRange E m) a = map_of m a"
    using set map_of_inject_set [OF d' d] by simp
  show "\<forall>x \<in> set (eRange E m). in_i64 (snd x)"
    using assms(2) by (auto simp: set parity_ok_def)
qed

definition balanced :: "Mux \<Rightarrow> bool" where
  "balanced m \<longleftrightarrow>
     (\<forall>a. if a = BTMAssetID then dst_total a (muxWitnessDestinations m) \<le> src_total a (muxSources m)
          else dst_total a (muxWitnessDestinations m) = src_total a (muxSources m))"

text \<open>The BTM that a mux does not pass on: the fee.\<close>

definition fee :: "Mux \<Rightarrow> int" where
  "fee m = src_total BTMAssetID (muxSources m) - dst_total BTMAssetID (muxWitnessDestinations m)"

lemma int64_of_range: "in_i64 (int64_of n)"
  by (simp add: int64_of_def swrap_range)

lemma mux_parity_ok:
  assumes "mux_sources (muxSources m) [] s = (VOk m1, s1)" "mux_dests (muxWitnessDestinations m) m1 s1 = (VOk m2, s2)"
    and "mux_balance sz (eRange E m2) s2 = (VOk (), s3)" "range_ok E" "in_i64 sz"
  shows "balanced m \<and> s2 = s \<and>
         (s3 = s \<or> s3 = s\<lparr>gasStatus := (gasStatus s)\<lparr>BTMValue := of_int (fee m), GasLeft := gas_of (fee m), StorageGas := sz\<rparr>\<rparr>)"
proof -
  have e: "parity_ok []" by (simp add: parity_ok_def)
  note S = mux_sources_ok [OF assms(1) e]
  then have ok1: "parity_ok m1" by blast
  note D = mux_dests_ok [OF assms(2) ok1]
  then have ok2: "parity_ok m2" by blast
  note B = mux_balance_ok [OF assms(3) range_okD(2,4) [OF assms(4) ok2] assms(5)]
  have get: "parity_get m2 a = src_total a (muxSources m) - dst_total a (muxWitnessDestinations m)" for a
    using S D by (simp add: parity_get_def [of "[]"])
  have mem: "(a, parity_get m2 a) \<in> set m2" if a: "a \<in> fst ` set m2" for a
  proof -
    obtain n where "map_of m2 a = Some n"
      using a map_of_eq_None_iff [of m2 a] by (cases "map_of m2 a") auto
    then show ?thesis by (simp add: parity_get_def map_of_SomeD)
  qed
  have "balanced m"
    unfolding balanced_def
  proof
    fix a
    show "if a = BTMAssetID then dst_total a (muxWitnessDestinations m) \<le> src_total a (muxSources m)
          else dst_total a (muxWitnessDestinations m) = src_total a (muxSources m)"
    proof (cases "a \<in> fst ` set m2")
      case True
      then have "(a, parity_get m2 a) \<in> set (eRange E m2)"
        using mem range_okD(1) [OF assms(4) ok2] by simp
      with B have "if a = BTMAssetID then 0 \<le> parity_get m2 a else parity_get m2 a = 0" by blast
      then show ?thesis by (simp add: get split: if_splits)
    next
      case False
      with S D show ?thesis by auto
    qed
  qed
  moreover have "n = fee m" if "map_of m2 BTMAssetID = Some n" for n
    using that get [of BTMAssetID] by (simp add: parity_get_def fee_def)
  ultimately show ?thesis
    using B S D range_okD(3) [OF assms(4) ok2] by (auto split: option.splits)
qed

lemma checkMux_ok:
  assumes "checkMux rec E p m s = (VOk (), s')" "range_ok E"
  shows "balanced m"
proof -
  let ?sz = "int64_of (hdrSerializedSize (TxHeader_of (eTx E)))"
  obtain m1 s1 m2 s2 s3 where "mux_sources (muxSources m) [] s = (VOk m1, s1)"
    "mux_dests (muxWitnessDestinations m) m1 s1 = (VOk m2, s2)" "mux_balance ?sz (eRange E m2) s2 = (VOk (), s3)"
    using assms(1) unfolding checkMux_def by (auto simp: vthen_ok)
  from mux_parity_ok [OF this assms(2) int64_of_range] show ?thesis by simp
qed

section \<open>The walk through the entries\<close>

text \<open>The first visit of an entry is not answered by the cache.\<close>

lemma checkValid_miss:
  assumes "checkValid n E p e s = (VOk (), s')" "cache s = Map.empty"
  shows "\<exists>k s1. n = Suc k \<and> checkEntryType (checkValid k E) E p e s = (VOk (), s1)"
proof (cases n)
  case (Suc k)
  with assms show ?thesis
    by (auto simp: memoize_def split: option.splits prod.splits vout.splits)
qed (use assms in simp)

lemma vforeach_first:
  assumes "vforeach i f (x # l) s = (VOk (), s')"
  shows "\<exists>s1. f i x s = (VOk (), s1)"
  using assms by (auto simp: vthen_ok)

lemma checkValidSrc_ok:
  assumes "checkValidSrc rec E p (Some src) s = (VOk (), s')"
  shows "\<exists>ref e s1. srcRef src = Some ref \<and> Entries (eTx E) ref = Some e \<and> rec (p\<lparr>entryID := ref\<rparr>) (Some e) s = (VOk (), s1)"
  using assms by (auto simp: checkValidSrc_def ok_simps split: option.splits if_splits)

definition out_source :: "Entry \<Rightarrow> ValueSource option" where
  "out_source e =
     (case e of EOriginalOutput x \<Rightarrow> ooSource x | ERetirement x \<Rightarrow> reSource x | EVoteOutput x \<Rightarrow> voSource x | _ \<Rightarrow> None)"

lemma checkEntryType_output:
  assumes "checkEntryType rec E p (Some e) s = (VOk (), s')" "out_source e = Some src"
  shows "\<exists>s1. checkValidSrc rec E (p\<lparr>sourcePos := 0\<rparr>) (Some src) s = (VOk (), s1)"
  using assms by (cases e) (auto simp: checkEntryType_def out_source_def checkVoteOutput_def ok_simps)

text \<open>
  A transaction that is accepted has a first result, and the mux it comes from is balanced.
\<close>

lemma ValidateTx_first_mux:
  assumes "ValidateTx n E st = (VOk g, st')" "bhVersion (blkHeader (eBlock E)) = 1" "range_ok E"
    and "hdrResultIds (TxHeader_of (eTx E)) = Some r # rs"
    and "Entries (eTx E) r = Some e" "out_source e = Some src" "srcRef src = Some mid" "Entries (eTx E) mid = Some (EMux m)"
  shows "balanced m"
proof -
  let ?h = "TxHeader_of (eTx E)"
  let ?s = "\<lparr>gasStatus = zeroGas, cache = Map.empty, mem = st\<rparr>"
  obtain s1 where "checkValid n E \<lparr>entryID = txID (eTx E), sourcePos = 0, destPos = 0\<rparr> (Some (ETxHeader ?h)) ?s = (VOk (), s1)"
    using assms(1) by (auto simp: ValidateTx_def Let_def split: if_splits option.splits prod.splits vout.splits)
  from checkValid_miss [OF this] obtain k s2 where
    "checkTxHeader (checkValid k E) E \<lparr>entryID = txID (eTx E), sourcePos = 0, destPos = 0\<rparr> ?h ?s = (VOk (), s2)"
    by (auto simp: checkEntryType_def)
  then obtain s3 where "checkValid k E \<lparr>entryID = r, sourcePos = 0, destPos = 0\<rparr> (Some e) ?s = (VOk (), s3)"
    using assms(4,5) by (auto simp: checkTxHeader_def ok_simps dest!: vforeach_first)
  from checkValid_miss [OF this] obtain j s4 where
    "checkEntryType (checkValid j E) E \<lparr>entryID = r, sourcePos = 0, destPos = 0\<rparr> (Some e) ?s = (VOk (), s4)" by auto
  from checkEntryType_output [OF this assms(6)] obtain s5 p where
    "checkValid j E p (Some (EMux m)) ?s = (VOk (), s5)"
    using assms(7,8) by (auto dest!: checkValidSrc_ok)
  from checkValid_miss [OF this] obtain i s6 where "checkMux (checkValid i E) E p m ?s = (VOk (), s6)"
    by (auto simp: checkEntryType_def)
  then show ?thesis using assms(3) by (rule checkMux_ok)
qed

lemma ValidateTx_has_result:
  assumes "ValidateTx n E st = (VOk g, st')" "bhVersion (blkHeader (eBlock E)) = 1"
  shows "hdrResultIds (TxHeader_of (eTx E)) \<noteq> []" "hdrVersion (TxHeader_of (eTx E)) = 1" "checkDoubleSpend (eTx E) = None"
proof -
  let ?h = "TxHeader_of (eTx E)"
  let ?s = "\<lparr>gasStatus = zeroGas, cache = Map.empty, mem = st\<rparr>"
  obtain s1 where v: "checkValid n E \<lparr>entryID = txID (eTx E), sourcePos = 0, destPos = 0\<rparr> (Some (ETxHeader ?h)) ?s = (VOk (), s1)"
    and ver: "hdrVersion ?h = 1" and ds: "checkDoubleSpend (eTx E) = None"
    using assms by (auto simp: ValidateTx_def Let_def split: if_splits option.splits prod.splits vout.splits)
  from checkValid_miss [OF v] ver show "hdrResultIds ?h \<noteq> []"
    by (auto simp: checkEntryType_def checkTxHeader_def ok_simps)
  show "hdrVersion ?h = 1" "checkDoubleSpend (eTx E) = None" by fact+
qed

section \<open>Double spends\<close>

lemma double_spend_loop_iff: "double_spend_loop used l = None \<longleftrightarrow> distinct l \<and> set l \<inter> used = {}"
  by (induction l arbitrary: used) auto

lemma checkDoubleSpend_iff: "checkDoubleSpend tx = None \<longleftrightarrow> distinct (InputIDs tx)"
  by (simp add: checkDoubleSpend_def double_spend_loop_iff)

end
