(* ===== verification/MapTxProps.thy ===== *)
theory MapTxProps
  imports MapTx BcProps ValidationProps
begin

text \<open>
  The entries that \<^verbatim>\<open>MapTx\<close> makes of a transaction: under the identifier of the mux there is a mux that
  has one source per input and one destination per output, with their values, and every result
  comes from it.
\<close>

section \<open>Identifiers and the heap\<close>

lemma EntryID_of_cong:
  "writeForHash st e = writeForHash st e' \<Longrightarrow> entry_typ e = entry_typ e' \<Longrightarrow> EntryID_of L st (Some e) = EntryID_of L st (Some e')"
  by (simp add: EntryID_of_def)

lemma SetDestination_same [simp]:
  "writeForHash st (SetDestination i v p e) = writeForHash st e" "entry_typ (SetDestination i v p e) = entry_typ e"
  by (simp_all add: SetDestination_def Let_def split: Entry.splits)

lemma add_dest_same [simp]: "writeForHash st (add_dest d e) = writeForHash st e" "entry_typ (add_dest d e) = entry_typ e"
  by (simp_all add: add_dest_def split: Entry.splits)

lemma EntryID_same [simp]:
  "EntryID_of L st (Some (SetDestination i v p e)) = EntryID_of L st (Some e)"
  "EntryID_of L st (Some (add_dest d e)) = EntryID_of L st (Some e)"
  by (rule EntryID_of_cong; simp)+

text \<open>The slices of an entry lie in the memory, so that new arrays do not change its identifier.\<close>

definition prog_in :: "store \<Rightarrow> Program option \<Rightarrow> bool" where
  "prog_in st p \<longleftrightarrow> (\<forall>x. p = Some x \<longrightarrow> s_arr (progCode x) < length st)"

definition state_in :: "store \<Rightarrow> slice list option \<Rightarrow> bool" where
  "state_in st d \<longleftrightarrow> (\<forall>l. d = Some l \<longrightarrow> (\<forall>s \<in> set l. s_arr s < length st))"

definition entry_in :: "store \<Rightarrow> Entry \<Rightarrow> bool" where
  "entry_in st e =
     (case e of
        EOriginalOutput x \<Rightarrow> prog_in st (ooControlProgram x) \<and> state_in st (ooStateData x)
      | EVoteOutput x \<Rightarrow> prog_in st (voControlProgram x) \<and> state_in st (voStateData x)
      | EMux m \<Rightarrow> prog_in st (muxProgram m)
      | _ \<Rightarrow> True)"

lemma w_program_extend: "prog_in st p \<Longrightarrow> w_ptr (w_program (st @ ext)) p = w_ptr (w_program st) p"
  by (auto simp: w_ptr_def w_program_def prog_in_def split: option.splits)

lemma w_state_extend: "state_in st d \<Longrightarrow> w_state (st @ ext) d = w_state st d"
  by (auto simp: w_state_def state_in_def split: option.splits intro!: arg_cong [of _ _ w_byteslist])

lemma EntryID_extend: "entry_in st e \<Longrightarrow> EntryID_of L (st @ ext) (Some e) = EntryID_of L st (Some e)"
  by (cases e) (auto simp: EntryID_of_def entry_in_def w_program_extend w_state_extend)

lemma prog_in_extend: "prog_in st p \<Longrightarrow> prog_in (st @ ext) p"
  by (auto simp: prog_in_def)

lemma state_in_extend: "state_in st d \<Longrightarrow> state_in (st @ ext) d"
  unfolding state_in_def by (metis length_append trans_less_add1)

lemma entry_in_extend: "entry_in st e \<Longrightarrow> entry_in (st @ ext) e"
  by (cases e) (auto simp: entry_in_def prog_in_extend state_in_extend)

text \<open>Every key of the map is the identifier of the entry it leads to.\<close>

definition ids_ok :: "lib \<Rightarrow> store \<Rightarrow> mapHelper \<Rightarrow> bool" where
  "ids_ok L st mh \<longleftrightarrow>
     (\<forall>h p. mhEntryMap mh h = Some p \<longrightarrow> p < length (mhHeap mh) \<and> EntryID_of L st (Some (mhHeap mh ! p)) = Some h)"

lemma addEntry_spec:
  assumes "addEntry L st e mh = Some (i, p, mh')"
  shows "EntryID_of L st (Some e) = Some i \<and> p = length (mhHeap mh) \<and>
         mh' = mh\<lparr>mhHeap := mhHeap mh @ [e], mhEntryMap := (mhEntryMap mh)(i \<mapsto> length (mhHeap mh))\<rparr>"
  using assms by (auto simp: addEntry_def split: option.splits)

lemma ids_ok_add:
  assumes "addEntry L st e mh = Some (i, p, mh')" "ids_ok L st mh"
  shows "ids_ok L st mh'"
  using addEntry_spec [OF assms(1)] assms(2) by (auto simp: ids_ok_def nth_append less_Suc_eq)

lemma ids_ok_set_heap:
  assumes "ids_ok L st mh" "EntryID_of L st (Some e) = EntryID_of L st (Some (mhHeap mh ! p))"
  shows "ids_ok L st (set_heap p e mh)"
  unfolding ids_ok_def
proof (intro allI impI)
  fix h q
  assume "mhEntryMap (set_heap p e mh) h = Some q"
  with assms show "q < length (mhHeap (set_heap p e mh)) \<and> EntryID_of L st (Some (mhHeap (set_heap p e mh) ! q)) = Some h"
    by (cases "q = p") (auto simp: ids_ok_def set_heap_def)
qed

text \<open>Invariants that only look at the heap as a set, for what is added and replaced.\<close>

definition inputs_only :: "Entry \<Rightarrow> bool" where
  "inputs_only e = (case e of EMux _ \<Rightarrow> False | ETxHeader _ \<Rightarrow> False | EBlockHeader _ \<Rightarrow> False | ERetirement _ \<Rightarrow> False | _ \<Rightarrow> True)"

lemma full_store: "full st e = full st' e"
  by (cases e) (simp_all add: full_program_def)

text \<open>
  A transaction whose slices lie in the memory and whose amounts have their assets, as one that
  was read with asset version 1.
\<close>

definition sc_in :: "store \<Rightarrow> slice SpendCommitment \<Rightarrow> bool" where
  "sc_in st sc \<longleftrightarrow> s_arr (scControlProgram sc) < length st \<and> state_in st (scStateData sc) \<and> aaAssetId (scAssetAmount sc) \<noteq> None"

definition input_in :: "store \<Rightarrow> slice TxInput \<Rightarrow> bool" where
  "input_in st t =
     (case inTyped t of
        Some (SpendIn x) \<Rightarrow> sc_in st (siSpendCommitment x)
      | Some (VetoIn x) \<Rightarrow> sc_in st (tvSpendCommitment x)
      | _ \<Rightarrow> True)"

definition output_in :: "store \<Rightarrow> slice TxOutput \<Rightarrow> bool" where
  "output_in st out \<longleftrightarrow>
     s_arr (ocControlProgram (outCommitment out)) < length st \<and> state_in st (ocStateData (outCommitment out)) \<and>
     aaAssetId (ocAssetAmount (outCommitment out)) \<noteq> None"

definition td_in :: "store \<Rightarrow> slice TxData \<Rightarrow> bool" where
  "td_in st td \<longleftrightarrow> list_all (input_in st) (tdInputs td) \<and> list_all (output_in st) (tdOutputs td)"

section \<open>Inputs\<close>

definition heap_in :: "store \<Rightarrow> mapHelper \<Rightarrow> bool" where
  "heap_in st mh \<longleftrightarrow> (\<forall>e \<in> set (mhHeap mh). entry_in st e \<and> full st e)"

text \<open>The value of an input, as the mux receives it.\<close>

definition in_amount :: "lib \<Rightarrow> store \<Rightarrow> slice TxData \<Rightarrow> slice TxInput \<Rightarrow> AssetAmount option" where
  "in_amount L st td t =
     (case inTyped t of
        Some (IssuanceIn x) \<Rightarrow> Some \<lparr>aaAssetId = Some (issuance_AssetID L (slice_bytes st) x), aaAmount = iiAmount x\<rparr>
      | Some (SpendIn x) \<Rightarrow> Some (scAssetAmount (siSpendCommitment x))
      | Some (VetoIn x) \<Rightarrow> Some (scAssetAmount (tvSpendCommitment x))
      | Some (CoinbaseIn x) \<Rightarrow>
          Some \<lparr>aaAssetId = Some BTMAssetID,
                aaAmount = sum_list (map (\<lambda>out. aaAmount (ocAssetAmount (outCommitment out))) (tdOutputs td))\<rparr>
      | None \<Rightarrow> None)"

definition input_inv :: "lib \<Rightarrow> store \<Rightarrow> mapHelper \<Rightarrow> bool" where
  "input_inv L st mh \<longleftrightarrow> ids_ok L st mh \<and> heap_in st mh \<and> (\<forall>e \<in> set (mhHeap mh). inputs_only e) \<and> mhResultIDs mh = []"

lemma input_inv_add:
  assumes "addEntry L st e mh = Some (i, p, mh')" "input_inv L st mh" "entry_in st e" "full st e" "inputs_only e"
  shows "input_inv L st mh' \<and> mhMuxSources mh' = mhMuxSources mh"
  using ids_ok_add [OF assms(1)] addEntry_spec [OF assms(1)] assms(2-) by (auto simp: input_inv_def heap_in_def)

lemma input_inv_upd [simp]:
  "input_inv L st (setInput k h v mh) = input_inv L st mh" "input_inv L st (mh\<lparr>mhCoinbase := c\<rparr>) = input_inv L st mh"
  "input_inv L st (mh\<lparr>mhIssuances := ps\<rparr>) = input_inv L st mh"
  "input_inv L st (mh\<lparr>mhSpends := ps, mhSpentOutputIDs := hs\<rparr>) = input_inv L st mh"
  "input_inv L st (mh\<lparr>mhVetos := ps, mhSpentOutputIDs := hs\<rparr>) = input_inv L st mh"
  by (simp_all add: input_inv_def ids_ok_def heap_in_def setInput_def)

lemma setInput_sources [simp]:
  "mhMuxSources (setInput k h v mh) =
     (mhMuxSources mh)[k := Some \<lparr>srcRef = Some h, srcValue = Some v, srcPosition = 0\<rparr>]"
  by (simp add: setInput_def)

lemmas entry_preds = entry_in_def prog_in_def full_program_def inputs_only_def NewOriginalOutput_def NewVoteOutput_def
  prevout_source_def prevout_program_def full_source_def full_amount_def input_in_def sc_in_def

lemma mapInput_inv:
  assumes "mapInput L st td k t mh = Some mh'" "input_inv L st mh" "input_in st t"
  shows "input_inv L st mh' \<and>
         (\<exists>h. mhMuxSources mh' = (mhMuxSources mh)[k := Some \<lparr>srcRef = Some h, srcValue = in_amount L st td t, srcPosition = 0\<rparr>])"
proof (cases "inTyped t")
  case (Some ti)
  show ?thesis
  proof (cases ti)
    case (SpendIn x)
    let ?sc = "siSpendCommitment x"
    obtain pid q mh1 h p mh2 where
      1: "addEntry L st (EOriginalOutput (NewOriginalOutput (Some (prevout_source ?sc)) (Some (prevout_program ?sc)) (scStateData ?sc) 0)) mh = Some (pid, q, mh1)"
      and 2: "addEntry L st (ESpend ((NewSpend (Some pid) (of_nat k))\<lparr>spWitnessArguments := siArguments x\<rparr>)) mh1 = Some (h, p, mh2)"
      and mh': "mh' = setInput k h (scAssetAmount ?sc)
                 (mh2\<lparr>mhSpends := mhSpends mh2 @ [p], mhSpentOutputIDs := mhSpentOutputIDs mh2 @ [pid]\<rparr>)"
      using assms(1) Some SpendIn by (auto simp: mapInput_def mapSpendInput_def Let_def split: option.splits)
    have "input_inv L st mh1 \<and> mhMuxSources mh1 = mhMuxSources mh"
      using assms(3) Some SpendIn by (intro input_inv_add [OF 1 assms(2)]) (auto simp: entry_preds)
    with input_inv_add [OF 2] show ?thesis
      using Some SpendIn by (auto simp: mh' entry_in_def inputs_only_def NewSpend_def NewVetoInput_def NewIssuance_def NewCoinbase_def full_amount_def in_amount_def)
  next
    case (VetoIn x)
    let ?sc = "tvSpendCommitment x"
    obtain pid q mh1 h p mh2 where
      1: "addEntry L st (EVoteOutput (NewVoteOutput (Some (prevout_source ?sc)) (Some (prevout_program ?sc)) (scStateData ?sc) 0 (tvVote x))) mh = Some (pid, q, mh1)"
      and 2: "addEntry L st (EVetoInput ((NewVetoInput (Some pid) (of_nat k))\<lparr>viWitnessArguments := tvArguments x\<rparr>)) mh1 = Some (h, p, mh2)"
      and mh': "mh' = setInput k h (scAssetAmount ?sc)
                 (mh2\<lparr>mhVetos := mhVetos mh2 @ [p], mhSpentOutputIDs := mhSpentOutputIDs mh2 @ [pid]\<rparr>)"
      using assms(1) Some VetoIn by (auto simp: mapInput_def mapVetoInput_def Let_def split: option.splits)
    have "input_inv L st mh1 \<and> mhMuxSources mh1 = mhMuxSources mh"
      using assms(3) Some VetoIn by (intro input_inv_add [OF 1 assms(2)]) (auto simp: entry_preds)
    with input_inv_add [OF 2] show ?thesis
      using Some VetoIn by (auto simp: mh' entry_in_def inputs_only_def NewSpend_def NewVetoInput_def NewIssuance_def NewCoinbase_def full_amount_def in_amount_def)
  qed (use assms(1,2) Some in \<open>auto simp: mapInput_def mapIssuanceInput_def mapCoinbaseInput_def Let_def in_amount_def
      entry_in_def inputs_only_def NewSpend_def NewVetoInput_def NewIssuance_def NewCoinbase_def full_amount_def split: option.splits dest!: input_inv_add\<close>)
qed (use assms(1) in \<open>simp add: mapInput_def\<close>)

abbreviation src_val :: "ValueSource option \<Rightarrow> AssetAmount option" where
  "src_val s \<equiv> Option.bind s srcValue"

lemma mapInputs_inv:
  assumes "mapInputs L st td k l mh = Some mh'" "input_inv L st mh" "list_all (input_in st) l"
    and "k + length l \<le> length (mhMuxSources mh)"
  shows "input_inv L st mh' \<and>
         map src_val (mhMuxSources mh') =
           take k (map src_val (mhMuxSources mh)) @ map (in_amount L st td) l @ drop (k + length l) (map src_val (mhMuxSources mh))"
  using assms
proof (induction l arbitrary: k mh)
  case (Cons t l)
  then obtain mh1 where 1: "mapInput L st td k t mh = Some mh1" and 2: "mapInputs L st td (k + 1) l mh1 = Some mh'"
    by (auto split: option.splits)
  obtain h where inv: "input_inv L st mh1" and
    src: "mhMuxSources mh1 = (mhMuxSources mh)[k := Some \<lparr>srcRef = Some h, srcValue = in_amount L st td t, srcPosition = 0\<rparr>]"
    using mapInput_inv [OF 1] Cons.prems by auto
  have "map src_val (mhMuxSources mh1) = (map src_val (mhMuxSources mh))[k := in_amount L st td t]"
    by (simp add: src map_update)
  moreover have "k < length (mhMuxSources mh)" using Cons.prems(4) by simp
  ultimately show ?case
    using Cons.IH [OF 2 inv] Cons.prems by (simp add: src take_Suc_conv_app_nth take_update_swap [symmetric])
qed simp

lemma in_amount_full: "input_in st t \<Longrightarrow> in_amount L st td t = Some v \<Longrightarrow> aaAssetId v \<noteq> None"
  by (auto simp: in_amount_def input_in_def sc_in_def split: option.splits TypedInput.splits)

text \<open>Sources are nil until their input is mapped, and complete from then on.\<close>

lemma mapInputs_full:
  assumes "mapInputs L st td k l mh = Some mh'" "input_inv L st mh" "list_all (input_in st) l"
    and "\<forall>s \<in> set (mhMuxSources mh). src_val s = None \<or> full_source s"
  shows "\<forall>s \<in> set (mhMuxSources mh'). src_val s = None \<or> full_source s"
  using assms
proof (induction l arbitrary: k mh)
  case (Cons t l)
  then obtain mh1 where 1: "mapInput L st td k t mh = Some mh1" and 2: "mapInputs L st td (k + 1) l mh1 = Some mh'"
    by (auto split: option.splits)
  obtain h where inv: "input_inv L st mh1" and
    src: "mhMuxSources mh1 = (mhMuxSources mh)[k := Some \<lparr>srcRef = Some h, srcValue = in_amount L st td t, srcPosition = 0\<rparr>]"
    using mapInput_inv [OF 1] Cons.prems by auto
  let ?s = "Some \<lparr>srcRef = Some h, srcValue = in_amount L st td t, srcPosition = 0\<rparr>"
  have "src_val ?s = None \<or> full_source ?s"
    using in_amount_full [of st t L td] Cons.prems(3) by (auto simp: full_source_def full_amount_def)
  then have "\<forall>s \<in> set (mhMuxSources mh1). src_val s = None \<or> full_source s"
    using Cons.prems(4) set_update_subset_insert [of "mhMuxSources mh" k ?s] unfolding src by blast
  with Cons.IH [OF 2 inv] Cons.prems(3) show ?case by simp
qed simp

lemma mapInputs_typed:
  "mapInputs L st td k l mh = Some mh' \<Longrightarrow> t \<in> set l \<Longrightarrow> inTyped t \<noteq> None"
  by (induction l arbitrary: k mh) (auto simp: mapInput_def split: option.splits)

lemma mapInputs_values:
  assumes "mapInputs L st td 0 (tdInputs td) (newMapHelper td) = Some mh" "td_in st td"
  shows "input_inv L st mh" "map src_val (mhMuxSources mh) = map (in_amount L st td) (tdInputs td)"
    "list_all full_source (mhMuxSources mh)"
proof -
  have 0: "input_inv L st (newMapHelper td)"
    by (simp add: input_inv_def ids_ok_def heap_in_def newMapHelper_def)
  have ins: "list_all (input_in st) (tdInputs td)" using assms(2) by (simp add: td_in_def)
  from mapInputs_inv [OF assms(1) 0 ins] show "input_inv L st mh"
    and vals: "map src_val (mhMuxSources mh) = map (in_amount L st td) (tdInputs td)"
    by (simp_all add: newMapHelper_def)
  have "\<forall>s \<in> set (mhMuxSources mh). src_val s = None \<or> full_source s"
    by (rule mapInputs_full [OF assms(1) 0 ins]) (simp add: newMapHelper_def)
  moreover have "src_val s \<noteq> None" if "s \<in> set (mhMuxSources mh)" for s
  proof -
    have "src_val s \<in> set (map (in_amount L st td) (tdInputs td))" using that by (simp flip: vals)
    then show ?thesis using mapInputs_typed [OF assms(1)] by (auto simp: in_amount_def split: option.splits TypedInput.splits)
  qed
  ultimately show "list_all full_source (mhMuxSources mh)" by (auto simp: list_all_iff)
qed

section \<open>The mux and the outputs\<close>

definition is_mux :: "Entry \<Rightarrow> bool" where
  "is_mux e = (case e of EMux _ \<Rightarrow> True | _ \<Rightarrow> False)"

lemma is_mux_typ: "is_mux e \<longleftrightarrow> entry_typ e = ''mux1''"
  by (cases e) (simp_all add: is_mux_def)

text \<open>From the mux on: where it is, what it holds, and that it is the only one.\<close>

definition mux_inv :: "lib \<Rightarrow> store \<Rightarrow> nat \<Rightarrow> ValueSource option list \<Rightarrow> ValueDestination option list \<Rightarrow> Hash \<Rightarrow> mapHelper \<Rightarrow> bool" where
  "mux_inv L st q srcs dsts muxID mh \<longleftrightarrow>
     ids_ok L st mh \<and> q < length (mhHeap mh) \<and> muxID \<in> dom (mhEntryMap mh) \<and>
     EntryID_of L st (Some (mhHeap mh ! q)) = Some muxID \<and>
     (\<exists>m. mhHeap mh ! q = EMux m \<and> muxSources m = srcs \<and> muxWitnessDestinations m = dsts) \<and>
     (\<forall>p < length (mhHeap mh). full st (mhHeap mh ! p) \<and> (is_mux (mhHeap mh ! p) \<longrightarrow> p = q))"

lemma full_SetDestination [simp]: "full st (SetDestination i v n e) = full st e"
  by (cases e) (simp_all add: SetDestination_def)

lemma full_add_dest [simp]: "full st (add_dest d e) = full st e"
  by (cases e) (simp_all add: add_dest_def)

lemma is_mux_SetDestination [simp]: "is_mux (SetDestination i v n e) = is_mux e" "is_mux (add_dest d e) = is_mux e"
  by (simp_all add: is_mux_typ)

text \<open>Replacing an entry by one with the same identifier keeps the invariant, at the mux and elsewhere.\<close>

lemma mux_inv_replace:
  assumes inv: "mux_inv L st q srcs dsts muxID mh"
    and id: "EntryID_of L st (Some e) = EntryID_of L st (Some (mhHeap mh ! p))"
    and full: "full st (mhHeap mh ! p) \<Longrightarrow> full st e" and mux: "is_mux e = is_mux (mhHeap mh ! p)"
    and at: "p = q \<Longrightarrow> \<exists>m. e = EMux m \<and> muxSources m = srcs \<and> muxWitnessDestinations m = dsts'"
    and off: "p \<noteq> q \<Longrightarrow> dsts' = dsts"
  shows "mux_inv L st q srcs dsts' muxID (set_heap p e mh)"
proof -
  have 1: "ids_ok L st (set_heap p e mh)"
    using inv id by (intro ids_ok_set_heap) (simp_all add: mux_inv_def)
  have 2: "full st ((mhHeap mh)[p := e] ! k) \<and> (is_mux ((mhHeap mh)[p := e] ! k) \<longrightarrow> k = q)" if "k < length (mhHeap mh)" for k
    using that inv full mux by (cases "k = p") (auto simp: mux_inv_def)
  have 3: "EntryID_of L st (Some ((mhHeap mh)[p := e] ! q)) = Some muxID"
    using inv id by (cases "p = q") (auto simp: mux_inv_def)
  have 4: "\<exists>m. (mhHeap mh)[p := e] ! q = EMux m \<and> muxSources m = srcs \<and> muxWitnessDestinations m = dsts'"
    using inv at off by (cases "p = q") (auto simp: mux_inv_def)
  show ?thesis
    using inv 1 2 3 4 by (simp add: mux_inv_def set_heap_def)
qed

lemma mux_inv_mux:
  assumes "mux_inv L st q srcs dsts muxID mh"
  obtains m where "mhHeap mh ! q = EMux m" "muxSources m = srcs" "muxWitnessDestinations m = dsts"
  using assms unfolding mux_inv_def by blast

lemma mux_inv_connect:
  assumes "mux_inv L st q srcs dsts muxID mh"
  shows "mux_inv L st q srcs dsts muxID (set_heap p (SetDestination i v n (mhHeap mh ! p)) mh)"
proof (rule mux_inv_replace [OF assms])
  obtain m where "mhHeap mh ! q = EMux m" "muxSources m = srcs" "muxWitnessDestinations m = dsts"
    using mux_inv_mux [OF assms] .
  then show "p = q \<Longrightarrow> \<exists>m. SetDestination i v n (mhHeap mh ! p) = EMux m \<and> muxSources m = srcs \<and> muxWitnessDestinations m = dsts"
    by (simp add: SetDestination_def)
qed simp_all

definition same_shape :: "mapHelper \<Rightarrow> mapHelper \<Rightarrow> bool" where
  "same_shape mh mh' \<longleftrightarrow>
     mhResultIDs mh' = mhResultIDs mh \<and> mhCoinbase mh' = mhCoinbase mh \<and> mhInputIDs mh' = mhInputIDs mh \<and>
     mhSpentOutputIDs mh' = mhSpentOutputIDs mh \<and> mhEntryMap mh' = mhEntryMap mh \<and> length (mhHeap mh') = length (mhHeap mh)"

lemma mux_inv_connect_all:
  assumes "connect_all muxID' ps mh = Some mh'" "mux_inv L st q srcs dsts muxID mh"
  shows "mux_inv L st q srcs dsts muxID mh' \<and> same_shape mh mh'"
  using assms
proof (induction ps arbitrary: mh)
  case Nil
  then show ?case by (simp add: same_shape_def)
next
  case (Cons p ps)
  then obtain mh1 where 1: "connect muxID' p mh = Some mh1" and 2: "connect_all muxID' ps mh1 = Some mh'"
    by (auto split: option.splits)
  obtain v n where mh1: "mh1 = set_heap p (SetDestination (Some muxID') v n (mhHeap mh ! p)) mh"
    using 1 by (auto simp: connect_def split: option.splits)
  have "mux_inv L st q srcs dsts muxID mh1"
    unfolding mh1 by (rule mux_inv_connect [OF Cons.prems(2)])
  from Cons.IH [OF 2 this] show ?case
    by (simp add: mh1 same_shape_def set_heap_def)
qed

lemma mux_inv_start:
  assumes "addEntry L (st @ ext) (EMux (NewMux srcs prog)) mh = Some (muxID, q, mh')" "input_inv L st mh"
    and "list_all full_source srcs" "prog \<noteq> None"
  shows "mux_inv L (st @ ext) q srcs [] muxID mh'"
proof -
  have a: "EntryID_of L (st @ ext) (Some (EMux (NewMux srcs prog))) = Some muxID" "q = length (mhHeap mh)"
    "mh' = mh\<lparr>mhHeap := mhHeap mh @ [EMux (NewMux srcs prog)], mhEntryMap := (mhEntryMap mh)(muxID \<mapsto> length (mhHeap mh))\<rparr>"
    using addEntry_spec [OF assms(1)] by simp_all
  have "entry_in st (mhHeap mh ! p)" if "p < length (mhHeap mh)" for p
    using that assms(2) by (simp add: input_inv_def heap_in_def)
  then have "ids_ok L (st @ ext) mh"
    using assms(2) by (simp add: input_inv_def ids_ok_def EntryID_extend)
  from ids_ok_add [OF assms(1) this] have "ids_ok L (st @ ext) mh'" .
  moreover have "full (st @ ext) (mhHeap mh ! p) \<and> \<not> is_mux (mhHeap mh ! p)" if "p < length (mhHeap mh)" for p
  proof -
    have "full st (mhHeap mh ! p)" "inputs_only (mhHeap mh ! p)"
      using that assms(2) by (simp_all add: input_inv_def heap_in_def)
    then show ?thesis
      by (cases "mhHeap mh ! p") (auto simp: inputs_only_def is_mux_def full_program_def)
  qed
  moreover have "full (st @ ext) (EMux (NewMux srcs prog))"
    using assms(3,4) by (simp add: NewMux_def full_program_def)
  ultimately show ?thesis
    using a(1) by (simp add: mux_inv_def a(2,3) nth_append less_Suc_eq NewMux_def)
qed

lemma initMux_inv:
  assumes "initMux L st mh = Some (muxID, q, mh', st')" "input_inv L st mh" "list_all full_source (mhMuxSources mh)"
  shows "mux_inv L st' q (mhMuxSources mh) [] muxID mh' \<and> mhResultIDs mh' = [] \<and> mhInputIDs mh' = mhInputIDs mh \<and>
         mhSpentOutputIDs mh' = mhSpentOutputIDs mh \<and> st' = st @ [[OP_TRUE]]"
proof -
  let ?st = "st @ [[OP_TRUE]]" and ?prog = "Some \<lparr>VmVersion = 1, progCode = snd (alloc st [OP_TRUE])\<rparr>"
  obtain mh1 mh2 where 1: "addEntry L ?st (EMux (NewMux (mhMuxSources mh) ?prog)) mh = Some (muxID, q, mh1)"
    and 2: "connect_all muxID (mhSpends mh1 @ mhVetos mh1 @ mhIssuances mh1) mh1 = Some mh2" and st': "st' = ?st"
    and 3: "mh' = mh2 \<or> (\<exists>c v. mh' = set_heap c (SetDestination (Some muxID) v 0 (mhHeap mh2 ! c)) mh2)"
    using assms(1) by (simp add: initMux_def alloc_def Let_def split: option.splits prod.splits list.splits) blast+
  have inv: "mux_inv L ?st q (mhMuxSources mh) [] muxID mh1"
    by (rule mux_inv_start [OF 1 assms(2,3)]) simp
  from mux_inv_connect_all [OF 2 this] have "mux_inv L ?st q (mhMuxSources mh) [] muxID mh2" "same_shape mh1 mh2" by simp_all
  moreover from this(1) 3 have "mux_inv L ?st q (mhMuxSources mh) [] muxID mh'"
    using mux_inv_connect by blast
  moreover have "same_shape mh2 mh'" using 3 by (auto simp: same_shape_def set_heap_def)
  ultimately show ?thesis
    using addEntry_spec [OF 1] assms(2) by (simp add: same_shape_def input_inv_def st')
qed

text \<open>Every result is the identifier of an output that comes from the mux.\<close>

definition result_ok :: "lib \<Rightarrow> store \<Rightarrow> Hash \<Rightarrow> mapHelper \<Rightarrow> Hash option \<Rightarrow> bool" where
  "result_ok L st muxID mh r \<longleftrightarrow>
     (\<exists>h p src. r = Some h \<and> h \<in> dom (mhEntryMap mh) \<and> p < length (mhHeap mh) \<and>
        EntryID_of L st (Some (mhHeap mh ! p)) = Some h \<and> out_source (mhHeap mh ! p) = Some src \<and> srcRef src = Some muxID)"

lemma result_ok_add:
  assumes "result_ok L st muxID mh r" "addEntry L st e mh = Some (i, p, mh')"
  shows "result_ok L st muxID mh' r"
proof -
  obtain h k src where k: "r = Some h" "h \<in> dom (mhEntryMap mh)" "k < length (mhHeap mh)"
    "EntryID_of L st (Some (mhHeap mh ! k)) = Some h" "out_source (mhHeap mh ! k) = Some src" "srcRef src = Some muxID"
    using assms(1) unfolding result_ok_def by blast
  show ?thesis
    unfolding result_ok_def
    by (rule exI [of _ h], rule exI [of _ k], rule exI [of _ src])
       (use k addEntry_spec [OF assms(2)] in \<open>simp add: nth_append\<close>)
qed

lemma result_ok_new:
  assumes "addEntry L st e mh = Some (i, p, mh')" "\<exists>src. out_source e = Some src \<and> srcRef src = Some muxID"
  shows "result_ok L st muxID mh' (Some i)"
proof -
  obtain src where src: "out_source e = Some src" "srcRef src = Some muxID" using assms(2) by blast
  show ?thesis
    unfolding result_ok_def
    by (rule exI [of _ i], rule exI [of _ p], rule exI [of _ src])
       (use src addEntry_spec [OF assms(1)] in simp)
qed

lemma out_source_add_dest [simp]: "out_source (add_dest d e) = out_source e"
  by (cases e) (simp_all add: add_dest_def out_source_def)

lemma result_ok_dest:
  assumes "result_ok L st muxID mh r"
  shows "result_ok L st muxID (set_heap q (add_dest d (mhHeap mh ! q)) mh) r"
proof -
  obtain h k src where k: "r = Some h" "h \<in> dom (mhEntryMap mh)" "k < length (mhHeap mh)"
    "EntryID_of L st (Some (mhHeap mh ! k)) = Some h" "out_source (mhHeap mh ! k) = Some src" "srcRef src = Some muxID"
    using assms unfolding result_ok_def by blast
  show ?thesis
    unfolding result_ok_def
    by (rule exI [of _ h], rule exI [of _ k], rule exI [of _ src], cases "k = q")
       (use k in \<open>simp_all add: set_heap_def\<close>)
qed

lemma mux_inv_add:
  assumes "mux_inv L st q srcs dsts muxID mh" "addEntry L st e mh = Some (i, p, mh')" "full st e" "\<not> is_mux e"
  shows "mux_inv L st q srcs dsts muxID mh'"
proof -
  have "ids_ok L st mh'" using assms(1) by (intro ids_ok_add [OF assms(2)]) (simp add: mux_inv_def)
  moreover obtain m where "mhHeap mh ! q = EMux m" "muxSources m = srcs" "muxWitnessDestinations m = dsts"
    using mux_inv_mux [OF assms(1)] .
  ultimately show ?thesis
    using addEntry_spec [OF assms(2)] assms(1,3,4)
    by (simp add: mux_inv_def nth_append less_Suc_eq)
qed

lemma output_entry_spec:
  assumes "output_in st out"
  shows "full st (output_entry st muxID k out)" "\<not> is_mux (output_entry st muxID k out)"
    "\<exists>src. out_source (output_entry st muxID k out) = Some src \<and> srcRef src = Some muxID"
  using assms
  by (auto simp: output_entry_def output_in_def Let_def NewRetirement_def NewOriginalOutput_def NewVoteOutput_def
      full_source_def full_amount_def full_program_def is_mux_def out_source_def split: TypedOutput.splits)

abbreviation dst_val :: "ValueDestination option \<Rightarrow> AssetAmount option" where
  "dst_val d \<equiv> Option.bind d dstValue"

abbreviation out_amount :: "slice TxOutput \<Rightarrow> AssetAmount" where
  "out_amount out \<equiv> ocAssetAmount (outCommitment out)"

lemma mux_inv_dest:
  assumes "mux_inv L st q srcs dsts muxID mh"
  shows "mux_inv L st q srcs (dsts @ [Some d]) muxID (set_heap q (add_dest d (mhHeap mh ! q)) mh)"
proof (rule mux_inv_replace [OF assms])
  obtain m where "mhHeap mh ! q = EMux m" "muxSources m = srcs" "muxWitnessDestinations m = dsts"
    using mux_inv_mux [OF assms] .
  then show "\<exists>m. add_dest d (mhHeap mh ! q) = EMux m \<and> muxSources m = srcs \<and> muxWitnessDestinations m = dsts @ [Some d]"
    by (simp add: add_dest_def)
qed simp_all

lemma mapOutputs_inv:
  assumes "mapOutputs L st muxID q k l mh = Some mh'" "mux_inv L st q srcs dsts muxID mh" "list_all (output_in st) l"
    and "\<forall>r \<in> set (mhResultIDs mh). result_ok L st muxID mh r"
  shows "\<exists>ds. mux_inv L st q srcs (dsts @ ds) muxID mh' \<and> map dst_val ds = map (Some \<circ> out_amount) l \<and>
              (\<forall>r \<in> set (mhResultIDs mh'). result_ok L st muxID mh' r) \<and> length (mhResultIDs mh') = length (mhResultIDs mh) + length l \<and>
              mhInputIDs mh' = mhInputIDs mh \<and> mhSpentOutputIDs mh' = mhSpentOutputIDs mh"
  using assms
proof (induction l arbitrary: k mh dsts)
  case Nil
  then show ?case by auto
next
  case (Cons out l)
  let ?e = "output_entry st muxID k out"
  obtain i p mh1 where 1: "addEntry L st ?e mh = Some (i, p, mh1)"
    using Cons.prems(1) by (auto split: option.splits)
  let ?d = "\<lparr>dstRef = Some i, dstValue = Some (out_amount out), dstPosition = 0\<rparr>"
  let ?mh1 = "mh1\<lparr>mhResultIDs := mhResultIDs mh1 @ [Some i]\<rparr>"
  let ?mh2 = "set_heap q (add_dest ?d (mhHeap mh1 ! q)) ?mh1"
  have rest: "mapOutputs L st muxID q (k + 1) l ?mh2 = Some mh'" using Cons.prems(1) 1 by simp
  have out: "output_in st out" "list_all (output_in st) l" using Cons.prems(3) by simp_all
  note spec = addEntry_spec [OF 1] output_entry_spec [OF out(1), of muxID k]
  have inv1: "mux_inv L st q srcs dsts muxID ?mh1"
    using mux_inv_add [OF Cons.prems(2) 1] spec by (simp add: mux_inv_def ids_ok_def)
  from mux_inv_dest [OF inv1, of ?d] have inv2: "mux_inv L st q srcs (dsts @ [Some ?d]) muxID ?mh2" by simp
  have res: "mhResultIDs mh1 = mhResultIDs mh" using spec(1) by simp
  have "result_ok L st muxID ?mh1 (Some i)"
    using result_ok_new [OF 1 spec(4)] by (simp add: result_ok_def)
  moreover have "result_ok L st muxID ?mh1 r" if "r \<in> set (mhResultIDs mh)" for r
    using result_ok_add [OF _ 1] Cons.prems(4) that by (simp add: result_ok_def)
  ultimately have "\<forall>r \<in> set (mhResultIDs ?mh2). result_ok L st muxID ?mh2 r"
    using result_ok_dest [of L st muxID ?mh1 _ q ?d] by (simp add: set_heap_def res)
  from Cons.IH [OF rest inv2 out(2) this] obtain ds where
    "mux_inv L st q srcs (dsts @ Some ?d # ds) muxID mh'" "map dst_val ds = map (Some \<circ> out_amount) l"
    "\<forall>r \<in> set (mhResultIDs mh'). result_ok L st muxID mh' r" "length (mhResultIDs mh') = length (mhResultIDs mh) + length (out # l)"
    "mhInputIDs mh' = mhInputIDs mh" "mhSpentOutputIDs mh' = mhSpentOutputIDs mh"
    using spec(1) by (auto simp: set_heap_def)
  then show ?case by (intro exI [of _ "Some ?d # ds"]) simp
qed

section \<open>The transaction\<close>

text \<open>The heap of \<^verbatim>\<open>MapTx\<close>, with the header, and the strings that were hashed for its identifiers.\<close>

definition tx_header :: "slice TxData \<Rightarrow> mapHelper \<Rightarrow> TxHeader" where
  "tx_header td mh = NewTxHeader (tdVersion td) (tdSerializedSize td) (tdTimeRange td) (mhResultIDs mh)"

definition hashed_strings :: "lib \<Rightarrow> store \<Rightarrow> slice TxData \<Rightarrow> bytes set" where
  "hashed_strings L st td =
     (case map_entries L st td of
        None \<Rightarrow> {}
      | Some (mh, st1) \<Rightarrow> (\<Union>e \<in> set (mhHeap mh @ [ETxHeader (tx_header td mh)]). hash_inputs L st1 e))"

definition collision_free :: "lib \<Rightarrow> store \<Rightarrow> slice TxData \<Rightarrow> bool" where
  "collision_free L st td \<longleftrightarrow> hash_ok L \<and> inj_on (sha3_256 L) (hashed_strings L st td)"

lemma map_entries_inv:
  assumes "map_entries L st td = Some (mh, st1)" "td_in st td"
  obtains mh0 muxID q srcs dsts where "mapInputs L st td 0 (tdInputs td) (newMapHelper td) = Some mh0"
    "mux_inv L st1 q srcs dsts muxID mh" "map src_val srcs = map (in_amount L st td) (tdInputs td)"
    "map dst_val dsts = map (Some \<circ> out_amount) (tdOutputs td)" "\<forall>r \<in> set (mhResultIDs mh). result_ok L st1 muxID mh r"
    "length (mhResultIDs mh) = length (tdOutputs td)" "mhInputIDs mh = mhInputIDs mh0" "mhSpentOutputIDs mh = mhSpentOutputIDs mh0"
proof -
  obtain mh1 muxID q mh2 where 1: "mapInputs L st td 0 (tdInputs td) (newMapHelper td) = Some mh1"
    and 2: "initMux L st mh1 = Some (muxID, q, mh2, st1)" and 3: "mapOutputs L st1 muxID q 0 (tdOutputs td) mh2 = Some mh"
    using assms(1) by (auto simp: map_entries_def split: option.splits)
  note V = mapInputs_values [OF 1 assms(2)]
  note M = initMux_inv [OF 2 V(1,3)]
  then have st1: "st1 = st @ [[OP_TRUE]]" by blast
  have "output_in st1 out" if "output_in st out" for out
    using that by (auto simp: output_in_def st1 state_in_extend)
  then have outs: "list_all (output_in st1) (tdOutputs td)"
    using assms(2) by (auto simp: td_in_def list_all_iff)
  obtain ds where "mux_inv L st1 q (mhMuxSources mh1) ds muxID mh" "map dst_val ds = map (Some \<circ> out_amount) (tdOutputs td)"
    "\<forall>r \<in> set (mhResultIDs mh). result_ok L st1 muxID mh r" "length (mhResultIDs mh) = length (tdOutputs td)"
    "mhInputIDs mh = mhInputIDs mh1" "mhSpentOutputIDs mh = mhSpentOutputIDs mh1"
    using mapOutputs_inv [OF 3 _ outs, of "mhMuxSources mh1" "[]"] M by auto
  with 1 V(2) that show thesis by blast
qed

text \<open>Entries of the heap with the same identifier agree on what the identifier commits to.\<close>

lemma heap_binding:
  assumes "mux_inv L st q srcs dsts muxID mh" "hash_ok L" "inj_on (sha3_256 L) (\<Union>e \<in> set (mhHeap mh). hash_inputs L st e)"
    and "p < length (mhHeap mh)" "p' < length (mhHeap mh)"
    and "EntryID_of L st (Some (mhHeap mh ! p)) = Some h" "EntryID_of L st (Some (mhHeap mh ! p')) = Some h"
  shows "committed st (mhHeap mh ! p) = committed st (mhHeap mh ! p')"
proof (rule EntryID_determines [OF assms(2) _ _ _ assms(6,7)])
  show "full st (mhHeap mh ! p)" "full st (mhHeap mh ! p')"
    using assms(1,4,5) by (simp_all add: mux_inv_def)
  have "hash_inputs L st (mhHeap mh ! p) \<union> hash_inputs L st (mhHeap mh ! p') \<subseteq> (\<Union>e \<in> set (mhHeap mh). hash_inputs L st e)"
    using assms(4,5) nth_mem by blast
  then show "inj_on (sha3_256 L) (hash_inputs L st (mhHeap mh ! p) \<union> hash_inputs L st (mhHeap mh ! p'))"
    by (rule inj_on_subset [OF assms(3)])
qed

lemma committed_mux: "committed st e = committed st (EMux m) \<Longrightarrow> is_mux e"
  by (cases e) (simp_all add: is_mux_def)

lemma committed_out_source:
  assumes "committed st e = committed st e'" "full st e" "full st e'" "out_source e' = Some src'"
  shows "\<exists>src. out_source e = Some src \<and> srcRef src = srcRef src'"
  using assms
  by (cases e; cases e') (auto simp: out_source_def full_source_def c_source_def)

definition entry_of :: "mapHelper \<Rightarrow> Hash \<Rightarrow> Entry option" where
  "entry_of mh h = map_option (\<lambda>p. mhHeap mh ! p) (mhEntryMap mh h)"

lemma mux_entry:
  assumes "mux_inv L st q srcs dsts muxID mh" "hash_ok L" "inj_on (sha3_256 L) (\<Union>e \<in> set (mhHeap mh). hash_inputs L st e)"
  shows "\<exists>m. entry_of mh muxID = Some (EMux m) \<and> muxSources m = srcs \<and> muxWitnessDestinations m = dsts"
proof -
  obtain m where m: "mhHeap mh ! q = EMux m" "muxSources m = srcs" "muxWitnessDestinations m = dsts"
    using mux_inv_mux [OF assms(1)] .
  have ids: "ids_ok L st mh" and q: "q < length (mhHeap mh)" "EntryID_of L st (Some (mhHeap mh ! q)) = Some muxID"
    and "muxID \<in> dom (mhEntryMap mh)" and only: "\<And>p. p < length (mhHeap mh) \<Longrightarrow> is_mux (mhHeap mh ! p) \<Longrightarrow> p = q"
    using assms(1) unfolding mux_inv_def by blast+
  then obtain p where p: "mhEntryMap mh muxID = Some p" by blast
  with ids have "p < length (mhHeap mh)" "EntryID_of L st (Some (mhHeap mh ! p)) = Some muxID"
    by (simp_all add: ids_ok_def)
  moreover from heap_binding [OF assms this(1) q(1) this(2) q(2)] have "is_mux (mhHeap mh ! p)"
    by (rule committed_mux [of st _ m, unfolded m(1) [symmetric]])
  ultimately have "p = q" using only by blast
  with p m show ?thesis by (simp add: entry_of_def)
qed

lemma result_entry:
  assumes "mux_inv L st q srcs dsts muxID mh" "hash_ok L" "inj_on (sha3_256 L) (\<Union>e \<in> set (mhHeap mh). hash_inputs L st e)"
    and "result_ok L st muxID mh r"
  shows "\<exists>h e src. r = Some h \<and> entry_of mh h = Some e \<and> out_source e = Some src \<and> srcRef src = Some muxID"
proof -
  obtain h k src where k: "r = Some h" "h \<in> dom (mhEntryMap mh)" "k < length (mhHeap mh)"
    "EntryID_of L st (Some (mhHeap mh ! k)) = Some h" "out_source (mhHeap mh ! k) = Some src" "srcRef src = Some muxID"
    using assms(4) unfolding result_ok_def by blast
  then obtain p where p: "mhEntryMap mh h = Some p" by blast
  have ids: "ids_ok L st mh" and full: "\<And>p. p < length (mhHeap mh) \<Longrightarrow> full st (mhHeap mh ! p)"
    using assms(1) unfolding mux_inv_def by blast+
  have p': "p < length (mhHeap mh)" "EntryID_of L st (Some (mhHeap mh ! p)) = Some h"
    using ids p by (simp_all add: ids_ok_def)
  from committed_out_source [OF heap_binding [OF assms(1-3) p'(1) k(3) p'(2) k(4)] full [OF p'(1)] full [OF k(3)] k(5)]
  show ?thesis using p k(1,6) by (auto simp: entry_of_def)
qed

lemma MapTx_mux:
  assumes "MapTx L st td = Some (tx, st1)" "td_in st td" "collision_free L st td"
  obtains muxID m where "Entries tx muxID = Some (EMux m)" "map src_val (muxSources m) = map (in_amount L st td) (tdInputs td)"
    "map dst_val (muxWitnessDestinations m) = map (Some \<circ> out_amount) (tdOutputs td)"
    "\<forall>r \<in> set (hdrResultIds (TxHeader_of tx)).
       \<exists>h e src. r = Some h \<and> Entries tx h = Some e \<and> out_source e = Some src \<and> srcRef src = Some muxID"
proof -
  obtain mh where 1: "map_entries L st td = Some (mh, st1)" and 2: "generateTx L st1 td mh = Some tx"
    using assms(1) by (auto simp: MapTx_def split: option.splits)
  obtain muxID q srcs dsts where inv: "mux_inv L st1 q srcs dsts muxID mh" and res: "\<forall>r \<in> set (mhResultIDs mh). result_ok L st1 muxID mh r"
    and vals: "map src_val srcs = map (in_amount L st td) (tdInputs td)" "map dst_val dsts = map (Some \<circ> out_amount) (tdOutputs td)"
    by (rule map_entries_inv [OF 1 assms(2)])
  obtain i p mh1 where 3: "addEntry L st1 (ETxHeader (tx_header td mh)) mh = Some (i, p, mh1)"
    and tx: "TxHeader_of tx = tx_header td mh" "Entries tx = entry_of mh1"
    using 2 by (auto simp: generateTx_def Let_def tx_header_def entry_of_def fun_eq_iff split: option.splits)
  have "full st1 (ETxHeader (tx_header td mh))"
    using res by (auto simp: tx_header_def NewTxHeader_def list_all_iff result_ok_def)
  then have inv1: "mux_inv L st1 q srcs dsts muxID mh1"
    by (rule mux_inv_add [OF inv 3]) (simp add: is_mux_def)
  have heap: "mhHeap mh1 = mhHeap mh @ [ETxHeader (tx_header td mh)]" using addEntry_spec [OF 3] by simp
  have cf: "hash_ok L" "inj_on (sha3_256 L) (\<Union>e \<in> set (mhHeap mh1). hash_inputs L st1 e)"
    using assms(3) unfolding collision_free_def hashed_strings_def heap by (simp_all add: 1)
  obtain m where m: "entry_of mh1 muxID = Some (EMux m)" "muxSources m = srcs" "muxWitnessDestinations m = dsts"
    using mux_entry [OF inv1 cf] by blast
  have "\<forall>r \<in> set (hdrResultIds (TxHeader_of tx)).
       \<exists>h e src. r = Some h \<and> Entries tx h = Some e \<and> out_source e = Some src \<and> srcRef src = Some muxID"
    using result_entry [OF inv1 cf] result_ok_add [OF _ 3] res by (simp add: tx tx_header_def NewTxHeader_def)
  with m vals that show thesis by (simp add: tx)
qed

end
