(* ===== verification/TxSafety.thy ===== *)
theory TxSafety
  imports MapTxProps
begin

text \<open>
  What validation promises of a transaction as it was received: the entries that \<^verbatim>\<open>MapTx\<close> makes
  of it and the walk of \<^verbatim>\<open>ValidateTx\<close> over them, together.
\<close>

section \<open>Value\<close>

definition value_in :: "AssetID \<Rightarrow> AssetAmount option \<Rightarrow> int" where
  "value_in a v = (case v of Some x \<Rightarrow> if aaAssetId x = Some a then uint (aaAmount x) else 0 | None \<Rightarrow> 0)"

definition inputs_total :: "lib \<Rightarrow> store \<Rightarrow> slice TxData \<Rightarrow> AssetID \<Rightarrow> int" where
  "inputs_total L st td a = sum_list (map (\<lambda>t. value_in a (in_amount L st td t)) (tdInputs td))"

definition outputs_total :: "slice TxData \<Rightarrow> AssetID \<Rightarrow> int" where
  "outputs_total td a = sum_list (map (\<lambda>out. value_in a (Some (out_amount out))) (tdOutputs td))"

lemma src_total_values: "src_total a l = sum_list (map (value_in a) (map src_val l))"
  by (induction l) (auto simp: src_total_def src_value_def value_in_def split: option.splits)

lemma dst_total_values: "dst_total a l = sum_list (map (value_in a) (map dst_val l))"
  by (induction l) (auto simp: dst_total_def dst_value_def value_in_def split: option.splits)

text \<open>A transaction read from the network, in the memory \<open>st\<close>, whose entries were validated in some memory.\<close>

definition accepted :: "valEnv \<Rightarrow> nat \<Rightarrow> store \<Rightarrow> slice TxData \<Rightarrow> store \<Rightarrow> bool" where
  "accepted E n st td st' \<longleftrightarrow>
     (\<exists>st1 g st''. MapTx (eLib E) st td = Some (eTx E, st1) \<and> ValidateTx n E st' = (VOk g, st'')) \<and>
     bhVersion (blkHeader (eBlock E)) = 1 \<and> range_ok E"

lemma accepted_mux:
  assumes "accepted E n st td st'" "td_in st td" "collision_free (eLib E) st td"
  obtains m where "balanced m" "src_total a (muxSources m) = inputs_total (eLib E) st td a"
    "dst_total a (muxWitnessDestinations m) = outputs_total td a"
proof -
  obtain st1 g st'' where tx: "MapTx (eLib E) st td = Some (eTx E, st1)" and v: "ValidateTx n E st' = (VOk g, st'')"
    and e: "bhVersion (blkHeader (eBlock E)) = 1" "range_ok E"
    using assms(1) by (auto simp: accepted_def)
  obtain muxID m where m: "Entries (eTx E) muxID = Some (EMux m)"
    "map src_val (muxSources m) = map (in_amount (eLib E) st td) (tdInputs td)"
    "map dst_val (muxWitnessDestinations m) = map (Some \<circ> out_amount) (tdOutputs td)"
    and res: "\<forall>r \<in> set (hdrResultIds (TxHeader_of (eTx E))).
       \<exists>h e src. r = Some h \<and> Entries (eTx E) h = Some e \<and> out_source e = Some src \<and> srcRef src = Some muxID"
    by (rule MapTx_mux [OF tx assms(2,3)])
  obtain r rs where rs: "hdrResultIds (TxHeader_of (eTx E)) = r # rs"
    using ValidateTx_has_result(1) [OF v e(1)] by (cases "hdrResultIds (TxHeader_of (eTx E))") auto
  with res obtain h en src where r: "r = Some h" "Entries (eTx E) h = Some en" "out_source en = Some src" "srcRef src = Some muxID"
    by auto
  have "balanced m"
    by (rule ValidateTx_first_mux [OF v e rs [unfolded r(1)] r(2-4) m(1)])
  moreover have "src_total a (muxSources m) = inputs_total (eLib E) st td a"
    by (simp only: src_total_values m(2) inputs_total_def map_map o_def)
  moreover have "dst_total a (muxWitnessDestinations m) = outputs_total td a"
    by (simp only: dst_total_values m(3) outputs_total_def map_map o_def)
  ultimately show thesis by (rule that)
qed

section \<open>Spent outputs\<close>

text \<open>The outputs that spends, and that vetos, refer to.\<close>

definition spend_ref :: "lib \<Rightarrow> store \<Rightarrow> slice TxInput \<Rightarrow> Hash list" where
  "spend_ref L st t = (case inTyped t of Some (SpendIn x) \<Rightarrow> [the (SpentOutputID_of L st (SpendIn x))] | _ \<Rightarrow> [])"

definition veto_ref :: "lib \<Rightarrow> store \<Rightarrow> slice TxInput \<Rightarrow> Hash list" where
  "veto_ref L st t = (case inTyped t of Some (VetoIn x) \<Rightarrow> [the (SpentOutputID_of L st (VetoIn x))] | _ \<Rightarrow> [])"

text \<open>The identifier of a spend or veto depends on nothing but the output it refers to.\<close>

definition spend_id :: "lib \<Rightarrow> Hash \<Rightarrow> Hash" where
  "spend_id L h = the (EntryID_of L [] (Some (ESpend (NewSpend (Some h) 0))))"

definition veto_id :: "lib \<Rightarrow> Hash \<Rightarrow> Hash" where
  "veto_id L h = the (EntryID_of L [] (Some (EVetoInput (NewVetoInput (Some h) 0))))"

lemma spend_id_eq:
  "EntryID_of L st (Some (ESpend ((NewSpend (Some h) n)\<lparr>spWitnessArguments := a\<rparr>))) = Some i \<Longrightarrow> i = spend_id L h"
  "EntryID_of L st (Some (EVetoInput ((NewVetoInput (Some h) n)\<lparr>viWitnessArguments := a\<rparr>))) = Some i \<Longrightarrow> i = veto_id L h"
  by (simp_all add: spend_id_def veto_id_def EntryID_of_def NewSpend_def NewVetoInput_def w_hash_def)

definition id_ok :: "lib \<Rightarrow> store \<Rightarrow> slice TxInput \<Rightarrow> Hash \<Rightarrow> bool" where
  "id_ok L st t h \<longleftrightarrow> (\<forall>r \<in> set (spend_ref L st t). h = spend_id L r) \<and> (\<forall>r \<in> set (veto_ref L st t). h = veto_id L r)"

lemma mapInput_ids:
  assumes "mapInput L st td k t mh = Some mh'"
  shows "(\<exists>h. mhInputIDs mh' = (mhInputIDs mh)[k := h] \<and> id_ok L st t h) \<and>
         mhSpentOutputIDs mh' = mhSpentOutputIDs mh @ spend_ref L st t @ veto_ref L st t"
proof (cases "inTyped t")
  case (Some ti)
  show ?thesis
  proof (cases ti)
    case (IssuanceIn x)
    with assms Some show ?thesis
      by (auto simp: mapInput_def mapIssuanceInput_def Let_def addEntry_def setInput_def id_ok_def spend_ref_def veto_ref_def split: option.splits)
  next
    case (SpendIn x)
    with assms Some show ?thesis
      by (auto simp: mapInput_def mapSpendInput_def Let_def addEntry_def setInput_def id_ok_def spend_ref_def veto_ref_def
          SpentOutputID_of_def ComputeOutputID_def dest!: spend_id_eq split: option.splits)
  next
    case (VetoIn x)
    with assms Some show ?thesis
      by (auto simp: mapInput_def mapVetoInput_def Let_def addEntry_def setInput_def id_ok_def spend_ref_def veto_ref_def
          SpentOutputID_of_def ComputeOutputID_def dest!: spend_id_eq split: option.splits)
  next
    case (CoinbaseIn x)
    with assms Some show ?thesis
      by (auto simp: mapInput_def mapCoinbaseInput_def Let_def addEntry_def setInput_def id_ok_def spend_ref_def veto_ref_def split: option.splits)
  qed
qed (use assms in \<open>simp add: mapInput_def\<close>)

lemma mapInputs_ids:
  assumes "mapInputs L st td k l mh = Some mh'" "k + length l \<le> length (mhInputIDs mh)"
  shows "length (mhInputIDs mh') = length (mhInputIDs mh) \<and> take k (mhInputIDs mh') = take k (mhInputIDs mh) \<and>
         (\<forall>j < length l. id_ok L st (l ! j) (mhInputIDs mh' ! (k + j))) \<and>
         mhSpentOutputIDs mh' = mhSpentOutputIDs mh @ concat (map (\<lambda>t. spend_ref L st t @ veto_ref L st t) l)"
  using assms
proof (induction l arbitrary: k mh)
  case (Cons t l)
  then obtain mh1 where 1: "mapInput L st td k t mh = Some mh1" and 2: "mapInputs L st td (k + 1) l mh1 = Some mh'"
    by (auto split: option.splits)
  obtain h where h: "mhInputIDs mh1 = (mhInputIDs mh)[k := h]" "id_ok L st t h"
    and sp: "mhSpentOutputIDs mh1 = mhSpentOutputIDs mh @ spend_ref L st t @ veto_ref L st t"
    using mapInput_ids [OF 1] by blast
  have len: "k < length (mhInputIDs mh)" "k + 1 + length l \<le> length (mhInputIDs mh1)"
    using Cons.prems(2) by (simp_all add: h)
  note IH = Cons.IH [OF 2 len(2)]
  have pre: "take (Suc k) (mhInputIDs mh') = take (Suc k) (mhInputIDs mh1)" using IH by simp
  have "mhInputIDs mh' ! k = mhInputIDs mh1 ! k"
    using arg_cong [OF pre, of "\<lambda>l. l ! k"] len IH by simp
  moreover have "take k (mhInputIDs mh') = take k (mhInputIDs mh1)"
    using arg_cong [OF pre, of "take k"] by simp
  moreover have "id_ok L st ((t # l) ! j) (mhInputIDs mh' ! (k + j))" if "j < length (t # l)" for j
    using that IH h len(1) calculation(1) by (cases j) simp_all
  ultimately show ?case using IH h(1) sp len(1) by simp
qed simp

text \<open>Distinct identifiers make distinct references, where an identifier is a function of its reference.\<close>

lemma distinct_refs:
  assumes "distinct ids" "length ids = length l" "\<forall>j < length l. \<forall>r \<in> set (f (l ! j)). ids ! j = g r" "\<And>t. distinct (f t)"
    and "\<And>t. length (f t) \<le> 1"
  shows "distinct (concat (map f l))"
  using assms(2,1,3)
proof (induction ids l rule: list_induct2)
  case (Cons i ids t l)
  have tail: "\<forall>j < length l. \<forall>r \<in> set (f (l ! j)). ids ! j = g r"
    using Cons.prems(2) by fastforce
  have head: "i = g r" if "r \<in> set (f t)" for r
    using Cons.prems(2) that by fastforce
  have "r \<notin> set (f x)" if "r \<in> set (f t)" "x \<in> set l" for r x
  proof
    assume "r \<in> set (f x)"
    with that(2) tail obtain j where "j < length l" "ids ! j = g r" by (metis in_set_conv_nth)
    with head [OF that(1)] Cons.hyps Cons.prems(1) show False by (metis distinct.simps(2) nth_mem)
  qed
  with Cons.IH [OF _ tail] Cons.prems(1) assms(4) show ?case by auto
qed simp

lemma MapTx_ids:
  assumes "MapTx L st td = Some (tx, st1)" "td_in st td"
  shows "length (InputIDs tx) = length (tdInputs td)" "\<forall>j < length (tdInputs td). id_ok L st (tdInputs td ! j) (InputIDs tx ! j)"
    "SpentOutputIDs tx = concat (map (\<lambda>t. spend_ref L st t @ veto_ref L st t) (tdInputs td))"
proof -
  obtain mh where 1: "map_entries L st td = Some (mh, st1)" and 2: "generateTx L st1 td mh = Some tx"
    using assms(1) by (auto simp: MapTx_def split: option.splits)
  obtain mh0 where 3: "mapInputs L st td 0 (tdInputs td) (newMapHelper td) = Some mh0"
    and eq: "mhInputIDs mh = mhInputIDs mh0" "mhSpentOutputIDs mh = mhSpentOutputIDs mh0"
    by (rule map_entries_inv [OF 1 assms(2)])
  have tx: "InputIDs tx = mhInputIDs mh" "SpentOutputIDs tx = mhSpentOutputIDs mh"
    using 2 by (auto simp: generateTx_def Let_def addEntry_def split: option.splits)
  have n: "0 + length (tdInputs td) \<le> length (mhInputIDs (newMapHelper td))"
    by (simp add: newMapHelper_def)
  show "length (InputIDs tx) = length (tdInputs td)" "\<forall>j < length (tdInputs td). id_ok L st (tdInputs td ! j) (InputIDs tx ! j)"
    "SpentOutputIDs tx = concat (map (\<lambda>t. spend_ref L st t @ veto_ref L st t) (tdInputs td))"
    using mapInputs_ids [OF 3 n] by (simp_all add: tx eq newMapHelper_def)
qed

lemma accepted_distinct:
  assumes "accepted E n st td st'" "td_in st td"
  shows "distinct (concat (map (spend_ref (eLib E) st) (tdInputs td)))" "distinct (concat (map (veto_ref (eLib E) st) (tdInputs td)))"
proof -
  obtain st1 g st'' where tx: "MapTx (eLib E) st td = Some (eTx E, st1)" and v: "ValidateTx n E st' = (VOk g, st'')"
    and e: "bhVersion (blkHeader (eBlock E)) = 1"
    using assms(1) by (auto simp: accepted_def)
  have d: "distinct (InputIDs (eTx E))"
    using ValidateTx_has_result(3) [OF v e] by (simp add: checkDoubleSpend_iff)
  note I = MapTx_ids [OF tx assms(2)]
  show "distinct (concat (map (spend_ref (eLib E) st) (tdInputs td)))"
    by (rule distinct_refs [OF d I(1), where g = "spend_id (eLib E)"])
       (use I(2) in \<open>auto simp: id_ok_def spend_ref_def split: option.splits TypedInput.splits\<close>)
  show "distinct (concat (map (veto_ref (eLib E) st) (tdInputs td)))"
    by (rule distinct_refs [OF d I(1), where g = "veto_id (eLib E)"])
       (use I(2) in \<open>auto simp: id_ok_def veto_ref_def split: option.splits TypedInput.splits\<close>)
qed

end
