(* ===== verification/TxSample.thy ===== *)
theory TxSample
  imports TxSafety VmEval
begin

text \<open>
  A transaction that is accepted: it spends 500000 BTM whose program pushes 1, retires 100000
  and leaves the rest as the fee. The hash function is a checksum that is
  different for all the strings that are hashed for it.
\<close>

definition checksum :: "bytes \<Rightarrow> byte" where
  "checksum bs = of_nat (length bs) + 5 * (case bs of [] \<Rightarrow> 0 | b # _ \<Rightarrow> b)"

definition sum_lib :: lib where
  "sum_lib = sample_lib\<lparr>sha3_256 := \<lambda>bs. replicate 31 0 @ [checksum bs]\<rparr>"

definition sample_store :: store where
  "sample_store = [[1], [1, 1], [OP_FAIL]]"

definition btm :: "u64 \<Rightarrow> AssetAmount" where
  "btm n = \<lparr>aaAssetId = Some BTMAssetID, aaAmount = n\<rparr>"

definition one_byte :: "nat \<Rightarrow> slice" where
  "one_byte k = \<lparr>s_arr = k, s_off = 0, s_len = 1, s_cap = 1\<rparr>"

definition push_one :: slice where
  "push_one = \<lparr>s_arr = 1, s_off = 0, s_len = 2, s_cap = 2\<rparr>"

definition sample_input :: "slice TxInput" where
  "sample_input =
     \<lparr>inAssetVersion = 1,
      inTyped = Some (SpendIn
        \<lparr>siSpendCommitmentSuffix = [], siArguments = [],
         siSpendCommitment =
           \<lparr>scAssetAmount = btm 500000, scSourceID = zeroHash, scSourcePosition = 0, scVMVersion = 1,
            scControlProgram = push_one, scStateData = None\<rparr>\<rparr>),
      inCommitmentSuffix = [], inWitnessSuffix = []\<rparr>"

definition sample_output :: "slice TxOutput" where
  "sample_output =
     \<lparr>outAssetVersion = 1,
      outCommitment =
        \<lparr>ocAssetAmount = btm 100000, ocVMVersion = 1, ocControlProgram = one_byte 2, ocStateData = None\<rparr>,
      outCommitmentSuffix = [], outTyped = OriginalTxOutput\<rparr>"

definition sample_td :: "slice TxData" where
  "sample_td =
     \<lparr>tdVersion = 1, tdSerializedSize = 100, tdTimeRange = 0, tdInputs = [sample_input], tdOutputs = [sample_output]\<rparr>"

abbreviation small_hash :: "u64 \<Rightarrow> Hash" where
  "small_hash n \<equiv> \<lparr>V0 = 0, V1 = 0, V2 = 0, V3 = n\<rparr>"

lemma nat_of_be_zeros: "nat_of_be (replicate k 0 @ bs) = nat_of_be bs"
  by (induction k) (simp_all add: nat_of_be_def)

lemma sum_lib_hash: "NewHash (sha3_256 sum_lib bs) = small_hash (ucast (checksum bs))"
proof -
  have "nat_of_be (replicate k 0) = 0" for k
    using nat_of_be_zeros [of k "[]"] by (simp add: nat_of_be_def)
  moreover have "nat_of_be [b] = unat b" for b
    by (simp add: nat_of_be_def)
  moreover have "of_nat (unat b) = (ucast b :: u64)" for b :: byte
    by simp
  ultimately show ?thesis
    by (simp only: sum_lib_def NewHash_def be_Uint64_def nat_of_be_zeros lib.simps) (simp add: nat_of_be_zeros)
qed

lemma checksum_preimage: "checksum (id_preimage sum_lib st e) = of_nat (length (entry_typ e)) + 34"
proof -
  have "length (sha3_256 sum_lib b) = 32" for b by (simp add: sum_lib_def)
  then show ?thesis by (simp add: checksum_def id_preimage_def str_bytes_def)
qed

lemma EntryID_sum:
  assumes "snd (writeForHash st e)"
  shows "EntryID_of sum_lib st (Some e) = Some (small_hash (ucast (of_nat (length (entry_typ e)) + 34 :: byte)))"
  using assms checksum_preimage [of st e]
  by (cases "writeForHash st e") (simp add: EntryID_of_def sum_lib_hash id_preimage_def)

text \<open>Serialisations of one-byte programs, of empty state data and of lists with one element.\<close>

lemma uvarint_small: "x < 0x80 \<Longrightarrow> uvarint x = [ucast x]"
  by (simp add: uvarint.simps [of x] linorder_not_less [symmetric])

lemma small_writes [simp]:
  "w_bytes [b] = ([1, b], True)" "w_bytes [b, c] = ([2, b, c], True)" "w_byteslist [] = ([0], True)" "woutput (WriteVarint31 (Suc 0)) = ([1], True)"
  by (simp_all add: w_bytes_def w_byteslist_def woutput_def WriteVarstr31_def WriteVarstrList_def WriteVarint31_def
      PutUvarint_def uvarint_small)

lemma wseq_pair [simp]: "wseq (a, True) (b, c) = (a @ b, c)"
  by (simp add: wseq_def)

lemmas entry_defs = NewOriginalOutput_def NewSpend_def NewMux_def NewRetirement_def NewTxHeader_def btm_def one_byte_def
  prevout_source_def prevout_program_def

text \<open>The entries of the transaction.\<close>

abbreviation source_at :: "Hash \<Rightarrow> u64 \<Rightarrow> ValueSource" where
  "source_at h n \<equiv> \<lparr>srcRef = Some h, srcValue = Some (btm n), srcPosition = 0\<rparr>"

definition the_prevout :: Entry where
  "the_prevout = EOriginalOutput (NewOriginalOutput (Some (source_at zeroHash 500000))
     (Some \<lparr>VmVersion = 1, progCode = push_one\<rparr>) None 0)"

definition the_spend :: "ValueDestination option \<Rightarrow> Entry" where
  "the_spend d = ESpend \<lparr>spSpentOutputId = Some (small_hash 49), spWitnessDestination = d, spWitnessArguments = [], spOrdinal = 0\<rparr>"

definition the_mux :: "ValueDestination option list \<Rightarrow> Entry" where
  "the_mux ds = EMux \<lparr>muxSources = [Some (source_at (small_hash 40) 500000)],
     muxProgram = Some \<lparr>VmVersion = 1, progCode = one_byte 3\<rparr>, muxWitnessDestinations = ds, muxWitnessArguments = []\<rparr>"

definition the_retirement :: Entry where
  "the_retirement = ERetirement (NewRetirement (Some (source_at (small_hash 38) 100000)) 0)"

definition the_header :: TxHeader where
  "the_header = \<lparr>hdrVersion = 1, hdrSerializedSize = 100, hdrTimeRange = 0, hdrResultIds = [Some (small_hash 45)]\<rparr>"

abbreviation sample_mem :: store where
  "sample_mem \<equiv> sample_store @ [[OP_TRUE]]"

lemma program_bytes:
  "slice_bytes (sample_store @ x) push_one = [1, 1]" "slice_bytes (sample_store @ x) (one_byte 2) = [OP_FAIL]"
  "slice_bytes sample_store push_one = [1, 1]" "slice_bytes sample_mem (one_byte 3) = [OP_TRUE]"
  by (simp_all add: slice_bytes_def one_byte_def push_one_def sample_store_def)

lemma Byte32_written: "w_hash (Some h) = (Byte32 h, True)"
  by (simp add: w_hash_def)

lemma be_bytes_zero: "be_bytes k 0 = replicate k 0"
  by (induction k) (simp_all add: replicate_append_same)

lemma checksum_append: "bs \<noteq> [] \<Longrightarrow> checksum (bs @ cs) = checksum bs + of_nat (length cs)"
  by (cases bs) (simp_all add: checksum_def)

lemma checksum_hash: "checksum (Byte32 (small_hash n)) = 32" "checksum (Byte32 zeroHash) = 32" "Byte32 h \<noteq> []"
proof -
  have "checksum (replicate 8 0 @ cs) = 8 + of_nat (length cs)" for cs
    using replicate_Suc [of 7 "0 :: byte"] by (simp add: checksum_def)
  then show "checksum (Byte32 (small_hash n)) = 32" "checksum (Byte32 zeroHash) = 32"
    by (simp_all add: Byte32_def be_bytes_zero zeroHash_def)
  show "Byte32 h \<noteq> []"
    using length_Byte32 [of h] by (metis list.size(3) zero_neq_numeral)
qed

lemma u64_written: "w_u64 n = (rev (be_bytes 8 (unat n)), True)" "be_bytes 8 k = be_bytes 7 (k div 256) @ [of_nat (k mod 256)]"
  using be_bytes.simps(2) [of 7 k] by (simp_all add: w_u64_def)

lemma sample_writes:
  "\<exists>b. checksum b = 92 \<and> writeForHash (sample_store @ x) the_prevout = (b, True)"
  "\<exists>b. checksum b = 32 \<and> writeForHash st (the_spend d) = (b, True)"
  "\<exists>b. checksum b = 96 \<and> writeForHash sample_mem (the_mux ds) = (b, True)"
  "\<exists>b. checksum b = 80 \<and> writeForHash st the_retirement = (b, True)"
  "\<exists>b. checksum b = 54 \<and> writeForHash st (ETxHeader the_header) = (b, True)"
proof -
  note sm = the_prevout_def the_spend_def the_mux_def the_retirement_def the_header_def NewOriginalOutput_def
      NewRetirement_def w_ptr_def w_source_def w_program_def w_state_def w_list_def w_amount_def btm_def program_bytes
      Byte32_written checksum_append checksum_hash u64_written(1)
  show "\<exists>b. checksum b = 92 \<and> writeForHash (sample_store @ x) the_prevout = (b, True)"
    by (simp add: sm)
  show "\<exists>b. checksum b = 32 \<and> writeForHash st (the_spend d) = (b, True)"
    by (simp add: sm)
  show "\<exists>b. checksum b = 96 \<and> writeForHash sample_mem (the_mux ds) = (b, True)"
    by (simp add: sm) (simp add: checksum_def)
  show "\<exists>b. checksum b = 80 \<and> writeForHash st the_retirement = (b, True)"
    by (simp add: sm)
  show "\<exists>b. checksum b = 54 \<and> writeForHash st (ETxHeader the_header) = (b, True)"
    by (simp add: sm u64_written(2)) (simp add: checksum_def)
qed

lemma sample_ids:
  "EntryID_of sum_lib (sample_store @ x) (Some the_prevout) = Some (small_hash 49)"
  "EntryID_of sum_lib st (Some (the_spend d)) = Some (small_hash 40)"
  "EntryID_of sum_lib sample_mem (Some (the_mux ds)) = Some (small_hash 38)"
  "EntryID_of sum_lib st (Some the_retirement) = Some (small_hash 45)"
  "EntryID_of sum_lib st (Some (ETxHeader the_header)) = Some (small_hash 42)"
proof -
  have 1: "snd (writeForHash (sample_store @ x) the_prevout)" "snd (writeForHash st (the_spend d))" "snd (writeForHash sample_mem (the_mux ds))"
    "snd (writeForHash st the_retirement)" "snd (writeForHash st (ETxHeader the_header))"
    using sample_writes by (metis snd_conv)+
  show "EntryID_of sum_lib (sample_store @ x) (Some the_prevout) = Some (small_hash 49)"
    "EntryID_of sum_lib st (Some (the_spend d)) = Some (small_hash 40)"
    "EntryID_of sum_lib sample_mem (Some (the_mux ds)) = Some (small_hash 38)"
    "EntryID_of sum_lib st (Some the_retirement) = Some (small_hash 45)"
    "EntryID_of sum_lib st (Some (ETxHeader the_header)) = Some (small_hash 42)"
    by (simp_all add: EntryID_sum [OF 1(1)] EntryID_sum [OF 1(2)] EntryID_sum [OF 1(3)] EntryID_sum [OF 1(4)] EntryID_sum [OF 1(5)])
       (simp_all add: the_prevout_def the_spend_def the_mux_def the_retirement_def)
qed

abbreviation dest_at :: "Hash \<Rightarrow> u64 \<Rightarrow> ValueDestination" where
  "dest_at h n \<equiv> \<lparr>dstRef = Some h, dstValue = Some (btm n), dstPosition = 0\<rparr>"

definition sample_heap :: "Entry list" where
  "sample_heap = [the_prevout, the_spend (Some (dest_at (small_hash 38) 500000)),
     the_mux [Some (dest_at (small_hash 45) 100000)], the_retirement]"

definition sample_tx :: Tx where
  "sample_tx =
     \<lparr>TxHeader_of = the_header, txID = small_hash 42,
      Entries = [small_hash 49 \<mapsto> the_prevout, small_hash 40 \<mapsto> the_spend (Some (dest_at (small_hash 38) 500000)),
        small_hash 38 \<mapsto> the_mux [Some (dest_at (small_hash 45) 100000)], small_hash 45 \<mapsto> the_retirement,
        small_hash 42 \<mapsto> ETxHeader the_header],
      InputIDs = [small_hash 40], SpentOutputIDs = [small_hash 49]\<rparr>"

lemma the_output: "output_entry sample_mem (small_hash 38) 0 sample_output = the_retirement"
  by (simp add: output_entry_def sample_output_def program_bytes IsUnspendable_def the_retirement_def)

lemma sample_inputs:
  "mapInputs sum_lib sample_store sample_td 0 [sample_input] (newMapHelper sample_td) =
     Some \<lparr>mhHeap = [the_prevout, the_spend None], mhEntryMap = [small_hash 49 \<mapsto> 0, small_hash 40 \<mapsto> 1], mhSpends = [1],
           mhIssuances = [], mhVetos = [], mhCoinbase = None, mhMuxSources = [Some (source_at (small_hash 40) 500000)],
           mhInputIDs = [small_hash 40], mhSpentOutputIDs = [small_hash 49], mhResultIDs = []\<rparr>"
proof -
  have out: "EOriginalOutput (NewOriginalOutput (Some \<lparr>srcRef = Some zeroHash, srcValue = Some (btm 500000), srcPosition = 0\<rparr>)
       (Some \<lparr>VmVersion = 1, progCode = push_one\<rparr>) None 0) = the_prevout"
    by (simp add: the_prevout_def)
  have sp: "ESpend ((NewSpend (Some (small_hash 49)) 0)\<lparr>spWitnessArguments := []\<rparr>) = the_spend None"
    by (simp add: the_spend_def NewSpend_def)
  show ?thesis
    using sample_ids(1) [of "[]"]
    by (simp add: sample_input_def mapInput_def mapSpendInput_def newMapHelper_def sample_td_def Let_def addEntry_def
        prevout_source_def prevout_program_def out sp sample_ids(2) setInput_def)
qed

lemma sample_map_entries:
  "map_entries sum_lib sample_store sample_td =
     Some (\<lparr>mhHeap = sample_heap, mhEntryMap = [small_hash 49 \<mapsto> 0, small_hash 40 \<mapsto> 1, small_hash 38 \<mapsto> 2, small_hash 45 \<mapsto> 3], mhSpends = [1],
           mhIssuances = [], mhVetos = [], mhCoinbase = None, mhMuxSources = [Some (source_at (small_hash 40) 500000)],
           mhInputIDs = [small_hash 40], mhSpentOutputIDs = [small_hash 49], mhResultIDs = [Some (small_hash 45)]\<rparr>, sample_mem)"
proof -
  let ?mh = "\<lparr>mhHeap = [the_prevout, the_spend None], mhEntryMap = [small_hash 49 \<mapsto> 0, small_hash 40 \<mapsto> 1], mhSpends = [1],
           mhIssuances = [], mhVetos = [], mhCoinbase = None, mhMuxSources = [Some (source_at (small_hash 40) 500000)],
           mhInputIDs = [small_hash 40], mhSpentOutputIDs = [small_hash 49], mhResultIDs = []\<rparr>"
  have mux: "EMux (NewMux [Some (source_at (small_hash 40) 500000)] (Some \<lparr>VmVersion = 1, progCode = snd (alloc sample_store [OP_TRUE])\<rparr>)) = the_mux []"
    by (simp add: the_mux_def NewMux_def alloc_def sample_store_def one_byte_def)
  have al: "alloc sample_store [OP_TRUE] = (sample_mem, one_byte 3)"
    by (simp add: alloc_def sample_store_def one_byte_def)
  have "initMux sum_lib sample_store ?mh =
    Some (small_hash 38, 2, ?mh\<lparr>mhHeap := [the_prevout, the_spend (Some (dest_at (small_hash 38) 500000)), the_mux []],
       mhEntryMap := [small_hash 49 \<mapsto> 0, small_hash 40 \<mapsto> 1, small_hash 38 \<mapsto> 2]\<rparr>, sample_mem)"
    using mux al by (simp add: initMux_def Let_def addEntry_def sample_ids connect_def mux_input_def set_heap_def SetDestination_def
        the_spend_def the_prevout_def NewOriginalOutput_def)
      (simp add: numeral_2_eq_2)
  moreover have "add_dest d (the_mux ds) = the_mux (ds @ [Some d])" for d ds
    by (simp add: add_dest_def the_mux_def)
  ultimately show ?thesis
    using sample_inputs
    by (simp add: map_entries_def sample_td_def the_output addEntry_def sample_ids set_heap_def sample_heap_def)
       (simp add: sample_output_def, simp add: numeral_2_eq_2 numeral_3_eq_3)
qed

lemma sample_MapTx: "MapTx sum_lib sample_store sample_td = Some (sample_tx, sample_mem)"
proof -
  have td: "tdVersion sample_td = 1" "tdSerializedSize sample_td = 100" "tdTimeRange sample_td = 0"
    by (simp_all add: sample_td_def)
  have h: "NewTxHeader 1 100 0 [Some (small_hash 45)] = the_header"
    by (simp add: the_header_def NewTxHeader_def)
  have "(\<lambda>k. map_option (\<lambda>p. (sample_heap @ [ETxHeader the_header]) ! p)
           (([small_hash 49 \<mapsto> 0, small_hash 40 \<mapsto> 1, small_hash 38 \<mapsto> 2, small_hash 45 \<mapsto> 3](small_hash 42 \<mapsto> length sample_heap)) k)) =
        Entries sample_tx"
    by (rule ext) (simp add: sample_tx_def sample_heap_def)
  then show ?thesis
    by (simp add: MapTx_def sample_map_entries generateTx_def Let_def addEntry_def td h sample_ids)
       (simp add: sample_tx_def)
qed

lemma sample_collision_free: "collision_free sum_lib sample_store sample_td"
proof -
  let ?d = "dest_at (small_hash 38) 500000" and ?ds = "[Some (dest_at (small_hash 45) 100000)]"
  obtain b1 where 1: "checksum b1 = 92" "writeForHash sample_mem the_prevout = (b1, True)" using sample_writes(1) by blast
  obtain b2 where 2: "checksum b2 = 32" "writeForHash sample_mem (the_spend (Some ?d)) = (b2, True)" using sample_writes(2) by blast
  obtain b3 where 3: "checksum b3 = 96" "writeForHash sample_mem (the_mux ?ds) = (b3, True)" using sample_writes(3) by blast
  obtain b4 where 4: "checksum b4 = 80" "writeForHash sample_mem the_retirement = (b4, True)" using sample_writes(4) by blast
  obtain b5 where 5: "checksum b5 = 54" "writeForHash sample_mem (ETxHeader the_header) = (b5, True)" using sample_writes(5) by blast
  have h: "tx_header sample_td mh = the_header" if "mhResultIDs mh = [Some (small_hash 45)]" for mh
    using that by (simp add: tx_header_def the_header_def NewTxHeader_def sample_td_def)
  have ty: "entry_typ the_prevout = ''originalOutput1''" "entry_typ (the_spend (Some ?d)) = ''spend1''"
    "entry_typ (the_mux ?ds) = ''mux1''" "entry_typ the_retirement = ''retirement1''"
    by (simp_all add: the_prevout_def the_spend_def the_mux_def the_retirement_def)
  let ?S = "{b1, b2, b3, b4, b5} \<union> id_preimage sum_lib sample_mem ` set (sample_heap @ [ETxHeader the_header])"
  have sub: "hashed_strings sum_lib sample_store sample_td \<subseteq> ?S"
    by (simp add: hashed_strings_def sample_map_entries h sample_heap_def hash_inputs_def 1 2 3 4 5 del: writeForHash.simps)
  have "inj_on checksum ?S"
    by (simp add: inj_on_def sample_heap_def 1 2 3 4 5 checksum_preimage ty)
  then have "inj_on checksum (hashed_strings sum_lib sample_store sample_td)"
    using sub by (rule inj_on_subset)
  moreover have "sha3_256 sum_lib a = sha3_256 sum_lib b \<longleftrightarrow> checksum a = checksum b" for a b
    by (simp add: sum_lib_def)
  moreover have "hash_ok sum_lib"
    using sample_lib_ok(2) by (simp add: hash_ok_def sum_lib_def)
  ultimately show ?thesis
    by (simp add: collision_free_def inj_on_def)
qed

definition sample_env :: valEnv where
  "sample_env =
     \<lparr>eLib = sum_lib, eFuel = 10, eConverter = (\<lambda>_. None), eRange = (\<lambda>m. m),
      eBlock = \<lparr>blkHeader = \<lparr>bhVersion = 1, bhHeight = 1, bhPreviousBlockId = None, bhTimestamp = 0, bhTransactionsRoot = None\<rparr>,
                blkID = zeroHash, blkTransactions = []\<rparr>,
      eTx = sample_tx, eTxRef = 0\<rparr>"

lemma sample_entries [simp]:
  "Entries sample_tx (small_hash 49) = Some the_prevout"
  "Entries sample_tx (small_hash 40) = Some (the_spend (Some (dest_at (small_hash 38) 500000)))"
  "Entries sample_tx (small_hash 38) = Some (the_mux [Some (dest_at (small_hash 45) 100000)])"
  "Entries sample_tx (small_hash 45) = Some the_retirement"
  by (simp_all add: sample_tx_def)

lemma sample_env_simps [simp]:
  "eLib sample_env = sum_lib" "eTx sample_env = sample_tx" "eRange sample_env = (\<lambda>m. m)" "eFuel sample_env = 10"
  by (simp_all add: sample_env_def)

lemma push_one_run:
  assumes "VMVersion c = 1" "Code c = push_one" "StateData c = []" "Arguments c = []"
  shows "Verify L 10 c 2000 ([1] # [1, 1] # st) = Some (1990, None, [1] # [1, 1] # st @ [[1]])"
proof -
  have "unat (- 1 :: 32 word) = 4294967295"
    by (simp add: unsigned_minus_1_eq_mask mask_eq_exp_minus_1)
  with assms show ?thesis
    by (simp add: eval_machine push_one_def) (simp add: eval_op eval_machine)
qed

lemma push_one_parse: "ParseProgram [1, 1] = Inr [\<lparr>Op = 1, Len = 2, Data = [1]\<rparr>]"
  by (simp add: ParseProgram_def parse_loop.simps ParseOp_def parse_data_def AddUint32_def window_def OP_DATA_def Let_def
      word_le_nat_alt word_less_nat_alt unsigned_minus_1_eq_mask mask_eq_exp_minus_1)

lemma sample_run:
  assumes "mem s = sample_mem" "gasStatus s = \<lparr>BTMValue = 400000, GasLeft = 2000, GasUsed = 0, StorageGas = 100\<rparr>"
  shows "\<exists>st. runProgram sample_env (the_spend (Some (dest_at (small_hash 38) 500000)))
           (Some \<lparr>VmVersion = 1, progCode = push_one\<rparr>) None [] s =
         (VOk (), s\<lparr>mem := sample_store @ st, gasStatus := \<lparr>BTMValue = 400000, GasLeft = 1990, GasUsed = 10, StorageGas = 100\<rparr>\<rparr>)"
proof -
  let ?e = "the_spend (Some (dest_at (small_hash 38) 500000))"
  have f: "context_fields sample_tx ?e = Some (Some (Byte32 BTMAssetID, 500000, 0), Some (Byte32 (small_hash 49)))"
    by (simp add: context_fields_def the_spend_def the_prevout_def NewOriginalOutput_def btm_def)
  have p: "convertProgram sample_env push_one sample_mem = Some (push_one, sample_mem)"
    by (simp add: convertProgram_def program_bytes push_one_parse IsP2WPKHScript_def IsP2WSHScript_def IsCallContractScript_def)
  obtain c st where c: "NewTxVMContext sample_env ?e \<lparr>VmVersion = 1, progCode = push_one\<rparr> None [] sample_mem = Some (c, sample_store @ st)"
    "VMVersion c = 1" "Code c = push_one" "StateData c = []" "Arguments c = []"
    by (simp add: NewTxVMContext_def Let_def sample_ids f p alloc_def alloc_opt_def)
  have "Verify sum_lib 10 c 2000 (sample_store @ st) = Some (1990, None, sample_store @ st @ [[1]])"
    using push_one_run [OF c(2-5), of sum_lib "[OP_FAIL] # st"] by (simp add: sample_store_def)
  with c(1) assms show ?thesis
    by (intro exI [of _ "st @ [[1]]"]) (simp add: runProgram_def vthen_def deref_def on_gas_def updateUsage_def SubInt64_def i64_id)
qed

text \<open>The walk, from the spend up to the header.\<close>

abbreviation fee_gas :: "int \<Rightarrow> int \<Rightarrow> GasState" where
  "fee_gas left used \<equiv> \<lparr>BTMValue = 400000, GasLeft = left, GasUsed = used, StorageGas = 100\<rparr>"

lemmas walk_defs = vthen_def deref_def check_that_def vok_def memoize_def checkEntryType_def

lemma sample_spend_ok:
  assumes "mem s = sample_mem" "gasStatus s = fee_gas 2000 0" "cache s = Map.empty" "entryID p = small_hash 40"
  shows "\<exists>s'. checkValid (Suc n) sample_env p (Some (the_spend (Some (dest_at (small_hash 38) 500000)))) s = (VOk (), s') \<and>
           gasStatus s' = fee_gas 1990 10"
proof -
  let ?d = "dest_at (small_hash 38) 500000"
  obtain st where "runProgram sample_env (the_spend (Some ?d)) (Some \<lparr>VmVersion = 1, progCode = push_one\<rparr>) None [] s =
         (VOk (), s\<lparr>mem := sample_store @ st, gasStatus := fee_gas 1990 10\<rparr>)"
    using sample_run [OF assms(1,2)] by blast
  moreover have "checkValidDest sample_env (p\<lparr>destPos := 0\<rparr>) (Some ?d) t = (VOk (), t)" for t
    using assms(4) by (simp add: checkValidDest_def dest_source_def the_mux_def walk_defs aaEqual_def btm_def)
  ultimately have "checkSpend sample_env p \<lparr>spSpentOutputId = Some (small_hash 49), spWitnessDestination = Some ?d,
       spWitnessArguments = [], spOrdinal = 0\<rparr> s = (VOk (), s\<lparr>mem := sample_store @ st, gasStatus := fee_gas 1990 10\<rparr>)"
    by (simp add: checkSpend_def tx_OriginalOutput_def the_prevout_def NewOriginalOutput_def the_spend_def
        checkSpentValue_def walk_defs aaEqual_def btm_def)
  then show ?thesis
    using assms(1,3) sample_ids(2) [of sample_mem "Some ?d"] by (simp add: walk_defs the_spend_def)
qed

lemma sample_mux_ok:
  assumes "mem s = sample_mem" "gasStatus s = zeroGas" "cache s = Map.empty" "entryID p = small_hash 38"
  shows "\<exists>s'. checkValid (Suc (Suc n)) sample_env p (Some (the_mux [Some (dest_at (small_hash 45) 100000)])) s = (VOk (), s')"
proof -
  let ?m = "\<lparr>muxSources = [Some (source_at (small_hash 40) 500000)], muxProgram = Some \<lparr>VmVersion = 1, progCode = one_byte 3\<rparr>,
     muxWitnessDestinations = [Some (dest_at (small_hash 45) 100000)], muxWitnessArguments = []\<rparr>"
  let ?s = "s\<lparr>gasStatus := fee_gas 2000 0\<rparr>"
  have sz: "hdrSerializedSize (TxHeader_of sample_tx) = 100" by (simp add: sample_tx_def the_header_def)
  obtain s2 where s2: "checkValid (Suc n) sample_env (p\<lparr>sourcePos := 0, entryID := small_hash 40\<rparr>)
       (Some (the_spend (Some (dest_at (small_hash 38) 500000)))) ?s = (VOk (), s2)" "gasStatus s2 = fee_gas 1990 10"
    using sample_spend_ok [of ?s "p\<lparr>sourcePos := 0, entryID := small_hash 40\<rparr>" n] assms by auto
  have bal: "mux_balance 100 [(BTMAssetID, 400000)] s = (VOk (), ?s)"
    using assms(2) by (simp add: walk_defs on_gas_def setGas_def Let_def DivInt64_def MulInt64_def zeroGas_def i64_id)
  have dst: "checkValidDest sample_env (p\<lparr>destPos := 0\<rparr>) (Some (dest_at (small_hash 45) 100000)) t = (VOk (), t)" for t
    using assms(4) by (simp add: checkValidDest_def dest_source_def the_retirement_def NewRetirement_def walk_defs aaEqual_def btm_def)
  have src: "checkValidSrc (checkValid (Suc n) sample_env) sample_env (p\<lparr>sourcePos := 0\<rparr>) (Some (source_at (small_hash 40) 500000)) ?s = (VOk (), s2)"
    using assms(4) s2(1) by (simp add: checkValidSrc_def source_dest_def the_spend_def walk_defs aaEqual_def btm_def del: checkValid.simps)
  have "\<exists>s'. checkMux (checkValid (Suc n) sample_env) sample_env p ?m s = (VOk (), s')"
    using bal dst src s2(2)
    by (simp add: checkMux_def sz walk_defs btm_def parity_get_def parity_set_def AddInt64_def SubInt64_def on_gas_def
        chargeStorageGas_def i64_id int64_of_def swrap_id del: checkValid.simps mux_balance.simps)
  then show ?thesis
    using assms(1,3) sample_ids(3) by (auto simp: walk_defs the_mux_def)
qed

lemma sample_retirement_ok:
  assumes "mem s = sample_mem" "gasStatus s = zeroGas" "cache s = Map.empty" "entryID p = small_hash 45"
  shows "\<exists>s'. checkValid (Suc (Suc (Suc n))) sample_env p (Some the_retirement) s = (VOk (), s')"
proof -
  obtain s2 where "checkValid (Suc (Suc n)) sample_env (p\<lparr>sourcePos := 0, entryID := small_hash 38\<rparr>)
       (Some (the_mux [Some (dest_at (small_hash 45) 100000)])) s = (VOk (), s2)"
    using sample_mux_ok [of s "p\<lparr>sourcePos := 0, entryID := small_hash 38\<rparr>" n] assms by auto
  then have "checkValidSrc (checkValid (Suc (Suc n)) sample_env) sample_env (p\<lparr>sourcePos := 0\<rparr>)
       (Some (source_at (small_hash 38) 100000)) s = (VOk (), s2)"
    using assms(4) by (simp add: checkValidSrc_def source_dest_def the_mux_def walk_defs aaEqual_def btm_def del: checkValid.simps)
  then show ?thesis
    using assms(1,3) sample_ids(4) [of sample_mem]
    by (simp add: walk_defs the_retirement_def NewRetirement_def checkValid.simps(2) [of "Suc (Suc n)"] del: checkValid.simps)
qed

lemma sample_ValidateTx: "\<exists>g st. ValidateTx 4 sample_env sample_mem = (VOk g, st)"
proof -
  let ?s = "\<lparr>gasStatus = zeroGas, cache = Map.empty, mem = sample_mem\<rparr>"
  let ?p = "\<lparr>entryID = small_hash 42, sourcePos = 0, destPos = 0\<rparr>"
  obtain s1 where "checkValid (Suc (Suc (Suc 0))) sample_env (?p\<lparr>entryID := small_hash 45\<rparr>) (Some the_retirement) ?s = (VOk (), s1)"
    using sample_retirement_ok [of ?s "?p\<lparr>entryID := small_hash 45\<rparr>" 0] by auto
  then have "checkTxHeader (checkValid (Suc (Suc (Suc 0))) sample_env) sample_env ?p the_header ?s = (VOk (), s1)"
    by (simp add: checkTxHeader_def the_header_def walk_defs del: checkValid.simps)
  then have "\<exists>s2. checkValid (Suc (Suc (Suc (Suc 0)))) sample_env ?p (Some (ETxHeader the_header)) ?s = (VOk (), s2)"
    using sample_ids(5) [of sample_mem]
    by (simp add: walk_defs checkValid.simps(2) [of "Suc (Suc (Suc 0))"] del: checkValid.simps)
  moreover have "TxHeader_of sample_tx = the_header" "txID sample_tx = small_hash 42" "InputIDs sample_tx = [small_hash 40]"
    by (simp_all add: sample_tx_def)
  moreover have "bhVersion (blkHeader (eBlock sample_env)) = 1"
    by (simp add: sample_env_def)
  moreover have four: "4 = Suc (Suc (Suc (Suc 0)))" by simp
  ultimately show ?thesis
    unfolding four
    by (auto simp: ValidateTx_def Let_def checkTimeRange_def checkDoubleSpend_def the_header_def simp del: checkValid.simps)
qed

lemma sample_accepted: "accepted sample_env 4 sample_store sample_td sample_mem"
  using sample_MapTx sample_ValidateTx
  by (auto simp: accepted_def range_ok_def sample_env_def)

lemma sample_td_in: "td_in sample_store sample_td"
  by (simp add: td_in_def sample_td_def input_in_def sample_input_def sc_in_def output_in_def sample_output_def state_in_def
      sample_store_def push_one_def one_byte_def btm_def)

end
