(* ===== verification/TxAccepted.thy ===== *)
theory TxAccepted
  imports TxSample
begin

text \<open>What acceptance by \<^verbatim>\<open>ValidateTx\<close> guarantees of a transaction, with an accepted transaction as the witness.\<close>

text \<open>
  C1. An accepted transaction conserves value. Of every asset other than BTM the outputs take exactly
  what the inputs bring; of BTM they take at most that, and the rest is the fee. The sums are of
  mathematical integers, so no overflow hides a surplus. The transaction is any that \<^verbatim>\<open>MapTx\<close> maps,
  with assets on its spends and outputs, the map iteration may use any order, and the hash function
  must not collide on the strings hashed for the entries of this transaction.
\<close>

theorem accepted_conserves_value:
  assumes "accepted E n st td st'" "td_in st td" "collision_free (eLib E) st td"
  shows "(\<forall>a. a \<noteq> BTMAssetID \<longrightarrow> outputs_total td a = inputs_total (eLib E) st td a) \<and>
         outputs_total td BTMAssetID \<le> inputs_total (eLib E) st td BTMAssetID"
proof -
  have "if a = BTMAssetID then outputs_total td a \<le> inputs_total (eLib E) st td a
        else outputs_total td a = inputs_total (eLib E) st td a" for a
  proof -
    obtain m where "balanced m" "src_total a (muxSources m) = inputs_total (eLib E) st td a"
      "dst_total a (muxWitnessDestinations m) = outputs_total td a"
      by (rule accepted_mux [OF assms])
    then show ?thesis unfolding balanced_def by metis
  qed
  then show ?thesis by metis
qed

lemma accepted_conserves_value_witness:
  "outputs_total sample_td BTMAssetID = 100000 \<and> inputs_total sum_lib sample_store sample_td BTMAssetID = 500000 \<and>
   outputs_total sample_td BTMAssetID \<le> inputs_total sum_lib sample_store sample_td BTMAssetID \<and>
   outputs_total sample_td zeroHash = inputs_total sum_lib sample_store sample_td zeroHash"
proof -
  have "zeroHash \<noteq> BTMAssetID" by (simp add: zeroHash_def BTMAssetID_def)
  moreover have "outputs_total sample_td BTMAssetID = 100000" "inputs_total sum_lib sample_store sample_td BTMAssetID = 500000"
    by (simp_all add: outputs_total_def inputs_total_def sample_td_def sample_input_def sample_output_def value_in_def in_amount_def btm_def)
  ultimately show ?thesis
    using accepted_conserves_value [OF sample_accepted sample_td_in] sample_collision_free by simp
qed

text \<open>
  C2. An accepted transaction spends no output twice: no two of its spends refer to the same output, and
  no two of its vetos. The spent outputs that the transaction records, which the block and the pool
  use, are those that \<^verbatim>\<open>TxInput.SpentOutputID\<close> computes for its inputs, in their order. No assumption
  on the hash function is needed.
\<close>

theorem accepted_spends_once:
  assumes "accepted E n st td st'" "td_in st td"
  shows "distinct (concat (map (spend_ref (eLib E) st) (tdInputs td))) \<and>
         distinct (concat (map (veto_ref (eLib E) st) (tdInputs td))) \<and>
         SpentOutputIDs (eTx E) = concat (map (\<lambda>t. spend_ref (eLib E) st t @ veto_ref (eLib E) st t) (tdInputs td))"
  using accepted_distinct [OF assms] MapTx_ids(3) [OF _ assms(2)] assms(1) by (auto simp: accepted_def)

lemma accepted_spends_once_witness:
  "SpentOutputIDs sample_tx = [small_hash 49] \<and>
   SpentOutputIDs sample_tx = concat (map (\<lambda>t. spend_ref sum_lib sample_store t @ veto_ref sum_lib sample_store t) (tdInputs sample_td))"
  using accepted_spends_once [OF sample_accepted sample_td_in] by (simp add: sample_tx_def)

end
