(* ===== verification/Merkle.thy ===== *)
theory Merkle
  imports BcProps VmEval
begin

unbundle bit_operations_syntax

text \<open>
  \<^verbatim>\<open>protocol/bc/types/merkle.go\<close>: the merkle root of the transactions of a block, and proofs that
  transactions belong to it. The nodes are transaction identifiers, which \<^verbatim>\<open>WriteTo\<close> writes as 32
  bytes. A \<^verbatim>\<open>list.List\<close> that a function consumes is passed on. A node of the tree has two children
  or none, since \<^verbatim>\<open>newMerkleTreeNode\<close> is called in no other way.
\<close>

section \<open>The tree\<close>

text \<open>The logarithm is that of the integers; \<^verbatim>\<open>math.Log2\<close> truncates to it for the lengths of lists that fit in memory.\<close>

fun log2_floor :: "nat \<Rightarrow> nat" where
  "log2_floor n = (if n \<le> 1 then 0 else Suc (log2_floor (n div 2)))"

declare log2_floor.simps [simp del]

definition prevPowerOfTwo :: "nat \<Rightarrow> nat" where
  "prevPowerOfTwo n = (if n AND (n - 1) = 0 then n div 2 else 2 ^ log2_floor n)"

lemma log2_floor_bounds: "0 < n \<Longrightarrow> 2 ^ log2_floor n \<le> n \<and> n < 2 * 2 ^ log2_floor n"
proof (induction n rule: log2_floor.induct)
  case (1 n)
  show ?case
  proof (cases "n \<le> 1")
    case True
    with 1 show ?thesis by (simp add: log2_floor.simps [of n])
  next
    case False
    with 1 have "2 ^ log2_floor (n div 2) \<le> n div 2" "n div 2 < 2 * 2 ^ log2_floor (n div 2)" by auto
    with False show ?thesis by (simp add: log2_floor.simps [of n]) linarith
  qed
qed

lemma and_pred_zero: "0 < n \<Longrightarrow> n AND (n - 1) = 0 \<Longrightarrow> \<exists>k. n = (2 :: nat) ^ k"
proof (induction n rule: less_induct)
  case (less n)
  show ?case
  proof (cases "even n")
    case True
    then obtain m where m: "n = 2 * m" by blast
    with less.prems have "0 < m" by simp
    moreover have "(n - 1) mod 2 = 1" "(n - 1) div 2 = m - 1" using \<open>0 < m\<close> m by (simp_all add: mod_2_eq_odd) 
    moreover have "n AND (n - 1) = 2 * (m AND (m - 1))"
      using and_nat_unfold [of n "n - 1"] calculation m by simp
    ultimately obtain k where "m = 2 ^ k" using less.IH [of m] less.prems m by auto
    then show ?thesis using m by (intro exI [of _ "Suc k"]) simp
  next
    case False
    then obtain m where m: "n = 2 * m + 1" by (elim oddE)
    have "n AND (n - 1) = 2 * m"
      using and_nat_unfold [of n "n - 1"] m by simp
    with less.prems m show ?thesis by (intro exI [of _ 0]) simp
  qed
qed

lemma prevPowerOfTwo_spec:
  assumes "2 \<le> n"
  shows "\<exists>k. prevPowerOfTwo n = 2 ^ k" "prevPowerOfTwo n < n" "n \<le> 2 * prevPowerOfTwo n" "0 < prevPowerOfTwo n"
proof -
  have "(\<exists>k. prevPowerOfTwo n = 2 ^ k) \<and> prevPowerOfTwo n < n \<and> n \<le> 2 * prevPowerOfTwo n"
  proof (cases "n AND (n - 1) = 0")
    case True
    with and_pred_zero [of n] assms obtain k where k: "n = 2 ^ k" by auto
    with assms obtain j where "k = Suc j" by (cases k) auto
    with k True show ?thesis by (auto simp: prevPowerOfTwo_def)
  next
    case False
    have "n \<noteq> 2 ^ log2_floor n"
    proof
      assume n: "n = 2 ^ log2_floor n"
      have "(2 :: nat) ^ j AND (2 ^ j - 1) = 0" for j
        using take_bit_eq_mask [of j "2 ^ j :: nat"] by (simp add: mask_eq_exp_minus_1)
      with n False show False by metis
    qed
    with log2_floor_bounds [of n] assms False show ?thesis by (auto simp: prevPowerOfTwo_def)
  qed
  then show "\<exists>k. prevPowerOfTwo n = 2 ^ k" "prevPowerOfTwo n < n" "n \<le> 2 * prevPowerOfTwo n" "0 < prevPowerOfTwo n"
    using assms by auto
qed

lemma split_smaller:
  assumes "nodes \<noteq> []" "length nodes \<noteq> Suc 0"
  shows "min (length nodes) (prevPowerOfTwo (length nodes)) < length nodes" "0 < prevPowerOfTwo (length nodes)"
proof -
  have "2 \<le> length nodes" using assms by (cases nodes) (auto simp: Suc_le_eq)
  from prevPowerOfTwo_spec(2,4) [OF this] show "min (length nodes) (prevPowerOfTwo (length nodes)) < length nodes"
    "0 < prevPowerOfTwo (length nodes)" by auto
qed

definition EmptyStringHash :: "lib \<Rightarrow> Hash" where
  "EmptyStringHash L = NewHash (sha3_256 L [])"

definition leaf_string :: "Hash \<Rightarrow> bytes" where
  "leaf_string h = 0 # Byte32 h"

definition interior_string :: "Hash \<Rightarrow> Hash \<Rightarrow> bytes" where
  "interior_string l r = 1 # Byte32 l @ Byte32 r"

definition leafMerkleHash :: "lib \<Rightarrow> Hash \<Rightarrow> Hash" where
  "leafMerkleHash L node = NewHash (sha3_256 L (leaf_string node))"

definition interiorMerkleHash :: "lib \<Rightarrow> Hash \<Rightarrow> Hash \<Rightarrow> Hash" where
  "interiorMerkleHash L l r = NewHash (sha3_256 L (interior_string l r))"

function merkleRoot :: "lib \<Rightarrow> Hash list \<Rightarrow> Hash" where
  "merkleRoot L nodes =
     (if length nodes = 0 then EmptyStringHash L
      else if length nodes = 1 then leafMerkleHash L (nodes ! 0)
      else let k = prevPowerOfTwo (length nodes) in
           interiorMerkleHash L (merkleRoot L (take k nodes)) (merkleRoot L (drop k nodes)))"
  by pat_completeness auto
termination
  by (relation "measure (\<lambda>(L, nodes). length nodes)") (simp_all add: split_smaller)

datatype merkleTreeNode = Leaf (node_hash: Hash) | Interior (node_hash: Hash) merkleTreeNode merkleTreeNode

text \<open>\<open>None\<close> is the nil tree of no data.\<close>

function buildMerkleTree :: "lib \<Rightarrow> Hash list \<Rightarrow> merkleTreeNode option" where
  "buildMerkleTree L rawDatas =
     (if length rawDatas = 0 then None
      else if length rawDatas = 1 then Some (Leaf (leafMerkleHash L (rawDatas ! 0)))
      else let k = prevPowerOfTwo (length rawDatas) in
           case (buildMerkleTree L (take k rawDatas), buildMerkleTree L (drop k rawDatas)) of
             (Some l, Some r) \<Rightarrow> Some (Interior (interiorMerkleHash L (node_hash l) (node_hash r)) l r)
           | _ \<Rightarrow> None)"
  by pat_completeness auto
termination
  by (relation "measure (\<lambda>(L, nodes). length nodes)") (simp_all add: split_smaller)

declare merkleRoot.simps [simp del] buildMerkleTree.simps [simp del]

definition TxMerkleRoot :: "lib \<Rightarrow> Tx list \<Rightarrow> Hash" where
  "TxMerkleRoot L transactions = merkleRoot L (map txID transactions)"

section \<open>Proofs\<close>

abbreviation (input) FlagAssist :: byte where "FlagAssist \<equiv> 0"
abbreviation (input) FlagTxParent :: byte where "FlagTxParent \<equiv> 1"
abbreviation (input) FlagTxLeaf :: byte where "FlagTxLeaf \<equiv> 2"

primrec node_proof :: "Hash set \<Rightarrow> merkleTreeNode \<Rightarrow> Hash list \<times> byte list" where
  "node_proof S (Leaf h) = (if h \<in> S then ([h], [FlagTxLeaf]) else ([], []))"
| "node_proof S (Interior h l r) =
     (case (node_proof S l, node_proof S r) of ((leftHashes, leftFlags), (rightHashes, rightFlags)) \<Rightarrow>
        let leftFind = length leftHashes > 0; rightFind = length rightHashes > 0 in
        if \<not> (leftFind \<or> rightFind) then ([], [])
        else ((if leftFind then leftHashes else [node_hash l]) @ (if rightFind then rightHashes else [node_hash r]),
              [FlagTxParent] @ (if leftFind then leftFlags else [FlagAssist]) @ (if rightFind then rightFlags else [FlagAssist])))"

definition getMerkleTreeProof :: "lib \<Rightarrow> Hash list \<Rightarrow> Hash list \<Rightarrow> Hash list \<times> byte list" where
  "getMerkleTreeProof L rawDatas relatedRawDatas =
     (case buildMerkleTree L rawDatas of
        None \<Rightarrow> ([], [])
      | Some merkleTree \<Rightarrow>
          let merkleHashSet = leafMerkleHash L ` set relatedRawDatas in
          if relatedRawDatas = [] then ([node_hash merkleTree], [FlagAssist])
          else node_proof merkleHashSet merkleTree)"

definition GetTxMerkleTreeProof :: "lib \<Rightarrow> Tx list \<Rightarrow> Tx list \<Rightarrow> Hash list \<times> byte list" where
  "GetTxMerkleTreeProof L txs relatedTxs = getMerkleTreeProof L (map txID txs) (map txID relatedTxs)"

text \<open>The hashes of the nodes that a list of flags visits, and the flags that are left.\<close>

primrec node_proof_by_flags :: "merkleTreeNode \<Rightarrow> byte list \<Rightarrow> Hash list \<times> byte list" where
  "node_proof_by_flags (Leaf h) flagList =
     (case flagList of
        [] \<Rightarrow> ([], [])
      | flag # rest \<Rightarrow> if flag = FlagTxLeaf \<or> flag = FlagAssist then ([h], rest) else ([], rest))"
| "node_proof_by_flags (Interior h l r) flagList =
     (case flagList of
        [] \<Rightarrow> ([], [])
      | flag # rest \<Rightarrow>
          if flag = FlagTxLeaf \<or> flag = FlagAssist then ([h], rest)
          else case node_proof_by_flags l rest of (leftHashes, rest1) \<Rightarrow>
               case node_proof_by_flags r rest1 of (rightHashes, rest2) \<Rightarrow> (leftHashes @ rightHashes, rest2))"

text \<open>A nil tree is dereferenced, unless there are no flags.\<close>

definition getMerkleTreeProofByFlags :: "lib \<Rightarrow> Hash list \<Rightarrow> byte list \<Rightarrow> Hash list option" where
  "getMerkleTreeProofByFlags L rawDatas flagList =
     (case buildMerkleTree L rawDatas of
        None \<Rightarrow> if flagList = [] then Some [] else None
      | Some tree \<Rightarrow> Some (fst (node_proof_by_flags tree flagList)))"

text \<open>The three lists that are consumed: hashes, flags, and the leaf hashes still to be found.\<close>

type_synonym proof_state = "Hash list \<times> byte list \<times> Hash list"

function (domintros) getMerkleRootByProof :: "lib \<Rightarrow> proof_state \<Rightarrow> Hash \<times> proof_state" where
  "getMerkleRootByProof L (hashList, flagList, merkleHashes) =
     (case (hashList, flagList) of
        (hash # hs, flag # fs) \<Rightarrow>
          if flag = FlagAssist then (hash, (hs, fs, merkleHashes))
          else if flag = FlagTxLeaf then
            (case merkleHashes of
               [] \<Rightarrow> (EmptyStringHash L, (hashList, fs, merkleHashes))
             | relatedHash # ms \<Rightarrow>
                 if hash = relatedHash then (hash, (hs, fs, ms)) else (EmptyStringHash L, (hashList, fs, merkleHashes)))
          else if flag = FlagTxParent then
            (case getMerkleRootByProof L (hashList, fs, merkleHashes) of (leftHash, s1) \<Rightarrow>
             case getMerkleRootByProof L s1 of (rightHash, s2) \<Rightarrow> (interiorMerkleHash L leftHash rightHash, s2))
          else (EmptyStringHash L, (hashList, fs, merkleHashes))
      | _ \<Rightarrow> (EmptyStringHash L, (hashList, flagList, merkleHashes)))"
  by pat_completeness auto

text \<open>A call consumes flags, which is why the recursion ends.\<close>

lemma getMerkleRootByProof_flags:
  assumes "getMerkleRootByProof_dom (L, s)"
  shows "length (fst (snd (snd (getMerkleRootByProof L s)))) \<le> length (fst (snd s))"
  using assms
proof (induction rule: getMerkleRootByProof.pinduct)
  case (1 L hashList flagList merkleHashes)
  then show ?case
    by (subst getMerkleRootByProof.psimps)
       (fastforce split: list.splits prod.splits)+
qed

termination getMerkleRootByProof
proof (relation "measure (\<lambda>(L, s). length (fst (snd s)))")
  fix L hashList flagList merkleHashes x y h hs flag fs leftHash s1
  assume p: "(x, y) = (hashList, flagList)" "x = h # hs" "y = flag # fs"
    and q: "(leftHash, s1) = getMerkleRootByProof L (hashList, fs, merkleHashes)"
    and dom: "getMerkleRootByProof_dom (L, hashList, fs, merkleHashes)"
  have "length (fst (snd s1)) \<le> length fs"
    using getMerkleRootByProof_flags [OF dom] by (simp flip: q)
  with p show "((L, s1), L, hashList, flagList, merkleHashes) \<in> measure (\<lambda>(L, s). length (fst (snd s)))"
    by auto
qed auto

declare getMerkleRootByProof.simps [simp del]

definition validateMerkleTreeProof :: "lib \<Rightarrow> Hash list \<Rightarrow> byte list \<Rightarrow> Hash list \<Rightarrow> Hash \<Rightarrow> bool" where
  "validateMerkleTreeProof L hashes flags relatedNodes root =
     (case getMerkleRootByProof L (hashes, flags, map (leafMerkleHash L) relatedNodes) of
        (r, _, _, merkleHashes) \<Rightarrow> r = root \<and> length merkleHashes = 0)"

definition ValidateTxMerkleTreeProof :: "lib \<Rightarrow> Hash list \<Rightarrow> byte list \<Rightarrow> Hash list \<Rightarrow> Hash \<Rightarrow> bool" where
  "ValidateTxMerkleTreeProof L hashes flags relatedHashes root = validateMerkleTreeProof L hashes flags relatedHashes root"

section \<open>The root is the root of the tree\<close>

lemma tree_cases:
  obtains (empty) "ids = []" | (one) x where "ids = [x]"
    | (more) k where "2 \<le> length ids" "k = prevPowerOfTwo (length ids)" "0 < k" "k < length ids"
proof -
  consider "ids = []" | "length ids = 1" | "2 \<le> length ids" by (cases ids; cases "tl ids") auto
  then show thesis
  proof cases
    case 3
    with prevPowerOfTwo_spec [OF 3] show thesis by (intro more) auto
  qed (auto simp: length_Suc_conv intro: empty one)
qed

lemma unfold_small:
  "merkleRoot L [] = EmptyStringHash L" "merkleRoot L [x] = leafMerkleHash L x"
  "buildMerkleTree L [] = None" "buildMerkleTree L [x] = Some (Leaf (leafMerkleHash L x))"
  by (simp_all add: merkleRoot.simps [of L "[]"] merkleRoot.simps [of L "[x]"]
      buildMerkleTree.simps [of L "[]"] buildMerkleTree.simps [of L "[x]"])

lemma unfold_more:
  assumes "2 \<le> length ids" "k = prevPowerOfTwo (length ids)"
  shows "merkleRoot L ids = interiorMerkleHash L (merkleRoot L (take k ids)) (merkleRoot L (drop k ids))"
    "buildMerkleTree L ids =
       (case (buildMerkleTree L (take k ids), buildMerkleTree L (drop k ids)) of
          (Some l, Some r) \<Rightarrow> Some (Interior (interiorMerkleHash L (node_hash l) (node_hash r)) l r)
        | _ \<Rightarrow> None)"
proof -
  have n: "length ids \<noteq> 0" "length ids \<noteq> 1" using assms(1) by auto
  show "merkleRoot L ids = interiorMerkleHash L (merkleRoot L (take k ids)) (merkleRoot L (drop k ids))"
    by (simp only: merkleRoot.simps [of L ids] n if_False Let_def assms(2))
  show "buildMerkleTree L ids =
       (case (buildMerkleTree L (take k ids), buildMerkleTree L (drop k ids)) of
          (Some l, Some r) \<Rightarrow> Some (Interior (interiorMerkleHash L (node_hash l) (node_hash r)) l r)
        | _ \<Rightarrow> None)"
    by (simp only: buildMerkleTree.simps [of L ids] n if_False Let_def assms(2))
qed

lemma buildMerkleTree_root: "ids \<noteq> [] \<Longrightarrow> \<exists>t. buildMerkleTree L ids = Some t \<and> node_hash t = merkleRoot L ids"
proof (induction ids rule: length_induct)
  case (1 ids)
  show ?case
  proof (cases rule: tree_cases [of ids])
    case (more k)
    have "length (take k ids) < length ids" "take k ids \<noteq> []" "length (drop k ids) < length ids" "drop k ids \<noteq> []"
      using more by auto
    then have "\<exists>l. buildMerkleTree L (take k ids) = Some l \<and> node_hash l = merkleRoot L (take k ids)"
      "\<exists>r. buildMerkleTree L (drop k ids) = Some r \<and> node_hash r = merkleRoot L (drop k ids)"
      using 1(1) by simp_all
    then obtain l r where "buildMerkleTree L (take k ids) = Some l" "node_hash l = merkleRoot L (take k ids)"
      "buildMerkleTree L (drop k ids) = Some r" "node_hash r = merkleRoot L (drop k ids)"
      by (elim exE conjE)
    then show ?thesis by (simp add: unfold_more [OF more(1,2)])
  qed (use 1 in \<open>simp_all add: unfold_small\<close>)
qed

text \<open>The leaves of a tree, and when a tree has the hashes it should have.\<close>

primrec tree_leaves :: "merkleTreeNode \<Rightarrow> Hash list" where
  "tree_leaves (Leaf h) = [h]"
| "tree_leaves (Interior h l r) = tree_leaves l @ tree_leaves r"

primrec well_hashed :: "lib \<Rightarrow> merkleTreeNode \<Rightarrow> bool" where
  "well_hashed L (Leaf h) = True"
| "well_hashed L (Interior h l r) = (h = interiorMerkleHash L (node_hash l) (node_hash r) \<and> well_hashed L l \<and> well_hashed L r)"

lemma buildMerkleTree_leaves:
  "buildMerkleTree L ids = Some t \<Longrightarrow> tree_leaves t = map (leafMerkleHash L) ids \<and> well_hashed L t"
proof (induction ids arbitrary: t rule: length_induct)
  case (1 ids)
  show ?case
  proof (cases rule: tree_cases [of ids])
    case (more k)
    obtain l r where lr: "buildMerkleTree L (take k ids) = Some l" "buildMerkleTree L (drop k ids) = Some r"
      "t = Interior (interiorMerkleHash L (node_hash l) (node_hash r)) l r"
      using 1(2) unfolding unfold_more(2) [OF more(1,2)]
      by (cases "buildMerkleTree L (take k ids)"; cases "buildMerkleTree L (drop k ids)") simp_all
    have "length (take k ids) < length ids" "length (drop k ids) < length ids" using more by auto
    then have "tree_leaves l = map (leafMerkleHash L) (take k ids) \<and> well_hashed L l"
      "tree_leaves r = map (leafMerkleHash L) (drop k ids) \<and> well_hashed L r"
      using 1(1) lr(1,2) by blast+
    with lr(3) show ?thesis by (simp flip: map_append)
  qed (use 1 in \<open>auto simp: unfold_small\<close>)
qed

section \<open>Proofs are complete\<close>

lemma root_by_proof_Assist: "getMerkleRootByProof L (h # hs, FlagAssist # fs, ms) = (h, hs, fs, ms)"
  by (simp add: getMerkleRootByProof.simps)

lemma root_by_proof_Leaf: "getMerkleRootByProof L (h # hs, FlagTxLeaf # fs, h # ms) = (h, hs, fs, ms)"
  by (simp add: getMerkleRootByProof.simps)

lemma root_by_proof_Parent:
  assumes "hl \<noteq> []" "getMerkleRootByProof L (hl, fs, ms) = (l, s1)" "getMerkleRootByProof L s1 = (r, s2)"
  shows "getMerkleRootByProof L (hl, FlagTxParent # fs, ms) = (interiorMerkleHash L l r, s2)"
  using assms by (cases hl) (simp_all add: getMerkleRootByProof.simps [of L _ "FlagTxParent # fs"])

text \<open>A proof for the leaves in \<open>S\<close>: empty if there are none, and otherwise checked whatever follows it.\<close>

definition proves :: "lib \<Rightarrow> Hash set \<Rightarrow> merkleTreeNode \<Rightarrow> Hash list \<times> byte list \<Rightarrow> bool" where
  "proves L S t p \<longleftrightarrow>
     (if filter (\<lambda>h. h \<in> S) (tree_leaves t) = [] then p = ([], [])
      else fst p \<noteq> [] \<and>
           (\<forall>hs fs ms. getMerkleRootByProof L (fst p @ hs, snd p @ fs, filter (\<lambda>h. h \<in> S) (tree_leaves t) @ ms) =
              (node_hash t, hs, fs, ms)))"

lemma node_proof_complete: "well_hashed L t \<Longrightarrow> proves L S t (node_proof S t)"
proof (induction t)
  case (Leaf h)
  then show ?case by (simp add: proves_def root_by_proof_Leaf)
next
  case (Interior h l r)
  let ?f = "filter (\<lambda>h. h \<in> S)"
  obtain lh lf rh rf where p: "node_proof S l = (lh, lf)" "node_proof S r = (rh, rf)" by fastforce
  have l: "proves L S l (lh, lf)" and r: "proves L S r (rh, rf)"
    using Interior p by simp_all
  define lh' lf' rh' rf' where d: "lh' = (if lh \<noteq> [] then lh else [node_hash l])" "lf' = (if lh \<noteq> [] then lf else [FlagAssist])"
    "rh' = (if rh \<noteq> [] then rh else [node_hash r])" "rf' = (if rh \<noteq> [] then rf else [FlagAssist])"
  have l': "getMerkleRootByProof L (lh' @ hs, lf' @ fs, ?f (tree_leaves l) @ ms) = (node_hash l, hs, fs, ms)" for hs fs ms
    using l by (cases "?f (tree_leaves l) = []") (simp_all add: proves_def d root_by_proof_Assist)
  have r': "getMerkleRootByProof L (rh' @ hs, rf' @ fs, ?f (tree_leaves r) @ ms) = (node_hash r, hs, fs, ms)" for hs fs ms
    using r by (cases "?f (tree_leaves r) = []") (simp_all add: proves_def d root_by_proof_Assist)
  have ne: "lh' \<noteq> []" by (simp add: d)
  have "getMerkleRootByProof L ((lh' @ rh') @ hs, (FlagTxParent # lf' @ rf') @ fs, (?f (tree_leaves l) @ ?f (tree_leaves r)) @ ms) =
        (h, hs, fs, ms)" for hs fs ms
    using root_by_proof_Parent [OF _ l' [of "rh' @ hs" "rf' @ fs" "?f (tree_leaves r) @ ms"] r'] ne Interior.prems by simp
  then show ?case
    using l r by (auto simp: proves_def p Let_def d split: if_splits)
qed

section \<open>Proofs are sound\<close>

text \<open>The strings that checking a proof hashes, and those of the interior nodes of a tree.\<close>

lemma getMerkleRootByProof_shrinks: "length (fst (snd (snd (getMerkleRootByProof L s)))) \<le> length (fst (snd s))"
proof (induction L s rule: getMerkleRootByProof.induct)
  case (1 L hashList flagList merkleHashes)
  then show ?case
    by (subst getMerkleRootByProof.simps) (fastforce split: list.splits prod.splits)
qed

function proof_strings :: "lib \<Rightarrow> proof_state \<Rightarrow> bytes set" where
  "proof_strings L (hashList, flagList, merkleHashes) =
     (case (hashList, flagList) of
        (h # hs, flag # fs) \<Rightarrow>
          if flag = FlagTxParent then
            (let left = getMerkleRootByProof L (hashList, fs, merkleHashes); right = getMerkleRootByProof L (snd left) in
             {interior_string (fst left) (fst right)} \<union> proof_strings L (hashList, fs, merkleHashes) \<union> proof_strings L (snd left))
          else {}
      | _ \<Rightarrow> {})"
  by pat_completeness auto
termination
proof (relation "measure (\<lambda>(L, s). length (fst (snd s)))")
  fix L :: lib and hashList merkleHashes h hs left right and flagList flag fs x y
  assume "(x, y) = (hashList, flagList)" "y = flag # (fs :: byte list)" "left = getMerkleRootByProof L (hashList, fs, merkleHashes)"
  then show "((L, snd left), L, hashList, flagList, merkleHashes) \<in> measure (\<lambda>(L, s). length (fst (snd s)))"
    using getMerkleRootByProof_shrinks [of L "(hashList, fs, merkleHashes)"] by auto
qed auto

declare proof_strings.simps [simp del]

primrec tree_strings :: "merkleTreeNode \<Rightarrow> bytes set" where
  "tree_strings (Leaf h) = {}"
| "tree_strings (Interior h l r) = {interior_string (node_hash l) (node_hash r)} \<union> tree_strings l \<union> tree_strings r"

lemma string_simps [simp]:
  "leaf_string a \<noteq> []" "interior_string a b \<noteq> []" "leaf_string a \<noteq> interior_string b c" "interior_string b c \<noteq> leaf_string a"
  "[] \<noteq> leaf_string a" "[] \<noteq> interior_string a b"
  "leaf_string a = leaf_string b \<longleftrightarrow> a = b" "interior_string a b = interior_string c d \<longleftrightarrow> a = c \<and> b = d"
proof -
  have inj: "Byte32 x = Byte32 y \<longleftrightarrow> x = y" for x y by (metis NewHash_Byte32)
  then show "leaf_string a = leaf_string b \<longleftrightarrow> a = b" by (simp add: leaf_string_def)
  show "interior_string a b = interior_string c d \<longleftrightarrow> a = c \<and> b = d"
    using append_eq_append_conv [of "Byte32 a" "Byte32 c" "Byte32 b" "Byte32 d"] by (simp add: interior_string_def inj)
qed (simp_all add: leaf_string_def interior_string_def)

lemma root_by_proof_cases:
  assumes "getMerkleRootByProof L (hl, fl, ms) = (r, s')"
  obtains (failed) "r = EmptyStringHash L"
    | (assist) hs fs where "hl = r # hs" "fl = FlagAssist # fs" "s' = (hs, fs, ms)"
    | (leaf) hs fs ms' where "hl = r # hs" "fl = FlagTxLeaf # fs" "ms = r # ms'" "s' = (hs, fs, ms')"
    | (parent) fs l s1 q where "hl \<noteq> []" "fl = FlagTxParent # fs" "getMerkleRootByProof L (hl, fs, ms) = (l, s1)"
        "getMerkleRootByProof L s1 = (q, s')" "r = interiorMerkleHash L l q"
proof (cases hl; cases fl)
  fix h hs flag fs
  assume hf: "hl = h # hs" "fl = flag # fs"
  consider "flag = 0" | "flag = 2" | "flag = 1" | "flag \<noteq> 0" "flag \<noteq> 1" "flag \<noteq> 2" by blast
  then show thesis
  proof cases
    case 3
    obtain l s1 q s2 where "getMerkleRootByProof L (hl, fs, ms) = (l, s1)" "getMerkleRootByProof L s1 = (q, s2)"
      by (metis prod.collapse)
    with root_by_proof_Parent [OF _ this] assms hf 3 show thesis by (intro parent [of fs l s1 q]) auto
  qed (use assms hf in \<open>auto simp: getMerkleRootByProof.simps [of L "h # hs" "_ # fs"] split: list.splits if_splits
        intro: failed assist leaf\<close>)
qed (use assms in \<open>auto simp: getMerkleRootByProof.simps [of L "[]"] getMerkleRootByProof.simps [of L _ "[]"] split: list.splits intro: failed\<close>)

lemma proof_strings_Parent:
  assumes "hl \<noteq> []" "getMerkleRootByProof L (hl, fs, ms) = (l, s1)" "getMerkleRootByProof L s1 = (q, s2)"
  shows "proof_strings L (hl, FlagTxParent # fs, ms) = {interior_string l q} \<union> proof_strings L (hl, fs, ms) \<union> proof_strings L s1"
  using assms by (cases hl) (simp_all add: proof_strings.simps [of L _ "FlagTxParent # fs"] Let_def)

lemma proof_sound:
  assumes "getMerkleRootByProof L (hl, fl, ms) = (node_hash t, (hl', fl', ms'))" "well_hashed L t"
    and "set (tree_leaves t) \<subseteq> leafMerkleHash L ` I" "set ms \<subseteq> leafMerkleHash L ` R"
    and "inj_on (\<lambda>b. NewHash (sha3_256 L b)) X"
    and "{[]} \<union> leaf_string ` (I \<union> R) \<union> tree_strings t \<union> proof_strings L (hl, fl, ms) \<subseteq> X"
  shows "\<exists>used. ms = used @ ms' \<and> set used \<subseteq> set (tree_leaves t)"
  using assms(1-4,6)
proof (induction t arbitrary: hl fl ms hl' fl' ms')
  case (Leaf h)
  then obtain i where i: "i \<in> I" "h = NewHash (sha3_256 L (leaf_string i))" by (auto simp: leafMerkleHash_def)
  have X: "leaf_string i \<in> X" "[] \<in> X" using Leaf.prems(5) i(1) by auto
  from Leaf.prems(1) show ?case
  proof (cases rule: root_by_proof_cases)
    case failed
    then show ?thesis using inj_onD [OF assms(5) _ X] i(2) by (simp add: EmptyStringHash_def)
  next
    case (parent fs l s1 q)
    then have "interior_string l q \<in> X" using Leaf.prems(5) proof_strings_Parent [OF parent(1,3,4)] by simp
    with inj_onD [OF assms(5) _ X(1) this] i(2) parent(5) show ?thesis by (simp add: interiorMerkleHash_def)
  qed auto
next
  case (Interior h l r)
  let ?b = "interior_string (node_hash l) (node_hash r)"
  have h: "h = NewHash (sha3_256 L ?b)" using Interior.prems(2) by (simp add: interiorMerkleHash_def)
  have X: "?b \<in> X" "[] \<in> X" using Interior.prems(5) by auto
  from Interior.prems(1) show ?case
  proof (cases rule: root_by_proof_cases)
    case failed
    then show ?thesis using inj_onD [OF assms(5) _ X] h by (simp add: EmptyStringHash_def)
  next
    case (leaf hs fs ms'')
    with Interior.prems(4) obtain j where "j \<in> R" "h = NewHash (sha3_256 L (leaf_string j))"
      by (auto simp: leafMerkleHash_def)
    moreover from this(1) have "leaf_string j \<in> X" using Interior.prems(5) by auto
    ultimately show ?thesis using inj_onD [OF assms(5) _ X(1)] h by (metis string_simps(4))
  next
    case (parent fs lh s1 q)
    have str: "proof_strings L (hl, fl, ms) = {interior_string lh q} \<union> proof_strings L (hl, fs, ms) \<union> proof_strings L s1"
      unfolding parent(2) by (rule proof_strings_Parent [OF parent(1,3,4)])
    then have "interior_string lh q \<in> X" using Interior.prems(5) by simp
    from inj_onD [OF assms(5) _ X(1) this] h parent(5) have eq: "lh = node_hash l" "q = node_hash r"
      by (simp_all add: interiorMerkleHash_def)
    obtain hl1 fl1 ms1 where s1: "s1 = (hl1, fl1, ms1)" by (cases s1)
    have pl: "well_hashed L l" "well_hashed L r" "set (tree_leaves l) \<subseteq> leafMerkleHash L ` I" "set (tree_leaves r) \<subseteq> leafMerkleHash L ` I"
      "{[]} \<union> leaf_string ` (I \<union> R) \<union> tree_strings l \<union> proof_strings L (hl, fs, ms) \<subseteq> X"
      "{[]} \<union> leaf_string ` (I \<union> R) \<union> tree_strings r \<union> proof_strings L (hl1, fl1, ms1) \<subseteq> X"
      using Interior.prems(2,3,5) str s1 by auto
    obtain u where u: "ms = u @ ms1" "set u \<subseteq> set (tree_leaves l)"
      using Interior.IH(1) [OF parent(3) [unfolded eq s1] pl(1,3) Interior.prems(4) pl(5)] by blast
    then have "set ms1 \<subseteq> leafMerkleHash L ` R" using Interior.prems(4) by auto
    from Interior.IH(2) [OF parent(4) [unfolded eq s1] pl(2,4) this pl(6)] obtain v where "ms1 = v @ ms'" "set v \<subseteq> set (tree_leaves r)"
      by blast
    with u show ?thesis by (intro exI [of _ "u @ v"]) auto
  qed auto
qed

section \<open>Results\<close>

lemma node_proof_flags:
  "fst (node_proof S t) \<noteq> [] \<Longrightarrow> node_proof_by_flags t (snd (node_proof S t) @ fs) = (fst (node_proof S t), fs)"
proof (induction t arbitrary: fs)
  case (Interior h l r)
  obtain lh lf rh rf where p: "node_proof S l = (lh, lf)" "node_proof S r = (rh, rf)" by fastforce
  have assist: "node_proof_by_flags x (FlagAssist # q) = ([node_hash x], q)" for x q by (cases x) simp_all
  have "lh \<noteq> [] \<Longrightarrow> node_proof_by_flags l (lf @ q) = (lh, q)" "rh \<noteq> [] \<Longrightarrow> node_proof_by_flags r (rf @ q) = (rh, q)" for q
    using Interior.IH by (simp_all add: p)
  then show ?case
    using Interior.prems by (auto simp: p Let_def assist split: if_splits)
qed auto

text \<open>
  C6. A merkle proof is accepted: for any selection of the transactions of a block, in the order of the
  block, \<^verbatim>\<open>ValidateTxMerkleTreeProof\<close> accepts the hashes and flags of \<^verbatim>\<open>GetTxMerkleTreeProof\<close> against the
  merkle root of the block, and \<^verbatim>\<open>getMerkleTreeProofByFlags\<close> recomputes the hashes from the flags. The
  hash function must not collide on the identifiers of the block.
\<close>

theorem merkle_proof_complete:
  assumes "inj_on (leafMerkleHash L) (txID ` set txs)" "related = filter (\<lambda>tx. P (txID tx)) txs"
    and "GetTxMerkleTreeProof L txs related = (hashes, flags)"
  shows "ValidateTxMerkleTreeProof L hashes flags (map txID related) (TxMerkleRoot L txs) \<and>
         getMerkleTreeProofByFlags L (map txID txs) flags = Some hashes"
proof (cases "txs = []")
  case True
  with assms show ?thesis
    by (simp add: GetTxMerkleTreeProof_def getMerkleTreeProof_def unfold_small ValidateTxMerkleTreeProof_def
        validateMerkleTreeProof_def TxMerkleRoot_def getMerkleRootByProof.simps getMerkleTreeProofByFlags_def)
next
  case False
  let ?ids = "map txID txs" and ?S = "leafMerkleHash L ` txID ` set related"
  obtain t where t: "buildMerkleTree L ?ids = Some t" "node_hash t = merkleRoot L ?ids"
    using buildMerkleTree_root [of ?ids L] False by auto
  have leaves: "tree_leaves t = map (leafMerkleHash L) ?ids" and wh: "well_hashed L t"
    using buildMerkleTree_leaves [OF t(1)] by auto
  have "leafMerkleHash L (txID tx) \<in> ?S \<longleftrightarrow> P (txID tx)" if "tx \<in> set txs" for tx
    using assms(1,2) that by (auto dest: inj_onD)
  then have "filter (\<lambda>tx. leafMerkleHash L (txID tx) \<in> ?S) txs = related"
    unfolding assms(2) by (intro filter_cong) simp_all
  then have sel: "filter (\<lambda>h. h \<in> ?S) (tree_leaves t) = map (leafMerkleHash L) (map txID related)"
    by (simp add: leaves filter_map o_def)
  show ?thesis
  proof (cases "related = []")
    case True
    have "node_proof_by_flags t [FlagAssist] = ([node_hash t], [])" by (cases t) simp_all
    with True assms(3) t show ?thesis
      by (auto simp: GetTxMerkleTreeProof_def getMerkleTreeProof_def ValidateTxMerkleTreeProof_def validateMerkleTreeProof_def
          TxMerkleRoot_def root_by_proof_Assist getMerkleTreeProofByFlags_def)
  next
    case False
    then have p: "node_proof ?S t = (hashes, flags)"
      using assms(3) t(1) by (simp add: GetTxMerkleTreeProof_def getMerkleTreeProof_def Let_def image_image)
    have ne: "hashes \<noteq> []" and ok: "\<And>hs fs ms. getMerkleRootByProof L (hashes @ hs, flags @ fs, map (leafMerkleHash L) (map txID related) @ ms) = (node_hash t, hs, fs, ms)"
      using node_proof_complete [OF wh, of ?S] False unfolding proves_def sel p by simp_all
    show ?thesis
      using ok [of "[]" "[]" "[]"] node_proof_flags [of ?S t "[]"] ne t
      by (simp add: p ValidateTxMerkleTreeProof_def validateMerkleTreeProof_def TxMerkleRoot_def getMerkleTreeProofByFlags_def)
  qed
qed

text \<open>A block of two transactions.\<close>

definition id_of :: "u64 \<Rightarrow> Hash" where
  "id_of n = \<lparr>V0 = n, V1 = 0, V2 = 0, V3 = 0\<rparr>"

definition tx_with :: "u64 \<Rightarrow> Tx" where
  "tx_with n =
     \<lparr>TxHeader_of = NewTxHeader 1 1 0 [], txID = id_of n, Entries = Map.empty, InputIDs = [], SpentOutputIDs = []\<rparr>"

lemma sample_hash_first:
  "hd (sha3_256 sample_lib []) = 2" "hd (sha3_256 sample_lib (leaf_string h)) = 0" "hd (sha3_256 sample_lib (interior_string l r)) = 1"
  by (simp_all add: sample_lib_def leaf_string_def interior_string_def)

lemma sample_hash_ids: "sha3_256 sample_lib (leaf_string (id_of 1)) \<noteq> sha3_256 sample_lib (leaf_string (id_of 2))"
proof -
  have "sha3_256 sample_lib (leaf_string (id_of n)) ! 8 = of_nat (unat n mod 256)" for n
    using be_bytes.simps(2) [of 7 "unat n"] by (simp add: sample_lib_def leaf_string_def id_of_def Byte32_def nth_append)
  then have "sha3_256 sample_lib (leaf_string (id_of 1)) ! 8 = 1" "sha3_256 sample_lib (leaf_string (id_of 2)) ! 8 = 2"
    by simp_all
  then show ?thesis by auto
qed

lemma sample_hash_eq: "NewHash (sha3_256 sample_lib a) = NewHash (sha3_256 sample_lib b) \<longleftrightarrow> sha3_256 sample_lib a = sha3_256 sample_lib b"
  using sample_lib_ok(2) by (simp add: hash_ok_def NewHash_inj)

abbreviation two_leaves :: "Hash list" where
  "two_leaves \<equiv> [leafMerkleHash sample_lib (id_of 1), leafMerkleHash sample_lib (id_of 2)]"

lemma two_tree:
  "buildMerkleTree sample_lib [id_of 1, id_of 2] =
     Some (Interior (interiorMerkleHash sample_lib (two_leaves ! 0) (two_leaves ! 1)) (Leaf (two_leaves ! 0)) (Leaf (two_leaves ! 1)))"
  "merkleRoot sample_lib [id_of 1, id_of 2] = interiorMerkleHash sample_lib (two_leaves ! 0) (two_leaves ! 1)"
proof -
  have two: "prevPowerOfTwo 2 = 1" by (simp add: prevPowerOfTwo_def)
  show "buildMerkleTree sample_lib [id_of 1, id_of 2] =
     Some (Interior (interiorMerkleHash sample_lib (two_leaves ! 0) (two_leaves ! 1)) (Leaf (two_leaves ! 0)) (Leaf (two_leaves ! 1)))"
    "merkleRoot sample_lib [id_of 1, id_of 2] = interiorMerkleHash sample_lib (two_leaves ! 0) (two_leaves ! 1)"
    using unfold_more [of "[id_of 1, id_of 2]" 1 sample_lib] two by (simp_all add: unfold_small numeral_2_eq_2)
qed

lemma two_leaves_differ: "leafMerkleHash sample_lib (id_of 1) \<noteq> leafMerkleHash sample_lib (id_of 2)"
  using sample_hash_ids by (simp add: leafMerkleHash_def sample_hash_eq)

lemma merkle_proof_complete_witness:
  "ValidateTxMerkleTreeProof sample_lib two_leaves [1, 2, 0] [id_of 1] (TxMerkleRoot sample_lib [tx_with 1, tx_with 2])"
proof -
  have "id_of 2 \<noteq> id_of 1" by (simp add: id_of_def)
  then have rel: "[tx_with 1] = filter (\<lambda>tx. txID tx = id_of 1) [tx_with 1, tx_with 2]" by (simp add: tx_with_def)
  have "GetTxMerkleTreeProof sample_lib [tx_with 1, tx_with 2] [tx_with 1] = (two_leaves, [1, 2, 0])"
    using two_leaves_differ by (simp add: GetTxMerkleTreeProof_def getMerkleTreeProof_def tx_with_def two_tree Let_def)
  from merkle_proof_complete [OF _ rel this] two_leaves_differ show ?thesis
    by (simp add: tx_with_def inj_on_def)
qed

text \<open>
  C5. A merkle proof is sound: if \<^verbatim>\<open>ValidateTxMerkleTreeProof\<close> accepts hashes and flags, whoever made them,
  for some identifiers against the merkle root of a block, then all the identifiers belong to the block,
  provided the hash function does not collide on the strings hashed for the tree of the block, for the
  identifiers, for the empty string and while the proof was checked.
\<close>

theorem merkle_proof_sound:
  assumes "ValidateTxMerkleTreeProof L hashes flags relatedHashes (merkleRoot L ids)" "buildMerkleTree L ids = Some tree"
    and "inj_on (\<lambda>b. NewHash (sha3_256 L b))
           ({[]} \<union> leaf_string ` (set ids \<union> set relatedHashes) \<union> tree_strings tree \<union>
            proof_strings L (hashes, flags, map (leafMerkleHash L) relatedHashes))"
  shows "set relatedHashes \<subseteq> set ids"
proof
  fix x
  assume x: "x \<in> set relatedHashes"
  obtain hl' fl' where run: "getMerkleRootByProof L (hashes, flags, map (leafMerkleHash L) relatedHashes) = (merkleRoot L ids, (hl', fl', []))"
    using assms(1) by (auto simp: ValidateTxMerkleTreeProof_def validateMerkleTreeProof_def split: prod.splits)
  have "ids \<noteq> []" using assms(2) by (auto simp: unfold_small)
  with buildMerkleTree_root [of ids L] assms(2) have root: "node_hash tree = merkleRoot L ids" by auto
  have leaves: "tree_leaves tree = map (leafMerkleHash L) ids" and wh: "well_hashed L tree"
    using buildMerkleTree_leaves [OF assms(2)] by auto
  have "set (map (leafMerkleHash L) relatedHashes) \<subseteq> set (tree_leaves tree)"
    using proof_sound [OF run [folded root] wh _ _ assms(3), of "set ids" "set relatedHashes"] by (auto simp: leaves)
  with x obtain i where i: "i \<in> set ids" "leafMerkleHash L x = leafMerkleHash L i" by (auto simp: leaves)
  have "leaf_string x = leaf_string i"
    using i x by (intro inj_onD [OF assms(3)]) (auto simp: leafMerkleHash_def)
  with i(1) show "x \<in> set ids" by simp
qed

lemma merkle_proof_sound_witness:
  "ValidateTxMerkleTreeProof sample_lib two_leaves [1, 2, 0] [id_of 1] (merkleRoot sample_lib [id_of 1, id_of 2]) \<and>
   set [id_of 1] \<subseteq> set [id_of 1, id_of 2]"
proof -
  let ?l = "leafMerkleHash sample_lib (id_of 1)" and ?r = "leafMerkleHash sample_lib (id_of 2)"
  have step: "getMerkleRootByProof sample_lib (two_leaves, [2, 0], [?l]) = (?l, [?r], [0], [])"
    "getMerkleRootByProof sample_lib ([?r], [0], []) = (?r, [], [], [])"
    by (simp_all add: root_by_proof_Leaf root_by_proof_Assist)
  have val: "ValidateTxMerkleTreeProof sample_lib two_leaves [1, 2, 0] [id_of 1] (merkleRoot sample_lib [id_of 1, id_of 2])"
    using root_by_proof_Parent [OF _ step] by (simp add: ValidateTxMerkleTreeProof_def validateMerkleTreeProof_def two_tree)
  have str: "proof_strings sample_lib (two_leaves, [1, 2, 0], [?l]) = {interior_string ?l ?r}"
    using proof_strings_Parent [OF _ step] by (simp add: proof_strings.simps)
  have d: "sha3_256 sample_lib a \<noteq> sha3_256 sample_lib b" if "hd (sha3_256 sample_lib a) \<noteq> hd (sha3_256 sample_lib b)" for a b
    using that by metis
  have "inj_on (\<lambda>b. NewHash (sha3_256 sample_lib b))
     {[], leaf_string (id_of 1), leaf_string (id_of 2), interior_string ?l ?r}"
    using sample_hash_ids by (auto simp: inj_on_def sample_hash_eq sample_hash_first dest: d [rotated] arg_cong [of _ _ hd])
  then show ?thesis
    using merkle_proof_sound [OF val two_tree(1)] val by (simp add: str insert_commute)
qed

end
