(* ===== verification/Consensus.thy ===== *)
theory Consensus
  imports Prelude
begin

text \<open>
  \<^verbatim>\<open>consensus/general.go\<close>: the parameters of the networks and the number of blocks for which votes
  are locked. The variable \<^verbatim>\<open>ActiveNetParams\<close> is an argument of the functions that use it; ports, seeds and
  address prefixes of the networks are left out, extended public keys are their hexadecimal text.
\<close>

record VotePendingBlockNum =
  BeginBlock :: u64
  EndBlock :: u64
  pendingNum :: u64

record Params =
  netName :: string
  BlockTimeInterval :: u64
  MaxTimeOffsetMs :: u64
  BlocksOfEpoch :: u64
  MinValidatorVoteNum :: u64
  VotePendingBlockNums_of :: "VotePendingBlockNum list"
  FederationXpubs :: "string list"

abbreviation MaxNumOfValidators :: nat where
  "MaxNumOfValidators \<equiv> 10"

abbreviation (input) CoinbasePendingBlockNumber :: u64 where
  "CoinbasePendingBlockNumber \<equiv> 10"

abbreviation (input) BlockReward :: u64 where
  "BlockReward \<equiv> 570776255"

abbreviation (input) InitBTMSupply :: u64 where
  "InitBTMSupply \<equiv> 169290721678579170 + 50000000000"

definition defaultVotePendingNum :: u64 where
  "defaultVotePendingNum = 302400"

definition MainNetParams :: Params where
  "MainNetParams =
     \<lparr>netName = ''main'', BlockTimeInterval = 6000, MaxTimeOffsetMs = 3000, BlocksOfEpoch = 100,
      MinValidatorVoteNum = 100000000000000,
      VotePendingBlockNums_of =
        [\<lparr>BeginBlock = 0, EndBlock = 432000, pendingNum = 14400\<rparr>,
         \<lparr>BeginBlock = 432000, EndBlock = - 1, pendingNum = defaultVotePendingNum\<rparr>],
      FederationXpubs =
        [''f9003633ccbd8cc37e034f4dbe70d9fae980d437948d8cb908d0cab7909780d74a324b4decb5dfcd43fbc6b896ac066b7e02c733a1537360e933278a101a850c'',
         ''d301fee5d4ba7eb5b9d41ca13ec56c19daceb5f6b752d91d49777fd1fc7c45891e5773cafb3b6d6ab764ef2794e8ba953c8bdb9dc77a3af51e979f96885f96b2'',
         ''2ba14bdd29fd84c73f67d6025d2a98292dbdd46b90a2af29c8669dd88dacb1cec62a3e9448d8b731a448f0454b0aa367748659d6c01ad7125d395ffda972da54'',
         ''1313379b05c38ff2d171d512f23f199f0f068a67d77b9d5b6db040f2da1edc0c35c68a21b068956f448fed6441b9c27294f1ca6aaedc2c580de322f3f0260c1f'']\<rparr>"

definition TestNetParams :: Params where
  "TestNetParams =
     \<lparr>netName = ''test'', BlockTimeInterval = 6000, MaxTimeOffsetMs = 3000, BlocksOfEpoch = 100,
      MinValidatorVoteNum = 100000000,
      VotePendingBlockNums_of = [\<lparr>BeginBlock = 0, EndBlock = - 1, pendingNum = 10\<rparr>],
      FederationXpubs =
        [''7732fac62320799ff5e4eec1dc4ba7b07dc0e5a647850bf0bc34cb9aca195a05a1118b57d377947d7936156c831c87b700ed945a82cae63aff14905beb39d001'',
         ''08543fef8c3ca27483954f80eee6d461c307b6aa564aafaf235a4bd2740debbc71b14af78715c94cbc1d16fa84da97a3eabc5b21f003ab49882e4af7f9f00bbd'',
         ''0dd00fe3880c1cb5d5b0b5d03993c004e7fbe3697a47ff60c3bc12950bead964843dfe45b2bab5d01ae32fb23a4b0460049e822d7787a9a15b76d8bb9dfcec74'',
         ''b0584ecaefc02d3c367f280e128ec310c9f9198d44cd76b6726cd6c06c002770a1a7dc069ddd06f7a821a176931573d40e63b015ce88b6de01a61205d719567f'']\<rparr>"

definition SoloNetParams :: Params where
  "SoloNetParams =
     \<lparr>netName = ''solo'', BlockTimeInterval = 6000, MaxTimeOffsetMs = 24000, BlocksOfEpoch = 100,
      MinValidatorVoteNum = 100000000,
      VotePendingBlockNums_of = [\<lparr>BeginBlock = 0, EndBlock = - 1, pendingNum = 10\<rparr>],
      FederationXpubs = []\<rparr>"

primrec vote_pending_loop :: "u64 \<Rightarrow> VotePendingBlockNum list \<Rightarrow> u64" where
  "vote_pending_loop height [] = defaultVotePendingNum"
| "vote_pending_loop height (p # l) =
     (if height \<ge> BeginBlock p \<and> height < EndBlock p then pendingNum p else vote_pending_loop height l)"

definition VotePendingBlockNums :: "Params \<Rightarrow> u64 \<Rightarrow> u64" where
  "VotePendingBlockNums N height = vote_pending_loop height (VotePendingBlockNums_of N)"

definition NetParams :: "string \<Rightarrow> Params option" where
  "NetParams = [''mainnet'' \<mapsto> MainNetParams, ''wisdom'' \<mapsto> TestNetParams, ''solonet'' \<mapsto> SoloNetParams]"

text \<open>The three networks have epochs of 100 blocks and slots of six seconds.\<close>

lemma net_cases: "NetParams c = Some N \<Longrightarrow> N = MainNetParams \<or> N = TestNetParams \<or> N = SoloNetParams"
  by (auto simp: NetParams_def split: if_splits)

lemma net_params:
  assumes "NetParams c = Some N"
  shows "BlocksOfEpoch N = 100" "BlockTimeInterval N = 6000"
  using net_cases [OF assms] by (auto simp: MainNetParams_def TestNetParams_def SoloNetParams_def)

text \<open>A network other than the solo one has a federation of different keys.\<close>

lemma net_federation:
  assumes "NetParams c = Some N"
  shows "distinct (FederationXpubs N)" "length (FederationXpubs N) \<le> 4"
    "netName N \<noteq> netName SoloNetParams \<Longrightarrow> 0 < length (FederationXpubs N)"
proof -
  have "distinct (FederationXpubs MainNetParams)" "length (FederationXpubs MainNetParams) = 4"
    by (simp_all add: MainNetParams_def)
  moreover have "distinct (FederationXpubs TestNetParams)" "length (FederationXpubs TestNetParams) = 4"
    by (simp_all add: TestNetParams_def)
  moreover have "distinct (FederationXpubs SoloNetParams)" "length (FederationXpubs SoloNetParams) = 0"
    by (simp_all add: SoloNetParams_def)
  ultimately show "distinct (FederationXpubs N)" "length (FederationXpubs N) \<le> 4"
    "netName N \<noteq> netName SoloNetParams \<Longrightarrow> 0 < length (FederationXpubs N)"
    using net_cases [OF assms] by auto
qed

end
