(* ===== verification/Utxo.thy ===== *)
theory Utxo
  imports Consensus Bc
begin

text \<open>
  \<^verbatim>\<open>protocol/state/utxo_view.go\<close> and \<^verbatim>\<open>database/storage/utxo_entry.go\<close>: the view of unspent outputs that
  blocks are applied to and detached from, and \<^verbatim>\<open>database/utxo_view.go\<close>, which loads it from the
  database and saves it there. An operation returns an outcome and the view it leaves, since a
  failing operation keeps the changes it made.
\<close>

section \<open>The view\<close>

abbreviation (input) NormalUTXOType :: u32 where "NormalUTXOType \<equiv> 0"
abbreviation (input) CoinbaseUTXOType :: u32 where "CoinbaseUTXOType \<equiv> 1"
abbreviation (input) VoteUTXOType :: u32 where "VoteUTXOType \<equiv> 2"

record UtxoEntry =
  utType :: u32
  utBlockHeight :: u64
  utSpent :: bool

definition NewUtxoEntry :: "u32 \<Rightarrow> u64 \<Rightarrow> bool \<Rightarrow> UtxoEntry" where
  "NewUtxoEntry utxoType blockHeight spent = \<lparr>utType = utxoType, utBlockHeight = blockHeight, utSpent = spent\<rparr>"

definition SpendOutput :: "UtxoEntry \<Rightarrow> UtxoEntry" where
  "SpendOutput e = e\<lparr>utSpent := True\<rparr>"

definition UnspendOutput :: "UtxoEntry \<Rightarrow> UtxoEntry" where
  "UnspendOutput e = e\<lparr>utSpent := False\<rparr>"

type_synonym UtxoViewpoint = "Hash \<rightharpoonup> UtxoEntry"

text \<open>\<^verbatim>\<open>bc.Block\<close>, with its transactions.\<close>

record BcBlock =
  bbHeader :: BlockHeader
  bbID :: Hash
  bbTransactions :: "Tx list"

datatype utxo_err =
    ErrUtxoMissing | ErrUtxoSpent | ErrCoinbaseNotReady | ErrVoteLocked | ErrRevertUnspent | ErrUtxoEntryType
  | ErrUnmarshalUtxo

datatype uoutcome = UOk | UErr utxo_err | UPanic

type_synonym uop = "UtxoViewpoint \<Rightarrow> uoutcome \<times> UtxoViewpoint"

definition uthen :: "uop \<Rightarrow> uop \<Rightarrow> uop" where
  "uthen f g v = (case f v of (UOk, v') \<Rightarrow> g v' | (r, v') \<Rightarrow> (r, v'))"

primrec uforeach :: "('a \<Rightarrow> uop) \<Rightarrow> 'a list \<Rightarrow> uop" where
  "uforeach f [] v = (UOk, v)"
| "uforeach f (x # l) v = uthen (f x) (uforeach f l) v"

definition CanSpend :: "UtxoViewpoint \<Rightarrow> Hash \<Rightarrow> bool" where
  "CanSpend v h = (case v h of None \<Rightarrow> False | Some e \<Rightarrow> \<not> utSpent e)"

definition HasUtxo :: "UtxoViewpoint \<Rightarrow> Hash \<Rightarrow> bool" where
  "HasUtxo v h = (v h \<noteq> None)"

subsection \<open>Applying\<close>

text \<open>Whether an output may be spent at a height; the sums are of 64-bit integers.\<close>

definition utxo_lock :: "Params \<Rightarrow> u64 \<Rightarrow> u32 \<Rightarrow> u64 \<Rightarrow> utxo_err option" where
  "utxo_lock N height t created =
     (if t = CoinbaseUTXOType then (if created + CoinbasePendingBlockNumber > height then Some ErrCoinbaseNotReady else None)
      else if t = VoteUTXOType then (if created + VotePendingBlockNums N height > height then Some ErrVoteLocked else None)
      else None)"

definition spend_one :: "Params \<Rightarrow> BcBlock \<Rightarrow> Hash \<Rightarrow> uop" where
  "spend_one N block prevout v =
     (case v prevout of
        None \<Rightarrow> (UErr ErrUtxoMissing, v)
      | Some entry \<Rightarrow>
          if utSpent entry then (UErr ErrUtxoSpent, v)
          else
            case utxo_lock N (bhHeight (bbHeader block)) (utType entry) (utBlockHeight entry) of
              Some e \<Rightarrow> (UErr e, v)
            | None \<Rightarrow> (UOk, v(prevout \<mapsto> SpendOutput entry)))"

definition applySpendUtxo :: "Params \<Rightarrow> BcBlock \<Rightarrow> Tx \<Rightarrow> uop" where
  "applySpendUtxo N block tx = uforeach (spend_one N block) (SpentOutputIDs tx)"

text \<open>What the loops over the results of a transaction make of one of them: a nil pointer, one to skip, or an output.\<close>

datatype out_kind = OPanic | OSkip | OUtxo Hash u32

definition amount_kind :: "Hash \<Rightarrow> u32 \<Rightarrow> ValueSource option \<Rightarrow> out_kind" where
  "amount_kind h t src =
     (case src of
        None \<Rightarrow> OPanic
      | Some s \<Rightarrow> (case srcValue s of None \<Rightarrow> OPanic | Some a \<Rightarrow> if aaAmount a = 0 then OSkip else OUtxo h t))"

definition utxo_output :: "Tx \<Rightarrow> Hash option \<Rightarrow> out_kind" where
  "utxo_output tx i =
     (case i of
        None \<Rightarrow> OPanic
      | Some h \<Rightarrow>
          (case Entries tx h of
             Some (EOriginalOutput oo) \<Rightarrow> amount_kind h NormalUTXOType (ooSource oo)
           | Some (EVoteOutput vo) \<Rightarrow> amount_kind h VoteUTXOType (voSource vo)
           | _ \<Rightarrow> OSkip))"

definition is_coinbase_tx :: "BcBlock \<Rightarrow> Tx \<Rightarrow> bool" where
  "is_coinbase_tx block tx = (case bbTransactions block of [] \<Rightarrow> False | t # _ \<Rightarrow> txID t = txID tx)"

definition output_one :: "BcBlock \<Rightarrow> Tx \<Rightarrow> Hash option \<Rightarrow> uop" where
  "output_one block tx i v =
     (case utxo_output tx i of
        OPanic \<Rightarrow> (UPanic, v)
      | OSkip \<Rightarrow> (UOk, v)
      | OUtxo h t \<Rightarrow>
          (UOk, v(h \<mapsto> NewUtxoEntry (if is_coinbase_tx block tx then CoinbaseUTXOType else t) (bhHeight (bbHeader block)) False)))"

definition applyOutputUtxo :: "BcBlock \<Rightarrow> Tx \<Rightarrow> uop" where
  "applyOutputUtxo block tx = uforeach (output_one block tx) (hdrResultIds (TxHeader_of tx))"

definition ApplyTransaction :: "Params \<Rightarrow> BcBlock \<Rightarrow> Tx \<Rightarrow> uop" where
  "ApplyTransaction N block tx = uthen (applySpendUtxo N block tx) (applyOutputUtxo block tx)"

definition UtxoView_ApplyBlock :: "Params \<Rightarrow> BcBlock \<Rightarrow> uop" where
  "UtxoView_ApplyBlock N block = uforeach (ApplyTransaction N block) (bbTransactions block)"

subsection \<open>Detaching\<close>

definition unspend_one :: "Tx \<Rightarrow> Hash \<Rightarrow> uop" where
  "unspend_one tx prevout v =
     (let revert = (\<lambda>utxoType.
        case v prevout of
          None \<Rightarrow> (UOk, v(prevout \<mapsto> NewUtxoEntry utxoType 0 False))
        | Some entry \<Rightarrow>
            if \<not> utSpent entry then (UErr ErrRevertUnspent, v) else (UOk, v(prevout \<mapsto> UnspendOutput entry))) in
      case Entries tx prevout of
        None \<Rightarrow> (UErr ErrUtxoMissing, v)
      | Some (EOriginalOutput _) \<Rightarrow> revert NormalUTXOType
      | Some (EVoteOutput _) \<Rightarrow> revert VoteUTXOType
      | Some _ \<Rightarrow> (UErr ErrUtxoEntryType, v))"

definition detachSpendUtxo :: "Tx \<Rightarrow> uop" where
  "detachSpendUtxo tx = uforeach (unspend_one tx) (SpentOutputIDs tx)"

definition unoutput_one :: "Tx \<Rightarrow> Hash option \<Rightarrow> uop" where
  "unoutput_one tx i v =
     (case utxo_output tx i of
        OPanic \<Rightarrow> (UPanic, v)
      | OSkip \<Rightarrow> (UOk, v)
      | OUtxo h t \<Rightarrow> (UOk, v(h \<mapsto> NewUtxoEntry t 0 True)))"

definition detachOutputUtxo :: "Tx \<Rightarrow> uop" where
  "detachOutputUtxo tx = uforeach (unoutput_one tx) (hdrResultIds (TxHeader_of tx))"

definition DetachTransaction :: "Tx \<Rightarrow> uop" where
  "DetachTransaction tx = uthen (detachSpendUtxo tx) (detachOutputUtxo tx)"

definition UtxoView_DetachBlock :: "BcBlock \<Rightarrow> uop" where
  "UtxoView_DetachBlock block = uforeach DetachTransaction (rev (bbTransactions block))"

section \<open>The database\<close>

text \<open>
  The database is a map from keys to values; the two functions of package \<^verbatim>\<open>proto\<close> are parameters.
  Entries of a saved view have no error to report, so \<^verbatim>\<open>Marshal\<close> is total. A batch is written as a whole.
\<close>

type_synonym database = "bytes \<rightharpoonup> bytes"

record codec_lib =
  proto_Marshal :: "UtxoEntry \<Rightarrow> bytes"
  proto_Unmarshal :: "bytes \<Rightarrow> UtxoEntry option"

definition UtxoKeyPrefix :: bytes where
  "UtxoKeyPrefix = [7, 58]"

definition CalcUtxoKey :: "Hash \<Rightarrow> bytes" where
  "CalcUtxoKey h = UtxoKeyPrefix @ Byte32 h"

definition load_one :: "codec_lib \<Rightarrow> database \<Rightarrow> Hash \<Rightarrow> uop" where
  "load_one P db prevout v =
     (if HasUtxo v prevout then (UOk, v)
      else
        case db (CalcUtxoKey prevout) of
          None \<Rightarrow> (UOk, v)
        | Some b \<Rightarrow>
            (case proto_Unmarshal P b of
               None \<Rightarrow> (UErr ErrUnmarshalUtxo, v)
             | Some utxo \<Rightarrow> (UOk, v(prevout \<mapsto> utxo))))"

definition getTransactionsUtxo :: "codec_lib \<Rightarrow> database \<Rightarrow> Tx list \<Rightarrow> uop" where
  "getTransactionsUtxo P db txs = uforeach (\<lambda>tx. uforeach (load_one P db) (SpentOutputIDs tx)) txs"

definition save_one :: "codec_lib \<Rightarrow> Hash \<times> UtxoEntry \<Rightarrow> database \<Rightarrow> database" where
  "save_one P x db =
     (case x of (key, entry) \<Rightarrow>
        if utSpent entry \<and> utType entry \<noteq> CoinbaseUTXOType then db(CalcUtxoKey key := None)
        else db(CalcUtxoKey key \<mapsto> proto_Marshal P entry))"

text \<open>The range over the view visits its entries in some order, which is an argument.\<close>

definition saveUtxoView :: "codec_lib \<Rightarrow> (Hash \<times> UtxoEntry) list \<Rightarrow> database \<Rightarrow> database" where
  "saveUtxoView P visited db = fold (save_one P) visited db"

section \<open>Reorganisation\<close>

text \<open>
  What \<^verbatim>\<open>reorganizeChain\<close> of \<^verbatim>\<open>protocol/block.go\<close> does with the view: the blocks to detach from the
  best one downwards, then the blocks to attach upwards, each after the outputs it spends are loaded.
  The view is saved at the end, in \<^verbatim>\<open>SaveChainStatus\<close>.
\<close>

definition detach_node :: "codec_lib \<Rightarrow> database \<Rightarrow> BcBlock \<Rightarrow> uop" where
  "detach_node P db block = uthen (getTransactionsUtxo P db (bbTransactions block)) (UtxoView_DetachBlock block)"

definition attach_node :: "codec_lib \<Rightarrow> Params \<Rightarrow> database \<Rightarrow> BcBlock \<Rightarrow> uop" where
  "attach_node P N db block = uthen (getTransactionsUtxo P db (bbTransactions block)) (UtxoView_ApplyBlock N block)"

definition reorganize_view :: "codec_lib \<Rightarrow> Params \<Rightarrow> database \<Rightarrow> BcBlock list \<Rightarrow> BcBlock list \<Rightarrow> uoutcome \<times> UtxoViewpoint" where
  "reorganize_view P N db detachNodes attachNodes =
     uthen (uforeach (detach_node P db) detachNodes) (uforeach (attach_node P N db) attachNodes) Map.empty"

end
