(* ===== verification/UtxoProps.thy ===== *)
theory UtxoProps
  imports Utxo BcProps
begin

text \<open>
  The view of unspent outputs refines a ledger without spent entries: applying a block to the view is
  applying it to the ledger, also when the view is filled from the database on demand and written back, and
  detaching a block undoes what applying it did to the set of spendable outputs.
\<close>

section \<open>Sequencing\<close>

lemma uthen_ok: "uthen f g v = (UOk, v') \<longleftrightarrow> (\<exists>v1. f v = (UOk, v1) \<and> g v1 = (UOk, v'))"
  by (auto simp: uthen_def split: prod.splits uoutcome.splits)

lemma uforeach_append: "uforeach f (xs @ ys) v = uthen (uforeach f xs) (uforeach f ys) v"
  by (induction xs arbitrary: v) (auto simp: uthen_def split: prod.splits uoutcome.splits)

section \<open>The ledger\<close>

text \<open>What is unspent, with the type and the height of its creation.\<close>

type_synonym ledger = "Hash \<rightharpoonup> u32 \<times> u64"

definition unspent :: "UtxoEntry option \<Rightarrow> (u32 \<times> u64) option" where
  "unspent e = (case e of None \<Rightarrow> None | Some x \<Rightarrow> if utSpent x then None else Some (utType x, utBlockHeight x))"

definition utxos :: "UtxoViewpoint \<Rightarrow> ledger" where
  "utxos v = (\<lambda>h. unspent (v h))"

definition may_spend :: "Params \<Rightarrow> u64 \<Rightarrow> ledger \<Rightarrow> Hash \<Rightarrow> bool" where
  "may_spend N height U h = (case U h of None \<Rightarrow> False | Some (t, c) \<Rightarrow> utxo_lock N height t c = None)"

fun kind_utxo :: "out_kind \<Rightarrow> (Hash \<times> u32) list" where
  "kind_utxo (OUtxo h t) = [(h, t)]"
| "kind_utxo _ = []"

definition created :: "Tx \<Rightarrow> (Hash \<times> u32) list" where
  "created tx = concat (map (\<lambda>i. kind_utxo (utxo_output tx i)) (hdrResultIds (TxHeader_of tx)))"

text \<open>The outputs of a transaction can be read without dereferencing nil.\<close>

definition outputs_ok :: "Tx \<Rightarrow> bool" where
  "outputs_ok tx \<longleftrightarrow> (\<forall>i \<in> set (hdrResultIds (TxHeader_of tx)). utxo_output tx i \<noteq> OPanic)"

definition add_outputs :: "BcBlock \<Rightarrow> Tx \<Rightarrow> ledger \<Rightarrow> ledger" where
  "add_outputs block tx U =
     U ++ map_of (rev (map (\<lambda>(h, t). (h, (if is_coinbase_tx block tx then CoinbaseUTXOType else t, bhHeight (bbHeader block)))) (created tx)))"

definition ledger_tx :: "Params \<Rightarrow> BcBlock \<Rightarrow> Tx \<Rightarrow> ledger \<Rightarrow> ledger option" where
  "ledger_tx N block tx U =
     (if distinct (SpentOutputIDs tx) \<and> (\<forall>h \<in> set (SpentOutputIDs tx). may_spend N (bhHeight (bbHeader block)) U h) \<and> outputs_ok tx
      then Some (add_outputs block tx (U |` (- set (SpentOutputIDs tx)))) else None)"

primrec ledger_txs :: "Params \<Rightarrow> BcBlock \<Rightarrow> Tx list \<Rightarrow> ledger \<Rightarrow> ledger option" where
  "ledger_txs N block [] U = Some U"
| "ledger_txs N block (tx # l) U = Option.bind (ledger_tx N block tx U) (ledger_txs N block l)"

definition ledger_block :: "Params \<Rightarrow> BcBlock \<Rightarrow> ledger \<Rightarrow> ledger option" where
  "ledger_block N block = ledger_txs N block (bbTransactions block)"

section \<open>A view over a database\<close>

text \<open>
  A view that is loaded on demand stands for the ledger in which the entries of the view hide those of
  the ledger \<open>D\<close> of the database; a view alone stands over the empty ledger.
\<close>

definition over :: "ledger \<Rightarrow> UtxoViewpoint \<Rightarrow> ledger" where
  "over D v = (\<lambda>h. if v h = None then D h else unspent (v h))"

lemma over_empty: "over Map.empty v = utxos v"
  by (auto simp: over_def utxos_def unspent_def fun_eq_iff)

text \<open>Every output a transaction spends is loaded, if the database has it.\<close>

definition loaded :: "ledger \<Rightarrow> UtxoViewpoint \<Rightarrow> Hash \<Rightarrow> bool" where
  "loaded D v h \<longleftrightarrow> v h \<noteq> None \<or> D h = None"

lemma over_upd: "over D (v(h \<mapsto> e)) = (over D v)(h := unspent (Some e))"
  by (auto simp: over_def)

lemma over_idem: "v h = None \<Longrightarrow> D h = unspent (Some e) \<Longrightarrow> over D (v(h \<mapsto> e)) = over D v"
  by (auto simp: over_def fun_eq_iff)

lemma loaded_upd: "loaded D v h \<Longrightarrow> loaded D (v(x \<mapsto> e)) h"
  by (auto simp: loaded_def)

lemma spend_one_over:
  assumes "loaded D v h"
  shows "fst (spend_one N block h v) = UOk \<longleftrightarrow> may_spend N (bhHeight (bbHeader block)) (over D v) h"
  using assms
  by (auto simp: spend_one_def may_spend_def over_def unspent_def loaded_def split: option.splits if_splits)

lemma spend_one_ok:
  assumes "spend_one N block h v = (UOk, v')"
  shows "over D v' = (over D v)(h := None)" and "loaded D v x \<Longrightarrow> loaded D v' x" 
  using assms
  by (auto simp: spend_one_def over_upd unspent_def SpendOutput_def loaded_def split: option.splits if_splits)

lemma may_spend_upd: "may_spend N k (U(h := None)) x \<longleftrightarrow> x \<noteq> h \<and> may_spend N k U x"
  by (auto simp: may_spend_def)

lemma restrict_Cons: "U |` (- insert h S) = (U(h := None)) |` (- S)"
  by (auto simp: restrict_map_def fun_eq_iff)

lemma spend_list_over:
  assumes "\<And>h. h \<in> set hs \<Longrightarrow> loaded D v h"
  shows "fst (uforeach (spend_one N block) hs v) = UOk \<longleftrightarrow>
           distinct hs \<and> (\<forall>h \<in> set hs. may_spend N (bhHeight (bbHeader block)) (over D v) h)"
  using assms
proof (induction hs arbitrary: v)
  case (Cons h hs)
  show ?case
  proof (cases "fst (spend_one N block h v) = UOk")
    case True
    then obtain v1 where v1: "spend_one N block h v = (UOk, v1)" by (cases "spend_one N block h v") auto
    note step = spend_one_ok [OF v1]
    have "fst (uforeach (spend_one N block) hs v1) = UOk \<longleftrightarrow>
            distinct hs \<and> (\<forall>x \<in> set hs. may_spend N (bhHeight (bbHeader block)) (over D v1) x)"
      using Cons.prems step(2) by (intro Cons.IH) auto
    moreover have "may_spend N (bhHeight (bbHeader block)) (over D v) h"
      using spend_one_over [of D v h N block] True Cons.prems by simp
    ultimately show ?thesis
      by (auto simp: uthen_def v1 step(1) [of D] may_spend_upd)
  next
    case False
    then show ?thesis
      using spend_one_over [of D v h N block] Cons.prems
      by (auto simp: uthen_def split: prod.splits uoutcome.splits)
  qed
qed simp

lemma spend_list_ok:
  assumes "uforeach (spend_one N block) hs v = (UOk, v')"
  shows "over D v' = over D v |` (- set hs)" and "loaded D v x \<Longrightarrow> loaded D v' x"
  using assms
proof (induction hs arbitrary: v)
  case Nil
  { case 1 then show ?case by simp }
  { case 2 then show ?case by simp }
next
  case (Cons h hs)
  { case 1
    then obtain v1 where "spend_one N block h v = (UOk, v1)" "uforeach (spend_one N block) hs v1 = (UOk, v')"
      by (auto simp: uthen_ok)
    then have "over D v' = ((over D v)(h := None)) |` (- set hs)"
      using Cons.IH(1) [of v1] by (simp only: spend_one_ok(1) [of N block h v v1 D])
    then show ?case by (simp only: list.set restrict_Cons) }
  { case 2
    then show ?case using Cons.IH(2) spend_one_ok(2) by (fastforce simp: uthen_ok) }
qed

text \<open>The outputs, as one update.\<close>

lemma output_list_over:
  "fst (uforeach (output_one block tx) is v) = UOk \<longleftrightarrow> (\<forall>i \<in> set is. utxo_output tx i \<noteq> OPanic)"
  by (induction "is" arbitrary: v) (auto simp: uthen_def output_one_def split: out_kind.splits)

lemma output_list_ok:
  assumes "uforeach (output_one block tx) is v = (UOk, v')"
  shows "over D v' = over D v ++ map_of (rev (map (\<lambda>(h, t). (h, (if is_coinbase_tx block tx then CoinbaseUTXOType else t,
            bhHeight (bbHeader block)))) (concat (map (\<lambda>i. kind_utxo (utxo_output tx i)) is))))"
    and "loaded D v x \<Longrightarrow> loaded D v' x"
  using assms
proof (induction "is" arbitrary: v)
  case Nil
  { case 1 then show ?case by simp }
  { case 2 then show ?case by simp }
next
  case (Cons i "is")
  { case 1
    then obtain v1 where v1: "output_one block tx i v = (UOk, v1)" "uforeach (output_one block tx) is v1 = (UOk, v')"
      by (auto simp: uthen_ok)
    then have "over D v1 = over D v ++ map_of (map (\<lambda>(h, t). (h, (if is_coinbase_tx block tx then CoinbaseUTXOType else t,
            bhHeight (bbHeader block)))) (kind_utxo (utxo_output tx i)))"
      by (auto simp: output_one_def over_upd unspent_def NewUtxoEntry_def split: out_kind.splits)
    moreover have "rev (kind_utxo k) = kind_utxo k" for k by (cases k) auto
    ultimately show ?case using Cons.IH(1) [OF v1(2)] by (simp add: rev_map) }
  { case 2
    then obtain v1 where v1: "output_one block tx i v = (UOk, v1)" "uforeach (output_one block tx) is v1 = (UOk, v')"
      by (auto simp: uthen_ok)
    then have "loaded D v1 x"
      using 2 by (auto simp: output_one_def intro: loaded_upd split: out_kind.splits)
    then show ?case using v1(2) by (rule Cons.IH(2)) }
qed

text \<open>Applying transactions.\<close>

lemma ApplyTransaction_over:
  assumes "\<And>h. h \<in> set (SpentOutputIDs tx) \<Longrightarrow> loaded D v h"
  shows "fst (ApplyTransaction N block tx v) = UOk \<longleftrightarrow> ledger_tx N block tx (over D v) \<noteq> None"
    and "ApplyTransaction N block tx v = (UOk, v') \<Longrightarrow> ledger_tx N block tx (over D v) = Some (over D v')"
    and "ApplyTransaction N block tx v = (UOk, v') \<Longrightarrow> loaded D v x \<Longrightarrow> loaded D v' x"
proof -
  let ?S = "applySpendUtxo N block tx" and ?O = "applyOutputUtxo block tx"
  have S: "fst (?S v) = UOk \<longleftrightarrow> distinct (SpentOutputIDs tx) \<and>
      (\<forall>h \<in> set (SpentOutputIDs tx). may_spend N (bhHeight (bbHeader block)) (over D v) h)"
    unfolding applySpendUtxo_def using assms by (rule spend_list_over)
  have Oo: "fst (?O v1) = UOk \<longleftrightarrow> outputs_ok tx" for v1
    by (simp add: applyOutputUtxo_def output_list_over outputs_ok_def)
  show 1: "fst (ApplyTransaction N block tx v) = UOk \<longleftrightarrow> ledger_tx N block tx (over D v) \<noteq> None"
    using S Oo by (auto simp: ApplyTransaction_def uthen_def ledger_tx_def split: prod.splits uoutcome.splits)
  assume ok: "ApplyTransaction N block tx v = (UOk, v')"
  then obtain v1 where v1: "uforeach (spend_one N block) (SpentOutputIDs tx) v = (UOk, v1)"
    "uforeach (output_one block tx) (hdrResultIds (TxHeader_of tx)) v1 = (UOk, v')"
    by (auto simp: ApplyTransaction_def uthen_ok applySpendUtxo_def applyOutputUtxo_def)
  show "ledger_tx N block tx (over D v) = Some (over D v')"
    using 1 ok output_list_ok(1) [OF v1(2), of D] spend_list_ok(1) [OF v1(1), of D]
    by (auto simp: ledger_tx_def add_outputs_def created_def split: if_splits)
  assume "loaded D v x"
  then show "loaded D v' x" using spend_list_ok(2) [OF v1(1)] output_list_ok(2) [OF v1(2)] by blast
qed

lemma apply_txs_over:
  assumes "\<And>tx h. tx \<in> set txs \<Longrightarrow> h \<in> set (SpentOutputIDs tx) \<Longrightarrow> loaded D v h"
  shows "case uforeach (ApplyTransaction N block) txs v of (r, v') \<Rightarrow>
           ledger_txs N block txs (over D v) = (if r = UOk then Some (over D v') else None)"
  using assms
proof (induction txs arbitrary: v)
  case (Cons tx txs)
  have l: "\<And>h. h \<in> set (SpentOutputIDs tx) \<Longrightarrow> loaded D v h" using Cons.prems by auto
  note step = ApplyTransaction_over [where N = N and block = block and tx = tx, OF l]
  show ?case
  proof (cases "ApplyTransaction N block tx v")
    case (Pair r v1)
    show ?thesis
    proof (cases "r = UOk")
      case True
      then have "case uforeach (ApplyTransaction N block) txs v1 of (r, v') \<Rightarrow>
           ledger_txs N block txs (over D v1) = (if r = UOk then Some (over D v') else None)"
        using Cons.prems ApplyTransaction_over(3) [of tx D v N block v1] l Pair by (intro Cons.IH) (simp, blast)
      then show ?thesis using step(2) Pair True by (simp add: uthen_def)
    next
      case False
      then have "ledger_tx N block tx (over D v) = None" using step(1) Pair by simp
      then show ?thesis using False Pair by (cases r) (simp_all add: uthen_def)
    qed
  qed
qed simp

section \<open>Loading and saving\<close>

definition stored :: "codec_lib \<Rightarrow> database \<Rightarrow> ledger" where
  "stored P db h = unspent (Option.bind (db (CalcUtxoKey h)) (proto_Unmarshal P))"

definition codec_ok :: "codec_lib \<Rightarrow> bool" where
  "codec_ok P \<longleftrightarrow> (\<forall>e. proto_Unmarshal P (proto_Marshal P e) = Some e)"

lemma CalcUtxoKey_inj [simp]: "CalcUtxoKey h = CalcUtxoKey k \<longleftrightarrow> h = k"
  by (simp add: CalcUtxoKey_def Byte32_inj)

lemma load_one_ok:
  assumes "load_one P db h v = (UOk, v')"
  shows "over (stored P db) v' = over (stored P db) v" and "loaded (stored P db) v' h"
    and "loaded (stored P db) v x \<Longrightarrow> loaded (stored P db) v' x"
proof -
  show "over (stored P db) v' = over (stored P db) v"
    using assms
    by (auto simp: load_one_def HasUtxo_def stored_def intro!: over_idem split: if_splits option.splits)
  show "loaded (stored P db) v' h"
    using assms
    by (auto simp: load_one_def HasUtxo_def loaded_def stored_def unspent_def split: if_splits option.splits)
  show "loaded (stored P db) v x \<Longrightarrow> loaded (stored P db) v' x"
    using assms by (auto simp: load_one_def loaded_def split: if_splits option.splits)
qed

lemma load_list_ok:
  assumes "uforeach (load_one P db) hs v = (UOk, v')"
  shows "over (stored P db) v' = over (stored P db) v \<and> (\<forall>h \<in> set hs. loaded (stored P db) v' h) \<and>
         (\<forall>x. loaded (stored P db) v x \<longrightarrow> loaded (stored P db) v' x)"
  using assms
proof (induction hs arbitrary: v)
  case (Cons h hs)
  then obtain v1 where v1: "load_one P db h v = (UOk, v1)" "uforeach (load_one P db) hs v1 = (UOk, v')"
    by (auto simp: uthen_ok)
  show ?case using Cons.IH [OF v1(2)] load_one_ok [OF v1(1)] by auto
qed simp

lemma load_txs_ok:
  assumes "getTransactionsUtxo P db txs v = (UOk, v')"
  shows "over (stored P db) v' = over (stored P db) v \<and>
         (\<forall>tx \<in> set txs. \<forall>h \<in> set (SpentOutputIDs tx). loaded (stored P db) v' h) \<and>
         (\<forall>x. loaded (stored P db) v x \<longrightarrow> loaded (stored P db) v' x)"
  using assms unfolding getTransactionsUtxo_def
proof (induction txs arbitrary: v)
  case (Cons tx txs)
  then obtain v1 where v1: "uforeach (load_one P db) (SpentOutputIDs tx) v = (UOk, v1)"
    "uforeach (\<lambda>tx. uforeach (load_one P db) (SpentOutputIDs tx)) txs v1 = (UOk, v')"
    by (auto simp: uthen_ok)
  show ?case using Cons.IH [OF v1(2)] load_list_ok [OF v1(1)] by auto
qed simp

lemma stored_upd: "stored P (db(CalcUtxoKey h := x)) = (stored P db)(h := unspent (Option.bind x (proto_Unmarshal P)))"
  by (auto simp: stored_def)

lemma save_one_stored:
  "codec_ok P \<Longrightarrow> stored P (save_one P (h, e) db) = (stored P db)(h := unspent (Some e))"
  by (auto simp: save_one_def stored_upd codec_ok_def unspent_def)

lemma fold_save_stored:
  assumes "codec_ok P" "distinct (map fst l)"
  shows "stored P (fold (save_one P) l db) = over (stored P db) (map_of l)"
  using assms(2)
proof (induction l arbitrary: db)
  case Nil
  show ?case by (simp add: over_def)
next
  case (Cons x l)
  obtain h e where x: "x = (h, e)" by (cases x)
  have "stored P (fold (save_one P) l (save_one P x db)) = over ((stored P db)(h := unspent (Some e))) (map_of l)"
    using Cons by (simp add: x save_one_stored [OF assms(1)])
  moreover have "map_of l h = None" using Cons.prems by (simp add: x map_of_eq_None_iff)
  ultimately show ?case by (auto simp: x over_def fun_eq_iff)
qed

text \<open>An order in which a range may visit a view.\<close>

definition range_of :: "UtxoViewpoint \<Rightarrow> (Hash \<times> UtxoEntry) list \<Rightarrow> bool" where
  "range_of v l \<longleftrightarrow> distinct (map fst l) \<and> map_of l = v"

lemma save_stored: "codec_ok P \<Longrightarrow> range_of v l \<Longrightarrow> stored P (saveUtxoView P l db) = over (stored P db) v"
  by (auto simp: range_of_def saveUtxoView_def fold_save_stored)

section \<open>Detaching\<close>

definition spendable :: "UtxoViewpoint \<Rightarrow> Hash set" where
  "spendable v = {h. CanSpend v h}"

definition spends_known :: "Tx \<Rightarrow> bool" where
  "spends_known tx \<longleftrightarrow> (\<forall>h \<in> set (SpentOutputIDs tx).
     case Entries tx h of Some (EOriginalOutput _) \<Rightarrow> True | Some (EVoteOutput _) \<Rightarrow> True | _ \<Rightarrow> False)"

definition created_ids :: "Tx \<Rightarrow> Hash set" where
  "created_ids tx = fst ` set (created tx)"

lemma spendable_upd: "spendable (v(h \<mapsto> e)) = (if utSpent e then spendable v - {h} else insert h (spendable v))"
  by (auto simp: spendable_def CanSpend_def)

lemma unspend_one_ok:
  assumes "case Entries tx h of Some (EOriginalOutput _) \<Rightarrow> True | Some (EVoteOutput _) \<Rightarrow> True | _ \<Rightarrow> False" "h \<notin> spendable v"
  obtains v' where "unspend_one tx h v = (UOk, v')" "spendable v' = insert h (spendable v)"
proof -
  have "\<exists>v'. unspend_one tx h v = (UOk, v') \<and> spendable v' = insert h (spendable v)"
    using assms
    by (auto simp: unspend_one_def NewUtxoEntry_def UnspendOutput_def spendable_upd spendable_def [of v] CanSpend_def Let_def
        split: option.splits Entry.splits)
  then show thesis using that by blast
qed

lemma unspend_list_ok:
  assumes "\<And>h. h \<in> set hs \<Longrightarrow> case Entries tx h of Some (EOriginalOutput _) \<Rightarrow> True | Some (EVoteOutput _) \<Rightarrow> True | _ \<Rightarrow> False"
    and "distinct hs" "set hs \<inter> spendable v = {}"
  shows "\<exists>v'. uforeach (unspend_one tx) hs v = (UOk, v') \<and> spendable v' = spendable v \<union> set hs"
  using assms
proof (induction hs arbitrary: v)
  case (Cons h hs)
  obtain v1 where v1: "unspend_one tx h v = (UOk, v1)" "spendable v1 = insert h (spendable v)"
    using unspend_one_ok [of tx h v] Cons.prems by auto
  have "\<exists>v'. uforeach (unspend_one tx) hs v1 = (UOk, v') \<and> spendable v' = spendable v1 \<union> set hs"
    using Cons.prems v1(2) by (intro Cons.IH) auto
  then show ?case using v1 by (auto simp: uthen_def)
qed simp

lemma unoutput_list_ok:
  assumes "\<forall>i \<in> set is. utxo_output tx i \<noteq> OPanic"
  shows "\<exists>v'. uforeach (unoutput_one tx) is v = (UOk, v') \<and>
           spendable v' = spendable v - fst ` set (concat (map (\<lambda>i. kind_utxo (utxo_output tx i)) is))"
  using assms
proof (induction "is" arbitrary: v)
  case (Cons i "is")
  obtain v1 where v1: "unoutput_one tx i v = (UOk, v1)" "spendable v1 = spendable v - fst ` set (kind_utxo (utxo_output tx i))"
    using Cons.prems
    by (cases "utxo_output tx i") (auto simp: unoutput_one_def spendable_upd NewUtxoEntry_def)
  obtain v' where v': "uforeach (unoutput_one tx) is v1 = (UOk, v')"
    "spendable v' = spendable v1 - fst ` set (concat (map (\<lambda>i. kind_utxo (utxo_output tx i)) is))"
    using Cons.IH [of v1] Cons.prems by auto
  have "spendable v' = spendable v - fst ` set (concat (map (\<lambda>i. kind_utxo (utxo_output tx i)) (i # is)))"
    unfolding v'(2) v1(2) by (simp add: image_Un) blast
  then show ?case using v1(1) v'(1) by (simp add: uthen_def)
qed simp

lemma DetachTransaction_ok:
  assumes "spends_known tx" "outputs_ok tx" "distinct (SpentOutputIDs tx)" "set (SpentOutputIDs tx) \<inter> spendable v = {}"
  shows "\<exists>v'. DetachTransaction tx v = (UOk, v') \<and> spendable v' = (spendable v \<union> set (SpentOutputIDs tx)) - created_ids tx"
proof -
  obtain v1 where v1: "uforeach (unspend_one tx) (SpentOutputIDs tx) v = (UOk, v1)"
    "spendable v1 = spendable v \<union> set (SpentOutputIDs tx)"
    using unspend_list_ok [of "SpentOutputIDs tx" tx v] assms by (auto simp: spends_known_def)
  obtain v2 where "uforeach (unoutput_one tx) (hdrResultIds (TxHeader_of tx)) v1 = (UOk, v2)"
    "spendable v2 = spendable v1 - created_ids tx"
    using unoutput_list_ok [of "hdrResultIds (TxHeader_of tx)" tx v1] assms
    by (auto simp: outputs_ok_def created_ids_def created_def)
  then show ?thesis
    using v1 by (auto simp: DetachTransaction_def detachSpendUtxo_def detachOutputUtxo_def uthen_def)
qed

section \<open>Blocks\<close>

text \<open>Stored entries can be read.\<close>

definition readable :: "codec_lib \<Rightarrow> database \<Rightarrow> bool" where
  "readable P db \<longleftrightarrow> (\<forall>h b. db (CalcUtxoKey h) = Some b \<longrightarrow> proto_Unmarshal P b \<noteq> None)"

lemma load_one_readable: "readable P db \<Longrightarrow> fst (load_one P db h v) = UOk"
  by (fastforce simp: load_one_def readable_def split: option.splits)

lemma uforeach_total: "(\<And>x v. fst (f x v) = UOk) \<Longrightarrow> fst (uforeach f l v) = UOk"
proof (induction l arbitrary: v)
  case (Cons x l)
  then show ?case using Cons.prems [of x v] by (cases "f x v") (auto simp: uthen_def)
qed simp

lemma load_txs_readable: "readable P db \<Longrightarrow> fst (getTransactionsUtxo P db txs v) = UOk"
  by (simp add: getTransactionsUtxo_def uforeach_total load_one_readable)

lemma attach_node_over:
  assumes "readable P db"
  shows "case attach_node P N db block v of (r, v') \<Rightarrow>
           ledger_block N block (over (stored P db) v) = (if r = UOk then Some (over (stored P db) v') else None)"
proof -
  obtain v1 where v1: "getTransactionsUtxo P db (bbTransactions block) v = (UOk, v1)"
    using load_txs_readable [OF assms, of "bbTransactions block" v]
    by (cases "getTransactionsUtxo P db (bbTransactions block) v") auto
  note l = load_txs_ok [OF v1]
  have "case uforeach (ApplyTransaction N block) (bbTransactions block) v1 of (r, v') \<Rightarrow>
          ledger_txs N block (bbTransactions block) (over (stored P db) v1) = (if r = UOk then Some (over (stored P db) v') else None)"
    using l by (intro apply_txs_over) blast
  then show ?thesis
    using l v1 by (simp add: attach_node_def uthen_def UtxoView_ApplyBlock_def ledger_block_def)
qed

primrec ledger_blocks :: "Params \<Rightarrow> BcBlock list \<Rightarrow> ledger \<Rightarrow> ledger option" where
  "ledger_blocks N [] U = Some U"
| "ledger_blocks N (b # l) U = Option.bind (ledger_block N b U) (ledger_blocks N l)"

lemma attach_nodes_over:
  assumes "readable P db"
  shows "case uforeach (attach_node P N db) bs v of (r, v') \<Rightarrow>
           ledger_blocks N bs (over (stored P db) v) = (if r = UOk then Some (over (stored P db) v') else None)"
proof (induction bs arbitrary: v)
  case (Cons b bs)
  show ?case
  proof (cases "attach_node P N db b v")
    case (Pair r v1)
    then show ?thesis using attach_node_over [OF assms, of N b v] Cons.IH [of v1]
      by (cases r) (simp_all add: uthen_def)
  qed
qed simp

subsection \<open>Detaching a block after applying it\<close>

text \<open>The outputs that a list of transactions creates are not there when they are created.\<close>

primrec fresh_outputs :: "Hash set \<Rightarrow> Tx list \<Rightarrow> bool" where
  "fresh_outputs S [] \<longleftrightarrow> True"
| "fresh_outputs S (tx # l) \<longleftrightarrow> created_ids tx \<inter> S = {} \<and> fresh_outputs (S \<union> created_ids tx) l"

lemma spendable_utxos: "spendable v = dom (utxos v)"
  by (auto simp: spendable_def CanSpend_def utxos_def unspent_def split: option.splits if_splits)

lemma ApplyTransaction_spendable:
  assumes "ApplyTransaction N block tx v = (UOk, v')"
  shows "distinct (SpentOutputIDs tx)" "set (SpentOutputIDs tx) \<subseteq> spendable v" "outputs_ok tx"
    "spendable v' = (spendable v - set (SpentOutputIDs tx)) \<union> created_ids tx"
proof -
  have t: "ledger_tx N block tx (utxos v) = Some (utxos v')"
    using ApplyTransaction_over(2) [of tx Map.empty v N block v'] assms by (simp add: loaded_def over_empty)
  then show "distinct (SpentOutputIDs tx)" "set (SpentOutputIDs tx) \<subseteq> spendable v" "outputs_ok tx"
    by (auto simp: ledger_tx_def may_spend_def spendable_utxos split: if_splits option.splits)
  show "spendable v' = (spendable v - set (SpentOutputIDs tx)) \<union> created_ids tx"
  proof -
    have u: "utxos v' = add_outputs block tx (utxos v |` (- set (SpentOutputIDs tx)))"
      using t by (simp add: ledger_tx_def split: if_splits)
    have "dom (utxos v') = (dom (utxos v) - set (SpentOutputIDs tx)) \<union> created_ids tx"
      unfolding u add_outputs_def dom_map_add
      by (auto simp: dom_map_of_conv_image_fst image_image created_ids_def case_prod_unfold)
    then show ?thesis by (simp add: spendable_utxos)
  qed
qed

lemma fresh_mono: "fresh_outputs S l \<Longrightarrow> T \<subseteq> S \<Longrightarrow> fresh_outputs T l"
proof (induction l arbitrary: S T)
  case (Cons tx l)
  then show ?case using Cons.IH [of "S \<union> created_ids tx" "T \<union> created_ids tx"] by auto
qed simp

text \<open>Whatever view has the spendable outputs that applying left, detaching leads back.\<close>

lemma detach_txs:
  assumes "uforeach (ApplyTransaction N block) txs v = (UOk, v')" "fresh_outputs (spendable v) txs"
    "\<forall>tx \<in> set txs. spends_known tx" "spendable w = spendable v'"
  shows "\<exists>w'. uforeach DetachTransaction (rev txs) w = (UOk, w') \<and> spendable w' = spendable v"
  using assms
proof (induction txs arbitrary: v)
  case (Cons tx txs)
  then obtain v1 where v1: "ApplyTransaction N block tx v = (UOk, v1)" "uforeach (ApplyTransaction N block) txs v1 = (UOk, v')"
    by (auto simp: uthen_ok)
  note a = ApplyTransaction_spendable [OF v1(1)]
  have "fresh_outputs (spendable v1) txs"
    using Cons.prems(2) a(4) by (auto elim: fresh_mono)
  then obtain w1 where w1: "uforeach DetachTransaction (rev txs) w = (UOk, w1)" "spendable w1 = spendable v1"
    using Cons.IH [OF v1(2)] Cons.prems by auto
  have "set (SpentOutputIDs tx) \<inter> spendable w1 = {}"
    using a Cons.prems(2) w1(2) by auto
  then obtain w' where w': "DetachTransaction tx w1 = (UOk, w')"
    "spendable w' = (spendable w1 \<union> set (SpentOutputIDs tx)) - created_ids tx"
    using DetachTransaction_ok [of tx w1] a Cons.prems(3) by auto
  have "spendable w' = spendable v"
    unfolding w'(2) w1(2) a(4) using a(2) Cons.prems(2) by auto
  then show ?case
    using w1(1) w'(1) by (simp add: uforeach_append uthen_def)
qed simp

end
