(* ===== verification/UtxoReorg.thy ===== *)
theory UtxoReorg
  imports UtxoProps
begin

text \<open>
  The properties of the view of unspent outputs in a reorganisation, with concrete blocks: a vote, a
  veto of it and a competing veto one block earlier.
\<close>

definition sample_codec :: codec_lib where
  "sample_codec =
     \<lparr>proto_Marshal = (\<lambda>e. be_bytes 4 (unat (utType e)) @ be_bytes 8 (unat (utBlockHeight e)) @ [if utSpent e then 1 else 0]),
      proto_Unmarshal = (\<lambda>b. Some \<lparr>utType = of_nat (nat_of_be (take 4 b)), utBlockHeight = of_nat (nat_of_be (take 8 (drop 4 b))),
        utSpent = (drop 12 b = [1])\<rparr>)\<rparr>"

lemma sample_codec_ok: "codec_ok sample_codec"
proof -
  have "proto_Unmarshal sample_codec (proto_Marshal sample_codec e) = Some e" for e
    using unsigned_less [of "utType e", where ?'a = nat] unsigned_less [of "utBlockHeight e", where ?'a = nat]
    by (cases e) (simp add: sample_codec_def nat_of_be_be_bytes)
  then show ?thesis by (simp add: codec_ok_def)
qed

lemma sample_readable: "readable sample_codec db"
  by (simp add: readable_def sample_codec_def)

definition hash_n :: "u64 \<Rightarrow> Hash" where
  "hash_n n = \<lparr>V0 = n, V1 = 0, V2 = 0, V3 = 0\<rparr>"

lemma hash_n_inj [simp]: "hash_n a = hash_n b \<longleftrightarrow> a = b"
  by (simp add: hash_n_def)

definition vote_entry :: Entry where
  "vote_entry = EVoteOutput (NewVoteOutput (Some \<lparr>srcRef = Some (hash_n 9), srcValue = Some \<lparr>aaAssetId = Some BTMAssetID, aaAmount = 100000000\<rparr>,
     srcPosition = 0\<rparr>) None None 0 [1, 2])"

definition sample_tx :: "u64 \<Rightarrow> Hash option list \<Rightarrow> Hash list \<Rightarrow> Tx" where
  "sample_tx i results spent =
     \<lparr>TxHeader_of = NewTxHeader 1 100 0 results, txID = hash_n i, Entries = [hash_n 1 \<mapsto> vote_entry],
      InputIDs = [], SpentOutputIDs = spent\<rparr>"

definition coinbase_tx :: Tx where "coinbase_tx = sample_tx 100 [] []"
definition vote_tx :: Tx where "vote_tx = sample_tx 101 [Some (hash_n 1)] []"
definition veto_tx :: Tx where "veto_tx = sample_tx 102 [] [hash_n 1]"

definition sample_block :: "u64 \<Rightarrow> Tx list \<Rightarrow> BcBlock" where
  "sample_block height txs =
     \<lparr>bbHeader = NewBlockHeader 1 height None 0 None, bbID = hash_n height, bbTransactions = coinbase_tx # txs\<rparr>"

definition view_vote :: UtxoViewpoint where
  "view_vote = [hash_n 1 \<mapsto> NewUtxoEntry VoteUTXOType 100 False]"

definition view_veto :: UtxoViewpoint where
  "view_veto = [hash_n 1 \<mapsto> NewUtxoEntry VoteUTXOType 100 True]"

lemmas sample_defs = sample_block_def coinbase_tx_def vote_tx_def veto_tx_def sample_tx_def NewTxHeader_def NewBlockHeader_def
  vote_entry_def NewVoteOutput_def NewUtxoEntry_def

lemmas view_ops = uthen_def getTransactionsUtxo_def UtxoView_ApplyBlock_def ApplyTransaction_def applySpendUtxo_def
  applyOutputUtxo_def output_one_def utxo_output_def amount_kind_def is_coinbase_tx_def
  UtxoView_DetachBlock_def DetachTransaction_def detachSpendUtxo_def detachOutputUtxo_def
  spend_one_def unspend_one_def UnspendOutput_def SpendOutput_def Let_def
  attach_node_def detach_node_def HasUtxo_def load_one_def utxo_lock_def

lemma vote_is_stored: "attach_node P N db (sample_block 100 [vote_tx]) Map.empty = (UOk, view_vote)"
  by (simp add: view_ops sample_defs view_vote_def)

lemma pending_mainnet: "VotePendingBlockNums MainNetParams 14499 = 14400" "VotePendingBlockNums MainNetParams 14500 = 14400"
  by (simp_all add: VotePendingBlockNums_def MainNetParams_def)

lemma stored_vote:
  "codec_ok P \<Longrightarrow> Option.bind (saveUtxoView P [(hash_n 1, NewUtxoEntry VoteUTXOType 100 False)] Map.empty (CalcUtxoKey (hash_n 1))) (proto_Unmarshal P)
     = Some (NewUtxoEntry VoteUTXOType 100 False)"
  by (simp add: saveUtxoView_def save_one_def NewUtxoEntry_def codec_ok_def)

definition db_vote :: "codec_lib \<Rightarrow> database" where
  "db_vote P = saveUtxoView P [(hash_n 1, NewUtxoEntry VoteUTXOType 100 False)] Map.empty"

definition db_veto :: "codec_lib \<Rightarrow> database" where
  "db_veto P = saveUtxoView P [(hash_n 1, NewUtxoEntry VoteUTXOType 100 True)] (db_vote P)"

lemma load_vote: "codec_ok P \<Longrightarrow> load_one P (db_vote P) (hash_n 1) Map.empty = (UOk, view_vote)"
  by (simp add: load_one_def HasUtxo_def db_vote_def saveUtxoView_def save_one_def NewUtxoEntry_def codec_ok_def view_vote_def)

lemma load_vetoed: "db_veto P (CalcUtxoKey (hash_n 1)) = None"
  by (simp add: db_veto_def saveUtxoView_def save_one_def NewUtxoEntry_def)

lemma veto_from_store:
  assumes "codec_ok P"
  shows "attach_node P MainNetParams (db_vote P) (sample_block 14500 [veto_tx]) Map.empty = (UOk, view_veto)"
    and "attach_node P MainNetParams (db_vote P) (sample_block 14499 [veto_tx]) Map.empty = (UErr ErrVoteLocked, view_vote)"
proof -
  have "getTransactionsUtxo P (db_vote P) [coinbase_tx, veto_tx] Map.empty = (UOk, view_vote)"
    using load_vote [OF assms] by (simp add: getTransactionsUtxo_def uthen_def coinbase_tx_def veto_tx_def sample_tx_def)
  then have g: "getTransactionsUtxo P (db_vote P) (bbTransactions (sample_block k [veto_tx])) Map.empty = (UOk, view_vote)" for k
    by (simp add: sample_block_def)
  show "attach_node P MainNetParams (db_vote P) (sample_block 14500 [veto_tx]) Map.empty = (UOk, view_veto)"
    unfolding attach_node_def uthen_def g
    by (simp add: UtxoView_ApplyBlock_def ApplyTransaction_def uthen_def applySpendUtxo_def applyOutputUtxo_def
        sample_defs spend_one_def view_vote_def view_veto_def utxo_lock_def pending_mainnet SpendOutput_def)
  show "attach_node P MainNetParams (db_vote P) (sample_block 14499 [veto_tx]) Map.empty = (UErr ErrVoteLocked, view_vote)"
    unfolding attach_node_def uthen_def g
    by (simp add: UtxoView_ApplyBlock_def ApplyTransaction_def uthen_def applySpendUtxo_def applyOutputUtxo_def
        sample_defs spend_one_def view_vote_def view_veto_def utxo_lock_def pending_mainnet SpendOutput_def)
qed

lemma detach_veto:
  "detach_node P (db_veto P) (sample_block 14500 [veto_tx]) Map.empty = (UOk, [hash_n 1 \<mapsto> NewUtxoEntry VoteUTXOType 0 False])"
  by (simp add: detach_node_def getTransactionsUtxo_def uthen_def load_one_def HasUtxo_def load_vetoed
      UtxoView_DetachBlock_def DetachTransaction_def detachSpendUtxo_def detachOutputUtxo_def sample_defs unspend_one_def Let_def)

lemma veto_after_detach:
  "attach_node P MainNetParams db (sample_block 14499 [veto_tx]) [hash_n 1 \<mapsto> NewUtxoEntry VoteUTXOType 0 False]
     = (UOk, [hash_n 1 \<mapsto> NewUtxoEntry VoteUTXOType 0 True])"
  by (simp add: attach_node_def getTransactionsUtxo_def uthen_def load_one_def HasUtxo_def
      UtxoView_ApplyBlock_def ApplyTransaction_def applySpendUtxo_def applyOutputUtxo_def
      sample_defs spend_one_def utxo_lock_def pending_mainnet SpendOutput_def)

lemma detach_empty: "detach_node P db (sample_block k []) v = (UOk, v)"
  by (simp add: detach_node_def getTransactionsUtxo_def uthen_def
      UtxoView_DetachBlock_def DetachTransaction_def detachSpendUtxo_def detachOutputUtxo_def sample_defs)

section \<open>Properties\<close>

text \<open>
  C7. Extending the main chain updates the stored unspent outputs as the blocks say. The code keeps a view with spent
  flags, fills it on demand and saves or deletes entries; the ledger of the specification has no spent
  entries and is updated by each transaction as a whole. If the blocks are attached without
  error, the outputs that the database holds unspent after the view is saved are those of the ledger, with their types and
  heights, whatever order the entries are saved in; if there is an error, the ledger refuses one of the blocks. The
  serialisation of entries is any that can be read back.
\<close>

theorem attach_refines_ledger:
  assumes "codec_ok P" "readable P db"
  shows "case reorganize_view P N db [] blocks of (r, v) \<Rightarrow>
           (r = UOk \<and> range_of v l \<longrightarrow> ledger_blocks N blocks (stored P db) = Some (stored P (saveUtxoView P l db))) \<and>
           (r \<noteq> UOk \<longrightarrow> ledger_blocks N blocks (stored P db) = None)"
proof -
  have e: "over (stored P db) Map.empty = stored P db"
    by (simp add: over_def)
  show ?thesis
    using attach_nodes_over [OF assms(2), of N blocks Map.empty] save_stored [OF assms(1)]
    by (auto simp: reorganize_view_def uthen_def e split: prod.splits)
qed

lemma attach_refines_ledger_witness:
  "codec_ok sample_codec \<and> readable sample_codec (db_vote sample_codec) \<and>
   reorganize_view sample_codec MainNetParams (db_vote sample_codec) [] [sample_block 14500 [veto_tx]] = (UOk, view_veto) \<and>
   ledger_blocks MainNetParams [sample_block 14500 [veto_tx]] (stored sample_codec (db_vote sample_codec))
     = Some (stored sample_codec (saveUtxoView sample_codec [(hash_n 1, NewUtxoEntry VoteUTXOType 100 True)] (db_vote sample_codec)))"
proof -
  have r: "reorganize_view sample_codec MainNetParams (db_vote sample_codec) [] [sample_block 14500 [veto_tx]] = (UOk, view_veto)"
    using veto_from_store(1) [OF sample_codec_ok] by (simp add: reorganize_view_def uthen_def)
  have "range_of view_veto [(hash_n 1, NewUtxoEntry VoteUTXOType 100 True)]"
    by (simp add: range_of_def view_veto_def)
  then show ?thesis
    using attach_refines_ledger [OF sample_codec_ok sample_readable, where N = MainNetParams and db = "db_vote sample_codec"
        and blocks = "[sample_block 14500 [veto_tx]]" and l = "[(hash_n 1, NewUtxoEntry VoteUTXOType 100 True)]"] r
    by (simp add: sample_codec_ok sample_readable)
qed

text \<open>
  C8. Detaching a block undoes what applying it did to the spendable outputs. After a block was applied to a view, detaching
  it from the view succeeds and exactly the outputs that were spendable before are spendable again,
  provided the transactions carry the entries of the outputs they spend and no
  output identifier is created twice.
\<close>

theorem detach_undoes_apply:
  assumes "UtxoView_ApplyBlock N block v = (UOk, v')" "fresh_outputs (spendable v) (bbTransactions block)"
    "\<forall>tx \<in> set (bbTransactions block). spends_known tx"
  shows "\<exists>w. UtxoView_DetachBlock block v' = (UOk, w) \<and> spendable w = spendable v"
  using detach_txs [OF assms(1) [unfolded UtxoView_ApplyBlock_def] assms(2,3), of v']
  by (simp add: UtxoView_DetachBlock_def)

lemma detach_undoes_apply_witness:
  "UtxoView_ApplyBlock MainNetParams (sample_block 14500 [veto_tx]) view_vote = (UOk, view_veto) \<and>
   (\<exists>w. UtxoView_DetachBlock (sample_block 14500 [veto_tx]) view_veto = (UOk, w) \<and> spendable w = spendable view_vote)"
proof -
  have a: "UtxoView_ApplyBlock MainNetParams (sample_block 14500 [veto_tx]) view_vote = (UOk, view_veto)"
    by (simp add: UtxoView_ApplyBlock_def ApplyTransaction_def uthen_def applySpendUtxo_def applyOutputUtxo_def
        sample_defs spend_one_def view_vote_def view_veto_def utxo_lock_def pending_mainnet SpendOutput_def)
  have "fresh_outputs (spendable view_vote) (bbTransactions (sample_block 14500 [veto_tx]))"
    "\<forall>tx \<in> set (bbTransactions (sample_block 14500 [veto_tx])). spends_known tx"
    by (simp_all add: sample_defs created_ids_def created_def spends_known_def)
  from detach_undoes_apply [OF a this] a show ?thesis by simp
qed

text \<open>
  C9. A reorganisation forgets how long a vote is locked. On the main net a vote of block 100 is locked
  until block 14500. A node that has the vote stored refuses to attach a block 14499 that vetoes it. A node that
  had attached blocks 14499 and 14500, with a veto in the latter, and saved them, detaches both and then
  accepts that same block: the entry of a spent vote is deleted when it is saved, and \<^verbatim>\<open>detachSpendUtxo\<close> makes
  a new one with height 0. The two nodes disagree about the block from then on.
\<close>

theorem reorganize_forgets_vote_lock:
  assumes "codec_ok P"
  shows "reorganize_view P MainNetParams Map.empty [] [sample_block 100 [vote_tx]] = (UOk, view_vote) \<and>
         reorganize_view P MainNetParams (db_vote P) [] [sample_block 14500 [veto_tx]] = (UOk, view_veto) \<and>
         fst (reorganize_view P MainNetParams (db_vote P) [] [sample_block 14499 [veto_tx]]) = UErr ErrVoteLocked \<and>
         fst (reorganize_view P MainNetParams (db_veto P) [sample_block 14500 [veto_tx], sample_block 14499 []]
                [sample_block 14499 [veto_tx]]) = UOk"
  using vote_is_stored [of P MainNetParams Map.empty] veto_from_store [OF assms] detach_veto [of P] veto_after_detach
  by (simp add: reorganize_view_def uthen_def detach_empty)

lemma reorganize_forgets_vote_lock_witness:
  "codec_ok sample_codec \<and>
   fst (reorganize_view sample_codec MainNetParams (db_vote sample_codec) [] [sample_block 14499 [veto_tx]]) = UErr ErrVoteLocked \<and>
   fst (reorganize_view sample_codec MainNetParams (db_veto sample_codec) [sample_block 14500 [veto_tx], sample_block 14499 []]
      [sample_block 14499 [veto_tx]]) = UOk"
  using reorganize_forgets_vote_lock [OF sample_codec_ok] sample_codec_ok by simp

text \<open>A transaction that fails keeps the spends it had made: its first input stays marked as spent in the view.\<close>

lemma failed_apply_keeps_spends:
  assumes "v a = Some e" "\<not> utSpent e" "utType e = NormalUTXOType" "v b = None" "a \<noteq> b" "SpentOutputIDs tx = [a, b]"
  shows "ApplyTransaction N block tx v = (UErr ErrUtxoMissing, v(a \<mapsto> SpendOutput e))"
  using assms by (simp add: ApplyTransaction_def applySpendUtxo_def uthen_def spend_one_def utxo_lock_def)

end
