(* ===== verification/BlockTypes.thy ===== *)
theory BlockTypes
  imports TxTypes
begin

text \<open>
  Blocks as they are exchanged and stored (\<^verbatim>\<open>block.go\<close>, \<^verbatim>\<open>block_header.go\<close>, \<^verbatim>\<open>block_commitment.go\<close>,
  \<^verbatim>\<open>block_witness.go\<close> and \<^verbatim>\<open>sup_link.go\<close> of \<^verbatim>\<open>protocol/bc/types\<close>): the header with the links of the validators,
  the hash of a block and the binary format, before the hexadecimal encoding of the
  \<^verbatim>\<open>MarshalText\<close> methods. A transaction of a block is its \<open>TxData\<close>; the entries that \<^verbatim>\<open>NewTx\<close> maps it to are
  those of theory \<open>MapTx\<close>.
\<close>

section \<open>Links between checkpoints\<close>

text \<open>The ten signatures of a link are an array; an empty string is a missing signature.\<close>

abbreviation (input) numSignatures :: nat where
  "numSignatures \<equiv> 10"

record SupLink =
  slSourceHeight :: u64
  slSourceHash :: Hash
  slSignatures :: "bytes list"

definition SupLink_ok :: "SupLink \<Rightarrow> bool" where
  "SupLink_ok s \<longleftrightarrow> length (slSignatures s) = numSignatures"

definition newSupLink :: "u64 \<Rightarrow> Hash \<Rightarrow> SupLink" where
  "newSupLink sourceHeight sourceHash =
     \<lparr>slSourceHeight = sourceHeight, slSourceHash = sourceHash, slSignatures = replicate numSignatures []\<rparr>"

definition set_signature :: "nat \<Rightarrow> bytes \<Rightarrow> SupLink \<Rightarrow> SupLink" where
  "set_signature validatorOrder signature s = s\<lparr>slSignatures := (slSignatures s)[validatorOrder := signature]\<rparr>"

text \<open>An order outside the array panics, \<open>None\<close>.\<close>

primrec add_sup_link :: "u64 \<Rightarrow> Hash \<Rightarrow> bytes \<Rightarrow> nat \<Rightarrow> SupLink list \<Rightarrow> SupLink list" where
  "add_sup_link sourceHeight sourceHash signature validatorOrder [] =
     [set_signature validatorOrder signature (newSupLink sourceHeight sourceHash)]"
| "add_sup_link sourceHeight sourceHash signature validatorOrder (s # l) =
     (if slSourceHash s = sourceHash then set_signature validatorOrder signature s # l
      else s # add_sup_link sourceHeight sourceHash signature validatorOrder l)"

definition AddSupLink :: "u64 \<Rightarrow> Hash \<Rightarrow> bytes \<Rightarrow> nat \<Rightarrow> SupLink list \<Rightarrow> SupLink list option" where
  "AddSupLink sourceHeight sourceHash signature validatorOrder s =
     (if validatorOrder < numSignatures then Some (add_sup_link sourceHeight sourceHash signature validatorOrder s) else None)"

definition numOfSignatures :: "SupLink \<Rightarrow> nat" where
  "numOfSignatures s = length (filter (\<lambda>b. length b > 0) (slSignatures s))"

definition IsMajority :: "SupLink \<Rightarrow> nat \<Rightarrow> bool" where
  "IsMajority s numOfValidators = (numOfSignatures s > numOfValidators * 2 div 3)"

section \<open>Headers and blocks\<close>

record TypesBlockHeader =
  thVersion :: u64
  thHeight :: u64
  thPreviousBlockHash :: Hash
  thTimestamp :: u64
  thBlockWitness :: bytes
  thSupLinks :: "SupLink list"
  thTransactionsMerkleRoot :: Hash

record TypesBlock =
  tbHeader :: TypesBlockHeader
  tbTransactions :: "bytes TxData list"

definition mapBlockHeader :: "lib \<Rightarrow> TypesBlockHeader \<Rightarrow> Hash option \<times> BlockHeader" where
  "mapBlockHeader L old =
     (let bh = NewBlockHeader (thVersion old) (thHeight old) (Some (thPreviousBlockHash old)) (thTimestamp old)
                 (Some (thTransactionsMerkleRoot old))
      in (EntryID_of L [] (Some (EBlockHeader bh)), bh))"

text \<open>The serialisation of a header for hashing cannot fail.\<close>

definition BlockHeader_Hash :: "lib \<Rightarrow> TypesBlockHeader \<Rightarrow> Hash" where
  "BlockHeader_Hash L bh = (case fst (mapBlockHeader L bh) of None \<Rightarrow> zeroHash | Some h \<Rightarrow> h)"

text \<open>\<^verbatim>\<open>BlockWitness.Set\<close> copies at most \<^verbatim>\<open>ed25519.SignatureSize\<close> bytes into a new array of that size.\<close>

definition BlockWitness_Set :: "bytes \<Rightarrow> bytes" where
  "BlockWitness_Set b = take 64 (b @ replicate 64 0)"

subsection \<open>Writing\<close>

definition SupLink_writeTo :: "SupLink \<Rightarrow> wr" where
  "SupLink_writeTo s =
     wthen (wlift (WriteVarint63 (slSourceHeight s)))
       (wthen (wraw (Byte32 (slSourceHash s)))
         (write_all (\<lambda>b. wlift (WriteVarstr31 b)) (slSignatures s)))"

definition SupLinks_writeTo :: "SupLink list \<Rightarrow> wr" where
  "SupLinks_writeTo s = wthen (wlift (WriteVarint31 (length s))) (write_all SupLink_writeTo s)"

definition BlockCommitment_writeTo :: "Hash \<Rightarrow> wr" where
  "BlockCommitment_writeTo h = wraw (Byte32 h)"

definition BlockWitness_writeTo :: "bytes \<Rightarrow> wr" where
  "BlockWitness_writeTo b = wlift (WriteVarstr31 b)"

abbreviation (input) SerBlockHeader :: byte where "SerBlockHeader \<equiv> 1"
abbreviation (input) SerBlockTransactions :: byte where "SerBlockTransactions \<equiv> 2"
abbreviation (input) SerBlockFull :: byte where "SerBlockFull \<equiv> 3"

definition BlockHeader_writeTo :: "TypesBlockHeader \<Rightarrow> byte \<Rightarrow> wr" where
  "BlockHeader_writeTo bh serflags =
     wthen (wraw [serflags])
       (if serflags = SerBlockTransactions then wraw []
        else
          wthen (wlift (WriteVarint63 (thVersion bh)))
            (wthen (wlift (WriteVarint63 (thHeight bh)))
              (wthen (wraw (Byte32 (thPreviousBlockHash bh)))
                (wthen (wlift (WriteVarint63 (thTimestamp bh)))
                  (wthen (wext [] (BlockCommitment_writeTo (thTransactionsMerkleRoot bh)))
                    (wthen (wext [] (BlockWitness_writeTo (thBlockWitness bh)))
                      (wext [] (SupLinks_writeTo (thSupLinks bh)))))))))"

definition Block_writeTo :: "lib \<Rightarrow> TypesBlock \<Rightarrow> byte \<Rightarrow> wr" where
  "Block_writeTo L b serflags =
     wthen (BlockHeader_writeTo (tbHeader b) serflags)
       (if serflags = SerBlockHeader then wraw []
        else
          wthen (wlift (WriteVarint31 (length (tbTransactions b))))
            (write_all (\<lambda>tx. TxData_writeTo L id tx serRequired) (tbTransactions b)))"

subsection \<open>Reading\<close>

definition SupLink_readFrom :: "SupLink reading" where
  "SupLink_readFrom =
     rbind ReadVarint63 (\<lambda>h.
     rbind ReadHash (\<lambda>sh.
     rbind (read_all ReadVarstr31 numSignatures) (\<lambda>sigs.
       rret \<lparr>slSourceHeight = h, slSourceHash = sh, slSignatures = sigs\<rparr>)))"

definition SupLinks_readFrom :: "SupLink list reading" where
  "SupLinks_readFrom = rbind ReadVarint31 (\<lambda>n. read_all SupLink_readFrom (unat n))"

text \<open>The header is read into the receiver \<open>bh\<close>, which stays as it is when there is none.\<close>

definition BlockHeader_readFrom :: "TypesBlockHeader \<Rightarrow> (byte \<times> TypesBlockHeader) reading" where
  "BlockHeader_readFrom bh =
     rbind (ReadFull 1) (\<lambda>serflags.
       let serflag = hd serflags in
       if serflag = SerBlockTransactions then rret (serflag, bh)
       else if serflag \<noteq> SerBlockHeader \<and> serflag \<noteq> SerBlockFull then rfail (Malformed ''unsupported serialization flags'')
       else
         rbind ReadVarint63 (\<lambda>version.
         rbind ReadVarint63 (\<lambda>height.
         rbind ReadHash (\<lambda>prev.
         rbind ReadVarint63 (\<lambda>timestamp.
         rbind (ReadExtensibleString ReadHash) (\<lambda>(root, _).
         rbind (ReadExtensibleString ReadVarstr31) (\<lambda>(witness, _).
         rbind (ReadExtensibleString SupLinks_readFrom) (\<lambda>(links, _).
           rret (serflag, \<lparr>thVersion = version, thHeight = height, thPreviousBlockHash = prev, thTimestamp = timestamp,
                           thBlockWitness = witness, thSupLinks = links, thTransactionsMerkleRoot = root\<rparr>)))))))))"

definition Block_readFrom :: "lib \<Rightarrow> TypesBlock \<Rightarrow> TypesBlock reading" where
  "Block_readFrom L b =
     rbind (BlockHeader_readFrom (tbHeader b)) (\<lambda>(serflag, bh).
       if serflag = SerBlockHeader then rret (b\<lparr>tbHeader := bh\<rparr>)
       else
         rbind ReadVarint31 (\<lambda>n.
         rbind (read_all (TxData_readFrom L zeroTxData) (unat n)) (\<lambda>txs.
           rret (b\<lparr>tbHeader := bh, tbTransactions := tbTransactions b @ txs\<rparr>))))"

definition zeroBlock :: TypesBlock where
  "zeroBlock =
     \<lparr>tbHeader = \<lparr>thVersion = 0, thHeight = 0, thPreviousBlockHash = zeroHash, thTimestamp = 0, thBlockWitness = [],
        thSupLinks = [], thTransactionsMerkleRoot = zeroHash\<rparr>, tbTransactions = []\<rparr>"

text \<open>\<^verbatim>\<open>Block.UnmarshalText\<close> and \<^verbatim>\<open>BlockHeader.UnmarshalText\<close> after the hexadecimal decoding; only the former rejects trailing bytes.\<close>

definition UnmarshalBlock :: "lib \<Rightarrow> bytes \<Rightarrow> io_err + TypesBlock" where
  "UnmarshalBlock L b =
     (case Block_readFrom L zeroBlock b of
        (Inl e, _) \<Rightarrow> Inl e
      | (Inr x, r) \<Rightarrow> if length r > 0 then Inl (Malformed ''trailing garbage'') else Inr x)"

definition UnmarshalBlockHeader :: "bytes \<Rightarrow> io_err + TypesBlockHeader" where
  "UnmarshalBlockHeader b =
     (case BlockHeader_readFrom (tbHeader zeroBlock) b of
        (Inl e, _) \<Rightarrow> Inl e
      | (Inr (serflag, bh), r) \<Rightarrow>
          if serflag = SerBlockTransactions then Inl (Malformed ''unsupported serialization flags'') else Inr bh)"

end
