(* ===== verification/BlockProps.thy ===== *)
theory BlockProps
  imports BlockTypes TxProps
begin

text \<open>
  The binary format of blocks is read back, and the hash of a block commits to its header but not to
  the signatures that are added to it later.
\<close>

lemma back_suplink [reread]:
  assumes "SupLink_ok s"
  shows "reads_back (SupLink_writeTo s) SupLink_readFrom s"
proof -
  have "reads_back (write_all (\<lambda>b. wlift (WriteVarstr31 b)) (slSignatures s)) (read_all ReadVarstr31 10) (slSignatures s)"
    using back_all [of "slSignatures s" "\<lambda>b. wlift (WriteVarstr31 b)" ReadVarstr31 id] back_varstr assms
    by (simp add: SupLink_ok_def)
  then show ?thesis
    unfolding SupLink_writeTo_def SupLink_readFrom_def
    by (auto intro!: back_then [OF back_varint63] back_then [OF back_hash] back_last simp: rret_def)
qed

lemma back_counted_last:
  assumes "\<And>x. x \<in> set l \<Longrightarrow> reads_back (w x) rdr (f x)" "\<And>r. k (map f l) r = (Inr y, r)"
  shows "reads_back (wthen (wlift (WriteVarint31 (length l))) (write_all w l))
           (rbind ReadVarint31 (\<lambda>n. rbind (read_all rdr (unat n)) k)) y"
proof -
  have "reads_back (wraw []) (k (map f l)) y"
    using assms(2) by (simp add: reads_back_def wraw_def)
  then show ?thesis
    using back_counted [of l w rdr f "wraw []" k y] assms(1) by (simp add: wthen_nil)
qed

lemma rbind_rret_right: "rbind m rret = m"
  by (rule ext) (auto simp: rbind_def rret_def split: prod.splits sum.splits)

lemma back_suplinks [reread]:
  assumes "\<forall>s \<in> set l. SupLink_ok s"
  shows "reads_back (SupLinks_writeTo l) SupLinks_readFrom l"
proof -
  have "reads_back (SupLink_writeTo x) SupLink_readFrom (id x)" if "x \<in> set l" for x
    using that assms back_suplink by simp
  then have "reads_back (SupLinks_writeTo l) (rbind ReadVarint31 (\<lambda>n. rbind (read_all SupLink_readFrom (unat n)) rret)) l"
    unfolding SupLinks_writeTo_def by (rule back_counted_last) (simp_all add: rret_def)
  then show ?thesis
    by (simp add: SupLinks_readFrom_def rbind_rret_right)
qed

definition header_ok :: "TypesBlockHeader \<Rightarrow> bool" where
  "header_ok bh \<longleftrightarrow> (\<forall>s \<in> set (thSupLinks bh). SupLink_ok s)"

lemma back_header:
  assumes "header_ok bh" "f = 1 \<or> f = 3"
  shows "reads_back (BlockHeader_writeTo bh f) (BlockHeader_readFrom bh0) (f, bh)"
proof -
  have s: "reads_back (wext [] (SupLinks_writeTo (thSupLinks bh))) (ReadExtensibleString SupLinks_readFrom) (thSupLinks bh, [])"
    using assms(1) by (intro back_ext0 back_suplinks) (simp add: header_ok_def)
  show ?thesis
    using assms(2)
    unfolding BlockHeader_writeTo_def BlockHeader_readFrom_def BlockCommitment_writeTo_def BlockWitness_writeTo_def
    by (intro back_then [OF back_tag])
       (auto intro!: back_then [OF back_varint63] back_then [OF back_hash] back_then [OF back_ext0 [OF back_hash]]
         back_then [OF back_ext0 [OF back_varstr]] back_last [OF s] simp: Let_def rret_def)
qed

lemma back_tx:
  assumes "tx_ok L tx"
  shows "reads_back (TxData_writeTo L id tx 7) (TxData_readFrom L zeroTxData) (normal_tx L (length (fst (TxData_writeTo L id tx 7))) tx)"
  using back_tx_fields [OF assms] by (auto simp: reads_back_def TxData_readFrom_def normal_tx_def zeroTxData_def)

definition normal_block :: "lib \<Rightarrow> TypesBlock \<Rightarrow> TypesBlock" where
  "normal_block L b =
     b\<lparr>tbTransactions := map (\<lambda>tx. normal_tx L (length (fst (TxData_writeTo L id tx 7))) tx) (tbTransactions b)\<rparr>"

lemma normal_block_eq:
  "normal_block L b = \<lparr>tbHeader = tbHeader b, tbTransactions =
     map (\<lambda>tx. normal_tx L (length (fst (TxData_writeTo L id tx 7))) tx) (tbTransactions b)\<rparr>"
  by (cases b) (simp add: normal_block_def)

definition block_ok :: "lib \<Rightarrow> TypesBlock \<Rightarrow> bool" where
  "block_ok L b \<longleftrightarrow> header_ok (tbHeader b) \<and> (\<forall>tx \<in> set (tbTransactions b). tx_ok L tx)"

text \<open>The bytes of the three forms, with what is read.\<close>

lemma back_block:
  assumes "block_ok L b"
  shows "reads_back (Block_writeTo L b 3) (Block_readFrom L zeroBlock) (normal_block L b)"
    and "reads_back (Block_writeTo L b 1) (Block_readFrom L zeroBlock) (b\<lparr>tbTransactions := []\<rparr>)"
    and "reads_back (Block_writeTo L b 2) (Block_readFrom L zeroBlock) (normal_block L b\<lparr>tbHeader := tbHeader zeroBlock\<rparr>)"
proof -
  have h: "header_ok (tbHeader b)" using assms by (simp add: block_ok_def)
  have t: "reads_back (TxData_writeTo L id tx 7) (TxData_readFrom L zeroTxData) (normal_tx L (length (fst (TxData_writeTo L id tx 7))) tx)"
    if "tx \<in> set (tbTransactions b)" for tx
    using assms that by (intro back_tx) (simp add: block_ok_def)
  have txs: "reads_back (wthen (wlift (WriteVarint31 (length (tbTransactions b)))) (write_all (\<lambda>tx. TxData_writeTo L id tx 7) (tbTransactions b)))
     (rbind ReadVarint31 (\<lambda>n. rbind (read_all (TxData_readFrom L zeroTxData) (unat n)) (\<lambda>txs. rret (zeroBlock\<lparr>tbHeader := bh, tbTransactions := tbTransactions zeroBlock @ txs\<rparr>))))
     (zeroBlock\<lparr>tbHeader := bh, tbTransactions := map (\<lambda>tx. normal_tx L (length (fst (TxData_writeTo L id tx 7))) tx) (tbTransactions b)\<rparr>)" for bh
    by (rule back_counted_last [OF t]) (simp_all add: rret_def zeroBlock_def)
  show "reads_back (Block_writeTo L b 3) (Block_readFrom L zeroBlock) (normal_block L b)"
    unfolding Block_writeTo_def Block_readFrom_def
    by (rule back_then [OF back_header [OF h]])
       (use txs [of "tbHeader b"] in \<open>simp_all add: normal_block_eq zeroBlock_def\<close>)
  show "reads_back (Block_writeTo L b 1) (Block_readFrom L zeroBlock) (b\<lparr>tbTransactions := []\<rparr>)"
    unfolding Block_writeTo_def Block_readFrom_def
    by (rule back_then [OF back_header [OF h]]) (cases b, auto simp: reads_back_def wraw_def rret_def zeroBlock_def)
  have "reads_back (BlockHeader_writeTo (tbHeader b) 2) (BlockHeader_readFrom (tbHeader zeroBlock)) (2, tbHeader zeroBlock)"
    by (simp add: BlockHeader_writeTo_def BlockHeader_readFrom_def reads_back_def wthen_def wraw_def rbind_def ReadFull_def rret_def Let_def)
  then show "reads_back (Block_writeTo L b 2) (Block_readFrom L zeroBlock) (normal_block L b\<lparr>tbHeader := tbHeader zeroBlock\<rparr>)"
    unfolding Block_writeTo_def Block_readFrom_def
    by (rule back_then) (use txs [of "tbHeader zeroBlock"] in \<open>simp_all add: normal_block_eq zeroBlock_def\<close>)
qed

lemma wthen_prefix: "wthen a b = (w, WOk) \<Longrightarrow> \<exists>w2. a = (fst a, WOk) \<and> w = fst a @ w2"
  by (cases a) (auto simp: wthen_def split: if_splits)

section \<open>Properties\<close>

text \<open>
  C40. Blocks that were written are read back. The full form gives the block, with its transactions
  changed as \<open>normal_tx\<close> says; the header form gives the header and no transactions, and
  \<^verbatim>\<open>BlockHeader.UnmarshalText\<close> accepts the header and the full form; the form for transactions gives these and a header of zeros. The reader
  stops exactly where the block ends, and \<^verbatim>\<open>Block.UnmarshalText\<close> rejects what follows.
\<close>

theorem block_round_trip:
  assumes "block_ok L b"
  shows "(\<forall>w. Block_writeTo L b 3 = (w, WOk) \<longrightarrow>
            Block_readFrom L zeroBlock (w @ r) = (Inr (normal_block L b), r) \<and>
            (UnmarshalBlock L (w @ r) = Inr (normal_block L b) \<longleftrightarrow> r = []) \<and> UnmarshalBlockHeader w = Inr (tbHeader b)) \<and>
         (\<forall>w. Block_writeTo L b 1 = (w, WOk) \<longrightarrow>
            UnmarshalBlock L w = Inr (b\<lparr>tbTransactions := []\<rparr>) \<and> UnmarshalBlockHeader w = Inr (tbHeader b)) \<and>
         (\<forall>w. Block_writeTo L b 2 = (w, WOk) \<longrightarrow>
            UnmarshalBlock L w = Inr (normal_block L b\<lparr>tbHeader := tbHeader zeroBlock\<rparr>) \<and> (\<exists>e. UnmarshalBlockHeader w = Inl e))"
proof (intro conjI allI impI)
  have h: "header_ok (tbHeader b)" using assms by (simp add: block_ok_def)
  have U: "UnmarshalBlock L w = Inr x" if "reads_back (w, WOk) (Block_readFrom L zeroBlock) x" for w x
    using that [unfolded reads_back_def, simplified, rule_format, of "[]"] by (simp add: UnmarshalBlock_def)
  have H: "UnmarshalBlockHeader w = Inr (tbHeader b)" if a: "Block_writeTo L b f = (w, WOk)" and f: "f = 1 \<or> f = 3" for w f
  proof -
    obtain w1 w2 where w: "BlockHeader_writeTo (tbHeader b) f = (w1, WOk)" "w = w1 @ w2"
      using wthen_prefix [OF a [unfolded Block_writeTo_def]] by blast
    have "BlockHeader_readFrom (tbHeader zeroBlock) (w1 @ w2) = (Inr (f, tbHeader b), w2)"
      using back_header [OF h f, of "tbHeader zeroBlock"] w(1) by (simp add: reads_back_def)
    then show ?thesis using f w(2) by (auto simp: UnmarshalBlockHeader_def)
  qed
  fix w
  { assume w: "Block_writeTo L b 3 = (w, WOk)"
    then show "Block_readFrom L zeroBlock (w @ r) = (Inr (normal_block L b), r)"
      using back_block(1) [OF assms] by (simp add: reads_back_def)
    then show "UnmarshalBlock L (w @ r) = Inr (normal_block L b) \<longleftrightarrow> r = []"
      by (simp add: UnmarshalBlock_def)
    show "UnmarshalBlockHeader w = Inr (tbHeader b)" using H [OF w] by simp }
  { assume w: "Block_writeTo L b 1 = (w, WOk)"
    then show "UnmarshalBlock L w = Inr (b\<lparr>tbTransactions := []\<rparr>)"
      using U [of w] back_block(2) [OF assms] by simp
    show "UnmarshalBlockHeader w = Inr (tbHeader b)" using H [OF w] by simp }
  { assume w: "Block_writeTo L b 2 = (w, WOk)"
    then show "UnmarshalBlock L w = Inr (normal_block L b\<lparr>tbHeader := tbHeader zeroBlock\<rparr>)"
      using U [of w] back_block(3) [OF assms] by simp
    from w obtain w2 where "w = 2 # w2"
      by (auto simp: Block_writeTo_def BlockHeader_writeTo_def wthen_def wraw_def split: if_splits)
    then show "\<exists>e. UnmarshalBlockHeader w = Inl e"
      by (simp add: UnmarshalBlockHeader_def BlockHeader_readFrom_def rbind_def ReadFull_def rret_def Let_def) }
qed

definition wire_block :: TypesBlock where
  "wire_block =
     \<lparr>tbHeader = \<lparr>thVersion = 1, thHeight = 100, thPreviousBlockHash = zeroHash, thTimestamp = 60, thBlockWitness = [4, 5],
        thSupLinks = [\<lparr>slSourceHeight = 0, slSourceHash = zeroHash, slSignatures = [[], [], [7, 7], [], [], [], [], [], [], []]\<rparr>], thTransactionsMerkleRoot = zeroHash\<rparr>,
      tbTransactions = [wire_tx [9]]\<rparr>"

lemma block_round_trip_witness:
  "\<exists>w. Block_writeTo sample_lib wire_block 1 = (w, WOk) \<and> UnmarshalBlockHeader w = Inr (tbHeader wire_block)"
proof -
  have ok: "block_ok sample_lib wire_block"
    by (simp add: block_ok_def wire_block_def header_ok_def SupLink_ok_def tx_ok_def wire_tx_def)
  have "snd (Block_writeTo sample_lib wire_block 1) = WOk"
    by (simp add: Block_writeTo_def BlockHeader_writeTo_def BlockCommitment_writeTo_def BlockWitness_writeTo_def
        SupLinks_writeTo_def SupLink_writeTo_def wire_block_def
        wthen_def wraw_def wext_def wlift_def WriteExtensibleString_def WriteVarint63_eq WriteVarint31_eq WriteVarstr31_eq
        uvarint.simps)
  then obtain w where "Block_writeTo sample_lib wire_block 1 = (w, WOk)"
    by (metis prod.collapse)
  with block_round_trip [OF ok, of "[]"] show ?thesis by blast
qed

end
