(* ===== verification/GoFloat.thy ===== *)
theory GoFloat
  imports Complex_Main "HOL-Library.Log_Nat"
begin

text \<open>
  The \<^verbatim>\<open>float64\<close> arithmetic of Go on positive numbers in the normal range: a rational number is rounded to
  53 binary digits, to the nearest and to the even one of two nearest.
\<close>

text \<open>The exponent \<open>e\<close> of a positive number, with \<open>2 ^ e \<le> x < 2 ^ (e + 1)\<close>.\<close>

definition float_exp :: "rat \<Rightarrow> int" where
  "float_exp x =
     (case quotient_of x of (n, d) \<Rightarrow>
        let k = bitlen n - bitlen d in if (2::rat) powi k \<le> x then k else k - 1)"

definition float_ulp :: "rat \<Rightarrow> rat" where
  "float_ulp x = 2 powi (float_exp x - 52)"

definition round_even :: "rat \<Rightarrow> int" where
  "round_even m =
     (let f = \<lfloor>m\<rfloor>; r = m - of_int f in
      if r < 1 / 2 then f else if r > 1 / 2 then f + 1 else if even f then f else f + 1)"

definition float64 :: "rat \<Rightarrow> rat" where
  "float64 x = (if x \<le> 0 then 0 else of_int (round_even (x / float_ulp x)) * float_ulp x)"

text \<open>Rounding does not pass a multiple of the unit in the last place.\<close>

lemma round_even_le: "m \<le> of_int k \<Longrightarrow> round_even m \<le> k"
proof -
  assume m: "m \<le> of_int k"
  show ?thesis
  proof (cases "m = of_int k")
    case True
    then show ?thesis by (simp add: round_even_def Let_def)
  next
    case False
    with m have "\<lfloor>m\<rfloor> < k" by (simp add: floor_less_iff)
    then show ?thesis by (auto simp: round_even_def Let_def)
  qed
qed

lemma round_even_ge: "of_int k \<le> m \<Longrightarrow> k \<le> round_even m"
proof -
  assume "of_int k \<le> m"
  then have "k \<le> \<lfloor>m\<rfloor>" by (simp add: le_floor_iff)
  then show ?thesis by (auto simp: round_even_def Let_def)
qed

lemma float_ulp_pos: "0 < float_ulp x"
  by (simp add: float_ulp_def)

lemma float64_le:
  assumes "x \<le> of_int k * float_ulp x" "0 \<le> k"
  shows "float64 x \<le> of_int k * float_ulp x"
proof (cases "x \<le> 0")
  case True
  then show ?thesis using assms(2) float_ulp_pos [of x] by (simp add: float64_def)
next
  case False
  have "x / float_ulp x \<le> of_int k" using assms float_ulp_pos [of x] by (simp add: pos_divide_le_eq)
  then have "round_even (x / float_ulp x) \<le> k" by (rule round_even_le)
  then show ?thesis using False float_ulp_pos [of x] by (simp add: float64_def)
qed

lemma float64_ge:
  assumes "of_int k * float_ulp x \<le> x" "0 < x"
  shows "of_int k * float_ulp x \<le> float64 x"
proof -
  have "of_int k \<le> x / float_ulp x" using assms float_ulp_pos [of x] by (simp add: pos_le_divide_eq)
  then have "k \<le> round_even (x / float_ulp x)" by (rule round_even_ge)
  then show ?thesis using assms(2) float_ulp_pos [of x] by (simp add: float64_def)
qed

text \<open>The exponent of a number below a power of two.\<close>

lemma float_exp_bounds:
  assumes "0 < x"
  shows "2 powi float_exp x \<le> x"
proof -
  obtain n d where q: "quotient_of x = (n, d)" by (cases "quotient_of x")
  have d: "0 < d" and x: "x = of_int n / of_int d"
    using quotient_of_denom_pos [OF q] quotient_of_div [OF q] by auto
  have n: "0 < n" using assms d by (simp add: x zero_less_divide_iff)
  have nat_powi: "(2::rat) powi i = of_int (2 ^ nat i)" if "0 \<le> i" for i
    using that by (simp add: power_int_def)
  have one: "1 \<le> bitlen n" using n by (auto simp: bitlen_alt_def)
  have a: "(2::rat) powi (bitlen n - 1) \<le> of_int n"
    using bitlen_bounds [OF n] one by (simp add: nat_powi)
  have b: "of_int d \<le> (2::rat) powi bitlen d"
    unfolding nat_powi [OF bitlen_nonneg] of_int_le_iff using bitlen_bounds [OF d] by simp
  have "(2::rat) powi (bitlen n - bitlen d - 1) = 2 powi (bitlen n - 1) / 2 powi bitlen d"
    by (simp add: power_int_diff)
  also have "\<dots> \<le> of_int n / of_int d"
    using a b d n by (intro frac_le) simp_all
  finally have "(2::rat) powi (bitlen n - bitlen d - 1) \<le> x" by (simp only: x)
  then show ?thesis by (simp add: float_exp_def q Let_def)
qed

lemma float_exp_less: "0 < x \<Longrightarrow> x < 2 ^ p \<Longrightarrow> float_exp x < int p"
proof -
  assume "0 < x" "x < 2 ^ p"
  then have "(2::rat) powi float_exp x < 2 powi int p"
    using float_exp_bounds [of x] by (simp add: power_int_of_nat)
  then show ?thesis using power_int_increasing [of "int p" "float_exp x" "2 :: rat"] by linarith
qed

text \<open>A number below \<open>2 ^ 52\<close> is not rounded past a multiple of one half.\<close>

lemma half_multiple:
  assumes "0 < x" "x < 2 ^ 52"
  shows "\<exists>j::int. of_int k / 2 = of_int (k * 2 ^ nat j) * float_ulp x \<and> 0 \<le> j"
proof -
  have e: "float_exp x \<le> 51" using float_exp_less [OF assms] by simp
  let ?j = "51 - float_exp x"
  have "float_ulp x = 2 powi (- (?j + 1))" by (simp add: float_ulp_def)
  also have "\<dots> = inverse (2 powi (?j + 1))" by (rule power_int_minus)
  also have "\<dots> = inverse (2 powi ?j * 2)" by (subst power_int_add) simp_all
  also have "\<dots> = inverse (2 ^ nat ?j * 2)" using e by (simp add: power_int_def)
  finally have "of_int (k * 2 ^ nat ?j) * float_ulp x = of_int k / 2"
    by (simp add: field_simps)
  then show ?thesis using e by (intro exI [of _ ?j]) simp
qed

lemma float64_bounds:
  assumes "0 < x" "x < 2 ^ 52"
  shows "0 \<le> k \<Longrightarrow> x \<le> of_int k / 2 \<Longrightarrow> float64 x \<le> of_int k / 2"
    and "of_int k / 2 \<le> x \<Longrightarrow> of_int k / 2 \<le> float64 x"
proof -
  obtain j :: int where j: "of_int k / 2 = of_int (k * 2 ^ nat j) * float_ulp x" "0 \<le> j"
    using half_multiple [OF assms] by blast
  show "float64 x \<le> of_int k / 2" if "0 \<le> k" "x \<le> of_int k / 2"
    unfolding j(1) by (rule float64_le) (use that j(1) in simp_all)
  show "of_int k / 2 \<le> float64 x" if "of_int k / 2 \<le> x"
    unfolding j(1) by (rule float64_ge) (use that j(1) assms(1) in simp_all)
qed

lemma float64_nonneg: "0 \<le> float64 x"
  using float64_ge [of 0 x] by (cases "x \<le> 0") (simp_all add: float64_def)

end
