(* ===== verification/Checkpoint.thy ===== *)
theory Checkpoint
  imports BlockTypes Consensus GoFloat "HOL-Library.AList" "HOL-Library.List_Lexorder" "HOL-Library.Char_ord"
    "HOL-Library.Product_Lexorder"
begin

text \<open>
  \<^verbatim>\<open>protocol/state/checkpoint.go\<close> and \<^verbatim>\<open>reward.go\<close>: a checkpoint counts the votes for validators and the rewards of
  the proposers of an epoch, and chooses the validators of the next one. A Go map is an association list
  with distinct keys, whose order is the order in which a range visits it; strings are ordered by their bytes, as in Go. The
  field \<^verbatim>\<open>Parent\<close> of a checkpoint is given by its place in the tree of theory \<open>Casper\<close>.
\<close>

section \<open>Data\<close>

datatype CheckpointStatus = Growing | Unjustified | Justified | Finalized

record Checkpoint =
  cpHeight :: u64
  cpHash :: Hash
  cpParentHash :: Hash
  cpTimestamp :: u64
  cpStatus :: CheckpointStatus
  cpRewards :: "(string \<times> u64) list"
  cpVotes :: "(string \<times> u64) list"
  cpSupLinks :: "SupLink list"

record Validator =
  vPubKey :: string
  vOrder :: int
  vVoteNum :: u64

text \<open>Reading a missing key of a map gives zero.\<close>

definition mget :: "('k \<times> u64) list \<Rightarrow> 'k \<Rightarrow> u64" where
  "mget m k = (case map_of m k of None \<Rightarrow> 0 | Some v \<Rightarrow> v)"

text \<open>\<^verbatim>\<open>hex.EncodeToString\<close>\<close>

definition hex_char :: "nat \<Rightarrow> char" where
  "hex_char n = ''0123456789abcdef'' ! n"

definition EncodeToString :: "bytes \<Rightarrow> string" where
  "EncodeToString b = concat (map (\<lambda>x. [hex_char (unat x div 16), hex_char (unat x mod 16)]) b)"

definition NewCheckpoint :: "Checkpoint \<Rightarrow> Checkpoint" where
  "NewCheckpoint parent =
     \<lparr>cpHeight = cpHeight parent, cpHash = cpHash parent, cpParentHash = cpHash parent, cpTimestamp = cpTimestamp parent,
      cpStatus = Growing, cpRewards = [], cpVotes = filter (\<lambda>(k, n). n \<noteq> 0) (cpVotes parent), cpSupLinks = []\<rparr>"

section \<open>Verifications\<close>

text \<open>The link that \<^verbatim>\<open>AddVerification\<close> returns is the first one with the source; an order outside the array panics.\<close>

definition AddVerification :: "Hash \<Rightarrow> u64 \<Rightarrow> nat \<Rightarrow> bytes \<Rightarrow> Checkpoint \<Rightarrow> (SupLink \<times> Checkpoint) option" where
  "AddVerification sourceHash sourceHeight validatorOrder signature c =
     (if validatorOrder < numSignatures then
        let links = add_sup_link sourceHeight sourceHash signature validatorOrder (cpSupLinks c) in
        (case find (\<lambda>s. slSourceHash s = sourceHash) links of
           None \<Rightarrow> None
         | Some s \<Rightarrow> Some (s, c\<lparr>cpSupLinks := links\<rparr>))
      else None)"

definition ContainsVerification :: "nat \<Rightarrow> Hash option \<Rightarrow> Checkpoint \<Rightarrow> bool" where
  "ContainsVerification validatorOrder sourceHash c =
     list_ex (\<lambda>s. (case sourceHash of None \<Rightarrow> True | Some h \<Rightarrow> slSourceHash s = h) \<and>
                  length (slSignatures s ! validatorOrder) \<noteq> 0) (cpSupLinks c)"

section \<open>Validators\<close>

text \<open>
  \<^verbatim>\<open>sort.Slice\<close> with a comparison that no two different elements are equal in: the order by number of votes, then by
  key, both descending. Its result is the sorted list, whatever the order of the argument.
\<close>

definition AllValidators :: "Params \<Rightarrow> Checkpoint \<Rightarrow> Validator list" where
  "AllValidators N c =
     (if cpStatus c = Growing then []
      else
        rev (sort_key (\<lambda>v. (vVoteNum v, vPubKey v))
          (map (\<lambda>(k, n). \<lparr>vPubKey = k, vOrder = 0, vVoteNum = n\<rparr>)
             (filter (\<lambda>(k, n). n \<ge> MinValidatorVoteNum N) (cpVotes c)))))"

text \<open>
  The maps from keys to validators are lists of validators with distinct keys, in the order of insertion. A
  solo network takes its own key \<open>xpub\<close> from the configuration.
\<close>

primrec federation_loop :: "int \<Rightarrow> string list \<Rightarrow> Validator list \<Rightarrow> Validator list" where
  "federation_loop i [] acc = acc"
| "federation_loop i (k # l) acc =
     federation_loop (i + 1) l (filter (\<lambda>v. vPubKey v \<noteq> k) acc @ [\<lparr>vPubKey = k, vOrder = i, vVoteNum = 0\<rparr>])"

definition federationValidators :: "Params \<Rightarrow> string \<Rightarrow> Validator list" where
  "federationValidators N xpub =
     federation_loop 0 (if netName N = netName SoloNetParams then [xpub] else FederationXpubs N) []"

primrec effective_loop :: "int \<Rightarrow> Validator list \<Rightarrow> Validator list" where
  "effective_loop i [] = []"
| "effective_loop i (v # l) = v\<lparr>vOrder := i\<rparr> # effective_loop (i + 1) l"

definition EffectiveValidators :: "Params \<Rightarrow> string \<Rightarrow> Checkpoint \<Rightarrow> Validator list" where
  "EffectiveValidators N xpub c =
     (let validators = AllValidators N c in
      if length validators = 0 then federationValidators N xpub
      else effective_loop 0 (take MaxNumOfValidators validators))"

text \<open>\<open>None\<close> is the division by zero.\<close>

definition getValidatorOrder :: "Params \<Rightarrow> u64 \<Rightarrow> u64 \<Rightarrow> u64 \<Rightarrow> u64 option" where
  "getValidatorOrder N startTimestamp blockTimestamp numOfValidators =
     (let roundBlockTime = numOfValidators * BlockTimeInterval N in
      if roundBlockTime = 0 then None
      else
        let lastRoundStartTime = startTimestamp + (blockTimestamp - startTimestamp) div roundBlockTime * roundBlockTime in
        Some ((blockTimestamp - lastRoundStartTime) div BlockTimeInterval N))"

text \<open>The outer option is the panic, the inner one the nil pointer.\<close>

definition GetValidator :: "Params \<Rightarrow> string \<Rightarrow> Checkpoint \<Rightarrow> u64 \<Rightarrow> Validator option option" where
  "GetValidator N xpub c timeStamp =
     (let validators = EffectiveValidators N xpub c;
          startTimestamp = cpTimestamp c + BlockTimeInterval N in
      map_option (\<lambda>order. find (\<lambda>v. vOrder v = sint order) validators)
        (getValidatorOrder N startTimestamp timeStamp (of_nat (length validators))))"

section \<open>Blocks\<close>

definition apply_veto :: "bytes TxInput \<Rightarrow> (string \<times> u64) list \<Rightarrow> (string \<times> u64) list" where
  "apply_veto t m =
     (case inTyped t of
        Some (VetoIn vi) \<Rightarrow>
          let pubKey = EncodeToString (tvVote vi); amount = aaAmount (scAssetAmount (tvSpendCommitment vi)) in
          if mget m pubKey > amount then AList.update pubKey (mget m pubKey - amount) m else AList.delete pubKey m
      | _ \<Rightarrow> m)"

definition apply_vote :: "bytes TxOutput \<Rightarrow> (string \<times> u64) list \<Rightarrow> (string \<times> u64) list" where
  "apply_vote out m =
     (case outTyped out of
        VoteTxOutput vote \<Rightarrow>
          AList.update (EncodeToString vote) (mget m (EncodeToString vote) + aaAmount (ocAssetAmount (outCommitment out))) m
      | OriginalTxOutput \<Rightarrow> m)"

definition applyVotes :: "TypesBlock \<Rightarrow> Checkpoint \<Rightarrow> Checkpoint" where
  "applyVotes block c =
     c\<lparr>cpVotes := fold (\<lambda>tx m. fold apply_vote (tdOutputs tx) (fold apply_veto (tdInputs tx) m)) (tbTransactions block) (cpVotes c)\<rparr>"

text \<open>
  The reward of a block. A division by a supply of zero gives an infinity or not a number, neither of which is
  at most the threshold.
\<close>

definition pledgeRate :: "Checkpoint \<Rightarrow> rat option" where
  "pledgeRate c =
     (let totalVotes = fold (\<lambda>(k, v) acc. acc + v) (cpVotes c) 0;
          totalSupply = cpHeight c * BlockReward div 2 + InitBTMSupply in
      if totalSupply = 0 then None
      else Some (float64 (float64 (of_nat (unat totalVotes)) / float64 (of_nat (unat totalSupply)))))"

definition validatorReward :: "Checkpoint \<Rightarrow> u64" where
  "validatorReward c =
     (case pledgeRate c of
        None \<Rightarrow> BlockReward
      | Some rate \<Rightarrow>
          if rate \<le> 1 / 2 then of_int \<lfloor>float64 (float64 (rate + 1 / 2) * 570776255)\<rfloor> else BlockReward)"

text \<open>\<open>None\<close> is a panic: a block or a coinbase without elements, or an asset identifier that is nil.\<close>

primrec add_fees :: "lib \<Rightarrow> string \<Rightarrow> bytes TxData list \<Rightarrow> (string \<times> u64) list \<Rightarrow> (string \<times> u64) list option" where
  "add_fees L k [] m = Some m"
| "add_fees L k (tx # l) m =
     (case Fee L id tx of None \<Rightarrow> None | Some fee \<Rightarrow> add_fees L k l (AList.update k (mget m k + fee) m))"

definition applyValidatorReward :: "lib \<Rightarrow> TypesBlock \<Rightarrow> Checkpoint \<Rightarrow> Checkpoint option" where
  "applyValidatorReward L block c =
     (case tbTransactions block of
        [] \<Rightarrow> None
      | tx # _ \<Rightarrow>
          (case tdOutputs tx of
             [] \<Rightarrow> None
           | out # _ \<Rightarrow>
               let validatorScript = EncodeToString (ocControlProgram (outCommitment out)) in
               map_option (\<lambda>m. c\<lparr>cpRewards := AList.update validatorScript (mget m validatorScript + validatorReward c) m\<rparr>)
                 (add_fees L validatorScript (tbTransactions block) (cpRewards c))))"

datatype 'a cpresult = CpOk 'a | CpErr | CpPanic

definition Increase :: "lib \<Rightarrow> Params \<Rightarrow> TypesBlock \<Rightarrow> Checkpoint \<Rightarrow> Checkpoint cpresult" where
  "Increase L N block c =
     (if thPreviousBlockHash (tbHeader block) \<noteq> cpHash c then CpErr
      else
        let c1 = (if thHeight (tbHeader block) mod BlocksOfEpoch N = 0 then c\<lparr>cpStatus := Unjustified\<rparr> else c);
            c2 = c1\<lparr>cpHash := BlockHeader_Hash L (tbHeader block), cpHeight := thHeight (tbHeader block),
                    cpTimestamp := thTimestamp (tbHeader block)\<rparr> in
        case applyValidatorReward L block (applyVotes block c2) of None \<Rightarrow> CpPanic | Some c3 \<Rightarrow> CpOk c3)"

end
