(* ===== verification/CheckpointProps.thy ===== *)
theory CheckpointProps
  imports Checkpoint "HOL-Library.Multiset"
begin

text \<open>
  The validators of an epoch are the most voted ones and take turns; the reward of a block is between half of
  the block reward and the whole of it.
\<close>

section \<open>The schedule\<close>









section \<open>The choice of validators\<close>

definition ranked :: "Validator \<Rightarrow> u64 \<times> string" where
  "ranked v = (vVoteNum v, vPubKey v)"

text \<open>The candidates, in any order in which the map is visited.\<close>

definition candidates :: "Params \<Rightarrow> Checkpoint \<Rightarrow> (string \<times> u64) list" where
  "candidates N c = (if cpStatus c = Growing then [] else filter (\<lambda>(k, n). n \<ge> MinValidatorVoteNum N) (cpVotes c))"

lemma AllValidators_eq:
  "AllValidators N c = rev (sort_key ranked (map (\<lambda>(k, n). \<lparr>vPubKey = k, vOrder = 0, vVoteNum = n\<rparr>) (candidates N c)))"
  by (simp add: AllValidators_def candidates_def ranked_def [abs_def])

lemma candidates_distinct: "distinct (map fst (cpVotes c)) \<Longrightarrow> distinct (map fst (candidates N c))"
  by (simp add: candidates_def distinct_map_filter)

lemma AllValidators_length: "length (AllValidators N c) = length (candidates N c)"
  by (simp add: AllValidators_eq)

lemma AllValidators_keys: "mset (map vPubKey (AllValidators N c)) = mset (map fst (candidates N c))"
  unfolding AllValidators_eq mset_map mset_rev mset_sort
  by (simp add: image_mset.compositionality case_prod_unfold o_def)

lemma AllValidators_set:
  "set (AllValidators N c) = (\<lambda>(k, n). \<lparr>vPubKey = k, vOrder = 0, vVoteNum = n\<rparr>) ` set (candidates N c)"
  by (simp add: AllValidators_eq)

lemma AllValidators_sorted: "sorted (rev (map ranked (AllValidators N c)))"
  by (simp add: AllValidators_eq rev_map)

lemma EffectiveValidators_cases:
  "EffectiveValidators N xpub c =
     (if candidates N c = [] then federationValidators N xpub else effective_loop 0 (take 10 (AllValidators N c)))"
  using AllValidators_length [of N c] by (auto simp: EffectiveValidators_def Let_def)




lemma sorted_split_le:
  assumes "sorted (rev (map f xs))" "x \<in> set (take n xs)" "y \<in> set (drop n xs)"
  shows "f y \<le> f x"
proof -
  have "rev (map f xs) = rev (map f (drop n xs)) @ rev (map f (take n xs))"
    by (simp flip: rev_append map_append)
  then show ?thesis using assms by (simp add: sorted_append)
qed

lemma ranked_inj: "distinct (map fst (cpVotes c)) \<Longrightarrow> inj_on ranked (set (AllValidators N c))"
  by (auto simp: AllValidators_set ranked_def inj_on_def)

lemma distinct_ranked:
  assumes "distinct (map fst (cpVotes c))"
  shows "distinct (map ranked (AllValidators N c))"
proof -
  have "distinct (map vPubKey (AllValidators N c))"
    using candidates_distinct [OF assms] AllValidators_keys [of N c] by (metis mset_eq_imp_distinct_iff)
  then have "distinct (map (snd \<circ> ranked) (AllValidators N c))"
    by (simp add: ranked_def o_def)
  then show ?thesis using distinct_map [of snd "map ranked (AllValidators N c)"] by (simp add: o_def)
qed

text \<open>The list does not depend on the order in which the votes are visited.\<close>

lemma AllValidators_order_irrelevant:
  assumes "mset (cpVotes c) = mset (cpVotes c')" "distinct (map fst (cpVotes c))" "cpStatus c = cpStatus c'"
  shows "AllValidators N c = AllValidators N c'"
proof -
  have v: "AllValidators N x = rev (sort_key ranked (map (\<lambda>(k, n). \<lparr>vPubKey = k, vOrder = 0, vVoteNum = n\<rparr>) (candidates N x)))" for x
    by (rule AllValidators_eq)
  have m: "mset (candidates N c) = mset (candidates N c')"
    using assms(1,3) by (simp add: candidates_def)
  have "distinct (map ranked (AllValidators N c))" by (rule distinct_ranked [OF assms(2)])
  then have "inj_on ranked (set (map (\<lambda>(k, n). \<lparr>vPubKey = k, vOrder = 0, vVoteNum = n\<rparr>) (candidates N c)))"
    by (simp add: v distinct_map)
  moreover have "mset (map (\<lambda>(k, n). \<lparr>vPubKey = k, vOrder = 0 :: int, vVoteNum = n\<rparr>) (candidates N c))
      = mset (map (\<lambda>(k, n). \<lparr>vPubKey = k, vOrder = 0, vVoteNum = n\<rparr>) (candidates N c'))"
    using m by (simp only: mset_map)
  ultimately have "sort_key ranked (map (\<lambda>(k, n). \<lparr>vPubKey = k, vOrder = 0, vVoteNum = n\<rparr>) (candidates N c))
      = sort_key ranked (map (\<lambda>(k, n). \<lparr>vPubKey = k, vOrder = 0, vVoteNum = n\<rparr>) (candidates N c'))"
    by (intro sort_key_eq_sort_key)
  then show ?thesis by (simp only: v)
qed

subsection \<open>The chosen ones\<close>

definition vote_of :: "Validator \<Rightarrow> string \<times> u64" where
  "vote_of v = (vPubKey v, vVoteNum v)"

lemma effective_loop_votes: "map vote_of (effective_loop i l) = map vote_of l"
  by (induction l arbitrary: i) (auto simp: vote_of_def)

lemma chosen_eq:
  assumes "candidates N c \<noteq> []"
  shows "vote_of ` set (EffectiveValidators N xpub c) = vote_of ` set (take 10 (AllValidators N c))"
proof -
  have "EffectiveValidators N xpub c = effective_loop 0 (take 10 (AllValidators N c))"
    using assms by (simp add: EffectiveValidators_cases)
  then show ?thesis
    by (simp only: set_map [symmetric] effective_loop_votes)
qed

lemma all_votes: "vote_of ` set (AllValidators N c) = set (candidates N c)"
  unfolding AllValidators_set image_image by (auto simp: vote_of_def case_prod_unfold)

lemma vote_of_inj: "distinct (map fst (cpVotes c)) \<Longrightarrow> inj_on vote_of (set (AllValidators N c))"
  using distinct_ranked [of c N] by (auto simp: distinct_map inj_on_def ranked_def vote_of_def)

lemma chosen_card:
  assumes "candidates N c \<noteq> []" "distinct (map fst (cpVotes c))"
  shows "card (vote_of ` set (EffectiveValidators N xpub c)) = min 10 (card (set (candidates N c)))"
proof -
  let ?A = "AllValidators N c"
  have inj: "inj_on vote_of (set ?A)" by (rule vote_of_inj [OF assms(2)])
  have "card (vote_of ` set (take 10 ?A)) = card (set (take 10 ?A))"
    by (rule card_image) (rule inj_on_subset [OF inj set_take_subset])
  also have "\<dots> = min 10 (card (set ?A))"
    using distinct_ranked [OF assms(2), of N] by (simp add: distinct_map distinct_card)
  finally show ?thesis
    using card_image [OF inj] by (simp add: chosen_eq [OF assms(1)] all_votes)
qed

lemma left_out_smaller:
  assumes "candidates N c \<noteq> []" "v \<in> set (EffectiveValidators N xpub c)"
    "x \<in> set (candidates N c) - vote_of ` set (EffectiveValidators N xpub c)"
  shows "(snd x, fst x) < (vVoteNum v, vPubKey v)"
proof -
  let ?A = "AllValidators N c"
  have "vote_of v \<in> vote_of ` set (take 10 ?A)"
    using assms(2) chosen_eq [OF assms(1)] by blast
  then obtain w where w: "w \<in> set (take 10 ?A)" "vote_of w = vote_of v" by auto
  obtain u where u: "u \<in> set ?A" "x = vote_of u" using assms(3) all_votes [of N c] by blast
  then have "u \<notin> set (take 10 ?A)" using assms(3) unfolding chosen_eq [OF assms(1)] by blast
  then have "u \<in> set (drop 10 ?A)" using u(1) by (metis Un_iff append_take_drop_id set_append)
  then have "ranked u \<le> ranked w" using sorted_split_le [OF AllValidators_sorted] w(1) by blast
  moreover have "ranked u \<noteq> ranked w"
    using u w assms(2,3) by (auto simp: ranked_def vote_of_def)
  ultimately have "ranked u < ranked w" by simp
  then show ?thesis using u(2) w(2) by (simp add: ranked_def vote_of_def)
qed

section \<open>Votes\<close>

text \<open>The keys of the votes stay distinct.\<close>

definition votes_ok :: "Checkpoint \<Rightarrow> bool" where
  "votes_ok c \<longleftrightarrow> distinct (map fst (cpVotes c))"

lemma NewCheckpoint_votes: "votes_ok c \<Longrightarrow> votes_ok (NewCheckpoint c)"
  by (simp add: votes_ok_def NewCheckpoint_def distinct_map_filter)

lemma apply_veto_distinct: "distinct (map fst m) \<Longrightarrow> distinct (map fst (apply_veto t m))"
  by (auto simp: apply_veto_def Let_def intro: distinct_update distinct_delete split: option.splits TypedInput.splits)

lemma apply_vote_distinct: "distinct (map fst m) \<Longrightarrow> distinct (map fst (apply_vote out m))"
  by (auto simp: apply_vote_def intro: distinct_update split: TypedOutput.splits)

lemma fold_invariant_distinct:
  "(\<And>x m. distinct (map fst m) \<Longrightarrow> distinct (map fst (f x m))) \<Longrightarrow> distinct (map fst m) \<Longrightarrow> distinct (map fst (fold f l m))"
  by (induction l arbitrary: m) auto

lemma applyVotes_votes: "votes_ok c \<Longrightarrow> votes_ok (applyVotes block c)"
  unfolding votes_ok_def applyVotes_def
  by (auto intro!: fold_invariant_distinct apply_vote_distinct apply_veto_distinct)

lemma Increase_votes:
  assumes "Increase L N block c = CpOk c'" "votes_ok c"
  shows "votes_ok c'"
proof -
  have "votes_ok (applyVotes block (x\<lparr>cpHash := h, cpHeight := n, cpTimestamp := t\<rparr>))" if "cpVotes x = cpVotes c" for x h n t
    using assms(2) that by (intro applyVotes_votes) (simp add: votes_ok_def)
  then show ?thesis
    using assms(1)
    by (auto simp: Increase_def Let_def applyValidatorReward_def votes_ok_def split: if_splits option.splits list.splits)
qed

section \<open>The reward\<close>

lemma reward_amount:
  assumes "0 \<le> rate" "rate \<le> 1 / 2"
  shows "285388127 \<le> \<lfloor>float64 (float64 (rate + 1 / 2) * 570776255)\<rfloor> \<and> \<lfloor>float64 (float64 (rate + 1 / 2) * 570776255)\<rfloor> \<le> 570776255"
proof -
  let ?f = "float64 (rate + 1 / 2)"
  have "1 / 2 \<le> ?f" "?f \<le> 1"
    using float64_bounds(2) [of "rate + 1 / 2" 1] float64_bounds(1) [of "rate + 1 / 2" 2] assms by auto
  then have "570776255 / 2 \<le> float64 (?f * 570776255)" "float64 (?f * 570776255) \<le> 570776255"
    using float64_bounds(2) [of "?f * 570776255" 570776255] float64_bounds(1) [of "?f * 570776255" 1141552510] by auto
  then show ?thesis by (auto simp: le_floor_iff floor_le_iff)
qed

section \<open>Properties\<close>

definition sample_cp :: Checkpoint where
  "sample_cp =
     \<lparr>cpHeight = 100, cpHash = zeroHash, cpParentHash = zeroHash, cpTimestamp = 600000, cpStatus = Unjustified, cpRewards = [],
      cpVotes = [(''aa'', 100000000000000), (''bb'', 5), (''cc'', 300000000000000)], cpSupLinks = []\<rparr>"

lemma sample_candidates: "candidates MainNetParams sample_cp = [(''aa'', 100000000000000), (''cc'', 300000000000000)]"
  by (simp add: candidates_def sample_cp_def MainNetParams_def)



text \<open>
  C28. The effective validators are the most voted ones. When somebody has enough votes, the
  validators are the ten best of those who have, or all of them if there are fewer; anyone left
  out has fewer votes than each of them, or equally many and a smaller key. The result does not depend on the order in which the map of votes is
  visited, so all nodes agree on it.
\<close>

theorem validators_most_voted:
  assumes "distinct (map fst (cpVotes c))" "cpStatus c \<noteq> Growing" "\<exists>x \<in> set (cpVotes c). snd x \<ge> MinValidatorVoteNum N"
  shows "let vs = EffectiveValidators N xpub c;
             eligible = {x \<in> set (cpVotes c). snd x \<ge> MinValidatorVoteNum N};
             chosen = vote_of ` set vs in
           chosen \<subseteq> eligible \<and> card chosen = min 10 (card eligible) \<and>
           (\<forall>v \<in> set vs. \<forall>x \<in> eligible - chosen. (snd x, fst x) < (vVoteNum v, vPubKey v)) \<and>
           (mset (cpVotes c') = mset (cpVotes c) \<and> cpStatus c' = cpStatus c \<longrightarrow> EffectiveValidators N xpub c' = vs)"
proof -
  have cand: "{x \<in> set (cpVotes c). snd x \<ge> MinValidatorVoteNum N} = set (candidates N c)"
    using assms(2) by (auto simp: candidates_def)
  then have ne: "candidates N c \<noteq> []" using assms(3) by auto
  have "vote_of ` set (EffectiveValidators N xpub c) \<subseteq> set (candidates N c)"
    unfolding chosen_eq [OF ne] all_votes [symmetric] using set_take_subset by fast
  moreover have "EffectiveValidators N xpub c' = EffectiveValidators N xpub c"
    if "mset (cpVotes c') = mset (cpVotes c)" "cpStatus c' = cpStatus c"
    using AllValidators_order_irrelevant [of c c' N] that assms(1) by (simp add: EffectiveValidators_def)
  ultimately show ?thesis
    unfolding Let_def cand using chosen_card [OF ne assms(1)] left_out_smaller [OF ne] by blast
qed

lemma validators_most_voted_witness:
  "let chosen = vote_of ` set (EffectiveValidators MainNetParams ''k'' sample_cp) in
   chosen \<subseteq> {x \<in> set (cpVotes sample_cp). snd x \<ge> 100000000000000} \<and> card chosen = 2"
proof -
  have h: "distinct (map fst (cpVotes sample_cp))" "cpStatus sample_cp \<noteq> Growing"
    "\<exists>x \<in> set (cpVotes sample_cp). snd x \<ge> MinValidatorVoteNum MainNetParams"
    by (simp_all add: sample_cp_def MainNetParams_def)
  have m: "MinValidatorVoteNum MainNetParams = 100000000000000" by (simp add: MainNetParams_def)
  have "{x \<in> set (cpVotes sample_cp). snd x \<ge> 100000000000000} = {(''aa'', 100000000000000), (''cc'', 300000000000000)}"
    by (auto simp: sample_cp_def)
  then have "card {x \<in> set (cpVotes sample_cp). snd x \<ge> 100000000000000} = 2" by simp
  then show ?thesis
    using validators_most_voted [OF h, of "''k''" sample_cp] unfolding m Let_def by simp
qed

text \<open>
  C29. The reward for a block is at least half of the block reward and at most all of it, whatever the
  votes and the height, rounding of the \<^verbatim>\<open>float64\<close> arithmetic and wrap-around of the sums included.
\<close>

theorem validatorReward_bounds:
  "285388127 \<le> unat (validatorReward c) \<and> unat (validatorReward c) \<le> 570776255"
proof -
  have r: "0 \<le> rate" if "pledgeRate c = Some rate" for rate
    using that float64_nonneg by (auto simp: pledgeRate_def Let_def split: if_splits)
  have u: "unat (of_int z :: u64) = nat z" if "285388127 \<le> z" "z \<le> 570776255" for z
    using that by (simp add: unat_eq_nat_uint uint_word_of_int)
  show ?thesis
  proof (cases "pledgeRate c")
    case (Some rate)
    show ?thesis
    proof (cases "rate \<le> 1 / 2")
      case True
      define z where "z = \<lfloor>float64 (float64 (rate + 1 / 2) * 570776255)\<rfloor>"
      have "285388127 \<le> z" "z \<le> 570776255"
        using reward_amount [OF r [OF Some] True] by (simp_all add: z_def)
      moreover have "validatorReward c = of_int z"
        using Some True by (simp add: validatorReward_def z_def)
      ultimately show ?thesis using u [of z] by (simp add: nat_le_iff le_nat_iff)
    qed (use Some in \<open>simp add: validatorReward_def\<close>)
  qed (simp add: validatorReward_def)
qed

end
