(* ===== verification/Casper.thy ===== *)
theory Casper
  imports Checkpoint
begin

text \<open>
  Package \<^verbatim>\<open>protocol/casper\<close>: the tree of checkpoints above the last finalized one, the verifications that
  validators publish, and the choice of the best chain. A pointer to a node of the tree is its position, the list of child
  indices from the root, and the field \<^verbatim>\<open>Parent\<close> of a checkpoint is the checkpoint of the node above it, nil at the root. A
  checkpoint that is read from the store is an object of its own, which the store keeps in
  its cache: a change of its status is seen by the next reader.
\<close>

section \<open>tree\_node.go\<close>

datatype treeNode = Node (nodeCp: Checkpoint) (nodeChildren: "treeNode list")

type_synonym pos = "nat list"

fun node_at :: "treeNode \<Rightarrow> pos \<Rightarrow> treeNode option" where
  "node_at t [] = Some t"
| "node_at (Node c ts) (i # p) = (if i < length ts then node_at (ts ! i) p else None)"

fun update_at :: "pos \<Rightarrow> (treeNode \<Rightarrow> treeNode) \<Rightarrow> treeNode \<Rightarrow> treeNode" where
  "update_at [] f t = f t"
| "update_at (i # p) f (Node c ts) = (if i < length ts then Node c (ts[i := update_at p f (ts ! i)]) else Node c ts)"

definition set_cp :: "Checkpoint \<Rightarrow> treeNode \<Rightarrow> treeNode" where
  "set_cp c t = Node c (nodeChildren t)"

definition cp_at :: "treeNode \<Rightarrow> pos \<Rightarrow> Checkpoint option" where
  "cp_at t p = map_option nodeCp (node_at t p)"

text \<open>\<^verbatim>\<open>Parent\<close>\<close>

definition parent_at :: "treeNode \<Rightarrow> pos \<Rightarrow> Checkpoint option" where
  "parent_at t p = (if p = [] then None else cp_at t (butlast p))"

fun findOnlyOne :: "(Checkpoint \<Rightarrow> bool) \<Rightarrow> treeNode \<Rightarrow> pos option"
and find_children :: "(Checkpoint \<Rightarrow> bool) \<Rightarrow> nat \<Rightarrow> treeNode list \<Rightarrow> pos option" where
  "findOnlyOne P (Node c ts) = (if P c then Some [] else find_children P 0 ts)"
| "find_children P i [] = None"
| "find_children P i (t # ts) =
     (case findOnlyOne P t of Some p \<Rightarrow> Some (i # p) | None \<Rightarrow> find_children P (Suc i) ts)"

definition nodeByHash :: "Hash \<Rightarrow> treeNode \<Rightarrow> pos option" where
  "nodeByHash blockHash = findOnlyOne (\<lambda>c. cpHash c = blockHash)"

definition newChild :: "treeNode \<Rightarrow> treeNode" where
  "newChild t = Node (nodeCp t) (nodeChildren t @ [Node (NewCheckpoint (nodeCp t)) []])"

text \<open>\<^verbatim>\<open>Hash.String\<close>\<close>

definition hash_string :: "Hash \<Rightarrow> string" where
  "hash_string h = EncodeToString (Byte32 h)"

text \<open>Whether the best node of a child replaces the best one so far.\<close>

definition better :: "Checkpoint \<times> u64 \<Rightarrow> Checkpoint \<times> u64 \<Rightarrow> bool" where
  "better child best =
     (snd child > snd best \<or>
      (snd child = snd best \<and> cpHeight (fst child) > cpHeight (fst best)) \<or>
      (snd child = snd best \<and> cpHeight (fst child) = cpHeight (fst best) \<and>
       hash_string (cpHash (fst child)) > hash_string (cpHash (fst best))))"

fun bestNode :: "u64 \<Rightarrow> treeNode \<Rightarrow> Checkpoint \<times> u64"
and best_children :: "u64 \<Rightarrow> treeNode list \<Rightarrow> Checkpoint \<times> u64 \<Rightarrow> Checkpoint \<times> u64" where
  "bestNode justifiedHeight (Node c ts) =
     (let j = (if cpStatus c = Justified then cpHeight c else justifiedHeight) in best_children j ts (c, j))"
| "best_children j [] best = best"
| "best_children j (t # ts) best =
     (let child = bestNode j t in best_children j ts (if better child best then child else best))"

fun lastJustified :: "treeNode \<Rightarrow> Checkpoint option"
and last_children :: "treeNode list \<Rightarrow> Checkpoint option \<Rightarrow> Checkpoint option" where
  "lastJustified (Node c ts) = last_children ts (if cpStatus c = Justified then Some c else None)"
| "last_children [] selected = selected"
| "last_children (t # ts) selected =
     last_children ts
       (case lastJustified t of
          None \<Rightarrow> selected
        | Some x \<Rightarrow> (case selected of None \<Rightarrow> Some x | Some y \<Rightarrow> if cpHeight x > cpHeight y then Some x else Some y))"

text \<open>\<^verbatim>\<open>makeTree\<close> attaches to every node the successors that name it as their parent; \<open>None\<close> is when the bound is too small.\<close>

primrec makeTree :: "nat \<Rightarrow> Checkpoint \<Rightarrow> Checkpoint list \<Rightarrow> treeNode option" where
  "makeTree 0 rootCp successors = None"
| "makeTree (Suc n) rootCp successors =
     map_option (Node rootCp)
       (those (map (\<lambda>c. makeTree n c successors) (filter (\<lambda>c. cpParentHash c = cpHash rootCp) successors)))"

section \<open>The store\<close>

text \<open>
  The part of \<^verbatim>\<open>state.Store\<close> that consensus uses. Checkpoints are stored without their links: a reader gets
  those of the header. \<^verbatim>\<open>GetCheckpoint\<close> appends them to the object in its cache at every call; the
  repetitions are left out, since nobody reads the links of a checkpoint that this function returned.
\<close>

record cstore =
  stBlocks :: "Hash \<rightharpoonup> TypesBlock"
  stHeaders :: "Hash \<rightharpoonup> TypesBlockHeader"
  stCheckpoints :: "Checkpoint list"

definition with_links :: "cstore \<Rightarrow> Checkpoint \<Rightarrow> Checkpoint option" where
  "with_links st c = map_option (\<lambda>h. c\<lparr>cpSupLinks := thSupLinks h\<rparr>) (stHeaders st (cpHash c))"

definition GetCheckpoint :: "cstore \<Rightarrow> Hash \<Rightarrow> Checkpoint option" where
  "GetCheckpoint st h =
     (case stHeaders st h of
        None \<Rightarrow> None
      | Some header \<Rightarrow>
          map_option (\<lambda>c. c\<lparr>cpSupLinks := thSupLinks header\<rparr>)
            (find (\<lambda>c. cpHeight c = thHeight header \<and> cpHash c = h) (stCheckpoints st)))"

definition GetCheckpointsByHeight :: "cstore \<Rightarrow> u64 \<Rightarrow> Checkpoint list option" where
  "GetCheckpointsByHeight st height = those (map (with_links st) (filter (\<lambda>c. cpHeight c = height) (stCheckpoints st)))"

definition save_checkpoint :: "Checkpoint \<Rightarrow> cstore \<Rightarrow> cstore" where
  "save_checkpoint c st =
     st\<lparr>stCheckpoints := filter (\<lambda>x. \<not> (cpHeight x = cpHeight c \<and> cpHash x = cpHash c)) (stCheckpoints st) @ [c\<lparr>cpSupLinks := []\<rparr>]\<rparr>"

definition SaveCheckpoints :: "Checkpoint list \<Rightarrow> cstore \<Rightarrow> cstore" where
  "SaveCheckpoints cs st = fold save_checkpoint cs st"

text \<open>The header is stored under its own hash.\<close>

definition SaveBlockHeader :: "lib \<Rightarrow> TypesBlockHeader \<Rightarrow> cstore \<Rightarrow> cstore" where
  "SaveBlockHeader L h st = st\<lparr>stHeaders := (stHeaders st)(BlockHeader_Hash L h \<mapsto> h)\<rparr>"

section \<open>concurrent\_lru.go\<close>

text \<open>A cache with a capacity that drops the entry used least recently; the list has the entry used last first.\<close>

type_synonym ('k, 'v) Cache = "('k \<times> 'v) list"

definition Cache_Remove :: "'k \<Rightarrow> ('k, 'v) Cache \<Rightarrow> ('k, 'v) Cache" where
  "Cache_Remove key c = filter (\<lambda>x. fst x \<noteq> key) c"

definition Cache_Add :: "nat \<Rightarrow> 'k \<Rightarrow> 'v \<Rightarrow> ('k, 'v) Cache \<Rightarrow> ('k, 'v) Cache" where
  "Cache_Add maxEntries key value c = take maxEntries ((key, value) # Cache_Remove key c)"

definition Cache_Get :: "'k \<Rightarrow> ('k, 'v) Cache \<Rightarrow> 'v option \<times> ('k, 'v) Cache" where
  "Cache_Get key c =
     (case map_of c key of None \<Rightarrow> (None, c) | Some value \<Rightarrow> (Some value, (key, value) # Cache_Remove key c))"

section \<open>verfication.go\<close>

record ValidCasperSignMsg =
  msgSourceHash :: Hash
  msgTargetHash :: Hash
  msgSignature :: bytes
  msgPubKey :: string

record verification =
  vfSourceHash :: Hash
  vfTargetHash :: Hash
  vfSourceHeight :: u64
  vfTargetHeight :: u64
  vfSignature :: bytes
  vfPubKey :: string
  vforder :: nat

datatype casper_err =
    errPubKeyIsNotValidator | errVoteToGrowingCheckpoint | errVoteToSameCheckpoint | errSameHeightInVerification
  | errSpanHeightInVerification | errVerifySignature | errStore | errPost | errReply | errIncreaseCheckpoint
  | errPreviousRound | errSourceHeight

datatype 'a cresult = COk 'a | CErr casper_err | CPanic | CFuel

text \<open>
  The environment: hash functions, network, the keys of the node (\<open>eSign\<close> signs with its private key), signature
  verification under a key in hexadecimal, whether the event dispatcher accepts a message and whether the chain
  reports success to a request for a reorganisation.
\<close>

record casperEnv =
  eL :: lib
  eN :: Params
  eXpub :: string
  eSign :: "bytes \<Rightarrow> bytes"
  eVerify :: "string \<Rightarrow> bytes \<Rightarrow> bytes \<Rightarrow> bool"
  ePost :: "ValidCasperSignMsg \<Rightarrow> bool"
  eReply :: "Hash \<Rightarrow> bool"

abbreviation (input) validators_of :: "casperEnv \<Rightarrow> Checkpoint \<Rightarrow> Validator list" where
  "validators_of E c \<equiv> EffectiveValidators (eN E) (eXpub E) c"

definition make_verification :: "Checkpoint \<Rightarrow> Checkpoint \<Rightarrow> bytes \<Rightarrow> Validator \<Rightarrow> verification" where
  "make_verification source target signature val =
     \<lparr>vfSourceHash = cpHash source, vfTargetHash = cpHash target, vfSourceHeight = cpHeight source, vfTargetHeight = cpHeight target,
      vfSignature = signature, vfPubKey = vPubKey val, vforder = nat (vOrder val)\<rparr>"

text \<open>The parent of the target is dereferenced.\<close>

definition convertVerification :: "casperEnv \<Rightarrow> Checkpoint \<Rightarrow> Checkpoint \<Rightarrow> Checkpoint option \<Rightarrow> ValidCasperSignMsg \<Rightarrow> verification cresult" where
  "convertVerification E source target parent msg =
     (case parent of
        None \<Rightarrow> CPanic
      | Some pa \<Rightarrow>
          (case find (\<lambda>v. vPubKey v = msgPubKey msg) (validators_of E pa) of
             None \<Rightarrow> CErr errPubKeyIsNotValidator
           | Some val \<Rightarrow> COk (make_verification source target (msgSignature msg) val)))"

definition supLinkToVerifications :: "casperEnv \<Rightarrow> Checkpoint \<Rightarrow> Checkpoint \<Rightarrow> Checkpoint \<Rightarrow> SupLink \<Rightarrow> verification list" where
  "supLinkToVerifications E source target parent supLink =
     map (\<lambda>val. make_verification source target (slSignatures supLink ! nat (vOrder val)) val)
       (filter (\<lambda>val. length (slSignatures supLink ! nat (vOrder val)) \<noteq> 0) (validators_of E parent))"

definition encodeMessage :: "casperEnv \<Rightarrow> verification \<Rightarrow> bytes" where
  "encodeMessage E v = sha3_256 (eL E) (Byte32 (vfSourceHash v) @ Byte32 (vfTargetHash v))"

definition Sign :: "casperEnv \<Rightarrow> verification \<Rightarrow> verification" where
  "Sign E v = v\<lparr>vfSignature := eSign E (encodeMessage E v)\<rparr>"

definition toValidCasperSignMsg :: "verification \<Rightarrow> ValidCasperSignMsg" where
  "toValidCasperSignMsg v =
     \<lparr>msgSourceHash = vfSourceHash v, msgTargetHash = vfTargetHash v, msgSignature = vfSignature v, msgPubKey = vfPubKey v\<rparr>"

definition verifySignature :: "casperEnv \<Rightarrow> verification \<Rightarrow> casper_err option" where
  "verifySignature E v = (if eVerify E (vfPubKey v) (encodeMessage E v) (vfSignature v) then None else Some errVerifySignature)"

definition verification_valid :: "casperEnv \<Rightarrow> verification \<Rightarrow> casper_err option" where
  "verification_valid E v =
     (if vfSourceHeight v mod BlocksOfEpoch (eN E) \<noteq> 0 \<or> vfTargetHeight v mod BlocksOfEpoch (eN E) \<noteq> 0 then Some errVoteToGrowingCheckpoint
      else if vfSourceHeight v \<ge> vfTargetHeight v then Some errVoteToSameCheckpoint
      else verifySignature E v)"

section \<open>auth\_verification.go\<close>

text \<open>
  The state of consensus. \<open>cPosted\<close> are the messages handed to the event dispatcher, \<open>cRollback\<close> the best blocks
  sent to the chain, \<open>cNewEpoch\<close> the channel of new epochs; \<open>cPrev\<close> and \<open>cCache\<close> are the caches of previous checkpoints
  and of verifications, of 1024 entries each.
\<close>

record casper =
  cTree :: treeNode
  cStore :: cstore
  cPrev :: "(Hash, Hash) Cache"
  cCache :: "(Hash \<times> string, ValidCasperSignMsg) Cache"
  cPosted :: "ValidCasperSignMsg list"
  cRollback :: "Hash list"
  cNewEpoch :: "Hash list"

definition bestChain :: "casper \<Rightarrow> Hash" where
  "bestChain s = cpHash (fst (bestNode (cpHeight (nodeCp (cTree s))) (cTree s)))"

definition verifySameHeight :: "verification \<Rightarrow> casper \<Rightarrow> casper_err option" where
  "verifySameHeight v s =
     (case GetCheckpointsByHeight (cStore s) (vfTargetHeight v) of
        None \<Rightarrow> Some errStore
      | Some checkpoints \<Rightarrow>
          if list_ex (\<lambda>c. list_ex (\<lambda>l. length (slSignatures l ! vforder v) \<noteq> 0 \<and> cpHash c \<noteq> vfTargetHash v) (cpSupLinks c)) checkpoints
          then Some errSameHeightInVerification else None)"

definition spans :: "verification \<Rightarrow> Checkpoint \<Rightarrow> bool" where
  "spans v c =
     (cpHeight c \<noteq> vfTargetHeight v \<and>
      list_ex (\<lambda>l. length (slSignatures l ! vforder v) \<noteq> 0 \<and>
                   ((cpHeight c < vfTargetHeight v \<and> slSourceHeight l > vfSourceHeight v) \<or>
                    (cpHeight c > vfTargetHeight v \<and> slSourceHeight l < vfSourceHeight v))) (cpSupLinks c))"

definition verifySpanHeight :: "verification \<Rightarrow> casper \<Rightarrow> casper_err option" where
  "verifySpanHeight v s = (if findOnlyOne (spans v) (cTree s) \<noteq> None then Some errSpanHeightInVerification else None)"

definition verifyVerification :: "casperEnv \<Rightarrow> verification \<Rightarrow> casper \<Rightarrow> casper_err option" where
  "verifyVerification E v s =
     (case verification_valid E v of
        Some e \<Rightarrow> Some e
      | None \<Rightarrow> (case verifySameHeight v s of Some e \<Rightarrow> Some e | None \<Rightarrow> verifySpanHeight v s))"

text \<open>
  A checkpoint in use by an operation: its value and its position in the tree, or none when the tree no longer holds it.
\<close>

type_synonym handle = "Checkpoint \<times> pos option"

definition write_back :: "handle \<Rightarrow> treeNode \<Rightarrow> treeNode" where
  "write_back h t = (case snd h of None \<Rightarrow> t | Some p \<Rightarrow> update_at p (set_cp (fst h)) t)"

definition reroot :: "pos \<Rightarrow> pos option \<Rightarrow> pos option" where
  "reroot q p = (case p of None \<Rightarrow> None | Some x \<Rightarrow> if take (length q) x = q then Some (drop (length q) x) else None)"

text \<open>
  \<^verbatim>\<open>setFinalized\<close>: the object of the store and the node of the tree with the same hash become finalized, and the latter
  the root. The result tells where the target of the operation is in the new tree.
\<close>

definition setFinalized :: "Checkpoint \<Rightarrow> handle \<Rightarrow> casper \<Rightarrow> handle \<times> casper" where
  "setFinalized checkpoint target s =
     (let s1 = s\<lparr>cStore := (cStore s)\<lparr>stCheckpoints :=
            map (\<lambda>c. if cpHeight c = cpHeight checkpoint \<and> cpHash c = cpHash checkpoint then c\<lparr>cpStatus := Finalized\<rparr> else c)
              (stCheckpoints (cStore s))\<rparr>\<rparr> in
      case nodeByHash (cpHash checkpoint) (cTree s1) of
        None \<Rightarrow> (target, s1)
      | Some q \<Rightarrow>
          (case node_at (cTree s1) q of
             None \<Rightarrow> (target, s1)
           | Some t \<Rightarrow>
               ((if snd target = Some q then (fst target)\<lparr>cpStatus := Finalized\<rparr> else fst target, reroot q (snd target)),
                s1\<lparr>cTree := Node ((nodeCp t)\<lparr>cpStatus := Finalized\<rparr>) (nodeChildren t)\<rparr>)))"

definition setJustified :: "Checkpoint \<Rightarrow> handle \<Rightarrow> casper \<Rightarrow> handle \<times> casper" where
  "setJustified source target s =
     (let h = ((fst target)\<lparr>cpStatus := Justified\<rparr>, snd target);
          s1 = s\<lparr>cTree := write_back h (cTree s)\<rparr> in
      if cpParentHash (fst h) = cpHash source then setFinalized source h s1 else (h, s1))"

text \<open>The loop of \<^verbatim>\<open>addVerificationToCheckpoint\<close>; it returns the sources that were affected.\<close>

primrec add_verifications :: "nat \<Rightarrow> verification list \<Rightarrow> handle \<Rightarrow> casper \<Rightarrow> (handle \<times> Checkpoint list) cresult \<times> casper" where
  "add_verifications validatorSize [] target s = (COk (target, []), s)"
| "add_verifications validatorSize (v # l) target s =
     (case GetCheckpoint (cStore s) (vfSourceHash v) of
        None \<Rightarrow> (CErr errStore, s)
      | Some source \<Rightarrow>
          (case AddVerification (vfSourceHash v) (vfSourceHeight v) (vforder v) (vfSignature v) (fst target) of
             None \<Rightarrow> (CPanic, s)
           | Some (supLink, c) \<Rightarrow>
               let h = (c, snd target); s1 = s\<lparr>cTree := write_back h (cTree s)\<rparr> in
               if cpStatus c \<noteq> Unjustified \<or> \<not> IsMajority supLink validatorSize \<or> cpStatus source = Finalized
               then add_verifications validatorSize l h s1
               else
                 case setJustified source h s1 of
                   (h', s2) \<Rightarrow>
                     (case add_verifications validatorSize l h' s2 of
                        (COk (h'', affected), s3) \<Rightarrow>
                          (COk (h'', (if cpParentHash c = cpHash source then source\<lparr>cpStatus := Finalized\<rparr> else source) # affected), s3)
                      | r \<Rightarrow> r)))"

text \<open>
  The affected checkpoints are returned with their final values, the target first. The validators of the
  parent of the target are determined once; a nil parent is dereferenced.
\<close>

definition addVerificationToCheckpoint ::
  "casperEnv \<Rightarrow> Checkpoint option \<Rightarrow> handle \<Rightarrow> verification list \<Rightarrow> casper \<Rightarrow> (handle \<times> Checkpoint list) cresult \<times> casper" where
  "addVerificationToCheckpoint E parent target vs s =
     (case parent of
        None \<Rightarrow> (CPanic, s)
      | Some pa \<Rightarrow>
          (case add_verifications (length (validators_of E pa)) vs target s of
             (COk (h, affected), s') \<Rightarrow> (COk (h, fst h # affected), s')
           | r \<Rightarrow> r))"

definition saveVerificationToHeader :: "casperEnv \<Rightarrow> verification \<Rightarrow> casper \<Rightarrow> unit cresult \<times> casper" where
  "saveVerificationToHeader E v s =
     (case stHeaders (cStore s) (vfTargetHash v) of
        None \<Rightarrow> (CErr errStore, s)
      | Some h \<Rightarrow>
          (case AddSupLink (vfSourceHeight v) (vfSourceHash v) (vfSignature v) (vforder v) (thSupLinks h) of
             None \<Rightarrow> (CPanic, s)
           | Some links \<Rightarrow> (COk (), s\<lparr>cStore := SaveBlockHeader (eL E) (h\<lparr>thSupLinks := links\<rparr>) (cStore s)\<rparr>)))"

definition authVerification :: "casperEnv \<Rightarrow> verification \<Rightarrow> Checkpoint option \<Rightarrow> handle \<Rightarrow> casper \<Rightarrow> unit cresult \<times> casper" where
  "authVerification E v parent target s =
     (case verifyVerification E v s of
        Some e \<Rightarrow> (CErr e, s)
      | None \<Rightarrow>
          (case addVerificationToCheckpoint E parent target [v] s of
             (COk (_, checkpoints), s1) \<Rightarrow>
               if \<not> ePost E (toValidCasperSignMsg v) then (CErr errPost, s1)
               else
                 saveVerificationToHeader E v
                   (s1\<lparr>cPosted := cPosted s1 @ [toValidCasperSignMsg v], cStore := SaveCheckpoints checkpoints (cStore s1)\<rparr>)
           | (CErr e, s1) \<Rightarrow> (CErr e, s1)
           | (CPanic, s1) \<Rightarrow> (CPanic, s1)
           | (CFuel, s1) \<Rightarrow> (CFuel, s1)))"

definition tryRollback :: "casperEnv \<Rightarrow> Hash \<Rightarrow> casper \<Rightarrow> unit cresult \<times> casper" where
  "tryRollback E oldBestHash s =
     (let newBestHash = bestChain s in
      if oldBestHash \<noteq> newBestHash
      then (if eReply E newBestHash then COk () else CErr errReply, s\<lparr>cRollback := cRollback s @ [newBestHash]\<rparr>)
      else (COk (), s))"

definition cache_add :: "Hash \<times> string \<Rightarrow> ValidCasperSignMsg \<Rightarrow> casper \<Rightarrow> casper" where
  "cache_add k m s = s\<lparr>cCache := Cache_Add 1024 k m (cCache s)\<rparr>"

definition AuthVerification :: "casperEnv \<Rightarrow> ValidCasperSignMsg \<Rightarrow> casper \<Rightarrow> unit cresult \<times> casper" where
  "AuthVerification E msg s =
     (case nodeByHash (msgTargetHash msg) (cTree s) of
        None \<Rightarrow> (COk (), cache_add (msgTargetHash msg, msgPubKey msg) msg s)
      | Some p \<Rightarrow>
          (case (GetCheckpoint (cStore s) (msgSourceHash msg), cp_at (cTree s) p) of
             (Some source, Some target) \<Rightarrow>
               (case convertVerification E source target (parent_at (cTree s) p) msg of
                  COk v \<Rightarrow>
                    if ContainsVerification (vforder v) (Some (vfSourceHash v)) target then (COk (), s)
                    else
                      (case authVerification E v (parent_at (cTree s) p) (target, Some p) s of
                         (COk _, s1) \<Rightarrow> tryRollback E (bestChain s) s1
                       | r \<Rightarrow> r)
                | CErr e \<Rightarrow> (CErr e, s)
                | CPanic \<Rightarrow> (CPanic, s)
                | CFuel \<Rightarrow> (CFuel, s))
           | _ \<Rightarrow> (CErr errStore, s)))"

text \<open>The key is removed from the cache whatever happens.\<close>

definition authCachedMsg :: "casperEnv \<Rightarrow> ValidCasperSignMsg \<Rightarrow> Hash \<times> string \<Rightarrow> casper \<Rightarrow> unit cresult \<times> casper" where
  "authCachedMsg E msg msgKey s =
     (let r =
        (case (GetCheckpoint (cStore s) (msgSourceHash msg), nodeByHash (msgTargetHash msg) (cTree s)) of
           (Some source, Some p) \<Rightarrow>
             (case cp_at (cTree s) p of
                None \<Rightarrow> (CErr errStore, s)
              | Some target \<Rightarrow>
                  (case convertVerification E source target (parent_at (cTree s) p) msg of
                     COk v \<Rightarrow> authVerification E v (parent_at (cTree s) p) (target, Some p) s
                   | CErr e \<Rightarrow> (CErr e, s)
                   | CPanic \<Rightarrow> (CPanic, s)
                   | CFuel \<Rightarrow> (CFuel, s)))
         | _ \<Rightarrow> (CErr errStore, s))
      in (fst r, (snd r)\<lparr>cCache := Cache_Remove msgKey (cCache (snd r))\<rparr>))"

section \<open>apply\_block.go\<close>

text \<open>\<^verbatim>\<open>node.Increase\<close> on a node of the tree.\<close>

definition increase_node :: "casperEnv \<Rightarrow> TypesBlock \<Rightarrow> pos \<Rightarrow> casper \<Rightarrow> pos cresult \<times> casper" where
  "increase_node E block p s =
     (case cp_at (cTree s) p of
        None \<Rightarrow> (CPanic, s)
      | Some c \<Rightarrow>
          (case Increase (eL E) (eN E) block c of
             CpOk c' \<Rightarrow> (COk p, s\<lparr>cTree := update_at p (set_cp c') (cTree s)\<rparr>)
           | CpErr \<Rightarrow> (CErr errIncreaseCheckpoint, s)
           | CpPanic \<Rightarrow> (CPanic, s)))"

text \<open>The first block of an epoch starts a new child of the node of the previous checkpoint.\<close>

definition epoch_node :: "casperEnv \<Rightarrow> TypesBlock \<Rightarrow> pos \<Rightarrow> casper \<Rightarrow> pos cresult \<times> casper" where
  "epoch_node E block p s =
     (if thHeight (tbHeader block) mod BlocksOfEpoch (eN E) = 1 then
        (case node_at (cTree s) p of
           None \<Rightarrow> (CPanic, s)
         | Some t \<Rightarrow>
             increase_node E block (p @ [length (nodeChildren t)]) (s\<lparr>cTree := update_at p newChild (cTree s)\<rparr>))
      else increase_node E block p s)"

text \<open>A block that the tree does not know is fetched from the store, and its ancestors up to a known one; the first argument bounds their number.\<close>

primrec checkpointNodeByHash :: "nat \<Rightarrow> casperEnv \<Rightarrow> Hash \<Rightarrow> casper \<Rightarrow> pos cresult \<times> casper" where
  "checkpointNodeByHash 0 E hash s = (CFuel, s)"
| "checkpointNodeByHash (Suc n) E hash s =
     (case nodeByHash hash (cTree s) of
        Some p \<Rightarrow> (COk p, s)
      | None \<Rightarrow>
          (case stBlocks (cStore s) hash of
             None \<Rightarrow> (CErr errStore, s)
           | Some block \<Rightarrow>
               if thHeight (tbHeader block) mod BlocksOfEpoch (eN E) = 0 then (CErr errPreviousRound, s)
               else
                 (case checkpointNodeByHash n E (thPreviousBlockHash (tbHeader block)) s of
                    (COk p, s1) \<Rightarrow> epoch_node E block p s1
                  | r \<Rightarrow> r)))"

definition applyBlockToCheckpoint :: "nat \<Rightarrow> casperEnv \<Rightarrow> TypesBlock \<Rightarrow> casper \<Rightarrow> pos cresult \<times> casper" where
  "applyBlockToCheckpoint n E block s =
     (case checkpointNodeByHash n E (thPreviousBlockHash (tbHeader block)) s of
        (COk p, s1) \<Rightarrow> epoch_node E block p s1
      | r \<Rightarrow> r)"

text \<open>The ancestors of a node, from its parent to the root.\<close>

definition ancestors_at :: "treeNode \<Rightarrow> pos \<Rightarrow> Checkpoint list" where
  "ancestors_at t p = List.map_filter (\<lambda>k. cp_at t (take k p)) (rev [0..<length p])"

definition lastJustifiedCheckpoint :: "treeNode \<Rightarrow> pos \<Rightarrow> Checkpoint option" where
  "lastJustifiedCheckpoint t p = find (\<lambda>c. cpStatus c = Justified) (ancestors_at t p)"

text \<open>\<open>COk None\<close> is nil: the node is not a validator, has signed already or may not sign.\<close>

definition myVerification :: "casperEnv \<Rightarrow> pos \<Rightarrow> casper \<Rightarrow> verification option cresult" where
  "myVerification E p s =
     (case cp_at (cTree s) p of
        None \<Rightarrow> CPanic
      | Some target \<Rightarrow>
          if cpStatus target = Growing then COk None
          else
            (case lastJustifiedCheckpoint (cTree s) p of
               None \<Rightarrow> COk None
             | Some source \<Rightarrow>
                 (case convertVerification E source target (parent_at (cTree s) p)
                         \<lparr>msgSourceHash = zeroHash, msgTargetHash = zeroHash, msgSignature = [], msgPubKey = eXpub E\<rparr> of
                    COk v \<Rightarrow>
                      if ContainsVerification (vforder v) None target then COk None
                      else if verifyVerification E (Sign E v) s = None then COk (Some (Sign E v)) else COk None
                  | CPanic \<Rightarrow> CPanic
                  | _ \<Rightarrow> COk None)))"

text \<open>The block is returned with the link of the node itself added.\<close>

definition applyMyVerification :: "casperEnv \<Rightarrow> pos \<Rightarrow> TypesBlock \<Rightarrow> casper \<Rightarrow> TypesBlock cresult \<times> casper" where
  "applyMyVerification E p block s =
     (case myVerification E p s of
        COk None \<Rightarrow> (COk block, s)
      | COk (Some v) \<Rightarrow>
          if \<not> ePost E (toValidCasperSignMsg v) then (CErr errPost, s)
          else
            (case AddSupLink (vfSourceHeight v) (vfSourceHash v) (vfSignature v) (vforder v) (thSupLinks (tbHeader block)) of
               None \<Rightarrow> (CPanic, s)
             | Some links \<Rightarrow>
                 (COk (block\<lparr>tbHeader := (tbHeader block)\<lparr>thSupLinks := links\<rparr>\<rparr>),
                  s\<lparr>cPosted := cPosted s @ [toValidCasperSignMsg v]\<rparr>))
      | CErr e \<Rightarrow> (CErr e, s)
      | CPanic \<Rightarrow> (CPanic, s)
      | CFuel \<Rightarrow> (CFuel, s))"

definition validVerificationsFromSupLink ::
  "casperEnv \<Rightarrow> Checkpoint option \<Rightarrow> Checkpoint \<Rightarrow> SupLink \<Rightarrow> casper \<Rightarrow> verification list cresult" where
  "validVerificationsFromSupLink E parent target supLink s =
     (case GetCheckpoint (cStore s) (slSourceHash supLink) of
        None \<Rightarrow> CErr errStore
      | Some source \<Rightarrow>
          if cpHeight source \<noteq> slSourceHeight supLink then CErr errSourceHeight
          else
            (case parent of
               None \<Rightarrow> CPanic
             | Some pa \<Rightarrow> COk (filter (\<lambda>v. verifyVerification E v s = None) (supLinkToVerifications E source target pa supLink))))"

primrec apply_sup_links ::
  "casperEnv \<Rightarrow> Checkpoint option \<Rightarrow> SupLink list \<Rightarrow> handle \<Rightarrow> casper \<Rightarrow> (handle \<times> Checkpoint list) cresult \<times> casper" where
  "apply_sup_links E parent [] target s = (COk (target, []), s)"
| "apply_sup_links E parent (supLink # l) target s =
     (case validVerificationsFromSupLink E parent (fst target) supLink s of
        COk vs \<Rightarrow>
          (case addVerificationToCheckpoint E parent target vs s of
             (COk (h, checkpoints), s1) \<Rightarrow>
               (case apply_sup_links E parent l h s1 of
                  (COk (h', affected), s2) \<Rightarrow> (COk (h', tl checkpoints @ affected), s2)
                | r \<Rightarrow> r)
           | r \<Rightarrow> r)
      | CErr e \<Rightarrow> (CErr e, s)
      | CPanic \<Rightarrow> (CPanic, s)
      | CFuel \<Rightarrow> (CFuel, s))"

text \<open>Nothing is affected while the target is growing.\<close>

definition applySupLinks :: "casperEnv \<Rightarrow> pos \<Rightarrow> SupLink list \<Rightarrow> casper \<Rightarrow> Checkpoint list cresult \<times> casper" where
  "applySupLinks E p supLinks s =
     (case cp_at (cTree s) p of
        None \<Rightarrow> (CPanic, s)
      | Some target \<Rightarrow>
          if cpStatus target = Growing then (COk [], s)
          else
            (case apply_sup_links E (parent_at (cTree s) p) supLinks (target, Some p) s of
               (COk (h, affected), s1) \<Rightarrow> (COk (fst h # affected), s1)
             | (CErr e, s1) \<Rightarrow> (CErr e, s1)
             | (CPanic, s1) \<Rightarrow> (CPanic, s1)
             | (CFuel, s1) \<Rightarrow> (CFuel, s1)))"

definition Casper_ApplyBlock :: "nat \<Rightarrow> casperEnv \<Rightarrow> TypesBlock \<Rightarrow> casper \<Rightarrow> Hash cresult \<times> casper" where
  "Casper_ApplyBlock n E block s0 =
     (let s = (if thHeight (tbHeader block) mod BlocksOfEpoch (eN E) = 1
               then s0\<lparr>cNewEpoch := cNewEpoch s0 @ [thPreviousBlockHash (tbHeader block)]\<rparr> else s0) in
      case nodeByHash (BlockHeader_Hash (eL E) (tbHeader block)) (cTree s) of
        Some _ \<Rightarrow> (COk (bestChain s), s)
      | None \<Rightarrow>
          (case applyBlockToCheckpoint n E block s of
             (COk p, s1) \<Rightarrow>
               (case applyMyVerification E p block s1 of
                  (COk block', s2) \<Rightarrow>
                    (case applySupLinks E p (thSupLinks (tbHeader block')) s2 of
                       (COk affected, s3) \<Rightarrow>
                         (COk (bestChain s3), s3\<lparr>cStore := SaveCheckpoints affected (cStore s3)\<rparr>)
                     | (CErr e, s3) \<Rightarrow> (CErr e, s3)
                     | (CPanic, s3) \<Rightarrow> (CPanic, s3)
                     | (CFuel, s3) \<Rightarrow> (CFuel, s3))
                | (CErr e, s2) \<Rightarrow> (CErr e, s2)
                | (CPanic, s2) \<Rightarrow> (CPanic, s2)
                | (CFuel, s2) \<Rightarrow> (CFuel, s2))
           | (CErr e, s1) \<Rightarrow> (CErr e, s1)
           | (CPanic, s1) \<Rightarrow> (CPanic, s1)
           | (CFuel, s1) \<Rightarrow> (CFuel, s1)))"

section \<open>casper.go\<close>

text \<open>\<^verbatim>\<open>NewCasper\<close> panics when the first checkpoint is neither the genesis nor finalized, and on an empty list.\<close>

definition NewCasper :: "nat \<Rightarrow> cstore \<Rightarrow> Checkpoint list \<Rightarrow> casper cresult" where
  "NewCasper n st checkpoints =
     (case checkpoints of
        [] \<Rightarrow> CPanic
      | c # cs \<Rightarrow>
          if cpHeight c \<noteq> 0 \<and> cpStatus c \<noteq> Finalized then CPanic
          else
            (case makeTree n c cs of
               None \<Rightarrow> CFuel
             | Some t \<Rightarrow> COk \<lparr>cTree = t, cStore = st, cPrev = [], cCache = [], cPosted = [], cRollback = [], cNewEpoch = []\<rparr>))"

definition LastFinalized :: "casper \<Rightarrow> u64 \<times> Hash" where
  "LastFinalized s = (cpHeight (nodeCp (cTree s)), cpHash (nodeCp (cTree s)))"

text \<open>\<open>None\<close> is the dereference of nil when the tree has no justified node.\<close>

definition LastJustified :: "casper \<Rightarrow> (u64 \<times> Hash) option" where
  "LastJustified s = map_option (\<lambda>c. (cpHeight c, cpHash c)) (lastJustified (cTree s))"

text \<open>The checkpoint before a block, found by walking down the headers. The first argument bounds the walk.\<close>

primrec parent_loop :: "nat \<Rightarrow> Params \<Rightarrow> Hash \<Rightarrow> Hash \<Rightarrow> casper \<Rightarrow> Hash cresult \<times> casper" where
  "parent_loop 0 N prevBlockHash iterHash s = (CFuel, s)"
| "parent_loop (Suc n) N prevBlockHash iterHash s =
     (case stHeaders (cStore s) iterHash of
        None \<Rightarrow> (CErr errStore, s)
      | Some block \<Rightarrow>
          if thHeight block mod BlocksOfEpoch N = 0 then (COk iterHash, s)
          else if thHeight block mod BlocksOfEpoch N = 1 then (COk (thPreviousBlockHash block), s)
          else
            (case Cache_Get iterHash (cPrev s) of
               (Some h, c) \<Rightarrow> (COk h, s\<lparr>cPrev := Cache_Add 1024 prevBlockHash h c\<rparr>)
             | (None, c) \<Rightarrow> parent_loop n N prevBlockHash (thPreviousBlockHash block) s))"

definition parentCheckpointHashByPrevHash :: "nat \<Rightarrow> Params \<Rightarrow> Hash \<Rightarrow> casper \<Rightarrow> Hash cresult \<times> casper" where
  "parentCheckpointHashByPrevHash n N prevBlockHash s = parent_loop n N prevBlockHash prevBlockHash s"

definition parentCheckpointHash :: "nat \<Rightarrow> Params \<Rightarrow> Hash \<Rightarrow> casper \<Rightarrow> Hash cresult \<times> casper" where
  "parentCheckpointHash n N blockHash s =
     (case Cache_Get blockHash (cPrev s) of
        (Some h, c) \<Rightarrow> (COk h, s\<lparr>cPrev := c\<rparr>)
      | (None, c) \<Rightarrow>
          (case stHeaders (cStore s) blockHash of
             None \<Rightarrow> (CErr errStore, s)
           | Some block \<Rightarrow>
               (case parentCheckpointHashByPrevHash n N (thPreviousBlockHash block) s of
                  (COk h, s1) \<Rightarrow> (COk h, s1\<lparr>cPrev := Cache_Add 1024 blockHash h (cPrev s1)\<rparr>)
                | r \<Rightarrow> r)))"

definition checkpoint_by :: "Hash cresult \<times> casper \<Rightarrow> Checkpoint cresult \<times> casper" where
  "checkpoint_by r =
     (case r of
        (COk h, s) \<Rightarrow> (case GetCheckpoint (cStore s) h of None \<Rightarrow> CErr errStore | Some c \<Rightarrow> COk c, s)
      | (CErr e, s) \<Rightarrow> (CErr e, s)
      | (CPanic, s) \<Rightarrow> (CPanic, s)
      | (CFuel, s) \<Rightarrow> (CFuel, s))"

definition ParentCheckpoint :: "nat \<Rightarrow> Params \<Rightarrow> Hash \<Rightarrow> casper \<Rightarrow> Checkpoint cresult \<times> casper" where
  "ParentCheckpoint n N blockHash s = checkpoint_by (parentCheckpointHash n N blockHash s)"

definition ParentCheckpointByPrevHash :: "nat \<Rightarrow> Params \<Rightarrow> Hash \<Rightarrow> casper \<Rightarrow> Checkpoint cresult \<times> casper" where
  "ParentCheckpointByPrevHash n N prevBlockHash s = checkpoint_by (parentCheckpointHashByPrevHash n N prevBlockHash s)"

text \<open>
  What \<^verbatim>\<open>authVerificationLoop\<close> does for one new epoch: the cached messages of the validators are
  processed, errors are logged, a panic ends the program.
\<close>

primrec auth_cached :: "casperEnv \<Rightarrow> Hash \<Rightarrow> Validator list \<Rightarrow> casper \<Rightarrow> unit cresult \<times> casper" where
  "auth_cached E blockHash [] s = (COk (), s)"
| "auth_cached E blockHash (val # l) s =
     (case Cache_Get (blockHash, vPubKey val) (cCache s) of
        (None, c) \<Rightarrow> auth_cached E blockHash l s
      | (Some msg, c) \<Rightarrow>
          (case authCachedMsg E msg (blockHash, vPubKey val) (s\<lparr>cCache := c\<rparr>) of
             (CPanic, s1) \<Rightarrow> (CPanic, s1)
           | (_, s1) \<Rightarrow> auth_cached E blockHash l s1))"

definition authVerificationLoop :: "nat \<Rightarrow> casperEnv \<Rightarrow> Hash \<Rightarrow> casper \<Rightarrow> unit cresult \<times> casper" where
  "authVerificationLoop n E blockHash s =
     (case ParentCheckpoint n (eN E) blockHash s of
        (COk c, s1) \<Rightarrow> auth_cached E blockHash (validators_of E c) s1
      | (CPanic, s1) \<Rightarrow> (CPanic, s1)
      | (_, s1) \<Rightarrow> (COk (), s1))"

end
