(* ===== verification/CasperTree.thy ===== *)
theory CasperTree
  imports Casper CheckpointProps
begin

text \<open>
  The tree of checkpoints: positions and updates, and the best chain, which is the maximum over all nodes of the tree.
\<close>

section \<open>The best chain\<close>

text \<open>All nodes, each with the height of the last justified node on the way to it.\<close>

fun scored :: "u64 \<Rightarrow> treeNode \<Rightarrow> (Checkpoint \<times> u64) list"
and scored_list :: "u64 \<Rightarrow> treeNode list \<Rightarrow> (Checkpoint \<times> u64) list" where
  "scored j (Node c ts) = (let j' = (if cpStatus c = Justified then cpHeight c else j) in (c, j') # scored_list j' ts)"
| "scored_list j [] = []"
| "scored_list j (t # ts) = scored j t @ scored_list j ts"

definition score :: "Checkpoint \<times> u64 \<Rightarrow> u64 \<times> u64 \<times> string" where
  "score x = (snd x, cpHeight (fst x), hash_string (cpHash (fst x)))"

lemma better_score: "better a b \<longleftrightarrow> score a > score b"
  by (auto simp: better_def score_def)

lemma bestNode_max:
  "bestNode j t \<in> set (scored j t) \<and> (\<forall>x \<in> set (scored j t). score x \<le> score (bestNode j t))"
  "best_children j ts b \<in> insert b (set (scored_list j ts)) \<and>
     (\<forall>x \<in> insert b (set (scored_list j ts)). score x \<le> score (best_children j ts b))"
proof (induction j t and j ts arbitrary: and b rule: scored_scored_list.induct)
  case (1 j c ts)
  then show ?case by (simp add: Let_def)
next
  case (2 j)
  then show ?case by simp
next
  case (3 j t ts)
  let ?child = "bestNode j t"
  let ?b = "if better ?child b then ?child else b"
  have b: "score b \<le> score ?b" "score ?child \<le> score ?b" "?b = b \<or> ?b = ?child"
    by (auto simp: better_score)
  have m: "best_children j ts ?b = ?b \<or> best_children j ts ?b \<in> set (scored_list j ts)"
    and le: "score ?b \<le> score (best_children j ts ?b)" "\<And>x. x \<in> set (scored_list j ts) \<Longrightarrow> score x \<le> score (best_children j ts ?b)"
    using 3(2) [of ?b] by auto
  have ch: "?child \<in> set (scored j t)" "\<And>x. x \<in> set (scored j t) \<Longrightarrow> score x \<le> score ?child"
    using 3(1) by auto
  have eq: "best_children j (t # ts) b = best_children j ts ?b" by (simp add: Let_def)
  have "best_children j ts ?b \<in> insert b (set (scored_list j (t # ts)))"
    using m b(3) ch(1) by auto
  moreover have "score x \<le> score (best_children j ts ?b)" if x: "x \<in> insert b (set (scored_list j (t # ts)))" for x
  proof -
    from x consider "x = b" | "x \<in> set (scored j t)" | "x \<in> set (scored_list j ts)" by auto
    then show ?thesis
    proof cases
      case 1 then show ?thesis using b(1) le(1) by (auto intro: order_trans)
    next
      case 2 then show ?thesis using ch(2) [OF 2] b(2) le(1) by (meson order_trans)
    next
      case 3 then show ?thesis by (rule le(2))
    qed
  qed
  ultimately show ?case unfolding eq by blast
qed

section \<open>Positions\<close>

lemma cp_at_Nil [simp]: "cp_at t [] = Some (nodeCp t)"
  by (simp add: cp_at_def)

lemma cp_at_Cons [simp]: "cp_at (Node c ts) (i # p) = (if i < length ts then cp_at (ts ! i) p else None)"
  by (simp add: cp_at_def)

lemma node_at_append: "node_at t (p @ q) = Option.bind (node_at t p) (\<lambda>u. node_at u q)"
  by (induction t p rule: node_at.induct) auto

lemma cp_at_append: "cp_at t (p @ q) = Option.bind (node_at t p) (\<lambda>u. cp_at u q)"
  by (cases "node_at t p") (simp_all add: cp_at_def node_at_append)

lemma node_at_update_same: "node_at t p = Some u \<Longrightarrow> node_at (update_at p f t) p = Some (f u)"
  by (induction t p rule: node_at.induct) (auto split: if_splits)

lemma cp_at_update:
  assumes "cp_at t p \<noteq> None"
  shows "cp_at (update_at p (set_cp c) t) q = (if q = p then Some c else cp_at t q)"
  using assms
proof (induction p arbitrary: t q)
  case Nil
  then show ?case by (cases t; cases q) (auto simp: set_cp_def)
next
  case (Cons i p)
  obtain d ts where t: "t = Node d ts" by (cases t)
  have i: "i < length ts" "cp_at (ts ! i) p \<noteq> None" using Cons.prems by (auto simp: t split: if_splits)
  show ?case
  proof (cases q)
    case Nil
    then show ?thesis by (simp add: t)
  next
    case (Cons k r)
    then show ?thesis using i Cons.IH [of "ts ! i" r] by (auto simp: t nth_list_update)
  qed
qed

lemma findOnlyOne_sound:
  "findOnlyOne P t = Some p \<Longrightarrow> \<exists>c. cp_at t p = Some c \<and> P c"
  "find_children P i ts = Some p \<Longrightarrow> \<exists>k q c. p = (i + k) # q \<and> k < length ts \<and> cp_at (ts ! k) q = Some c \<and> P c"
proof (induction P t and P i ts arbitrary: p and p rule: findOnlyOne_find_children.induct)
  case (1 P c ts)
  then show ?case by (fastforce split: if_splits)
next
  case (2 P i)
  then show ?case by simp
next
  case (3 P i t ts)
  show ?case
  proof (cases "findOnlyOne P t")
    case None
    then obtain k q c where "p = (Suc i + k) # q" "k < length ts" "cp_at (ts ! k) q = Some c" "P c"
      using 3(2) [OF None, of p] 3(3) by auto
    then show ?thesis by (intro exI [of _ "Suc k"] exI [of _ q] exI [of _ c]) simp
  next
    case (Some q)
    then obtain c where "cp_at t q = Some c" "P c" using 3(1) by blast
    then show ?thesis using 3(3) Some by (intro exI [of _ 0] exI [of _ q] exI [of _ c]) simp
  qed
qed

lemma findOnlyOne_complete:
  "findOnlyOne P t = None \<Longrightarrow> cp_at t p = Some c \<Longrightarrow> \<not> P c"
  "find_children P i ts = None \<Longrightarrow> k < length ts \<Longrightarrow> cp_at (ts ! k) p = Some c \<Longrightarrow> \<not> P c"
proof (induction P t and P i ts arbitrary: p and p k rule: findOnlyOne_find_children.induct)
  case (1 P d ts)
  then show ?case by (cases p) (auto split: if_splits)
next
  case (2 P i)
  then show ?case by simp
next
  case (3 P i t ts)
  then show ?case by (cases k) (auto split: option.splits)
qed

lemma nodeByHash_sound: "nodeByHash h t = Some p \<Longrightarrow> \<exists>c. cp_at t p = Some c \<and> cpHash c = h"
  using findOnlyOne_sound(1) by (auto simp: nodeByHash_def)

section \<open>The cache as an interface\<close>

text \<open>
  What a client of a cache relies on: a lookup returns an entry that is there, lookups and insertions bring in nothing
  but the inserted entry, and may forget others.
\<close>

locale memo =
  fixes lookup :: "'k \<Rightarrow> 'c \<Rightarrow> 'v option \<times> 'c"
    and remember :: "'k \<Rightarrow> 'v \<Rightarrow> 'c \<Rightarrow> 'c"
    and entries :: "'c \<Rightarrow> ('k \<times> 'v) set"
  assumes lookup_entry: "lookup k c = (Some v, c') \<Longrightarrow> (k, v) \<in> entries c"
    and lookup_entries: "lookup k c = (r, c') \<Longrightarrow> entries c' \<subseteq> entries c"
    and remember_entries: "entries (remember k v c) \<subseteq> insert (k, v) (entries c)"
begin

text \<open>A property of all entries is one of every answer, and is kept.\<close>

definition coherent :: "('k \<Rightarrow> 'v \<Rightarrow> bool) \<Rightarrow> 'c \<Rightarrow> bool" where
  "coherent P c \<longleftrightarrow> (\<forall>(k, v) \<in> entries c. P k v)"

lemma answer: "coherent P c \<Longrightarrow> lookup k c = (Some v, c') \<Longrightarrow> P k v"
  using lookup_entry unfolding coherent_def by fast

lemma coherent_lookup: "coherent P c \<Longrightarrow> lookup k c = (r, c') \<Longrightarrow> coherent P c'"
  using lookup_entries unfolding coherent_def by fast

lemma coherent_remember: "coherent P c \<Longrightarrow> P k v \<Longrightarrow> coherent P (remember k v c)"
  using remember_entries unfolding coherent_def by fast

end

lemma set_Cache_Remove: "set (Cache_Remove k c) \<subseteq> set c"
  by (auto simp: Cache_Remove_def)

interpretation lru: memo Cache_Get "Cache_Add maxEntries" set for maxEntries
proof
  fix k v and c c' :: "('k, 'v) Cache" and r
  show "Cache_Get k c = (Some v, c') \<Longrightarrow> (k, v) \<in> set c"
    by (auto simp: Cache_Get_def split: option.splits dest: map_of_SomeD)
  show "Cache_Get k c = (r, c') \<Longrightarrow> set c' \<subseteq> set c"
    using subsetD [OF set_Cache_Remove [of k c]] by (cases "map_of c k") (auto simp: Cache_Get_def intro: map_of_SomeD [OF sym])
  show "set (Cache_Add maxEntries k v c) \<subseteq> insert (k, v) (set c)"
    using set_take_subset [of maxEntries "(k, v) # Cache_Remove k c"] set_Cache_Remove [of k c] unfolding Cache_Add_def by auto
qed

section \<open>Previous checkpoints\<close>

text \<open>The walk down the headers without a cache.\<close>

primrec walk :: "nat \<Rightarrow> Params \<Rightarrow> cstore \<Rightarrow> Hash \<Rightarrow> Hash option" where
  "walk 0 N st h = None"
| "walk (Suc n) N st h =
     (case stHeaders st h of
        None \<Rightarrow> None
      | Some b \<Rightarrow>
          if thHeight b mod BlocksOfEpoch N = 0 then Some h
          else if thHeight b mod BlocksOfEpoch N = 1 then Some (thPreviousBlockHash b)
          else walk n N st (thPreviousBlockHash b))"

text \<open>What the cache of previous checkpoints says is what the walk finds.\<close>

definition prev_ok :: "Params \<Rightarrow> casper \<Rightarrow> bool" where
  "prev_ok N s \<longleftrightarrow>
     lru.coherent (\<lambda>k v. \<exists>n b. stHeaders (cStore s) k = Some b \<and> walk n N (cStore s) (thPreviousBlockHash b) = Some v) (cPrev s)"

lemma walk_fuel: "walk n N st h = Some v \<Longrightarrow> walk (n + k) N st h = Some v"
proof (induction n arbitrary: h)
  case (Suc n)
  then obtain b where b: "stHeaders st h = Some b" by (auto split: option.splits)
  show ?case
    using Suc b by (cases "thHeight b mod BlocksOfEpoch N = 0"; cases "thHeight b mod BlocksOfEpoch N = 1") simp_all
qed simp

lemma walk_unique:
  assumes "walk n N st h = Some v" "walk m N st h = Some w"
  shows "v = w"
  using walk_fuel [OF assms(1), of m] walk_fuel [OF assms(2), of n] by (simp add: add.commute)

lemma prev_ok_answer:
  assumes "prev_ok N s" "Cache_Get k (cPrev s) = (Some u, c)" "stHeaders (cStore s) k = Some b"
    "walk n N (cStore s) (thPreviousBlockHash b) = Some v"
  shows "u = v" "prev_ok N (s\<lparr>cPrev := c\<rparr>)"
  using lru.answer [OF assms(1) [unfolded prev_ok_def] assms(2)] lru.coherent_lookup [OF assms(1) [unfolded prev_ok_def] assms(2)]
    assms(3) walk_unique [OF assms(4)]
  by (auto simp: prev_ok_def)

lemma prev_ok_Add:
  assumes "prev_ok N s" "stHeaders (cStore s) k = Some b" "walk n N (cStore s) (thPreviousBlockHash b) = Some v"
  shows "prev_ok N (s\<lparr>cPrev := Cache_Add m k v (cPrev s)\<rparr>)"
proof -
  have "\<exists>n b. stHeaders (cStore s) k = Some b \<and> walk n N (cStore s) (thPreviousBlockHash b) = Some v" using assms(2,3) by blast
  from lru.coherent_remember [OF assms(1) [unfolded prev_ok_def] this] show ?thesis by (simp add: prev_ok_def)
qed

lemma parent_loop_walk:
  assumes "prev_ok N s" "walk n N (cStore s) h = Some v"
    "h = prev \<or> (\<exists>m b. stHeaders (cStore s) prev = Some b \<and> \<not> thHeight b mod BlocksOfEpoch N \<in> {0, 1} \<and>
       (\<forall>w k. walk k N (cStore s) h = Some w \<longrightarrow> walk (m + k) N (cStore s) (thPreviousBlockHash b) = Some w))"
  shows "fst (parent_loop n N prev h s) = COk v \<and> prev_ok N (snd (parent_loop n N prev h s)) \<and>
    cStore (snd (parent_loop n N prev h s)) = cStore s"
  using assms(2,3)
proof (induction n arbitrary: h)
  case (Suc n)
  obtain b where b: "stHeaders (cStore s) h = Some b" using Suc.prems(1) by (auto split: option.splits)
  show ?case
  proof (cases "thHeight b mod BlocksOfEpoch N \<in> {0, 1}")
    case True
    then show ?thesis using Suc.prems(1) b assms(1) by (auto split: if_splits)
  next
    case False
    then have w: "walk n N (cStore s) (thPreviousBlockHash b) = Some v" using Suc.prems(1) b by auto
    have next_h: "\<exists>m b'. stHeaders (cStore s) prev = Some b' \<and> \<not> thHeight b' mod BlocksOfEpoch N \<in> {0, 1} \<and>
       (\<forall>w k. walk k N (cStore s) (thPreviousBlockHash b) = Some w \<longrightarrow> walk (m + k) N (cStore s) (thPreviousBlockHash b') = Some w)"
      using Suc.prems(2)
    proof (elim disjE exE conjE)
      assume "h = prev"
      then show ?thesis using b False by (intro exI [of _ 0] exI [of _ b]) simp
    next
      fix m b'
      assume p: "stHeaders (cStore s) prev = Some b'" "\<not> thHeight b' mod BlocksOfEpoch N \<in> {0, 1}"
        and a: "\<forall>w k. walk k N (cStore s) h = Some w \<longrightarrow> walk (m + k) N (cStore s) (thPreviousBlockHash b') = Some w"
      have "walk (Suc m + k) N (cStore s) (thPreviousBlockHash b') = Some w" if wk: "walk k N (cStore s) (thPreviousBlockHash b) = Some w" for w k
        using a [rule_format, of "Suc k" w] wk b False by auto
      then show ?thesis using p by blast
    qed
    show ?thesis
    proof (cases "map_of (cPrev s) h")
      case None
      then have "parent_loop (Suc n) N prev h s = parent_loop n N prev (thPreviousBlockHash b) s"
        using b False by (auto simp: Cache_Get_def)
      then show ?thesis using Suc.IH [OF w disjI2 [OF next_h]] by simp
    next
      case (Some u)
      then obtain c where g: "Cache_Get h (cPrev s) = (Some u, c)" by (simp add: Cache_Get_def)
      note a = prev_ok_answer [OF assms(1) g b w]
      obtain m b' where p: "stHeaders (cStore s) prev = Some b'" "walk (m + n) N (cStore s) (thPreviousBlockHash b') = Some v"
        using next_h w by blast
      have "prev_ok N (s\<lparr>cPrev := Cache_Add 1024 prev v c\<rparr>)"
        using prev_ok_Add [OF a(2), of prev b'] p by simp
      then show ?thesis using b False g a(1) by simp
    qed
  qed
qed simp

text \<open>The cache changes nothing: the checkpoint before a block is the one that the walk finds, and the cache stays right.\<close>

theorem ParentCheckpoint_cache_irrelevant:
  assumes "prev_ok N s" "stHeaders (cStore s) blockHash = Some b" "walk n N (cStore s) (thPreviousBlockHash b) = Some h"
    "GetCheckpoint (cStore s) h = Some c"
  shows "fst (ParentCheckpoint n N blockHash s) = COk c \<and> prev_ok N (snd (ParentCheckpoint n N blockHash s))"
proof (cases "map_of (cPrev s) blockHash")
  case None
  obtain r s1 where l: "parent_loop n N (thPreviousBlockHash b) (thPreviousBlockHash b) s = (r, s1)"
    by (cases "parent_loop n N (thPreviousBlockHash b) (thPreviousBlockHash b) s")
  have w: "r = COk h" "prev_ok N s1" "cStore s1 = cStore s"
    using parent_loop_walk [OF assms(1,3) disjI1 [OF refl]] by (simp_all add: l)
  have "prev_ok N (s1\<lparr>cPrev := Cache_Add 1024 blockHash h (cPrev s1)\<rparr>)"
    by (rule prev_ok_Add [OF w(2), of blockHash b n]) (simp_all add: assms(2,3) w(3))
  then show ?thesis
    using None assms(2,4) w(3)
    by (simp add: ParentCheckpoint_def checkpoint_by_def parentCheckpointHash_def Cache_Get_def parentCheckpointHashByPrevHash_def l w(1))
next
  case (Some u)
  then obtain cs where g: "Cache_Get blockHash (cPrev s) = (Some u, cs)" by (simp add: Cache_Get_def)
  then show ?thesis using g prev_ok_answer [OF assms(1) g assms(2,3)] assms(4) by (simp add: ParentCheckpoint_def checkpoint_by_def parentCheckpointHash_def)
qed

end
