(* ===== verification/CasperProps.thy ===== *)
theory CasperProps
  imports CasperTree
begin

text \<open>
  What a verification message does to the tree of checkpoints. All changes come from one function,
  \<open>add_verifications\<close>; its effect is described once and the invariants are derived from that.
\<close>

section \<open>The effect of one verification\<close>

definition nodes :: "treeNode \<Rightarrow> Checkpoint set" where
  "nodes t = {c. \<exists>p. cp_at t p = Some c}"

lemma nodesI: "cp_at t p = Some c \<Longrightarrow> c \<in> nodes t"
  by (auto simp: nodes_def)

lemma nodes_update:
  assumes "cp_at t p = Some c0"
  shows "nodes (update_at p (set_cp c) t) \<subseteq> insert c (nodes t)"
  using cp_at_update [of t p c] assms by (auto simp: nodes_def split: if_splits)

lemma nodes_subtree: "node_at t q = Some u \<Longrightarrow> nodes u \<subseteq> nodes t"
  by (auto simp: nodes_def) (metis bind.bind_lunit cp_at_append)

lemma nodes_root: "nodes (Node c (nodeChildren u)) \<subseteq> insert c (nodes u)"
proof
  fix x assume "x \<in> nodes (Node c (nodeChildren u))"
  then obtain p where "cp_at (Node c (nodeChildren u)) p = Some x" by (auto simp: nodes_def)
  then show "x \<in> insert c (nodes u)"
    by (cases p; cases u) (auto simp: nodes_def split: if_splits, metis cp_at_Cons)
qed

text \<open>
  The tree after a verification of the target at position \<open>p\<close>, whose value \<open>c\<close> has the new signature: the
  target may become justified, and then its parent finalized and the root.
\<close>

definition voted :: "nat \<Rightarrow> Checkpoint \<Rightarrow> SupLink \<Rightarrow> Checkpoint \<Rightarrow> pos \<Rightarrow> treeNode \<Rightarrow> treeNode" where
  "voted validatorSize source supLink c p t =
     (if cpStatus c \<noteq> Unjustified \<or> \<not> IsMajority supLink validatorSize \<or> cpStatus source = Finalized
      then update_at p (set_cp c) t
      else
        let t2 = update_at p (set_cp (c\<lparr>cpStatus := Justified\<rparr>)) t in
        if cpParentHash c \<noteq> cpHash source then t2
        else
          (case nodeByHash (cpHash source) t2 of
             None \<Rightarrow> t2
           | Some q \<Rightarrow> (case node_at t2 q of None \<Rightarrow> t2 | Some u \<Rightarrow> set_cp ((nodeCp u)\<lparr>cpStatus := Finalized\<rparr>) u)))"

lemma update_set_twice: "update_at p (set_cp c') (update_at p (set_cp c) t) = update_at p (set_cp c') t"
  by (induction p arbitrary: t) (auto simp: set_cp_def elim: update_at.elims, (case_tac t, auto)+)

lemma add_one_tree:
  assumes "GetCheckpoint (cStore s) (vfSourceHash v) = Some source"
    "AddVerification (vfSourceHash v) (vfSourceHeight v) (vforder v) (vfSignature v) target = Some (supLink, c)"
  shows "cTree (snd (add_verifications n [v] (target, Some p) s)) = voted n source supLink c p (cTree s)"
  using assms
  by (auto simp: voted_def Let_def setJustified_def setFinalized_def write_back_def update_set_twice set_cp_def
      split: option.splits)

lemma add_one_unchanged:
  assumes "GetCheckpoint (cStore s) (vfSourceHash v) = None \<or>
    AddVerification (vfSourceHash v) (vfSourceHeight v) (vforder v) (vfSignature v) target = None"
  shows "snd (add_verifications n [v] (target, Some p) s) = s"
  using assms by (auto split: option.splits)

lemma AddVerification_Some:
  assumes "AddVerification sh hh i sig c = Some (l, c')"
  shows "c' = c\<lparr>cpSupLinks := add_sup_link hh sh sig i (cpSupLinks c)\<rparr>" "i < 10" "l \<in> set (cpSupLinks c')" "slSourceHash l = sh"
  using assms by (auto simp: AddVerification_def Let_def find_Some_iff split: if_splits option.splits)

text \<open>The nodes of the new tree.\<close>

lemma voted_nodes:
  assumes "cp_at t p = Some target" "AddVerification sh hh i sig target = Some (l, c)" "x \<in> nodes (voted n source l c p t)"
  shows "x \<in> nodes t \<or> x = c \<or>
    (x = c\<lparr>cpStatus := Justified\<rparr> \<and> cpStatus target = Unjustified \<and> IsMajority l n) \<or>
    (\<exists>y. (y \<in> nodes t \<or> y = c\<lparr>cpStatus := Justified\<rparr>) \<and> x = y\<lparr>cpStatus := Finalized\<rparr> \<and> cpHash y = cpHash source \<and>
       cpStatus target = Unjustified \<and> IsMajority l n \<and> cpParentHash target = cpHash source)"
proof -
  note c = AddVerification_Some(1) [OF assms(2)]
  show ?thesis
  proof (cases "cpStatus c \<noteq> Unjustified \<or> \<not> IsMajority l n \<or> cpStatus source = Finalized")
    case True
    then show ?thesis using assms(3) nodes_update [OF assms(1), of c] by (auto simp: voted_def)
  next
    case False
    define t2 where "t2 = update_at p (set_cp (c\<lparr>cpStatus := Justified\<rparr>)) t"
    have n2: "nodes t2 \<subseteq> insert (c\<lparr>cpStatus := Justified\<rparr>) (nodes t)"
      unfolding t2_def by (rule nodes_update [OF assms(1)])
    have st: "cpStatus target = Unjustified" "IsMajority l n" using False c by auto
    show ?thesis
    proof (cases "x \<in> nodes t2")
      case True
      then show ?thesis using n2 st by auto
    next
      case False2: False
      then obtain q u where q: "cpParentHash c = cpHash source" "nodeByHash (cpHash source) t2 = Some q" "node_at t2 q = Some u"
        and x: "x \<in> nodes (set_cp ((nodeCp u)\<lparr>cpStatus := Finalized\<rparr>) u)"
        using assms(3) False by (auto simp: voted_def Let_def t2_def [symmetric] split: if_splits option.splits)
      have "cp_at t2 q = Some (nodeCp u)" using q(3) by (simp add: cp_at_def)
      then have y: "nodeCp u \<in> nodes t2" "cpHash (nodeCp u) = cpHash source"
        using nodeByHash_sound [OF q(2)] by (auto intro: nodesI)
      have "x = (nodeCp u)\<lparr>cpStatus := Finalized\<rparr>"
        using x nodes_root [of "(nodeCp u)\<lparr>cpStatus := Finalized\<rparr>" u] nodes_subtree [OF q(3)] False2 by (auto simp: set_cp_def)
      then show ?thesis using y n2 st q(1) c by (intro disjI2) (auto intro!: exI [of _ "nodeCp u"])
    qed
  qed
qed

text \<open>What a verification leaves alone: everything of a node but its status and its links.\<close>

definition erase :: "Checkpoint \<Rightarrow> Checkpoint" where
  "erase c = c\<lparr>cpStatus := Growing, cpSupLinks := []\<rparr>"

text \<open>
  A tree descends from another one when it is the part of it below some position, up to status and links; and unless
  the position is the root and keeps its status, the new root is finalized.
\<close>

definition descends :: "treeNode \<Rightarrow> treeNode \<Rightarrow> bool" where
  "descends t t' \<longleftrightarrow>
     (\<exists>q. (\<forall>r. map_option erase (cp_at t' r) = map_option erase (cp_at t (q @ r))) \<and>
          (cpStatus (nodeCp t') = Finalized \<or> (q = [] \<and> cpStatus (nodeCp t') = cpStatus (nodeCp t))))"

lemma descends_refl: "descends t t"
  unfolding descends_def by (intro exI [of _ "[]"]) simp

lemma descends_trans:
  assumes "descends t t1" "descends t1 t2"
  shows "descends t t2"
proof -
  obtain q where q: "\<And>r. map_option erase (cp_at t1 r) = map_option erase (cp_at t (q @ r))"
    and q1: "cpStatus (nodeCp t1) = Finalized \<or> (q = [] \<and> cpStatus (nodeCp t1) = cpStatus (nodeCp t))"
    using assms(1) unfolding descends_def by blast
  obtain q' where q': "\<And>r. map_option erase (cp_at t2 r) = map_option erase (cp_at t1 (q' @ r))"
    and q2: "cpStatus (nodeCp t2) = Finalized \<or> (q' = [] \<and> cpStatus (nodeCp t2) = cpStatus (nodeCp t1))"
    using assms(2) unfolding descends_def by blast
  show ?thesis
    unfolding descends_def by (intro exI [of _ "q @ q'"]) (use q1 q2 in \<open>auto simp: q q'\<close>)
qed

lemma root_update: "p \<noteq> [] \<Longrightarrow> nodeCp (update_at p f t) = nodeCp t"
  by (cases p; cases t) auto

lemma voted_descends:
  assumes "cp_at t p = Some target" "AddVerification sh hh i sig target = Some (l, c)" "p \<noteq> []"
  shows "descends t (voted n source l c p t)"
proof -
  have same: "map_option erase (cp_at (update_at p (set_cp c') t) r) = map_option erase (cp_at t r)" if "erase c' = erase target" for c' r
    using cp_at_update [of t p c' r] assms(1) that by simp
  have upd: "descends t (update_at p (set_cp c') t)" if "erase c' = erase target" for c'
    unfolding descends_def by (intro exI [of _ "[]"]) (simp add: same [OF that] root_update [OF assms(3)])
  have e: "erase c = erase target" "erase (c\<lparr>cpStatus := Justified\<rparr>) = erase target"
    using AddVerification_Some(1) [OF assms(2)] by (simp_all add: erase_def)
  have fin: "descends t2 (set_cp ((nodeCp u)\<lparr>cpStatus := Finalized\<rparr>) u)" if "node_at t2 q = Some u" for t2 q u
  proof -
    have "map_option erase (cp_at (set_cp ((nodeCp u)\<lparr>cpStatus := Finalized\<rparr>) u) r) = map_option erase (cp_at t2 (q @ r))" for r
      unfolding cp_at_append that by (cases r; cases u) (simp_all add: set_cp_def erase_def)
    then show ?thesis unfolding descends_def by (intro exI [of _ q]) (simp add: set_cp_def)
  qed
  show ?thesis
    using upd [OF e(1)] upd [OF e(2)] descends_trans [OF upd [OF e(2)] fin]
    by (auto simp: voted_def Let_def split: option.splits)
qed

section \<open>No vote surrounds another\<close>

text \<open>The votes in the tree: the order of the validator, the height of the target and that of the source.\<close>

definition votes :: "treeNode \<Rightarrow> (nat \<times> u64 \<times> u64) set" where
  "votes t = {(i, cpHeight c, slSourceHeight l) | i c l. c \<in> nodes t \<and> l \<in> set (cpSupLinks c) \<and> i < 10 \<and> slSignatures l ! i \<noteq> []}"

definition surround_free :: "(nat \<times> u64 \<times> u64) set \<Rightarrow> bool" where
  "surround_free V \<longleftrightarrow> (\<forall>i t1 s1 t2 s2. (i, t1, s1) \<in> V \<and> (i, t2, s2) \<in> V \<and> t1 < t2 \<longrightarrow> s1 \<le> s2)"

text \<open>The links of the tree have ten signatures and the height of the block they name as their source.\<close>

definition link_ok :: "cstore \<Rightarrow> SupLink \<Rightarrow> bool" where
  "link_ok st l \<longleftrightarrow> SupLink_ok l \<and> (\<forall>h. stHeaders st (slSourceHash l) = Some h \<longrightarrow> slSourceHeight l = thHeight h)"

definition casper_inv :: "lib \<Rightarrow> casper \<Rightarrow> bool" where
  "casper_inv L s \<longleftrightarrow>
     surround_free (votes (cTree s)) \<and>
     (\<forall>c \<in> nodes (cTree s). \<forall>l \<in> set (cpSupLinks c). link_ok (cStore s) l) \<and>
     (\<forall>h hd. stHeaders (cStore s) h = Some hd \<longrightarrow> BlockHeader_Hash L hd = h)"

lemma GetCheckpoint_height:
  "GetCheckpoint st h = Some c \<Longrightarrow> \<exists>hd. stHeaders st h = Some hd \<and> cpHeight c = thHeight hd \<and> cpHash c = h"
  by (auto simp: GetCheckpoint_def find_Some_iff split: option.splits)

lemma add_sup_link_cases:
  "l' \<in> set (add_sup_link hh sh sig i links) \<Longrightarrow>
     l' \<in> set links \<or> (\<exists>l. (l \<in> set links \<or> l = newSupLink hh sh) \<and> slSourceHash l = sh \<and> l' = set_signature i sig l)"
  by (induction links) (auto simp: newSupLink_def split: if_splits)

lemma set_signature_simps [simp]:
  "slSourceHash (set_signature i sig l) = slSourceHash l" "slSourceHeight (set_signature i sig l) = slSourceHeight l"
  "SupLink_ok (set_signature i sig l) = SupLink_ok l"
  by (simp_all add: set_signature_def SupLink_ok_def)

lemma newSupLink_simps [simp]:
  "slSourceHash (newSupLink hh sh) = sh" "slSourceHeight (newSupLink hh sh) = hh" "SupLink_ok (newSupLink hh sh)"
  "i < 10 \<Longrightarrow> slSignatures (newSupLink hh sh) ! i = []"
  by (simp_all add: newSupLink_def SupLink_ok_def)

text \<open>Every node of the new tree has the height and the links of a node of the old one, or those of the target with the new signature.\<close>

lemma voted_links:
  assumes "cp_at t p = Some target" "AddVerification sh hh i sig target = Some (l, c)" "x \<in> nodes (voted n source l c p t)"
  shows "\<exists>y \<in> insert c (nodes t). cpHeight x = cpHeight y \<and> cpSupLinks x = cpSupLinks y"
  using voted_nodes [OF assms] by fastforce

lemma new_link_votes:
  assumes "m \<in> set (add_sup_link hh sh sig i links)" "k < 10" "slSignatures m ! k \<noteq> []"
    "\<And>l. l \<in> set links \<Longrightarrow> slSourceHash l = sh \<Longrightarrow> slSourceHeight l = hh"
  shows "(k = i \<and> slSourceHeight m = hh) \<or> (\<exists>l \<in> set links. slSourceHeight m = slSourceHeight l \<and> slSignatures l ! k \<noteq> [])"
proof -
  consider "m \<in> set links"
    | l where "l \<in> set links \<or> l = newSupLink hh sh" "slSourceHash l = sh" "m = set_signature i sig l"
    using add_sup_link_cases [OF assms(1)] by blast
  then show ?thesis
  proof cases
    case (2 l)
    have h: "slSourceHeight l = hh" using 2(1,2) assms(4) newSupLink_simps(2) by metis
    have "slSignatures l ! k \<noteq> []" if "k \<noteq> i" using 2(3) assms(3) that by (simp add: set_signature_def)
    moreover have "slSignatures l ! k \<noteq> [] \<Longrightarrow> l \<noteq> newSupLink hh sh" using newSupLink_simps(4) [OF assms(2), of hh sh] by auto
    ultimately show ?thesis using h 2(1,3) by (cases "k = i") auto
  qed (use assms(3) in auto)
qed

lemma voted_votes:
  assumes "cp_at t p = Some target" "AddVerification sh hh i sig target = Some (l, c)"
    "\<And>l. l \<in> set (cpSupLinks target) \<Longrightarrow> slSourceHash l = sh \<Longrightarrow> slSourceHeight l = hh"
  shows "votes (voted n source l c p t) \<subseteq> insert (i, cpHeight target, hh) (votes t)"
proof
  fix w assume "w \<in> votes (voted n source l c p t)"
  then obtain k x m where x: "x \<in> nodes (voted n source l c p t)" and m: "m \<in> set (cpSupLinks x)" "k < 10" "slSignatures m ! k \<noteq> []"
    and w: "w = (k, cpHeight x, slSourceHeight m)"
    by (auto simp: votes_def)
  obtain y where y: "y \<in> insert c (nodes t)" "cpHeight x = cpHeight y" "cpSupLinks x = cpSupLinks y"
    using voted_links [OF assms(1,2) x] by blast
  note c = AddVerification_Some(1) [OF assms(2)]
  have tn: "target \<in> nodes t" using assms(1) by (rule nodesI)
  show "w \<in> insert (i, cpHeight target, hh) (votes t)"
  proof (cases "y \<in> nodes t")
    case True
    then show ?thesis using y m w by (auto simp: votes_def)
  next
    case False
    then have "m \<in> set (add_sup_link hh sh sig i (cpSupLinks target))" "cpHeight x = cpHeight target"
      using m(1) y c by auto
    then show ?thesis
      using new_link_votes [OF _ m(2,3) assms(3)] tn m(2) w by (fastforce simp: votes_def)
  qed
qed

lemma spans_votes:
  assumes "verifySpanHeight v s = None" "(vforder v, h, sh) \<in> votes (cTree s)"
  shows "(h < vfTargetHeight v \<longrightarrow> sh \<le> vfSourceHeight v) \<and> (h > vfTargetHeight v \<longrightarrow> vfSourceHeight v \<le> sh)"
proof -
  obtain c l where c: "c \<in> nodes (cTree s)" "l \<in> set (cpSupLinks c)" "slSignatures l ! vforder v \<noteq> []" "h = cpHeight c" "sh = slSourceHeight l"
    using assms(2) by (auto simp: votes_def)
  have "\<not> spans v c"
    using assms(1) c(1) findOnlyOne_complete(1) [of "spans v" "cTree s"] by (auto simp: verifySpanHeight_def nodes_def split: if_splits)
  then show ?thesis using c by (auto simp: spans_def list_ex_iff not_less)
qed

lemma surround_free_insert:
  assumes "surround_free V" "W \<subseteq> insert (i, t, sh) V"
    "\<And>h x. (i, h, x) \<in> V \<Longrightarrow> (h < t \<longrightarrow> x \<le> sh) \<and> (h > t \<longrightarrow> sh \<le> x)"
  shows "surround_free W"
proof -
  have *: "s1 \<le> s2" if "(k, t1, s1) \<in> insert (i, t, sh) V" "(k, t2, s2) \<in> insert (i, t, sh) V" "t1 < t2" for k t1 s1 t2 s2
  proof (cases "(k, t1, s1) \<in> V"; cases "(k, t2, s2) \<in> V")
    assume "(k, t1, s1) \<in> V" "(k, t2, s2) \<in> V"
    then show ?thesis using assms(1) that(3) unfolding surround_free_def by blast
  next
    assume "(k, t1, s1) \<in> V" "(k, t2, s2) \<notin> V"
    then show ?thesis using assms(3) [of t1 s1] that by auto
  next
    assume "(k, t1, s1) \<notin> V" "(k, t2, s2) \<in> V"
    then show ?thesis using assms(3) [of t2 s2] that by auto
  next
    assume "(k, t1, s1) \<notin> V" "(k, t2, s2) \<notin> V"
    then show ?thesis using that by auto
  qed
  show ?thesis
    unfolding surround_free_def
  proof (intro allI impI)
    fix k t1 s1 t2 s2 assume "(k, t1, s1) \<in> W \<and> (k, t2, s2) \<in> W \<and> t1 < t2"
    then show "s1 \<le> s2" using * [OF subsetD [OF assms(2)] subsetD [OF assms(2)]] by blast
  qed
qed

section \<open>Messages keep the invariant\<close>

text \<open>The headers of the store keep their heights and stay stored under their own hashes.\<close>

definition headers_kept :: "cstore \<Rightarrow> cstore \<Rightarrow> bool" where
  "headers_kept st st' \<longleftrightarrow> (\<forall>h. map_option thHeight (stHeaders st' h) = map_option thHeight (stHeaders st h))"

lemma stHeaders_save [simp]: "stHeaders (SaveCheckpoints cs st) = stHeaders st"
  unfolding SaveCheckpoints_def by (induction cs arbitrary: st) (simp_all add: save_checkpoint_def)

lemma stHeaders_setJustified [simp]: "stHeaders (cStore (snd (setJustified source h s))) = stHeaders (cStore s)"
  by (simp add: setJustified_def setFinalized_def Let_def split: option.splits)

lemma stHeaders_add_one: "stHeaders (cStore (snd (add_verifications n [v] h s))) = stHeaders (cStore s)"
  by (simp add: Let_def case_prod_unfold split: option.split)

lemma Hash_links [simp]: "BlockHeader_Hash L (h\<lparr>thSupLinks := links\<rparr>) = BlockHeader_Hash L h"
  by (simp add: BlockHeader_Hash_def mapBlockHeader_def)

lemma link_ok_kept: "headers_kept st st' \<Longrightarrow> link_ok st l \<Longrightarrow> link_ok st' l"
proof -
  assume k: "headers_kept st st'" and l: "link_ok st l"
  have "slSourceHeight l = thHeight h" if "stHeaders st' (slSourceHash l) = Some h" for h
    using k [unfolded headers_kept_def, rule_format, of "slSourceHash l"] l that by (auto simp: link_ok_def dest: sym)
  then show ?thesis using l by (simp add: link_ok_def)
qed

lemma SaveBlockHeader_kept:
  assumes "stHeaders st h0 = Some hdr" "\<forall>h x. stHeaders st h = Some x \<longrightarrow> BlockHeader_Hash L x = h"
  shows "headers_kept st (SaveBlockHeader L (hdr\<lparr>thSupLinks := links\<rparr>) st)"
    and "\<forall>h x. stHeaders (SaveBlockHeader L (hdr\<lparr>thSupLinks := links\<rparr>) st) h = Some x \<longrightarrow> BlockHeader_Hash L x = h"
proof -
  have "BlockHeader_Hash L hdr = h0" using assms by blast
  then show "headers_kept st (SaveBlockHeader L (hdr\<lparr>thSupLinks := links\<rparr>) st)"
    "\<forall>h x. stHeaders (SaveBlockHeader L (hdr\<lparr>thSupLinks := links\<rparr>) st) h = Some x \<longrightarrow> BlockHeader_Hash L x = h"
    using assms by (auto simp: headers_kept_def SaveBlockHeader_def)
qed

text \<open>What a call of \<^verbatim>\<open>authVerification\<close> does to the tree and the headers, whatever it returns.\<close>

lemma saveVerificationToHeader_store:
  assumes "saveVerificationToHeader E v s = (r, s')" "\<forall>h x. stHeaders (cStore s) h = Some x \<longrightarrow> BlockHeader_Hash (eL E) x = h"
  shows "cTree s' = cTree s" "headers_kept (cStore s) (cStore s')"
    "\<forall>h x. stHeaders (cStore s') h = Some x \<longrightarrow> BlockHeader_Hash (eL E) x = h"
proof -
  have "s' = s \<or> (\<exists>hdr links. stHeaders (cStore s) (vfTargetHash v) = Some hdr \<and>
      s' = s\<lparr>cStore := SaveBlockHeader (eL E) (hdr\<lparr>thSupLinks := links\<rparr>) (cStore s)\<rparr>)"
    using assms(1) by (auto simp: saveVerificationToHeader_def split: option.splits)
  then show "cTree s' = cTree s" "headers_kept (cStore s) (cStore s')"
    "\<forall>h x. stHeaders (cStore s') h = Some x \<longrightarrow> BlockHeader_Hash (eL E) x = h"
    using SaveBlockHeader_kept [OF _ assms(2)] assms(2) by (auto simp: headers_kept_def)
qed

lemma headers_kept_eq: "stHeaders st1 = stHeaders st \<Longrightarrow> headers_kept st1 st' \<Longrightarrow> headers_kept st st'"
  by (simp add: headers_kept_def)

lemma authVerification_add:
  assumes "authVerification E v (Some pa) h s = (r, s')"
    "\<forall>h x. stHeaders (cStore s) h = Some x \<longrightarrow> BlockHeader_Hash (eL E) x = h"
  shows "headers_kept (cStore s) (cStore s') \<and> (\<forall>h x. stHeaders (cStore s') h = Some x \<longrightarrow> BlockHeader_Hash (eL E) x = h) \<and>
    (cTree s' = cTree s \<or>
     (verifyVerification E v s = None \<and> cTree s' = cTree (snd (add_verifications (length (validators_of E pa)) [v] h s))))"
proof (cases "verifyVerification E v s")
  case (Some e)
  then show ?thesis using assms by (simp add: authVerification_def headers_kept_def)
next
  case None
  obtain r1 s1 where a: "add_verifications (length (validators_of E pa)) [v] h s = (r1, s1)" by (cases "add_verifications (length (validators_of E pa)) [v] h s")
  have h1: "stHeaders (cStore s1) = stHeaders (cStore s)"
    using stHeaders_add_one [of "length (validators_of E pa)" v h s] by (simp only: a snd_conv)
  have fail: ?thesis if "s' = s1" using that h1 assms(2) None by (simp only: a snd_conv headers_kept_def) simp
  show ?thesis
  proof (cases r1)
    case (COk x)
    define s2 where "s2 = s1\<lparr>cPosted := cPosted s1 @ [toValidCasperSignMsg v], cStore := SaveCheckpoints (fst (fst x) # snd x) (cStore s1)\<rparr>"
    have "(r, s') = (if \<not> ePost E (toValidCasperSignMsg v) then (CErr errPost, s1) else saveVerificationToHeader E v s2)"
      using assms(1) None COk unfolding authVerification_def addVerificationToCheckpoint_def
      by (cases x) (auto simp: a s2_def simp del: add_verifications.simps split: if_splits)
    then consider "s' = s1" | "saveVerificationToHeader E v s2 = (r, s')" by (auto split: if_splits)
    then show ?thesis
    proof cases
      case 1 then show ?thesis by (rule fail)
    next
      case 2
      have st: "stHeaders (cStore s2) = stHeaders (cStore s)" "cTree s2 = cTree s1" by (simp_all add: s2_def h1)
      have "\<forall>h x. stHeaders (cStore s2) h = Some x \<longrightarrow> BlockHeader_Hash (eL E) x = h" using assms(2) st(1) by simp
      note sv = saveVerificationToHeader_store [OF 2 this]
      have "cTree s' = cTree (snd (add_verifications (length (validators_of E pa)) [v] h s))"
        by (simp only: a snd_conv sv(1) st(2))
      then show ?thesis using sv(3) headers_kept_eq [OF st(1) sv(2)] None by blast
    qed
  qed (use assms(1) None fail in \<open>auto simp: authVerification_def addVerificationToCheckpoint_def a simp del: add_verifications.simps\<close>)
qed

lemma authVerification_tree:
  assumes "authVerification E v (Some pa) (target, Some p) s = (r, s')"
    "\<forall>h x. stHeaders (cStore s) h = Some x \<longrightarrow> BlockHeader_Hash (eL E) x = h"
  shows "cTree s' = cTree s \<or>
      (verifyVerification E v s = None \<and>
       (\<exists>source l c. GetCheckpoint (cStore s) (vfSourceHash v) = Some source \<and>
          AddVerification (vfSourceHash v) (vfSourceHeight v) (vforder v) (vfSignature v) target = Some (l, c) \<and>
          cTree s' = voted (length (validators_of E pa)) source l c p (cTree s)))"
proof (cases "GetCheckpoint (cStore s) (vfSourceHash v) = None \<or>
    AddVerification (vfSourceHash v) (vfSourceHeight v) (vforder v) (vfSignature v) target = None")
  case True
  then have "snd (add_verifications (length (validators_of E pa)) [v] (target, Some p) s) = s" by (rule add_one_unchanged)
  then show ?thesis using authVerification_add [OF assms] by (auto simp del: add_verifications.simps)
next
  case False
  then obtain source l c where
    g: "GetCheckpoint (cStore s) (vfSourceHash v) = Some source"
      "AddVerification (vfSourceHash v) (vfSourceHeight v) (vforder v) (vfSignature v) target = Some (l, c)" by auto
  show ?thesis
    using authVerification_add [OF assms] add_one_tree [OF g] g by (auto simp del: add_verifications.simps)
qed

lemma verifyVerification_None:
  "verifyVerification E v s = None \<Longrightarrow> verification_valid E v = None \<and> verifySameHeight v s = None \<and> verifySpanHeight v s = None"
  by (auto simp: verifyVerification_def split: option.splits)

lemma authVerification_inv:
  assumes "authVerification E v (Some pa) (target, Some p) s = (r, s')" "casper_inv (eL E) s"
    "cp_at (cTree s) p = Some target" "vfTargetHeight v = cpHeight target"
    "\<And>source. GetCheckpoint (cStore s) (vfSourceHash v) = Some source \<Longrightarrow> vfSourceHeight v = cpHeight source"
  shows "casper_inv (eL E) s'"
proof -
  have hok: "\<forall>h x. stHeaders (cStore s) h = Some x \<longrightarrow> BlockHeader_Hash (eL E) x = h"
    and links: "\<forall>c \<in> nodes (cTree s). \<forall>l \<in> set (cpSupLinks c). link_ok (cStore s) l"
    and sf: "surround_free (votes (cTree s))"
    using assms(2) by (simp_all add: casper_inv_def)
  have kept: "headers_kept (cStore s) (cStore s')" "\<forall>h x. stHeaders (cStore s') h = Some x \<longrightarrow> BlockHeader_Hash (eL E) x = h"
    using authVerification_add [OF assms(1) hok] by blast+
  consider "cTree s' = cTree s"
    | source l c where "verifyVerification E v s = None" "GetCheckpoint (cStore s) (vfSourceHash v) = Some source"
        "AddVerification (vfSourceHash v) (vfSourceHeight v) (vforder v) (vfSignature v) target = Some (l, c)"
        "cTree s' = voted (length (validators_of E pa)) source l c p (cTree s)"
    using authVerification_tree [OF assms(1) hok] by blast
  then show ?thesis
  proof cases
    case 1
    then show ?thesis using sf links kept link_ok_kept by (auto simp: casper_inv_def)
  next
    case (2 source l c)
    obtain hdr where hdr: "stHeaders (cStore s) (vfSourceHash v) = Some hdr" "vfSourceHeight v = thHeight hdr"
      using GetCheckpoint_height [OF 2(2)] assms(5) [OF 2(2)] by auto
    have tl: "link_ok (cStore s) m" if "m \<in> set (cpSupLinks target)" for m
      using links nodesI [OF assms(3)] that by blast
    then have "slSourceHeight m = vfSourceHeight v" if "m \<in> set (cpSupLinks target)" "slSourceHash m = vfSourceHash v" for m
      using that hdr by (auto simp: link_ok_def)
    note vv = voted_votes [OF assms(3) 2(3) this, of "length (validators_of E pa)" source]
    have sp: "(h < cpHeight target \<longrightarrow> x \<le> vfSourceHeight v) \<and> (h > cpHeight target \<longrightarrow> vfSourceHeight v \<le> x)"
      if "(vforder v, h, x) \<in> votes (cTree s)" for h x
      using spans_votes [OF _ that] verifyVerification_None [OF 2(1)] assms(4) by simp
    have "surround_free (votes (cTree s'))"
      unfolding 2(4) by (rule surround_free_insert [OF sf vv sp])
    moreover have "link_ok (cStore s) m" if xn: "x \<in> nodes (cTree s')" and xm: "m \<in> set (cpSupLinks x)" for x m
    proof -
      obtain y where y: "y \<in> insert c (nodes (cTree s))" "cpSupLinks x = cpSupLinks y"
        using voted_links [OF assms(3) 2(3) xn [unfolded 2(4)]] by blast
      show ?thesis
      proof (cases "y \<in> nodes (cTree s)")
        case True then show ?thesis using links y xm by auto
      next
        case False
        then have "m \<in> set (add_sup_link (vfSourceHeight v) (vfSourceHash v) (vfSignature v) (vforder v) (cpSupLinks target))"
          using y xm AddVerification_Some(1) [OF 2(3)] by auto
        from add_sup_link_cases [OF this] tl show ?thesis
          using hdr by (auto simp: link_ok_def)
      qed
    qed
    ultimately show ?thesis using kept link_ok_kept [OF kept(1)] by (auto simp: casper_inv_def)
  qed
qed

end
