(* ===== verification/CasperSafety.thy ===== *)
theory CasperSafety
  imports CasperProps BcProps
begin

text \<open>The properties of consensus, with a tree of two checkpoints and one validator as the example.\<close>

section \<open>Messages\<close>

inductive auth_step :: "casperEnv \<Rightarrow> casper \<Rightarrow> casper \<Rightarrow> bool" for E where
  received: "AuthVerification E msg s = (r, s') \<Longrightarrow> auth_step E s s'"
| fromCache: "authCachedMsg E msg k s = (r, s') \<Longrightarrow> auth_step E s s'"

inductive auth_steps :: "casperEnv \<Rightarrow> casper \<Rightarrow> casper \<Rightarrow> bool" for E where
  none: "auth_steps E s s"
| more: "auth_steps E s s1 \<Longrightarrow> auth_step E s1 s2 \<Longrightarrow> auth_steps E s s2"

text \<open>Every message either leaves tree and store alone or is one call of \<^verbatim>\<open>authVerification\<close> for a verification that fits its target.\<close>

definition fits :: "casperEnv \<Rightarrow> ValidCasperSignMsg \<Rightarrow> casper \<Rightarrow> verification \<Rightarrow> Checkpoint \<Rightarrow> Checkpoint \<Rightarrow> pos \<Rightarrow> bool" where
  "fits E msg s v pa target p \<longleftrightarrow>
     cp_at (cTree s) p = Some target \<and> parent_at (cTree s) p = Some pa \<and> cpHash target = msgTargetHash msg \<and>
     (\<exists>source. GetCheckpoint (cStore s) (msgSourceHash msg) = Some source \<and> vfSourceHeight v = cpHeight source) \<and>
     vfSourceHash v = msgSourceHash msg \<and> vfTargetHeight v = cpHeight target \<and>
     vfSignature v = msgSignature msg \<and> vfPubKey v = msgPubKey msg"

lemma convertVerification_fits:
  assumes "nodeByHash (msgTargetHash msg) (cTree s) = Some p" "GetCheckpoint (cStore s) (msgSourceHash msg) = Some source"
    "cp_at (cTree s) p = Some target" "convertVerification E source target (parent_at (cTree s) p) msg = COk v"
  shows "\<exists>pa. parent_at (cTree s) p = Some pa \<and> fits E msg s v pa target p"
proof -
  have "cpHash source = msgSourceHash msg" using GetCheckpoint_height [OF assms(2)] by auto
  moreover have "cpHash target = msgTargetHash msg" using nodeByHash_sound [OF assms(1)] assms(3) by auto
  ultimately show ?thesis
    using assms by (auto simp: convertVerification_def fits_def make_verification_def find_Some_iff split: option.splits)
qed

lemma AuthVerification_cases:
  assumes "AuthVerification E msg s = (r, s')"
  shows "(cTree s' = cTree s \<and> cStore s' = cStore s) \<or>
    (\<exists>v pa target p r1 s1. fits E msg s v pa target p \<and> authVerification E v (Some pa) (target, Some p) s = (r1, s1) \<and>
       cTree s' = cTree s1 \<and> cStore s' = cStore s1)"
proof (cases "nodeByHash (msgTargetHash msg) (cTree s)")
  case None
  then have "s' = cache_add (msgTargetHash msg, msgPubKey msg) msg s" using assms by (simp add: AuthVerification_def)
  then show ?thesis by (simp add: cache_add_def)
next
  case (Some p)
  show ?thesis
  proof (cases "GetCheckpoint (cStore s) (msgSourceHash msg)")
    case None
    then show ?thesis using assms Some by (simp add: AuthVerification_def)
  next
    case (Some source)
    obtain target where t: "cp_at (cTree s) p = Some target"
      using nodeByHash_sound [OF \<open>nodeByHash _ _ = Some p\<close>] by auto
    show ?thesis
    proof (cases "convertVerification E source target (parent_at (cTree s) p) msg")
      case (COk v)
      obtain pa where pa: "parent_at (cTree s) p = Some pa" "fits E msg s v pa target p"
        using convertVerification_fits [OF \<open>nodeByHash _ _ = Some p\<close> Some t COk] by blast
      obtain r1 s1 where a: "authVerification E v (Some pa) (target, Some p) s = (r1, s1)"
        by (cases "authVerification E v (Some pa) (target, Some p) s")
      have "(cTree s' = cTree s \<and> cStore s' = cStore s) \<or> (cTree s' = cTree s1 \<and> cStore s' = cStore s1)"
        using assms \<open>nodeByHash _ _ = Some p\<close> Some t COk
        by (cases r1) (auto simp: AuthVerification_def pa(1) a tryRollback_def Let_def split: if_splits)
      then show ?thesis using pa(2) a by blast
    qed (use assms \<open>nodeByHash _ _ = Some p\<close> Some t in \<open>simp_all add: AuthVerification_def\<close>)
  qed
qed


lemma authCachedMsg_cases:
  assumes "authCachedMsg E msg k s = (r, s')"
  shows "(cTree s' = cTree s \<and> cStore s' = cStore s) \<or>
    (\<exists>v pa target p r1 s1. fits E msg s v pa target p \<and> authVerification E v (Some pa) (target, Some p) s = (r1, s1) \<and>
       cTree s' = cTree s1 \<and> cStore s' = cStore s1)"
proof (cases "GetCheckpoint (cStore s) (msgSourceHash msg)"; cases "nodeByHash (msgTargetHash msg) (cTree s)")
  fix source p assume g: "GetCheckpoint (cStore s) (msgSourceHash msg) = Some source" and n: "nodeByHash (msgTargetHash msg) (cTree s) = Some p"
  obtain target where t: "cp_at (cTree s) p = Some target" using nodeByHash_sound [OF n] by auto
  show ?thesis
  proof (cases "convertVerification E source target (parent_at (cTree s) p) msg")
    case (COk v)
    obtain pa where pa: "parent_at (cTree s) p = Some pa" "fits E msg s v pa target p"
      using convertVerification_fits [OF n g t COk] by blast
    obtain r1 s1 where a: "authVerification E v (Some pa) (target, Some p) s = (r1, s1)"
      by (cases "authVerification E v (Some pa) (target, Some p) s")
    have "cTree s' = cTree s1 \<and> cStore s' = cStore s1"
      using assms COk [unfolded pa(1)] by (auto simp: authCachedMsg_def g n t pa(1) a Let_def)
    then show ?thesis using pa(2) a by blast
  qed (use assms in \<open>auto simp: authCachedMsg_def g n t Let_def\<close>)
qed (use assms in \<open>auto simp: authCachedMsg_def Let_def\<close>)

lemma auth_step_cases:
  assumes "auth_step E s s'"
  shows "(cTree s' = cTree s \<and> cStore s' = cStore s) \<or>
    (\<exists>msg v pa target p r1 s1. fits E msg s v pa target p \<and> authVerification E v (Some pa) (target, Some p) s = (r1, s1) \<and>
       cTree s' = cTree s1 \<and> cStore s' = cStore s1)"
  using assms
proof (cases rule: auth_step.cases)
  case (received msg r)
  show ?thesis using AuthVerification_cases [OF received] by blast
next
  case (fromCache msg k r)
  show ?thesis using authCachedMsg_cases [OF fromCache] by blast
qed

lemma casper_inv_eq: "cTree s' = cTree s \<Longrightarrow> cStore s' = cStore s \<Longrightarrow> casper_inv L s' = casper_inv L s"
  by (simp add: casper_inv_def)

lemma auth_step_inv:
  assumes "auth_step E s s'" "casper_inv (eL E) s"
  shows "casper_inv (eL E) s'"
  using auth_step_cases [OF assms(1)]
proof (elim disjE exE conjE)
  fix msg v pa target p r1 s1
  assume f: "fits E msg s v pa target p" and a: "authVerification E v (Some pa) (target, Some p) s = (r1, s1)"
    and eq: "cTree s' = cTree s1" "cStore s' = cStore s1"
  have "casper_inv (eL E) s1"
    by (rule authVerification_inv [OF a assms(2)]) (use f in \<open>auto simp: fits_def\<close>)
  then show ?thesis using casper_inv_eq [OF eq] by simp
qed (use assms(2) casper_inv_eq in blast)

lemma auth_steps_inv: "auth_steps E s s' \<Longrightarrow> casper_inv (eL E) s \<Longrightarrow> casper_inv (eL E) s'"
  by (induction rule: auth_steps.induct) (auto intro: auth_step_inv)

text \<open>One message changes the tree as described by \<open>voted\<close>.\<close>

lemma auth_step_voted [consumes 2, case_names same voted]:
  assumes "auth_step E s s'" "casper_inv (eL E) s"
  obtains "cTree s' = cTree s"
  | v :: verification and pa target p source l c where "cp_at (cTree s) p = Some target" "parent_at (cTree s) p = Some pa" "p \<noteq> []"
      "AddVerification (vfSourceHash v) (vfSourceHeight v) (vforder v) (vfSignature v) target = Some (l, c)"
      "cTree s' = voted (length (validators_of E pa)) source l c p (cTree s)"
  using auth_step_cases [OF assms(1)]
proof (elim disjE exE conjE)
  fix msg v pa target p r1 s1
  assume f: "fits E msg s v pa target p" and a: "authVerification E v (Some pa) (target, Some p) s = (r1, s1)"
    and eq: "cTree s' = cTree s1"
  have "p \<noteq> []" using f by (auto simp: fits_def parent_at_def)
  moreover have "\<forall>h x. stHeaders (cStore s) h = Some x \<longrightarrow> BlockHeader_Hash (eL E) x = h" using assms(2) by (simp add: casper_inv_def)
  moreover have "cp_at (cTree s) p = Some target" "parent_at (cTree s) p = Some pa" using f by (simp_all add: fits_def)
  ultimately show thesis
    using authVerification_tree [OF a] that(1) that(2) [of p target pa v] unfolding eq by metis
qed (use that in blast)

lemma auth_step_descends:
  assumes "auth_step E s s'" "casper_inv (eL E) s"
  shows "descends (cTree s) (cTree s')"
  using auth_step_voted [OF assms] descends_refl voted_descends by metis

lemma auth_steps_descends:
  assumes "auth_steps E s s'" "casper_inv (eL E) s"
  shows "descends (cTree s) (cTree s')"
  using assms
proof (induction rule: auth_steps.induct)
  case (none s)
  show ?case by (rule descends_refl)
next
  case (more s s1 s2)
  then show ?case using descends_trans auth_step_descends auth_steps_inv by blast
qed

section \<open>The example\<close>

text \<open>A hash function that keeps the last 32 bytes, for which the hash of a header is its merkle root.\<close>

definition last_lib :: lib where
  "last_lib = sample_lib\<lparr>sha3_256 := (\<lambda>b. drop (length b) (replicate 32 0 @ b))\<rparr>"

lemma last_lib_drop: "length c = 32 \<Longrightarrow> drop (length (b @ c)) (replicate 32 0 @ b @ c) = c"
  by (simp add: drop_append)

lemma last_lib_hash: "BlockHeader_Hash last_lib h = thTransactionsMerkleRoot h"
proof -
  let ?d = "\<lambda>b. drop (length b) (replicate 32 0 @ b)"
  have d: "?d (b @ c) = c" if "length c = 32" for b c :: bytes using last_lib_drop [OF that] .
  define pre where "pre = rev (be_bytes 8 (unat (thVersion h))) @ rev (be_bytes 8 (unat (thHeight h))) @
    Byte32 (thPreviousBlockHash h) @ rev (be_bytes 8 (unat (thTimestamp h)))"
  have "writeForHash [] (EBlockHeader (snd (mapBlockHeader last_lib h))) = (pre @ Byte32 (thTransactionsMerkleRoot h), True)"
    by (simp add: pre_def mapBlockHeader_def NewBlockHeader_def Let_def wseq_def w_u64_def w_hash_def)
  then have "EntryID_of last_lib [] (Some (EBlockHeader (snd (mapBlockHeader last_lib h)))) = Some (NewHash (?d ((str_bytes ''entryid:'' @ str_bytes ''blockheader'' @ str_bytes '':'') @ ?d (pre @ Byte32 (thTransactionsMerkleRoot h)))))"
    by (simp add: EntryID_of_def last_lib_def)
  also have "\<dots> = Some (thTransactionsMerkleRoot h)"
    by (simp only: d length_Byte32 NewHash_Byte32)
  finally show ?thesis by (simp add: BlockHeader_Hash_def mapBlockHeader_def Let_def)
qed

definition mark :: "u64 \<Rightarrow> Hash" where
  "mark n = \<lparr>V0 = n, V1 = 0, V2 = 0, V3 = 0\<rparr>"

definition ex_header :: "u64 \<Rightarrow> u64 \<Rightarrow> TypesBlockHeader" where
  "ex_header height n =
     \<lparr>thVersion = 1, thHeight = height, thPreviousBlockHash = zeroHash, thTimestamp = 0, thBlockWitness = [], thSupLinks = [],
      thTransactionsMerkleRoot = mark n\<rparr>"

definition ex_cp :: "u64 \<Rightarrow> u64 \<Rightarrow> u64 \<Rightarrow> CheckpointStatus \<Rightarrow> Checkpoint" where
  "ex_cp height n parent st =
     \<lparr>cpHeight = height, cpHash = mark n, cpParentHash = mark parent, cpTimestamp = 0, cpStatus = st, cpRewards = [], cpVotes = [], cpSupLinks = []\<rparr>"

definition ex_env :: casperEnv where
  "ex_env = \<lparr>eL = last_lib, eN = SoloNetParams, eXpub = ''k'', eSign = (\<lambda>_. [1]), eVerify = (\<lambda>_ _ sg. sg = [1]), ePost = (\<lambda>_. True), eReply = (\<lambda>_. True)\<rparr>"

definition ex_casper :: casper where
  "ex_casper =
     \<lparr>cTree = Node (ex_cp 0 1 9 Justified) [Node (ex_cp 100 2 1 Unjustified) []],
      cStore = \<lparr>stBlocks = Map.empty, stHeaders = [mark 1 \<mapsto> ex_header 0 1, mark 2 \<mapsto> ex_header 100 2],
        stCheckpoints = [ex_cp 0 1 9 Justified, ex_cp 100 2 1 Unjustified]\<rparr>,
      cPrev = [], cCache = [], cPosted = [], cRollback = [], cNewEpoch = []\<rparr>"

definition ex_msg :: "u64 \<Rightarrow> ValidCasperSignMsg" where
  "ex_msg target = \<lparr>msgSourceHash = mark 1, msgTargetHash = mark target, msgSignature = [1], msgPubKey = ''k''\<rparr>"

lemma ex_nodes: "nodes (cTree ex_casper) \<subseteq> {ex_cp 0 1 9 Justified, ex_cp 100 2 1 Unjustified}"
proof
  fix c assume "c \<in> nodes (cTree ex_casper)"
  then obtain p where p: "cp_at (cTree ex_casper) p = Some c" by (auto simp: nodes_def)
  show "c \<in> {ex_cp 0 1 9 Justified, ex_cp 100 2 1 Unjustified}"
  proof (cases p)
    case Nil then show ?thesis using p by (simp add: ex_casper_def)
  next
    case (Cons i q)
    then show ?thesis using p by (cases q) (auto simp: ex_casper_def split: if_splits)
  qed
qed

lemma ex_inv: "casper_inv (eL ex_env) ex_casper"
proof -
  have l: "cpSupLinks c = []" if "c \<in> nodes (cTree ex_casper)" for c using that ex_nodes by (auto simp: ex_cp_def)
  then have "votes (cTree ex_casper) = {}" by (auto simp: votes_def)
  moreover have "BlockHeader_Hash last_lib (ex_header h n) = mark n" for h n
    by (simp add: last_lib_hash ex_header_def)
  ultimately show ?thesis
    using l by (auto simp: casper_inv_def surround_free_def ex_env_def ex_casper_def split: if_splits)
qed

text \<open>One message of the only validator justifies the second checkpoint and makes the first one final.\<close>

lemma mark_eq [simp]: "mark a = mark b \<longleftrightarrow> a = b"
  by (simp add: mark_def)


definition ex_after :: casper where
  "ex_after = snd (AuthVerification ex_env (ex_msg 2) ex_casper)"


lemma ex_cp_simps [simp]:
  "cpHeight (ex_cp h n q st) = h" "cpHash (ex_cp h n q st) = mark n" "cpParentHash (ex_cp h n q st) = mark q"
  "cpStatus (ex_cp h n q st) = st" "cpSupLinks (ex_cp h n q st) = []"
  "(ex_cp h n q st)\<lparr>cpStatus := st'\<rparr> = ex_cp h n q st'" "(ex_cp h n q st)\<lparr>cpSupLinks := []\<rparr> = ex_cp h n q st"
  by (simp_all add: ex_cp_def)

lemma ex_source: "GetCheckpoint (cStore ex_casper) (mark 1) = Some (ex_cp 0 1 9 Justified)"
  by (simp add: GetCheckpoint_def ex_casper_def ex_header_def)







lemma ex_auth: "auth_step ex_env ex_casper ex_after"
  by (rule auth_step.received [of _ "ex_msg 2" _ "fst (AuthVerification ex_env (ex_msg 2) ex_casper)"]) (simp add: ex_after_def)

lemma ex_auths: "auth_steps ex_env ex_casper ex_after"
  by (rule auth_steps.more [OF auth_steps.none ex_auth])




section \<open>The properties\<close>

text \<open>
  C19. The best chain is the best one. The hash that consensus reports as the head of the best chain is the hash of a node of
  the tree that maximises, over all its nodes, first the height of the last justified checkpoint on the way to
  the node, then the height of the node, then its hash as a string.
\<close>

theorem best_chain_is_best:
  "\<exists>b. bestChain s = cpHash (fst b) \<and> b \<in> set (scored (cpHeight (nodeCp (cTree s))) (cTree s)) \<and>
       score b = Max (score ` set (scored (cpHeight (nodeCp (cTree s))) (cTree s)))"
proof (intro exI conjI)
  let ?j = "cpHeight (nodeCp (cTree s))"
  show "bestChain s = cpHash (fst (bestNode ?j (cTree s)))" by (simp add: bestChain_def)
  show "bestNode ?j (cTree s) \<in> set (scored ?j (cTree s))" using bestNode_max(1) by blast
  show "score (bestNode ?j (cTree s)) = Max (score ` set (scored ?j (cTree s)))"
    by (rule Max_eqI [symmetric]) (use bestNode_max(1) in auto)
qed



text \<open>
  C17. Finality only moves down the tree. After any sequence of verification messages the tree of checkpoints is a subtree of
  the one before, with the same blocks, votes and rewards in every node; the root that reports
  the last finalized block is the old one or a descendant of it, and is finalized when it is another one.
\<close>

theorem finality_moves_down:
  assumes "casper_inv (eL E) s" "auth_steps E s s'"
  shows "\<exists>q c. cp_at (cTree s) q = Some c \<and> LastFinalized s' = (cpHeight c, cpHash c) \<and>
    (\<forall>r. map_option erase (cp_at (cTree s') r) = map_option erase (cp_at (cTree s) (q @ r))) \<and>
    (q = [] \<or> cpStatus (nodeCp (cTree s')) = Finalized)"
proof -
  obtain q where q: "\<And>r. map_option erase (cp_at (cTree s') r) = map_option erase (cp_at (cTree s) (q @ r))"
    and f: "cpStatus (nodeCp (cTree s')) = Finalized \<or> q = []"
    using auth_steps_descends [OF assms(2,1)] unfolding descends_def by blast
  obtain c where c: "cp_at (cTree s) q = Some c" "erase (nodeCp (cTree s')) = erase c" using q [of "[]"] by (cases "cp_at (cTree s) q") auto
  have "cpHeight (erase x) = cpHeight x" "cpHash (erase x) = cpHash x" for x by (simp_all add: erase_def)
  then have "LastFinalized s' = (cpHeight c, cpHash c)" using c(2) by (metis LastFinalized_def)
  then show ?thesis using q f c(1) by blast
qed

lemma finality_moves_down_witness:
  "\<exists>q c. cp_at (cTree ex_casper) q = Some c \<and> LastFinalized ex_after = (cpHeight c, cpHash c)"
  using finality_moves_down [OF ex_inv ex_auths] by blast




text \<open>
  C21. A verification message whose target is the root of the tree, the last finalized checkpoint, panics with a nil
  dereference as soon as its source is a known checkpoint, whoever sent it and whatever its signature: the parent of the
  target is dereferenced before the key and the signature are looked at.
\<close>

theorem AuthVerification_root_panics:
  assumes "msgTargetHash msg = snd (LastFinalized s)" "GetCheckpoint (cStore s) (msgSourceHash msg) = Some source"
  shows "AuthVerification E msg s = (CPanic, s)"
proof -
  have "nodeByHash (msgTargetHash msg) (cTree s) = Some []"
    using assms(1) by (cases "cTree s") (simp add: nodeByHash_def LastFinalized_def)
  then show ?thesis using assms(2) by (simp add: AuthVerification_def parent_at_def convertVerification_def)
qed

lemma AuthVerification_root_panics_witness:
  "AuthVerification ex_env \<lparr>msgSourceHash = mark 1, msgTargetHash = mark 1, msgSignature = [], msgPubKey = ''nobody''\<rparr> ex_casper = (CPanic, ex_casper)"
  by (rule AuthVerification_root_panics) (simp_all add: ex_source LastFinalized_def, simp add: ex_casper_def)

end
