(* ===== verification/ContractView.thy ===== *)
theory ContractView
  imports Script Utxo BlockTypes
begin

text \<open>
  The registered contracts: the view of \<^verbatim>\<open>protocol/state/contract_view.go\<close> that a reorganisation fills and
  the functions of \<^verbatim>\<open>database/contract_view.go\<close> that store it.
\<close>

section \<open>Transactions and blocks of the chain\<close>

text \<open>A transaction with the entries it is mapped to, \<^verbatim>\<open>types.Tx\<close>, and a block of them, \<^verbatim>\<open>types.Block\<close>.\<close>

record TypesTx =
  ttData :: "bytes TxData"
  ttTx :: Tx

record ChainBlock =
  kbHeader :: TypesBlockHeader
  kbTransactions :: "TypesTx list"

definition MapBlock :: "lib \<Rightarrow> ChainBlock \<Rightarrow> BcBlock" where
  "MapBlock L b =
     (case mapBlockHeader L (kbHeader b) of
        (i, header) \<Rightarrow>
          \<lparr>bbHeader = header, bbID = (case i of None \<Rightarrow> zeroHash | Some h \<Rightarrow> h), bbTransactions = map ttTx (kbTransactions b)\<rparr>)"

section \<open>The view\<close>

record ContractViewpoint =
  AttachEntries :: "bytes \<rightharpoonup> bytes"
  DetachEntries :: "bytes \<rightharpoonup> bytes"

definition NewContractViewpoint :: ContractViewpoint where
  "NewContractViewpoint = \<lparr>AttachEntries = Map.empty, DetachEntries = Map.empty\<rparr>"

text \<open>The loops stop at the first error, \<open>None\<close>.\<close>

primrec cforeach :: "('a \<Rightarrow> 'v \<Rightarrow> 'v option) \<Rightarrow> 'a list \<Rightarrow> 'v \<Rightarrow> 'v option" where
  "cforeach f [] v = Some v"
| "cforeach f (x # l) v = (case f x v of None \<Rightarrow> None | Some v' \<Rightarrow> cforeach f l v')"

definition contract_output ::
  "(bytes \<Rightarrow> ContractViewpoint \<Rightarrow> ContractViewpoint) \<Rightarrow> bytes TxOutput \<Rightarrow> ContractViewpoint \<Rightarrow> ContractViewpoint option" where
  "contract_output f out view =
     (let prog = ocControlProgram (outCommitment out) in
      if IsBCRPScript prog then (case ParseContract prog of GoOk contract \<Rightarrow> Some (f contract view) | _ \<Rightarrow> None)
      else Some view)"

definition attach_contract :: "lib \<Rightarrow> TypesTx \<Rightarrow> bytes \<Rightarrow> ContractViewpoint \<Rightarrow> ContractViewpoint" where
  "attach_contract L tx contract view =
     (let hash = sha3_256 L contract in
      if AttachEntries view hash = None
      then view\<lparr>AttachEntries := (AttachEntries view)(hash \<mapsto> Byte32 (txID (ttTx tx)) @ contract)\<rparr> else view)"

definition detach_contract :: "lib \<Rightarrow> TypesTx \<Rightarrow> bytes \<Rightarrow> ContractViewpoint \<Rightarrow> ContractViewpoint" where
  "detach_contract L tx contract view =
     view\<lparr>DetachEntries := (DetachEntries view)(sha3_256 L contract \<mapsto> Byte32 (txID (ttTx tx)) @ contract)\<rparr>"

definition ContractView_ApplyBlock :: "lib \<Rightarrow> ChainBlock \<Rightarrow> ContractViewpoint \<Rightarrow> ContractViewpoint option" where
  "ContractView_ApplyBlock L block view =
     cforeach (\<lambda>tx. cforeach (contract_output (attach_contract L tx)) (tdOutputs (ttData tx))) (kbTransactions block) view"

definition ContractView_DetachBlock :: "lib \<Rightarrow> ChainBlock \<Rightarrow> ContractViewpoint \<Rightarrow> ContractViewpoint option" where
  "ContractView_DetachBlock L block view =
     cforeach (\<lambda>tx. cforeach (contract_output (detach_contract L tx)) (tdOutputs (ttData tx))) (rev (kbTransactions block)) view"

section \<open>The database\<close>

definition ContractPrefix :: bytes where
  "ContractPrefix = [8, 58]"

definition CalcContractKey :: "bytes \<Rightarrow> bytes" where
  "CalcContractKey hash = ContractPrefix @ hash"

text \<open>A batch collects writes, \<open>None\<close> to delete, and is written as a whole.\<close>

type_synonym batch = "(bytes \<times> bytes option) list"

definition batch_Write :: "batch \<Rightarrow> database \<Rightarrow> database" where
  "batch_Write b db = fold (\<lambda>(k, v) m. m(k := v)) b db"

text \<open>The entries of the view are visited in some order, which is an argument; \<open>db\<close> is read, the batch is written.\<close>

definition save_contract :: "database \<Rightarrow> ContractViewpoint \<Rightarrow> bytes \<times> bytes \<Rightarrow> batch" where
  "save_contract db view x =
     (case x of (hash, val) \<Rightarrow>
        let dat = db (CalcContractKey hash) in
        (if dat = None then [(CalcContractKey hash, Some val)] else []) @
        (case DetachEntries view hash of
           None \<Rightarrow> []
         | Some v \<Rightarrow> if (case dat of None \<Rightarrow> [] | Some d \<Rightarrow> d) = v then [(CalcContractKey hash, Some val)] else []))"

definition saveContractView :: "database \<Rightarrow> ContractViewpoint \<Rightarrow> (bytes \<times> bytes) list \<Rightarrow> batch \<Rightarrow> batch" where
  "saveContractView db view visited b = b @ concat (map (save_contract db view) visited)"

definition delete_contract :: "database \<Rightarrow> bytes \<times> bytes \<Rightarrow> batch" where
  "delete_contract db x =
     (case x of (hash, val) \<Rightarrow>
        if (case db (CalcContractKey hash) of None \<Rightarrow> [] | Some d \<Rightarrow> d) = val then [(CalcContractKey hash, None)] else [])"

definition deleteContractView :: "database \<Rightarrow> (bytes \<times> bytes) list \<Rightarrow> batch \<Rightarrow> batch" where
  "deleteContractView db visited b = b @ concat (map (delete_contract db) visited)"

definition getContract :: "database \<Rightarrow> bytes \<Rightarrow> bytes option" where
  "getContract db hash =
     (case db (CalcContractKey hash) of
        None \<Rightarrow> None
      | Some dat \<Rightarrow> if length dat \<le> 32 then None else Some (drop 32 dat))"

text \<open>\<^verbatim>\<open>Chain.ProgramConverter\<close> of \<^verbatim>\<open>protocol/tx.go\<close>: the program of a call is the registered contract.\<close>

definition ProgramConverter :: "database \<Rightarrow> bytes \<Rightarrow> bytes option" where
  "ProgramConverter db prog = (case ParseContractHash prog of GoOk hash \<Rightarrow> getContract db hash | _ \<Rightarrow> None)"

text \<open>
  What a reorganisation does with the registered contracts: the part of \<^verbatim>\<open>reorganizeChain\<close> that fills the
  view and the part of \<^verbatim>\<open>SaveChainStatus\<close> that stores it.
\<close>

definition reorganize_contracts :: "lib \<Rightarrow> ChainBlock list \<Rightarrow> ChainBlock list \<Rightarrow> ContractViewpoint option" where
  "reorganize_contracts L detachBlocks attachBlocks =
     Option.bind (cforeach (ContractView_DetachBlock L) detachBlocks NewContractViewpoint)
       (cforeach (ContractView_ApplyBlock L) attachBlocks)"

definition save_contracts :: "ContractViewpoint \<Rightarrow> (bytes \<times> bytes) list \<Rightarrow> (bytes \<times> bytes) list \<Rightarrow> database \<Rightarrow> database" where
  "save_contracts view detached attached db =
     batch_Write (saveContractView db view attached (deleteContractView db detached [])) db"

end
