(* ===== verification/ContractProps.thy ===== *)
theory ContractProps
  imports ContractView BcProps ScriptProps
begin

text \<open>
  The stored contracts refine a registry: a chain of transactions determines which contract is registered under
  which hash, the first registration counts, and a reorganisation turns the registry of the old chain into that of
  the new one.
\<close>

section \<open>The registry of a chain\<close>

definition contracts_of :: "bytes TxOutput \<Rightarrow> bytes list" where
  "contracts_of out =
     (let prog = ocControlProgram (outCommitment out) in
      if IsBCRPScript prog then (case ParseContract prog of GoOk c \<Rightarrow> [c] | _ \<Rightarrow> []) else [])"

definition tx_contracts :: "TypesTx \<Rightarrow> bytes list" where
  "tx_contracts tx = concat (map contracts_of (tdOutputs (ttData tx)))"

definition tx_regs :: "lib \<Rightarrow> TypesTx \<Rightarrow> (bytes \<times> bytes) list" where
  "tx_regs L tx = map (\<lambda>c. (sha3_256 L c, Byte32 (txID (ttTx tx)) @ c)) (tx_contracts tx)"

definition regs :: "lib \<Rightarrow> TypesTx list \<Rightarrow> (bytes \<times> bytes) list" where
  "regs L txs = concat (map (tx_regs L) txs)"

definition registry :: "lib \<Rightarrow> TypesTx list \<Rightarrow> bytes \<rightharpoonup> bytes" where
  "registry L txs = map_of (regs L txs)"

lemma registry_append: "registry L (txs @ txs') = registry L txs' ++ registry L txs"
  by (simp add: registry_def regs_def map_of_append)

lemma registry_Nil [simp]: "registry L [] = Map.empty"
  by (simp add: registry_def regs_def)

text \<open>A recognised script is parsed, so the loops over the outputs do not fail.\<close>

lemma contract_output_eq: "contract_output f out v = Some (fold f (contracts_of out) v)"
  by (auto simp: contract_output_def contracts_of_def Let_def IsBCRPScript_def ParseContract_def split: sum.splits)

lemma cforeach_fold: "(\<And>x v. f x v = Some (g x v)) \<Longrightarrow> cforeach f l v = Some (fold g l v)"
  by (induction l arbitrary: v) simp_all

lemma fold_concat_map: "fold (\<lambda>x. fold f (h x)) l v = fold f (concat (map h l)) v"
  by (induction l arbitrary: v) simp_all

lemma outputs_fold: "cforeach (contract_output f) outs v = Some (fold f (concat (map contracts_of outs)) v)"
  by (subst cforeach_fold [of _ "\<lambda>out. fold f (contracts_of out)"]) (simp_all add: contract_output_eq fold_concat_map)

lemma ApplyBlock_fold:
  "ContractView_ApplyBlock L b v = Some (fold (\<lambda>tx. fold (attach_contract L tx) (tx_contracts tx)) (kbTransactions b) v)"
  unfolding ContractView_ApplyBlock_def by (rule cforeach_fold) (simp add: outputs_fold tx_contracts_def)

lemma DetachBlock_fold:
  "ContractView_DetachBlock L b v = Some (fold (\<lambda>tx. fold (detach_contract L tx) (tx_contracts tx)) (rev (kbTransactions b)) v)"
  unfolding ContractView_DetachBlock_def by (rule cforeach_fold) (simp add: outputs_fold tx_contracts_def)

section \<open>Filling the view\<close>

lemma attach_tx:
  "fold (attach_contract L tx) cs v =
     v\<lparr>AttachEntries := map_of (map (\<lambda>c. (sha3_256 L c, Byte32 (txID (ttTx tx)) @ c)) cs) ++ AttachEntries v\<rparr>"
proof (induction cs arbitrary: v)
  case (Cons c cs)
  have *: "(m ++ (\<lambda>k. if k = h then Some x else n k)) = m(h \<mapsto> x) ++ n" if "n h = None" for m n :: "bytes \<rightharpoonup> bytes" and h x
    using that by (auto simp: map_add_def fun_eq_iff split: option.splits)
  have **: "m ++ n = m(h \<mapsto> x) ++ n" if "n h \<noteq> None" for m n :: "bytes \<rightharpoonup> bytes" and h x
    using that by (auto simp: map_add_def fun_eq_iff split: option.splits)
  show ?case
    using Cons.IH * ** by (auto simp: attach_contract_def Let_def fun_upd_def)
qed simp

lemma attach_contracts:
  "fold (\<lambda>tx. fold (attach_contract L tx) (tx_contracts tx)) txs v = v\<lparr>AttachEntries := registry L txs ++ AttachEntries v\<rparr>"
proof (induction txs arbitrary: v)
  case (Cons tx txs)
  have "registry L (tx # txs) = registry L txs ++ map_of (tx_regs L tx)"
    using registry_append [of L "[tx]" txs] by (simp add: registry_def regs_def)
  moreover have "fold (attach_contract L tx) (tx_contracts tx) v = v\<lparr>AttachEntries := map_of (tx_regs L tx) ++ AttachEntries v\<rparr>"
    by (simp add: attach_tx tx_regs_def)
  ultimately show ?case
    using Cons.IH [of "v\<lparr>AttachEntries := map_of (tx_regs L tx) ++ AttachEntries v\<rparr>"] by (simp only: fold_Cons comp_apply) simp
qed simp

text \<open>Contracts with the same hash are the same.\<close>

definition contracts_distinct :: "lib \<Rightarrow> TypesTx list \<Rightarrow> bool" where
  "contracts_distinct L txs \<longleftrightarrow> inj_on (sha3_256 L) (\<Union> (set ` tx_contracts ` set txs))"

lemma detach_tx:
  assumes "inj_on (sha3_256 L) (set cs)"
  shows "fold (detach_contract L tx) cs v =
     v\<lparr>DetachEntries := DetachEntries v ++ map_of (map (\<lambda>c. (sha3_256 L c, Byte32 (txID (ttTx tx)) @ c)) cs)\<rparr>"
  using assms
proof (induction cs arbitrary: v)
  case (Cons c cs)
  let ?m = "map_of (map (\<lambda>c. (sha3_256 L c, Byte32 (txID (ttTx tx)) @ c)) cs)"
  have "?m (sha3_256 L c) = None \<or> ?m (sha3_256 L c) = Some (Byte32 (txID (ttTx tx)) @ c)"
  proof (cases "?m (sha3_256 L c)")
    case (Some x)
    then obtain c' where "c' \<in> set cs" "sha3_256 L c' = sha3_256 L c" "x = Byte32 (txID (ttTx tx)) @ c'"
      by (auto dest!: map_of_SomeD)
    then show ?thesis using Cons.prems Some by (auto simp: inj_on_def)
  qed simp
  then have "(DetachEntries v)(sha3_256 L c \<mapsto> Byte32 (txID (ttTx tx)) @ c) ++ ?m = DetachEntries v ++ ?m(sha3_256 L c \<mapsto> Byte32 (txID (ttTx tx)) @ c)"
    by (auto simp: map_add_def fun_eq_iff split: option.splits)
  moreover have "fold (detach_contract L tx) cs v' = v'\<lparr>DetachEntries := DetachEntries v' ++ ?m\<rparr>" for v'
    using Cons by simp
  moreover have "detach_contract L tx c v = v\<lparr>DetachEntries := (DetachEntries v)(sha3_256 L c \<mapsto> Byte32 (txID (ttTx tx)) @ c)\<rparr>"
    by (simp add: detach_contract_def)
  moreover have "v\<lparr>DetachEntries := a, DetachEntries := b\<rparr> = v\<lparr>DetachEntries := b\<rparr>" "DetachEntries (v\<lparr>DetachEntries := a\<rparr>) = a" for a b
    by simp_all
  ultimately show ?case by (simp only: fold_Cons comp_apply list.map map_of.simps fst_conv snd_conv)
qed simp

lemma detach_contracts:
  assumes "contracts_distinct L txs"
  shows "fold (\<lambda>tx. fold (detach_contract L tx) (tx_contracts tx)) (rev txs) v = v\<lparr>DetachEntries := DetachEntries v ++ registry L txs\<rparr>"
  using assms
proof (induction txs arbitrary: v)
  case (Cons tx txs)
  have d: "contracts_distinct L txs" "inj_on (sha3_256 L) (set (tx_contracts tx))"
    using Cons.prems by (auto simp: contracts_distinct_def intro: inj_on_subset)
  have "registry L (tx # txs) = registry L txs ++ map_of (tx_regs L tx)"
    using registry_append [of L "[tx]" txs] by (simp add: registry_def regs_def)
  then show ?case
    by (simp only: rev.simps fold_append comp_apply fold_Cons fold_Nil id_apply Cons.IH [OF d(1)] detach_tx [OF d(2)] tx_regs_def [symmetric])
      (simp add: map_add_assoc)
qed simp

definition txs_of :: "ChainBlock list \<Rightarrow> TypesTx list" where
  "txs_of bs = concat (map kbTransactions bs)"

lemma txs_of_append: "txs_of (a @ b) = txs_of a @ txs_of b"
  by (simp add: txs_of_def)

lemma detach_blocks:
  assumes "contracts_distinct L (txs_of bs)"
  shows "cforeach (ContractView_DetachBlock L) (rev bs) v = Some (v\<lparr>DetachEntries := DetachEntries v ++ registry L (txs_of bs)\<rparr>)"
  using assms
proof (induction bs arbitrary: v)
  case (Cons b bs)
  have d: "contracts_distinct L (txs_of bs)" "contracts_distinct L (kbTransactions b)"
    using Cons.prems by (auto simp: contracts_distinct_def txs_of_def intro: inj_on_subset)
  have app: "cforeach f (xs @ [y]) v = Option.bind (cforeach f xs v) (f y)" for f xs and y :: ChainBlock and v :: ContractViewpoint
    by (induction xs arbitrary: v) (simp_all split: option.split)
  show ?case
    using Cons.IH [OF d(1), of v] detach_contracts [OF d(2)] by (simp add: app DetachBlock_fold txs_of_def registry_append)
qed (simp add: txs_of_def)

lemma attach_blocks:
  "cforeach (ContractView_ApplyBlock L) bs v = Some (v\<lparr>AttachEntries := registry L (txs_of bs) ++ AttachEntries v\<rparr>)"
proof (induction bs arbitrary: v)
  case (Cons b bs)
  then show ?case by (simp add: ApplyBlock_fold attach_contracts txs_of_def registry_append)
qed (simp add: txs_of_def)

lemma reorganize_contracts_eq:
  assumes "contracts_distinct L (txs_of det)"
  shows "reorganize_contracts L (rev det) att =
    Some \<lparr>AttachEntries = registry L (txs_of att), DetachEntries = registry L (txs_of det)\<rparr>"
  using assms by (simp add: reorganize_contracts_def NewContractViewpoint_def detach_blocks attach_blocks)

section \<open>Storing the view\<close>

lemma batch_Write_at: "batch_Write b db k = (case map_of (rev b) k of None \<Rightarrow> db k | Some v \<Rightarrow> v)"
proof (induction b arbitrary: db)
  case (Cons x b)
  then show ?case by (cases x) (auto simp: batch_Write_def map_add_def split: option.splits)
qed (simp add: batch_Write_def)

lemma batch_Write_append: "batch_Write (b @ b') db = batch_Write b' (batch_Write b db)"
  by (simp add: batch_Write_def)

lemma CalcContractKey_inj [simp]: "CalcContractKey h = CalcContractKey h' \<longleftrightarrow> h = h'"
  by (simp add: CalcContractKey_def)

text \<open>Writes that every visited hash makes under its own key do not disturb each other.\<close>

lemma batch_concat:
  assumes "distinct (map fst visited)" "\<And>x k w. (k, w) \<in> set (f x) \<Longrightarrow> k = CalcContractKey (fst x)"
  shows "batch_Write (concat (map f visited)) db (CalcContractKey h) =
    (case map_of visited h of None \<Rightarrow> db (CalcContractKey h) | Some v \<Rightarrow> batch_Write (f (h, v)) db (CalcContractKey h))"
  using assms(1)
proof (induction visited arbitrary: db)
  case (Cons x l)
  have other: "batch_Write (f y) db' (CalcContractKey h) = db' (CalcContractKey h)" if ne: "fst y \<noteq> h" for y db'
  proof -
    have "map_of (rev (f y)) (CalcContractKey h) = None"
    proof (rule ccontr)
      assume "map_of (rev (f y)) (CalcContractKey h) \<noteq> None"
      then obtain w where "(CalcContractKey h, w) \<in> set (f y)" by (auto dest: map_of_SomeD)
      then show False using assms(2) [of "CalcContractKey h" w y] ne by simp
    qed
    then show ?thesis by (simp add: batch_Write_at)
  qed
  have IH: "batch_Write (concat (map f l)) db' (CalcContractKey h) =
      (case map_of l h of None \<Rightarrow> db' (CalcContractKey h) | Some v \<Rightarrow> batch_Write (f (h, v)) db' (CalcContractKey h))" for db'
    using Cons by simp
  show ?case
  proof (cases "fst x = h")
    case True
    then have "map_of l h = None" using Cons.prems by (auto simp: map_of_eq_None_iff)
    then show ?thesis using True IH by (cases x) (simp add: batch_Write_append)
  next
    case False
    have "batch_Write (f (h, v)) (batch_Write (f x) db) (CalcContractKey h) = batch_Write (f (h, v)) db (CalcContractKey h)" for v
      using other [OF False] by (simp add: batch_Write_at split: option.split)
    then show ?thesis using False IH other [OF False] by (cases x) (auto simp: batch_Write_append split: option.split)
  qed
qed (simp add: batch_Write_def)

lemma save_contracts_at:
  assumes "distinct (map fst detached)" "distinct (map fst attached)" "map_of detached = DetachEntries view" "map_of attached = AttachEntries view"
    "\<And>h. DetachEntries view h \<noteq> Some []"
  shows "save_contracts view detached attached db (CalcContractKey h) =
    (let d = db (CalcContractKey h) in
     case AttachEntries view h of
       Some a \<Rightarrow> if d = None \<or> DetachEntries view h = d then Some a else d
     | None \<Rightarrow> if DetachEntries view h = d then None else d)"
proof -
  have del: "batch_Write (concat (map (delete_contract db) detached)) db' (CalcContractKey h) =
      (if DetachEntries view h \<noteq> None \<and> DetachEntries view h = db (CalcContractKey h) then None else db' (CalcContractKey h))" for db'
    using assms(5) [of h]
    by (subst batch_concat [OF assms(1)])
      (auto simp: assms(3) delete_contract_def batch_Write_def split: if_splits option.splits)
  have sav: "batch_Write (concat (map (save_contract db view) attached)) db' (CalcContractKey h) =
      (case AttachEntries view h of
         Some a \<Rightarrow> if db (CalcContractKey h) = None \<or> DetachEntries view h = db (CalcContractKey h) then Some a else db' (CalcContractKey h)
       | None \<Rightarrow> db' (CalcContractKey h))" for db'
    using assms(5) [of h]
    by (subst batch_concat [OF assms(2)])
      (auto simp: assms(4) save_contract_def batch_Write_def Let_def split: if_splits option.splits)
  show ?thesis
    unfolding save_contracts_def saveContractView_def deleteContractView_def append_Nil batch_Write_append sav del Let_def
    by (auto split: option.splits)
qed

section \<open>The stored contracts are those of the chain\<close>

lemma registry_value:
  assumes "registry L txs h = Some v"
  obtains tx c where "tx \<in> set txs" "v = Byte32 (txID (ttTx tx)) @ c" "c \<noteq> []" "h = sha3_256 L c"
proof -
  have ne: "c \<noteq> []" if c: "c \<in> set (contracts_of out)" for c out
  proof -
    let ?p = "ocControlProgram (outCommitment out)"
    have b: "IsBCRPScript ?p" "ParseContract ?p = GoOk c"
      using c by (cases "IsBCRPScript ?p"; cases "ParseContract ?p"; simp add: contracts_of_def)+
    then obtain inst where "ParseProgram ?p = Inr inst" by (auto simp: IsBCRPScript_def split: sum.splits)
    then show ?thesis using b by (auto simp: IsBCRPScript_def ParseContract_def)
  qed
  have "(h, v) \<in> set (regs L txs)" using assms unfolding registry_def by (rule map_of_SomeD)
  then obtain tx c where "tx \<in> set txs" "c \<in> set (tx_contracts tx)" "h = sha3_256 L c" "v = Byte32 (txID (ttTx tx)) @ c"
    by (auto simp: regs_def tx_regs_def)
  then show ?thesis using that ne by (auto simp: tx_contracts_def)
qed

text \<open>
  C10. Registered contracts follow the chain. If the database holds, for every hash, the first registration on the old chain, then after a
  reorganisation that detaches some blocks and attaches others it holds the first registration on the new one, and \<^verbatim>\<open>getContract\<close>
  returns the contract of it. The range over the maps of the view may visit them in any order.
\<close>

theorem contracts_follow_chain:
  assumes "\<And>h. db (CalcContractKey h) = registry L (txs_of (common @ det)) h"
    "(\<lambda>tx. txID (ttTx tx)) ` set (txs_of common) \<inter> (\<lambda>tx. txID (ttTx tx)) ` set (txs_of det) = {}"
    "contracts_distinct L (txs_of det)" "reorganize_contracts L (rev det) att = Some view"
    "distinct (map fst detached)" "map_of detached = DetachEntries view"
    "distinct (map fst attached)" "map_of attached = AttachEntries view"
  shows "save_contracts view detached attached db (CalcContractKey h) = registry L (txs_of (common @ att)) h \<and>
    getContract (save_contracts view detached attached db) h = map_option (drop 32) (registry L (txs_of (common @ att)) h)"
proof -
  have v: "AttachEntries view = registry L (txs_of att)" "DetachEntries view = registry L (txs_of det)"
    using reorganize_contracts_eq [OF assms(3), of att] assms(4) by auto
  have ne: "DetachEntries view h \<noteq> Some []" for h
    using registry_value [of L "txs_of det" h "[]"] by (auto simp: v)
  have old: "db (CalcContractKey h) = (case registry L (txs_of common) h of Some x \<Rightarrow> Some x | None \<Rightarrow> registry L (txs_of det) h)"
    unfolding assms(1) by (simp add: txs_of_append registry_append map_add_def)
  have new: "registry L (txs_of (common @ att)) h = (case registry L (txs_of common) h of Some x \<Rightarrow> Some x | None \<Rightarrow> registry L (txs_of att) h)"
    by (simp add: txs_of_append registry_append map_add_def)
  have differ: "registry L (txs_of det) h \<noteq> Some x" if c: "registry L (txs_of common) h = Some x" for x
  proof
    assume d: "registry L (txs_of det) h = Some x"
    from registry_value [OF c] registry_value [OF d] obtain t u c c' where
      "t \<in> set (txs_of common)" "u \<in> set (txs_of det)" "Byte32 (txID (ttTx t)) @ c = Byte32 (txID (ttTx u)) @ c'" by metis
    then have "Byte32 (txID (ttTx t)) = Byte32 (txID (ttTx u))" by simp
    then show False using assms(2) \<open>t \<in> _\<close> \<open>u \<in> _\<close> by (auto simp: Byte32_inj)
  qed
  have eq: "save_contracts view detached attached db (CalcContractKey h) = registry L (txs_of (common @ att)) h"
    unfolding save_contracts_at [OF assms(5,7,6,8) ne] Let_def old new v
    using differ by (cases "registry L (txs_of common) h"; cases "registry L (txs_of att) h"; cases "registry L (txs_of det) h") simp_all
  moreover have "\<not> length x \<le> 32" if r: "registry L (txs_of (common @ att)) h = Some x" for x
  proof -
    from r obtain tx :: TypesTx and c where "x = Byte32 (txID (ttTx tx)) @ c" "c \<noteq> []" by (rule registry_value)
    then show ?thesis by (cases c) simp_all
  qed
  ultimately show ?thesis by (auto simp: getContract_def split: option.split)
qed

text \<open>A contract that both branches of the chain register.\<close>

definition reg_program :: bytes where
  "reg_program = concat [[OP_FAIL], PushDataBytes BCRP, PushDataBytes [Version], PushDataBytes [7]]"

definition reg_tx :: "u64 \<Rightarrow> TypesTx" where
  "reg_tx n =
     \<lparr>ttData = \<lparr>tdVersion = 1, tdSerializedSize = 1, tdTimeRange = 0, tdInputs = [],
        tdOutputs = [\<lparr>outAssetVersion = 1, outCommitment = \<lparr>ocAssetAmount = \<lparr>aaAssetId = Some BTMAssetID, aaAmount = 1\<rparr>, ocVMVersion = 1,
          ocControlProgram = reg_program, ocStateData = None\<rparr>, outCommitmentSuffix = [], outTyped = OriginalTxOutput\<rparr>]\<rparr>,
      ttTx = \<lparr>TxHeader_of = \<lparr>hdrVersion = 1, hdrSerializedSize = 1, hdrTimeRange = 0, hdrResultIds = []\<rparr>,
        txID = \<lparr>V0 = n, V1 = 0, V2 = 0, V3 = 0\<rparr>, Entries = Map.empty, InputIDs = [], SpentOutputIDs = []\<rparr>\<rparr>"

definition reg_block :: "u64 \<Rightarrow> ChainBlock" where
  "reg_block n =
     \<lparr>kbHeader = \<lparr>thVersion = 1, thHeight = 1, thPreviousBlockHash = zeroHash, thTimestamp = 0, thBlockWitness = [], thSupLinks = [],
        thTransactionsMerkleRoot = zeroHash\<rparr>, kbTransactions = [reg_tx n]\<rparr>"

lemma reg_program_contract: "IsBCRPScript reg_program" "ParseContract reg_program = GoOk [7]"
proof -
  have l: "length (PushDataBytes BCRP) = 5" "length (PushDataBytes [x]) = 2" for x
    by (simp_all add: PushDataBytes_def BCRP_def)
  have "ParseProgram reg_program = Inr [\<lparr>Op = OP_FAIL, Len = 1, Data = []\<rparr>, data_inst BCRP, data_inst [Version], data_inst [7]]"
    unfolding reg_program_def using l by (intro ParseProgram_parses) (simp_all add: parses_PushDataBytes)
  moreover have "Op (data_inst BCRP) = OP_DATA 4" "Op (data_inst [Version]) = OP_DATA 1"
    using Op_data_inst [of BCRP] Op_data_inst [of "[Version]"] by (simp_all add: BCRP_def numeral_eq_Suc)
  ultimately show "IsBCRPScript reg_program" "ParseContract reg_program = GoOk [7]"
    by (simp_all add: IsBCRPScript_def ParseContract_def)
qed

lemma reg_contracts: "tx_contracts (reg_tx n) = [[7]]"
  by (simp add: tx_contracts_def contracts_of_def reg_tx_def reg_program_contract)

lemma contracts_follow_chain_witness:
  "\<exists>view. reorganize_contracts sample_lib [reg_block 1] [reg_block 2] = Some view \<and>
     getContract (save_contracts view [(sha3_256 sample_lib [7], Byte32 (txID (ttTx (reg_tx 1))) @ [7])]
         [(sha3_256 sample_lib [7], Byte32 (txID (ttTx (reg_tx 2))) @ [7])]
         [CalcContractKey (sha3_256 sample_lib [7]) \<mapsto> Byte32 (txID (ttTx (reg_tx 1))) @ [7]]) (sha3_256 sample_lib [7]) = Some [7]"
proof -
  have r: "registry sample_lib [reg_tx n] = [sha3_256 sample_lib [7] \<mapsto> Byte32 (txID (ttTx (reg_tx n))) @ [7]]" for n
    by (simp add: registry_def regs_def tx_regs_def reg_contracts)
  have t: "txs_of [reg_block n] = [reg_tx n]" for n by (simp add: txs_of_def reg_block_def)
  have d: "contracts_distinct sample_lib (txs_of [reg_block 1])" by (simp add: t contracts_distinct_def reg_contracts)
  let ?v = "\<lparr>AttachEntries = registry sample_lib (txs_of [reg_block 2]), DetachEntries = registry sample_lib (txs_of [reg_block 1])\<rparr>"
  have v: "reorganize_contracts sample_lib (rev [reg_block 1]) [reg_block 2] = Some ?v" by (rule reorganize_contracts_eq [OF d])
  have "getContract (save_contracts ?v [(sha3_256 sample_lib [7], Byte32 (txID (ttTx (reg_tx 1))) @ [7])]
         [(sha3_256 sample_lib [7], Byte32 (txID (ttTx (reg_tx 2))) @ [7])]
         [CalcContractKey (sha3_256 sample_lib [7]) \<mapsto> Byte32 (txID (ttTx (reg_tx 1))) @ [7]]) (sha3_256 sample_lib [7]) =
       map_option (drop 32) (registry sample_lib (txs_of ([] @ [reg_block 2])) (sha3_256 sample_lib [7]))"
    by (rule contracts_follow_chain [OF _ _ d v, THEN conjunct2]) (simp_all add: t r txs_of_def [of "[]"])
  also have "\<dots> = Some [7]" by (simp add: t r)
  finally show ?thesis using v by auto
qed

end
