(* ===== verification/Mempool.thy ===== *)
theory Mempool
  imports ContractView Casper Validation
begin

text \<open>
  The pool of unconfirmed transactions, \<^verbatim>\<open>protocol/txpool.go\<close>, and \<^verbatim>\<open>Chain.ValidateTx\<close> of \<^verbatim>\<open>protocol/tx.go\<close>, its client. Maps are
  lists of pairs; a range over a map visits it in the order of the list. Time is a number, the current one is an argument. The
  cache of errors is keyed by the addresses of the hashes it is asked for, as in the code, where the key is a
  pointer; an address is a natural number.
\<close>

section \<open>Data\<close>

record TxDesc =
  dTx :: TypesTx
  dAdded :: int
  dHeight :: u64
  dWeight :: u64
  dFee :: u64

record orphanTx =
  oDesc :: TxDesc
  oExpiration :: int

datatype pool_msg = MsgNewTx TxDesc | MsgRemoveTx TxDesc

datatype pool_err = ErrTransactionNotExist | ErrPoolIsFull | ErrDustTx | ErrPoolStore utxo_err | ErrPoolTx val_err

datatype 'a presult = POk 'a | PErr pool_err | PPanic | PFuel

record TxPool =
  lastUpdated :: int
  pool :: "(Hash \<times> TxDesc) list"
  pUtxo :: "(Hash \<times> TypesTx) list"
  orphans :: "(Hash \<times> orphanTx) list"
  orphansByPrev :: "(Hash \<times> (Hash \<times> orphanTx) list) list"
  errCache :: "(nat, pool_err) Cache"
  pPosted :: "pool_msg list"

definition maxCachedErrTxs :: nat where
  "maxCachedErrTxs = 1000"

definition maxNewTxNum :: nat where
  "maxNewTxNum = 10000"

definition maxOrphanNum :: nat where
  "maxOrphanNum = 2000"

text \<open>Ten minutes, in nanoseconds.\<close>

definition orphanTTL :: int where
  "orphanTTL = 600000000000"

definition NewTxPool :: "int \<Rightarrow> TxPool" where
  "NewTxPool now = \<lparr>lastUpdated = now, pool = [], pUtxo = [], orphans = [], orphansByPrev = [], errCache = [], pPosted = []\<rparr>"

section \<open>The cache of errors\<close>

definition AddErrCache :: "nat \<Rightarrow> pool_err \<Rightarrow> TxPool \<Rightarrow> TxPool" where
  "AddErrCache txHash e tp = tp\<lparr>errCache := Cache_Add maxCachedErrTxs txHash e (errCache tp)\<rparr>"

definition GetErrCache :: "nat \<Rightarrow> TxPool \<Rightarrow> pool_err option \<times> TxPool" where
  "GetErrCache txHash tp = (case Cache_Get txHash (errCache tp) of (v, c) \<Rightarrow> (v, tp\<lparr>errCache := c\<rparr>))"

definition IsTransactionInErrCache :: "nat \<Rightarrow> TxPool \<Rightarrow> bool \<times> TxPool" where
  "IsTransactionInErrCache txHash tp = (case Cache_Get txHash (errCache tp) of (v, c) \<Rightarrow> (v \<noteq> None, tp\<lparr>errCache := c\<rparr>))"

section \<open>Transactions of the pool\<close>

text \<open>The results of a transaction; the loops dereference the pointers, \<open>None\<close> is a nil one.\<close>

definition result_ids :: "TypesTx \<Rightarrow> Hash list option" where
  "result_ids tx = those (hdrResultIds (TxHeader_of (ttTx tx)))"

definition RemoveTransaction :: "int \<Rightarrow> Hash \<Rightarrow> TxPool \<Rightarrow> unit presult \<times> TxPool" where
  "RemoveTransaction now txHash tp =
     (case map_of (pool tp) txHash of
        None \<Rightarrow> (POk (), tp)
      | Some txD \<Rightarrow>
          (case result_ids (dTx txD) of
             None \<Rightarrow> (PPanic, tp)
           | Some outs \<Rightarrow>
               (POk (), tp\<lparr>pUtxo := fold AList.delete outs (pUtxo tp), pool := AList.delete txHash (pool tp), lastUpdated := now,
                  pPosted := pPosted tp @ [MsgRemoveTx txD]\<rparr>)))"

definition GetTransaction :: "Hash \<Rightarrow> TxPool \<Rightarrow> TxDesc presult" where
  "GetTransaction txHash tp = (case map_of (pool tp) txHash of Some txD \<Rightarrow> POk txD | None \<Rightarrow> PErr ErrTransactionNotExist)"

definition GetTransactions :: "TxPool \<Rightarrow> TxDesc list" where
  "GetTransactions tp = map snd (pool tp)"

definition IsTransactionInPool :: "Hash \<Rightarrow> TxPool \<Rightarrow> bool" where
  "IsTransactionInPool txHash tp = (map_of (pool tp) txHash \<noteq> None)"

definition HaveTransaction :: "nat \<times> Hash \<Rightarrow> TxPool \<Rightarrow> bool \<times> TxPool" where
  "HaveTransaction txHash tp =
     (if IsTransactionInPool (snd txHash) tp then (True, tp) else IsTransactionInErrCache (fst txHash) tp)"

text \<open>\<open>None\<close> is a panic: an input without a type or without an asset.\<close>

primrec no_btm_input :: "lib \<Rightarrow> bytes TxInput list \<Rightarrow> bool option" where
  "no_btm_input L [] = Some True"
| "no_btm_input L (t # l) =
     (case inTyped t of
        None \<Rightarrow> None
      | Some x \<Rightarrow>
          (case input_value L id x of
             None \<Rightarrow> None
           | Some (a, n) \<Rightarrow> if a = BTMAssetID then Some False else no_btm_input L l))"

definition isTransactionNoBtmInput :: "lib \<Rightarrow> TypesTx \<Rightarrow> bool option" where
  "isTransactionNoBtmInput L tx = no_btm_input L (tdInputs (ttData tx))"

definition isTransactionZeroOutput :: "TypesTx \<Rightarrow> bool" where
  "isTransactionZeroOutput tx = list_ex (\<lambda>out. aaAmount (ocAssetAmount (outCommitment out)) = 0) (tdOutputs (ttData tx))"

definition isInvalidBCRPTx :: "TypesTx \<Rightarrow> bool" where
  "isInvalidBCRPTx tx = list_ex (\<lambda>out. IsBCRPScript (ocControlProgram (outCommitment out))) (tdOutputs (ttData tx))"

definition IsDust :: "lib \<Rightarrow> TypesTx \<Rightarrow> bool option" where
  "IsDust L tx =
     (case isTransactionNoBtmInput L tx of
        None \<Rightarrow> None
      | Some b \<Rightarrow> Some (b \<or> isTransactionZeroOutput tx \<or> isInvalidBCRPTx tx))"

text \<open>
  The outputs that \<open>tx\<close> spends and that are neither stored nor in the pool. The loop appends the address of its variable, so
  all elements of the result have the value that the variable has after the loop.
\<close>

definition checkOrphanUtxos :: "codec_lib \<Rightarrow> database \<Rightarrow> TypesTx \<Rightarrow> TxPool \<Rightarrow> Hash list presult" where
  "checkOrphanUtxos P db tx tp =
     (case getTransactionsUtxo P db [ttTx tx] Map.empty of
        (UOk, view) \<Rightarrow>
          let missing = filter (\<lambda>h. \<not> CanSpend view h \<and> map_of (pUtxo tp) h = None) (SpentOutputIDs (ttTx tx)) in
          POk (replicate (length missing) (last (SpentOutputIDs (ttTx tx))))
      | (UErr e, _) \<Rightarrow> PErr (ErrPoolStore e)
      | (UPanic, _) \<Rightarrow> PPanic)"

text \<open>The value of a map whose missing entries are created empty.\<close>

definition add_by_prev :: "Hash \<Rightarrow> orphanTx \<Rightarrow> Hash \<Rightarrow> (Hash \<times> (Hash \<times> orphanTx) list) list \<Rightarrow> (Hash \<times> (Hash \<times> orphanTx) list) list" where
  "add_by_prev txId orphan hash m =
     AList.update hash (AList.update txId orphan (case map_of m hash of None \<Rightarrow> [] | Some x \<Rightarrow> x)) m"

definition addOrphan :: "int \<Rightarrow> TxDesc \<Rightarrow> Hash list \<Rightarrow> TxPool \<Rightarrow> unit presult \<times> TxPool" where
  "addOrphan now txD requireParents tp =
     (if length (orphans tp) \<ge> maxOrphanNum then (PErr ErrPoolIsFull, tp)
      else
        let orphan = \<lparr>oDesc = txD, oExpiration = now + orphanTTL\<rparr>; txId = txID (ttTx (dTx txD)) in
        (POk (), tp\<lparr>orphans := AList.update txId orphan (orphans tp),
           orphansByPrev := fold (add_by_prev txId orphan) requireParents (orphansByPrev tp)\<rparr>))"

definition addTransaction :: "int \<Rightarrow> TxDesc \<Rightarrow> TxPool \<Rightarrow> unit presult \<times> TxPool" where
  "addTransaction now txD tp =
     (if length (pool tp) \<ge> maxNewTxNum then (PErr ErrPoolIsFull, tp)
      else
        let tx = dTx txD; txD' = txD\<lparr>dAdded := now\<rparr> in
        case result_ids tx of
          None \<Rightarrow> (PPanic, tp)
        | Some ids \<Rightarrow>
            (POk (), tp\<lparr>pool := AList.update (txID (ttTx tx)) txD' (pool tp),
               pUtxo := fold (\<lambda>i. AList.update i tx) (filter (\<lambda>i. \<not> isl (tx_OriginalOutput (ttTx tx) i)) ids) (pUtxo tp),
               lastUpdated := now, pPosted := pPosted tp @ [MsgNewTx txD']\<rparr>))"

text \<open>Deletion from the inner map; an empty one is deleted from the outer map.\<close>

definition drop_by_prev :: "Hash \<Rightarrow> Hash \<Rightarrow> (Hash \<times> (Hash \<times> orphanTx) list) list \<Rightarrow> (Hash \<times> (Hash \<times> orphanTx) list) list" where
  "drop_by_prev hash spend m =
     (case map_of m spend of
        None \<Rightarrow> m
      | Some os \<Rightarrow>
          let os' = AList.delete hash os in if os' = [] then AList.delete spend m else AList.update spend os' m)"

definition removeOrphan :: "Hash \<Rightarrow> TxPool \<Rightarrow> TxPool" where
  "removeOrphan hash tp =
     (case map_of (orphans tp) hash of
        None \<Rightarrow> tp
      | Some orphan \<Rightarrow>
          tp\<lparr>orphansByPrev := fold (drop_by_prev hash) (SpentOutputIDs (ttTx (dTx (oDesc orphan)))) (orphansByPrev tp),
             orphans := AList.delete hash (orphans tp)\<rparr>)"

definition ExpireOrphan :: "int \<Rightarrow> TxPool \<Rightarrow> TxPool" where
  "ExpireOrphan now tp =
     fold (\<lambda>(hash, orphan). if oExpiration orphan < now then removeOrphan hash else id) (orphans tp) tp"

text \<open>The closure \<^verbatim>\<open>addRely\<close>: the orphans that wait for an output of \<open>tx\<close>, which are no longer filed under it.\<close>

definition rely_step :: "Hash \<Rightarrow> orphanTx list \<times> TxPool \<Rightarrow> orphanTx list \<times> TxPool" where
  "rely_step outHash qt =
     (case qt of (queue, tp) \<Rightarrow>
        (case map_of (orphansByPrev tp) outHash of
           None \<Rightarrow> (queue, tp)
         | Some os \<Rightarrow> (queue @ map snd os, tp\<lparr>orphansByPrev := AList.delete outHash (orphansByPrev tp)\<rparr>)))"

definition addRely :: "Hash list \<Rightarrow> TxPool \<Rightarrow> orphanTx list \<times> TxPool" where
  "addRely ids tp = fold rely_step ids ([], tp)"

text \<open>
  The loop over the queue of orphans to process; the first argument bounds the number of iterations. An error of
  \<^verbatim>\<open>addTransaction\<close> is not looked at.
\<close>

primrec process_queue :: "nat \<Rightarrow> codec_lib \<Rightarrow> database \<Rightarrow> int \<Rightarrow> orphanTx list \<Rightarrow> TxPool \<Rightarrow> unit presult \<times> TxPool" where
  "process_queue 0 P db now queue tp = (if queue = [] then (POk (), tp) else (PFuel, tp))"
| "process_queue (Suc n) P db now queue tp =
     (case queue of
        [] \<Rightarrow> (POk (), tp)
      | o1 # rest \<Rightarrow>
          let tx = dTx (oDesc o1) in
          (case checkOrphanUtxos P db tx tp of
             POk requireParents \<Rightarrow>
               if requireParents = [] then
                 (case result_ids tx of
                    None \<Rightarrow> (PPanic, tp)
                  | Some ids \<Rightarrow>
                      (case addRely ids tp of
                         (relying, tp1) \<Rightarrow>
                           process_queue n P db now (rest @ relying) (snd (addTransaction now (oDesc o1) (removeOrphan (txID (ttTx tx)) tp1)))))
               else process_queue n P db now rest tp
           | PErr e \<Rightarrow> process_queue n P db now rest tp
           | PPanic \<Rightarrow> (PPanic, tp)
           | PFuel \<Rightarrow> (PFuel, tp)))"

definition processOrphans :: "nat \<Rightarrow> codec_lib \<Rightarrow> database \<Rightarrow> int \<Rightarrow> TxDesc \<Rightarrow> TxPool \<Rightarrow> unit presult \<times> TxPool" where
  "processOrphans n P db now txD tp =
     (case result_ids (dTx txD) of
        None \<Rightarrow> (PPanic, tp)
      | Some ids \<Rightarrow> (case addRely ids tp of (queue, tp1) \<Rightarrow> process_queue n P db now queue tp1))"

text \<open>The result tells whether the transaction is an orphan.\<close>

definition processTransaction :: "nat \<Rightarrow> codec_lib \<Rightarrow> database \<Rightarrow> int \<Rightarrow> TypesTx \<Rightarrow> u64 \<Rightarrow> u64 \<Rightarrow> TxPool \<Rightarrow> bool presult \<times> TxPool" where
  "processTransaction n P db now tx height fee tp =
     (let txD = \<lparr>dTx = tx, dAdded = 0, dHeight = height, dWeight = tdSerializedSize (ttData tx), dFee = fee\<rparr> in
      case checkOrphanUtxos P db tx tp of
        POk requireParents \<Rightarrow>
          if requireParents \<noteq> [] then
            (case addOrphan now txD requireParents tp of
               (POk _, tp1) \<Rightarrow> (POk True, tp1)
             | (PErr e, tp1) \<Rightarrow> (PErr e, tp1)
             | (PPanic, tp1) \<Rightarrow> (PPanic, tp1)
             | (PFuel, tp1) \<Rightarrow> (PFuel, tp1))
          else
            (case addTransaction now txD tp of
               (POk _, tp1) \<Rightarrow>
                 (case processOrphans n P db now (txD\<lparr>dAdded := now\<rparr>) tp1 of
                    (POk _, tp2) \<Rightarrow> (POk False, tp2)
                  | (PErr e, tp2) \<Rightarrow> (PErr e, tp2)
                  | (PPanic, tp2) \<Rightarrow> (PPanic, tp2)
                  | (PFuel, tp2) \<Rightarrow> (PFuel, tp2))
             | (PErr e, tp1) \<Rightarrow> (PErr e, tp1)
             | (PPanic, tp1) \<Rightarrow> (PPanic, tp1)
             | (PFuel, tp1) \<Rightarrow> (PFuel, tp1))
      | PErr e \<Rightarrow> (PErr e, tp)
      | PPanic \<Rightarrow> (PPanic, tp)
      | PFuel \<Rightarrow> (PFuel, tp))"

definition ProcessTransaction ::
  "nat \<Rightarrow> lib \<Rightarrow> codec_lib \<Rightarrow> database \<Rightarrow> int \<Rightarrow> TypesTx \<Rightarrow> u64 \<Rightarrow> u64 \<Rightarrow> TxPool \<Rightarrow> bool presult \<times> TxPool" where
  "ProcessTransaction n L P db now tx height fee tp =
     (case IsDust L tx of
        None \<Rightarrow> (PPanic, tp)
      | Some True \<Rightarrow> (POk False, tp)
      | Some False \<Rightarrow> processTransaction n P db now tx height fee tp)"

section \<open>tx.go\<close>

text \<open>
  \<^verbatim>\<open>Chain.ValidateTx\<close>, with the address of the identifier of the transaction, the store that its programs live in and the
  header of the best block. The environment is the one of validation; transaction and block are filled in here. Programs
  may change the store, which is returned.
\<close>

definition Chain_ValidateTx ::
  "nat \<Rightarrow> nat \<Rightarrow> valEnv \<Rightarrow> codec_lib \<Rightarrow> database \<Rightarrow> int \<Rightarrow> TypesBlockHeader \<Rightarrow> nat \<Rightarrow> TypesTx \<Rightarrow> store \<times> TxPool \<Rightarrow>
   bool presult \<times> store \<times> TxPool" where
  "Chain_ValidateTx n k E P db now bh addr tx stp =
     (case stp of (st, tp) \<Rightarrow>
        (case HaveTransaction (addr, txID (ttTx tx)) tp of
           (True, tp1) \<Rightarrow>
             (case GetErrCache addr tp1 of (None, tp2) \<Rightarrow> (POk False, st, tp2) | (Some e, tp2) \<Rightarrow> (PErr e, st, tp2))
         | (False, tp1) \<Rightarrow>
             (case IsDust (eLib E) tx of
                None \<Rightarrow> (PPanic, st, tp1)
              | Some True \<Rightarrow> (PErr ErrDustTx, st, AddErrCache addr ErrDustTx tp1)
              | Some False \<Rightarrow>
                  let header = snd (mapBlockHeader (eLib E) bh);
                      block = \<lparr>blkHeader = header, blkID = BlockHeader_Hash (eLib E) bh, blkTransactions = []\<rparr> in
                  (case ValidateTx n (E\<lparr>eTx := ttTx tx, eBlock := block, eConverter := ProgramConverter db\<rparr>) st of
                     (VOk g, st1) \<Rightarrow>
                       (case ProcessTransaction k (eLib E) P db now tx (thHeight bh) (BTMValue g) tp1 of (r, tp2) \<Rightarrow> (r, st1, tp2))
                   | (VErr e, st1) \<Rightarrow> (PErr (ErrPoolTx e), st1, AddErrCache addr (ErrPoolTx e) tp1)
                   | (VPanic, st1) \<Rightarrow> (PPanic, st1, tp1)
                   | (VNoFuel, st1) \<Rightarrow> (PFuel, st1, tp1)))))"

end
