(* ===== verification/MempoolProps.thy ===== *)
theory MempoolProps
  imports Mempool VmEval
begin

text \<open>
  The invariant of the pool of transactions and of its orphans, kept by everything a client can call; that the loop
  over the orphans ends; and what is wrong with the way orphans are filed.
\<close>

section \<open>Association lists\<close>

lemma set_update_sub: "set (AList.update k v al) \<subseteq> insert (k, v) (set al)"
  by (induction al) auto

lemma keys_update: "fst ` set (AList.update k v al) = insert k (fst ` set al)"
  by (induction al) auto

lemma length_update_le: "length (AList.update k v al) \<le> Suc (length al)"
  by (induction al) auto

lemma set_delete_iff: "x \<in> set (AList.delete k al) \<longleftrightarrow> x \<in> set al \<and> fst x \<noteq> k"
  by (auto simp: AList.delete_eq)

lemma length_delete_le: "length (AList.delete k al) \<le> length al"
  by (simp add: AList.delete_eq)

lemma set_fold_delete: "x \<in> set (fold AList.delete ks al) \<longleftrightarrow> x \<in> set al \<and> fst x \<notin> set ks"
  by (induction ks arbitrary: al) (auto simp: set_delete_iff)

lemma set_fold_update: "set (fold (\<lambda>k. AList.update k v) ks al) \<subseteq> set al \<union> {(k, v) | k. k \<in> set ks}"
  by (induction ks arbitrary: al) (use set_update_sub in fastforce)+

lemma mem_update: "x \<in> set (AList.update k v al) \<Longrightarrow> x = (k, v) \<or> x \<in> set al"
  using set_update_sub by fastforce

lemma update_not_Nil [simp]: "AList.update k v al \<noteq> []"
  by (cases al) auto

lemma map_of_None_notin: "map_of m k = None \<Longrightarrow> (k, v) \<notin> set m"
  by (auto simp: map_of_eq_None_iff image_iff)

section \<open>The invariant\<close>

text \<open>An identifier determines the mapped transaction.\<close>

definition tx_known :: "(Hash \<Rightarrow> Tx) \<Rightarrow> TypesTx \<Rightarrow> bool" where
  "tx_known K tx \<longleftrightarrow> ttTx tx = K (txID (ttTx tx))"

definition filed_ok :: "(Hash \<Rightarrow> Tx) \<Rightarrow> (Hash \<times> orphanTx) list \<Rightarrow> (Hash \<times> (Hash \<times> orphanTx) list) list \<Rightarrow> bool" where
  "filed_ok K os m \<longleftrightarrow>
     distinct (map fst m) \<and>
     (\<forall>(h, l) \<in> set m. l \<noteq> [] \<and> distinct (map fst l) \<and>
        (\<forall>(i, o1) \<in> set l. txID (ttTx (dTx (oDesc o1))) = i \<and> tx_known K (dTx (oDesc o1)) \<and> i \<in> fst ` set os \<and> h \<in> set (SpentOutputIDs (K i))))"

definition pool_ok :: "(Hash \<Rightarrow> Tx) \<Rightarrow> (Hash \<times> TxDesc) list \<Rightarrow> (Hash \<times> TypesTx) list \<Rightarrow> bool" where
  "pool_ok K p u \<longleftrightarrow>
     length p \<le> maxNewTxNum \<and> distinct (map fst p) \<and>
     (\<forall>(k, d) \<in> set p. txID (ttTx (dTx d)) = k \<and> tx_known K (dTx d)) \<and>
     (\<forall>(i, tx) \<in> set u. tx_known K tx \<and> txID (ttTx tx) \<in> fst ` set p \<and>
        Some i \<in> set (hdrResultIds (TxHeader_of (ttTx tx))) \<and> \<not> isl (tx_OriginalOutput (ttTx tx) i))"

definition orphans_ok :: "(Hash \<Rightarrow> Tx) \<Rightarrow> (Hash \<times> orphanTx) list \<Rightarrow> (Hash \<times> (Hash \<times> orphanTx) list) list \<Rightarrow> bool" where
  "orphans_ok K os m \<longleftrightarrow>
     length os \<le> maxOrphanNum \<and> distinct (map fst os) \<and>
     (\<forall>(k, o1) \<in> set os. txID (ttTx (dTx (oDesc o1))) = k \<and> tx_known K (dTx (oDesc o1))) \<and> filed_ok K os m"

definition pool_inv :: "(Hash \<Rightarrow> Tx) \<Rightarrow> TxPool \<Rightarrow> bool" where
  "pool_inv K tp \<longleftrightarrow>
     pool_ok K (pool tp) (pUtxo tp) \<and> orphans_ok K (orphans tp) (orphansByPrev tp) \<and> length (errCache tp) \<le> maxCachedErrTxs"

lemma NewTxPool_inv: "pool_inv K (NewTxPool now)"
  by (simp add: pool_inv_def NewTxPool_def filed_ok_def pool_ok_def orphans_ok_def)

lemma result_ids_Some: "result_ids tx = Some ids \<Longrightarrow> hdrResultIds (TxHeader_of (ttTx tx)) = map Some ids"
proof -
  have "those l = Some ids \<Longrightarrow> l = map Some ids" for l :: "Hash option list" and ids
    by (induction l arbitrary: ids) (auto split: option.splits)
  then show "result_ids tx = Some ids \<Longrightarrow> ?thesis" by (simp add: result_ids_def)
qed

lemma tx_known_eq: "tx_known K tx \<Longrightarrow> tx_known K tx' \<Longrightarrow> txID (ttTx tx) = txID (ttTx tx') \<Longrightarrow> ttTx tx = ttTx tx'"
  by (simp add: tx_known_def)

lemma pool_okD:
  assumes "pool_ok K p u"
  shows "(k, d) \<in> set p \<Longrightarrow> txID (ttTx (dTx d)) = k" "(k, d) \<in> set p \<Longrightarrow> tx_known K (dTx d)"
    "(i, tx) \<in> set u \<Longrightarrow> tx_known K tx" "(i, tx) \<in> set u \<Longrightarrow> txID (ttTx tx) \<in> fst ` set p"
    "(i, tx) \<in> set u \<Longrightarrow> Some i \<in> set (hdrResultIds (TxHeader_of (ttTx tx)))" "(i, tx) \<in> set u \<Longrightarrow> \<not> isl (tx_OriginalOutput (ttTx tx) i)"
  using assms by (auto simp: pool_ok_def)

lemma pool_okI:
  assumes "length p \<le> maxNewTxNum" "distinct (map fst p)"
    "\<And>k d. (k, d) \<in> set p \<Longrightarrow> txID (ttTx (dTx d)) = k \<and> tx_known K (dTx d)"
    "\<And>i tx. (i, tx) \<in> set u \<Longrightarrow> tx_known K tx \<and> txID (ttTx tx) \<in> fst ` set p \<and>
        Some i \<in> set (hdrResultIds (TxHeader_of (ttTx tx))) \<and> \<not> isl (tx_OriginalOutput (ttTx tx) i)"
  shows "pool_ok K p u"
  using assms unfolding pool_ok_def by blast

lemma pool_ok_delete:
  assumes "pool_ok K p u" "map_of p h = Some d" "result_ids (dTx d) = Some ids"
  shows "pool_ok K (AList.delete h p) (fold AList.delete ids u)"
proof (rule pool_okI)
  have d: "txID (ttTx (dTx d)) = h" "tx_known K (dTx d)" using pool_okD(1,2) [OF assms(1) map_of_SomeD [OF assms(2)]] by auto
  show "length (AList.delete h p) \<le> maxNewTxNum" using assms(1) length_delete_le [of h p] by (simp add: pool_ok_def)
  show "distinct (map fst (AList.delete h p))" using assms(1) by (simp add: pool_ok_def distinct_delete)
  show "txID (ttTx (dTx e)) = k \<and> tx_known K (dTx e)" if "(k, e) \<in> set (AList.delete h p)" for k e
    using pool_okD(1,2) [OF assms(1), of k e] that by (simp add: set_delete_iff)
  fix i tx assume "(i, tx) \<in> set (fold AList.delete ids u)"
  then have i: "(i, tx) \<in> set u" "i \<notin> set ids" by (simp_all add: set_fold_delete)
  note r = pool_okD(3-6) [OF assms(1) i(1)]
  have "txID (ttTx tx) \<noteq> h"
  proof
    assume "txID (ttTx tx) = h"
    then have "ttTx tx = ttTx (dTx d)" using tx_known_eq [OF r(1) d(2)] d(1) by simp
    then show False using i(2) r(3) result_ids_Some [OF assms(3)] by auto
  qed
  then have "txID (ttTx tx) \<in> fst ` set (AList.delete h p)" using r(2) by (auto simp: set_delete_iff image_iff)
  then show "tx_known K tx \<and> txID (ttTx tx) \<in> fst ` set (AList.delete h p) \<and>
      Some i \<in> set (hdrResultIds (TxHeader_of (ttTx tx))) \<and> \<not> isl (tx_OriginalOutput (ttTx tx) i)"
    using r by blast
qed

lemma RemoveTransaction_inv: "pool_inv K tp \<Longrightarrow> pool_inv K (snd (RemoveTransaction now h tp))"
  using pool_ok_delete [of K "pool tp" "pUtxo tp" h]
  by (auto simp: RemoveTransaction_def pool_inv_def split: option.split)

lemma pool_ok_add:
  assumes "pool_ok K p u" "length p < maxNewTxNum" "tx_known K (dTx d)" "txID (ttTx (dTx d)) = h" "result_ids (dTx d) = Some ids"
  shows "pool_ok K (AList.update h d p) (fold (\<lambda>i. AList.update i (dTx d)) (filter (\<lambda>i. \<not> isl (tx_OriginalOutput (ttTx (dTx d)) i)) ids) u)"
    (is "pool_ok K ?p ?u")
proof (rule pool_okI)
  show "length ?p \<le> maxNewTxNum" using length_update_le [of h d p] assms(2) by simp
  show "distinct (map fst ?p)" using assms(1) by (simp add: pool_ok_def distinct_update)
  show "txID (ttTx (dTx e)) = k \<and> tx_known K (dTx e)" if "(k, e) \<in> set ?p" for k e
    using mem_update [OF that] assms(3,4) pool_okD(1,2) [OF assms(1), of k e] by auto
  have keys: "fst ` set ?p = insert h (fst ` set p)" by (rule keys_update)
  fix i tx assume "(i, tx) \<in> set ?u"
  then have "(i, tx) \<in> set u \<union> {(k, dTx d) | k. k \<in> set (filter (\<lambda>i. \<not> isl (tx_OriginalOutput (ttTx (dTx d)) i)) ids)}"
    by (rule subsetD [OF set_fold_update])
  then consider "(i, tx) \<in> set u" | "tx = dTx d" "i \<in> set ids" "\<not> isl (tx_OriginalOutput (ttTx (dTx d)) i)" by auto
  then show "tx_known K tx \<and> txID (ttTx tx) \<in> fst ` set ?p \<and>
      Some i \<in> set (hdrResultIds (TxHeader_of (ttTx tx))) \<and> \<not> isl (tx_OriginalOutput (ttTx tx) i)"
  proof cases
    case 1 then show ?thesis using pool_okD(3-6) [OF assms(1) 1] keys by blast
  next
    case 2 then show ?thesis using assms(3,4) keys result_ids_Some [OF assms(5)] by auto
  qed
qed

lemma addTransaction_inv:
  assumes "pool_inv K tp" "tx_known K (dTx d)"
  shows "pool_inv K (snd (addTransaction now d tp))"
proof (cases "length (pool tp) \<ge> maxNewTxNum")
  case False
  then show ?thesis
    using assms pool_ok_add [of K "pool tp" "pUtxo tp" "d\<lparr>dAdded := now\<rparr>"]
    by (auto simp: addTransaction_def pool_inv_def Let_def split: option.split)
qed (use assms in \<open>simp add: addTransaction_def\<close>)

section \<open>Orphans\<close>

lemma filed_okD:
  assumes "filed_ok K os m" "(h, l) \<in> set m"
  shows "l \<noteq> []" "distinct (map fst l)" "(i, o1) \<in> set l \<Longrightarrow> txID (ttTx (dTx (oDesc o1))) = i"
    "(i, o1) \<in> set l \<Longrightarrow> tx_known K (dTx (oDesc o1))" "(i, o1) \<in> set l \<Longrightarrow> i \<in> fst ` set os" "(i, o1) \<in> set l \<Longrightarrow> h \<in> set (SpentOutputIDs (K i))"
  using assms unfolding filed_ok_def by blast+

lemma filed_okI:
  assumes "distinct (map fst m)" "\<And>h l. (h, l) \<in> set m \<Longrightarrow> l \<noteq> []" "\<And>h l. (h, l) \<in> set m \<Longrightarrow> distinct (map fst l)"
    "\<And>h l i o1. (h, l) \<in> set m \<Longrightarrow> (i, o1) \<in> set l \<Longrightarrow>
       txID (ttTx (dTx (oDesc o1))) = i \<and> tx_known K (dTx (oDesc o1)) \<and> i \<in> fst ` set os \<and> h \<in> set (SpentOutputIDs (K i))"
  shows "filed_ok K os m"
  using assms unfolding filed_ok_def by blast

lemma filed_ok_distinct: "filed_ok K os m \<Longrightarrow> distinct (map fst m)"
  by (simp add: filed_ok_def)

lemma filed_ok_delete: "filed_ok K os m \<Longrightarrow> filed_ok K os (AList.delete h m)"
  by (simp add: filed_ok_def distinct_delete set_delete_iff)

lemma filed_ok_mono: "filed_ok K os m \<Longrightarrow> fst ` set os \<subseteq> fst ` set os' \<Longrightarrow> filed_ok K os' m"
  by (rule filed_okI) (auto dest: filed_okD filed_ok_distinct)

lemma filed_ok_update:
  assumes "filed_ok K os m" "l \<noteq> []" "distinct (map fst l)"
    "\<And>i o1. (i, o1) \<in> set l \<Longrightarrow>
       txID (ttTx (dTx (oDesc o1))) = i \<and> tx_known K (dTx (oDesc o1)) \<and> i \<in> fst ` set os \<and> h \<in> set (SpentOutputIDs (K i))"
  shows "filed_ok K os (AList.update h l m)"
proof (rule filed_okI)
  show "distinct (map fst (AList.update h l m))" using assms(1) by (simp add: filed_ok_distinct distinct_update)
  fix h' l' assume "(h', l') \<in> set (AList.update h l m)"
  then consider "h' = h" "l' = l" | "(h', l') \<in> set m" using mem_update by fastforce
  note c = this
  from c show "l' \<noteq> []" using assms(2) filed_okD(1) [OF assms(1)] by cases blast+
  from c show "distinct (map fst l')" using assms(3) filed_okD(2) [OF assms(1)] by cases blast+
  fix i o1 assume io: "(i, o1) \<in> set l'"
  from c show "txID (ttTx (dTx (oDesc o1))) = i \<and> tx_known K (dTx (oDesc o1)) \<and> i \<in> fst ` set os \<and> h' \<in> set (SpentOutputIDs (K i))"
  proof cases
    case 1 then show ?thesis using assms(4) io by blast
  next
    case 2 then show ?thesis using filed_okD(3-6) [OF assms(1) 2 io] by blast
  qed
qed

lemma add_by_prev_ok:
  assumes "filed_ok K os m" "txID (ttTx (dTx (oDesc o1))) = i" "tx_known K (dTx (oDesc o1))" "i \<in> fst ` set os" "h \<in> set (SpentOutputIDs (K i))"
  shows "filed_ok K os (add_by_prev i o1 h m)"
proof -
  define l where "l = (case map_of m h of None \<Rightarrow> [] | Some x \<Rightarrow> x)"
  have l: "l = [] \<or> (h, l) \<in> set m" by (auto simp: l_def split: option.split dest: map_of_SomeD)
  show ?thesis
    unfolding add_by_prev_def l_def [symmetric]
  proof (rule filed_ok_update [OF assms(1)])
    show "distinct (map fst (AList.update i o1 l))" using l filed_okD(2) [OF assms(1)] by (auto intro!: distinct_update)
    fix j o2 assume "(j, o2) \<in> set (AList.update i o1 l)"
    then have "(j, o2) = (i, o1) \<or> (j, o2) \<in> set l" by (rule mem_update)
    then show "txID (ttTx (dTx (oDesc o2))) = j \<and> tx_known K (dTx (oDesc o2)) \<and> j \<in> fst ` set os \<and> h \<in> set (SpentOutputIDs (K j))"
      using l assms(2-5) filed_okD(3-6) [OF assms(1), of h l j o2] by auto
  qed simp
qed

lemma checkOrphanUtxos_POk:
  assumes "checkOrphanUtxos P db tx tp = POk hs"
  shows "set hs \<subseteq> {last (SpentOutputIDs (ttTx tx))}" "hs \<noteq> [] \<Longrightarrow> SpentOutputIDs (ttTx tx) \<noteq> []"
  using assms by (auto simp: checkOrphanUtxos_def Let_def split: prod.splits uoutcome.splits)

lemma addOrphan_inv:
  assumes "pool_inv K tp" "tx_known K (dTx d)" "set hs \<subseteq> set (SpentOutputIDs (ttTx (dTx d)))"
  shows "pool_inv K (snd (addOrphan now d hs tp))"
proof (cases "length (orphans tp) \<ge> maxOrphanNum")
  case False
  define i where "i = txID (ttTx (dTx d))"
  define o1 where "o1 = \<lparr>oDesc = d, oExpiration = now + orphanTTL\<rparr>"
  let ?os = "AList.update i o1 (orphans tp)"
  have ok: "orphans_ok K (orphans tp) (orphansByPrev tp)" using assms(1) by (simp add: pool_inv_def)
  have keys: "fst ` set ?os = insert i (fst ` set (orphans tp))" by (rule keys_update)
  have oi: "txID (ttTx (dTx (oDesc o1))) = i" "tx_known K (dTx (oDesc o1))" using assms(2) by (simp_all add: o1_def i_def)
  have K: "ttTx (dTx d) = K i" using assms(2) by (simp add: tx_known_def i_def)
  have "filed_ok K ?os (fold (add_by_prev i o1) hs m)" if "filed_ok K ?os m" for m
    using that assms(3)
  proof (induction hs arbitrary: m)
    case (Cons h hs)
    have "filed_ok K ?os (add_by_prev i o1 h m)"
      by (rule add_by_prev_ok [OF Cons.prems(1) oi]) (use Cons.prems(2) keys in \<open>simp_all add: K\<close>)
    then show ?case using Cons by simp
  qed simp
  moreover have "filed_ok K (orphans tp) (orphansByPrev tp)" using ok by (simp add: orphans_ok_def)
  then have "filed_ok K ?os (orphansByPrev tp)" by (rule filed_ok_mono) (use keys in blast)
  ultimately have f: "filed_ok K ?os (fold (add_by_prev i o1) hs (orphansByPrev tp))" by blast
  have "txID (ttTx (dTx (oDesc o2))) = k \<and> tx_known K (dTx (oDesc o2))" if "(k, o2) \<in> set ?os" for k o2
    using mem_update [OF that] ok oi by (auto simp: orphans_ok_def)
  then have "orphans_ok K ?os (fold (add_by_prev i o1) hs (orphansByPrev tp))"
    using ok f False length_update_le [of i o1 "orphans tp"] by (auto simp: orphans_ok_def distinct_update)
  then show ?thesis using assms(1) False by (simp add: addOrphan_def Let_def pool_inv_def i_def o1_def)
qed (use assms in \<open>simp add: addOrphan_def\<close>)

lemma drop_by_prev_ok:
  assumes "filed_ok K os m"
  shows "filed_ok K os (drop_by_prev i h m)"
proof (cases "map_of m h")
  case (Some l)
  then have l: "(h, l) \<in> set m" by (rule map_of_SomeD)
  show ?thesis
  proof (cases "AList.delete i l = []")
    case False
    have "filed_ok K os (AList.update h (AList.delete i l) m)"
      by (rule filed_ok_update [OF assms False])
        (use filed_okD [OF assms l] in \<open>auto simp: set_delete_iff intro!: distinct_delete\<close>)
    then show ?thesis using Some False by (simp add: drop_by_prev_def Let_def)
  qed (use assms Some in \<open>simp add: drop_by_prev_def filed_ok_delete\<close>)
qed (use assms in \<open>simp add: drop_by_prev_def\<close>)

text \<open>After the loop over the outputs that an orphan spends it is filed nowhere.\<close>

lemma drop_by_prev_gone:
  assumes "distinct (map fst m)" "(h, l) \<in> set (drop_by_prev i x m)" "(j, o1) \<in> set l"
  shows "\<exists>l'. (h, l') \<in> set m \<and> (j, o1) \<in> set l' \<and> (h = x \<longrightarrow> j \<noteq> i)"
proof (cases "map_of m x")
  case None
  then have "h \<noteq> x \<and> (h, l) \<in> set m" using assms(2) map_of_None_notin [of m x l] by (auto simp: drop_by_prev_def)
  then show ?thesis using assms(3) by blast
next
  case (Some l0)
  have m: "(x, l0) \<in> set m" using Some by (rule map_of_SomeD)
  show ?thesis
  proof (cases "AList.delete i l0 = []")
    case True
    then have "(h, l) \<in> set m \<and> h \<noteq> x" using assms(2) Some by (simp add: drop_by_prev_def set_delete_iff)
    then show ?thesis using assms(3) by blast
  next
    case False
    then have u: "(h, l) \<in> set (AList.update x (AList.delete i l0) m)" using assms(2) Some by (simp add: drop_by_prev_def)
    show ?thesis
    proof (cases "h = x")
      case True
      have "distinct (map fst (AList.update x (AList.delete i l0) m))" using assms(1) by (simp add: distinct_update)
      then have "map_of (AList.update x (AList.delete i l0) m) h = Some l" using u by simp
      then have "l = AList.delete i l0" using True by (simp add: update_conv')
      then show ?thesis using assms(3) m True by (auto simp: set_delete_iff)
    next
      case False
      then show ?thesis using mem_update [OF u] assms(3) by auto
    qed
  qed
qed

lemma drop_all_gone:
  assumes "filed_ok K os m" "(h, l) \<in> set (fold (drop_by_prev i) xs m)" "(j, o1) \<in> set l"
  shows "\<exists>l'. (h, l') \<in> set m \<and> (j, o1) \<in> set l' \<and> (h \<in> set xs \<longrightarrow> j \<noteq> i)"
  using assms(1,2)
proof (induction xs arbitrary: m)
  case (Cons x xs)
  obtain l1 where l1: "(h, l1) \<in> set (drop_by_prev i x m)" "(j, o1) \<in> set l1" "h \<in> set xs \<longrightarrow> j \<noteq> i"
    using Cons.IH [of "drop_by_prev i x m"] Cons.prems drop_by_prev_ok by auto
  show ?case using drop_by_prev_gone [OF filed_ok_distinct [OF Cons.prems(1)] l1(1,2)] l1(3) by auto
qed (use assms(3) in auto)

lemma drop_all_ok: "filed_ok K os m \<Longrightarrow> filed_ok K os (fold (drop_by_prev i) xs m)"
  by (induction xs arbitrary: m) (simp_all add: drop_by_prev_ok)

lemma removeOrphan_inv:
  assumes "pool_inv K tp"
  shows "pool_inv K (removeOrphan h tp)"
proof (cases "map_of (orphans tp) h")
  case (Some o1)
  let ?m = "fold (drop_by_prev h) (SpentOutputIDs (ttTx (dTx (oDesc o1)))) (orphansByPrev tp)"
  let ?os = "AList.delete h (orphans tp)"
  have ok: "orphans_ok K (orphans tp) (orphansByPrev tp)" using assms by (simp add: pool_inv_def)
  then have f: "filed_ok K (orphans tp) (orphansByPrev tp)" by (simp add: orphans_ok_def)
  have "txID (ttTx (dTx (oDesc o1))) = h \<and> tx_known K (dTx (oDesc o1))"
    using ok map_of_SomeD [OF Some] by (auto simp: orphans_ok_def)
  then have K: "ttTx (dTx (oDesc o1)) = K h" unfolding tx_known_def by metis
  note f' = drop_all_ok [OF f, of h "SpentOutputIDs (ttTx (dTx (oDesc o1)))"]
  have "filed_ok K ?os ?m"
  proof (rule filed_okI)
    fix x l j o2 assume l: "(x, l) \<in> set ?m" and j: "(j, o2) \<in> set l"
    note r = filed_okD(3-6) [OF f' l j]
    have "j \<noteq> h"
    proof
      assume "j = h"
      then show False using drop_all_gone [OF f l j] r(4) K by auto
    qed
    then have "j \<in> fst ` set ?os" using r(3) by (auto simp: set_delete_iff image_iff)
    then show "txID (ttTx (dTx (oDesc o2))) = j \<and> tx_known K (dTx (oDesc o2)) \<and> j \<in> fst ` set ?os \<and> x \<in> set (SpentOutputIDs (K j))"
      using r by blast
  qed (use f' filed_ok_distinct filed_okD in blast)+
  then have "orphans_ok K ?os ?m"
    using ok length_delete_le [of h "orphans tp"] by (auto simp: orphans_ok_def distinct_delete set_delete_iff)
  then show ?thesis using assms Some by (simp add: removeOrphan_def pool_inv_def)
qed (use assms in \<open>simp add: removeOrphan_def\<close>)

lemma ExpireOrphan_inv: "pool_inv K tp \<Longrightarrow> pool_inv K (ExpireOrphan now tp)"
proof -
  have "pool_inv K (fold (\<lambda>(h, o1). if oExpiration o1 < now then removeOrphan h else id) l tp)" if "pool_inv K tp" for l tp
    using that by (induction l arbitrary: tp) (auto simp: removeOrphan_inv)
  then show "pool_inv K tp \<Longrightarrow> ?thesis" by (simp add: ExpireOrphan_def)
qed

section \<open>Processing orphans\<close>

text \<open>The number of orphans that are filed, which bounds the loop.\<close>

definition filed :: "TxPool \<Rightarrow> nat" where
  "filed tp = sum_list (map (\<lambda>x. length (snd x)) (orphansByPrev tp))"

lemma sum_delete:
  assumes "map_of m i = Some l"
  shows "length l + sum_list (map (\<lambda>x. length (snd x)) (AList.delete i m)) \<le> sum_list (map (\<lambda>x. length (snd x)) m)"
  using assms
proof (induction m)
  case (Cons x m)
  have le: "sum_list (map (\<lambda>x. length (snd x)) (AList.delete i m)) \<le> sum_list (map (\<lambda>x. length (snd x)) m)"
    by (induction m) auto
  show ?case using Cons le by (cases x) (auto split: if_splits)
qed simp

lemma rely_step_inv:
  assumes "rely_step i (queue, tp) = (queue', tp')" "pool_inv K tp" "\<And>o1. o1 \<in> set queue \<Longrightarrow> tx_known K (dTx (oDesc o1))"
  shows "pool_inv K tp'" "\<And>o1. o1 \<in> set queue' \<Longrightarrow> tx_known K (dTx (oDesc o1))" "length queue' + filed tp' \<le> length queue + filed tp"
proof -
  have ok: "filed_ok K (orphans tp) (orphansByPrev tp)" using assms(2) by (simp add: pool_inv_def orphans_ok_def)
  have "pool_inv K tp' \<and> (\<forall>o1. o1 \<in> set queue' \<longrightarrow> tx_known K (dTx (oDesc o1))) \<and> length queue' + filed tp' \<le> length queue + filed tp"
  proof (cases "map_of (orphansByPrev tp) i")
    case None
    then show ?thesis using assms by (simp add: rely_step_def)
  next
    case (Some os)
    have e: "queue' = queue @ map snd os" "tp' = tp\<lparr>orphansByPrev := AList.delete i (orphansByPrev tp)\<rparr>"
      using assms(1) Some by (simp_all add: rely_step_def)
    have "pool_inv K tp'" using assms(2) filed_ok_delete [OF ok] by (simp add: e pool_inv_def orphans_ok_def)
    moreover have "tx_known K (dTx (oDesc o1))" if o1: "o1 \<in> set queue'" for o1
      using assms(3) [of o1] o1 filed_okD(4) [OF ok map_of_SomeD [OF Some]] by (auto simp: e)
    ultimately show ?thesis using sum_delete [OF Some] by (simp add: e filed_def)
  qed
  then show "pool_inv K tp'" "\<And>o1. o1 \<in> set queue' \<Longrightarrow> tx_known K (dTx (oDesc o1))" "length queue' + filed tp' \<le> length queue + filed tp"
    by blast+
qed

lemma addRely_fold:
  assumes "fold rely_step ids (queue, tp) = (queue', tp')" "pool_inv K tp" "\<And>o1. o1 \<in> set queue \<Longrightarrow> tx_known K (dTx (oDesc o1))"
  shows "pool_inv K tp' \<and> (\<forall>o1. o1 \<in> set queue' \<longrightarrow> tx_known K (dTx (oDesc o1))) \<and> length queue' + filed tp' \<le> length queue + filed tp"
  using assms
proof (induction ids arbitrary: queue tp)
  case (Cons i ids)
  obtain q1 tp1 where s: "rely_step i (queue, tp) = (q1, tp1)" by (cases "rely_step i (queue, tp)")
  note r = rely_step_inv [OF s Cons.prems(2,3)]
  have "fold rely_step ids (q1, tp1) = (queue', tp')" using Cons.prems(1) s by simp
  from Cons.IH [OF this r(1,2)] show ?case using r(3) by auto
qed simp

lemma addRely_inv:
  assumes "addRely ids tp = (queue, tp1)" "pool_inv K tp"
  shows "pool_inv K tp1" "\<And>o1. o1 \<in> set queue \<Longrightarrow> tx_known K (dTx (oDesc o1))" "length queue + filed tp1 \<le> filed tp"
  using addRely_fold [OF assms(1) [unfolded addRely_def] assms(2)] by auto

lemma filed_addTransaction [simp]: "filed (snd (addTransaction now d tp)) = filed tp"
  by (simp add: addTransaction_def filed_def Let_def split: option.split)

lemma sum_drop: "sum_list (map (\<lambda>x. length (snd x)) (drop_by_prev i h m)) \<le> sum_list (map (\<lambda>x. length (snd x)) m)"
proof (cases "map_of m h")
  case (Some l)
  have "sum_list (map (\<lambda>x. length (snd x)) (AList.update h l' m)) \<le> sum_list (map (\<lambda>x. length (snd x)) m)"
    if "map_of m h = Some l" "length l' \<le> length l" for l'
    using that by (induction m) (auto split: if_splits)
  then show ?thesis using Some sum_delete [OF Some] length_delete_le [of i l] by (simp add: drop_by_prev_def Let_def)
qed (simp add: drop_by_prev_def)

lemma filed_removeOrphan: "filed (removeOrphan h tp) \<le> filed tp"
proof -
  have "sum_list (map (\<lambda>x. length (snd x)) (fold (drop_by_prev h) xs m)) \<le> sum_list (map (\<lambda>x. length (snd x)) m)" for xs m
    by (induction xs arbitrary: m) (use sum_drop order_trans in fastforce)+
  then show ?thesis by (simp add: removeOrphan_def filed_def split: option.split)
qed

lemma process_queue_Nil [simp]: "process_queue n P db now [] tp = (POk (), tp)"
  by (cases n) simp_all

lemma process_queue_inv:
  assumes "pool_inv K tp" "\<And>o1. o1 \<in> set queue \<Longrightarrow> tx_known K (dTx (oDesc o1))"
  shows "pool_inv K (snd (process_queue n P db now queue tp)) \<and>
    (length queue + filed tp \<le> n \<longrightarrow> fst (process_queue n P db now queue tp) \<noteq> PFuel)"
  using assms
proof (induction n arbitrary: queue tp)
  case (Suc n)
  show ?case
  proof (cases queue)
    case (Cons o1 rest)
    have rest: "pool_inv K (snd (process_queue n P db now rest tp)) \<and>
        (length rest + filed tp \<le> n \<longrightarrow> fst (process_queue n P db now rest tp) \<noteq> PFuel)"
      using Suc.IH [OF Suc.prems(1)] Suc.prems(2) Cons by simp
    have nf: "checkOrphanUtxos P db tx tp \<noteq> PFuel" for tx
      by (auto simp: checkOrphanUtxos_def Let_def split: prod.splits uoutcome.splits)
    show ?thesis
    proof (cases "checkOrphanUtxos P db (dTx (oDesc o1)) tp = POk []")
      case True
      show ?thesis
      proof (cases "result_ids (dTx (oDesc o1))")
        case (Some ids)
        obtain more1 tp1 where a: "addRely ids tp = (more1, tp1)" by (cases "addRely ids tp")
        note r = addRely_inv [OF a Suc.prems(1)]
        let ?tp = "snd (addTransaction now (oDesc o1) (removeOrphan (txID (ttTx (dTx (oDesc o1)))) tp1))"
        have "pool_inv K ?tp" using addTransaction_inv [OF removeOrphan_inv [OF r(1)]] Suc.prems(2) Cons by simp
        moreover have "tx_known K (dTx (oDesc x))" if x: "x \<in> set (rest @ more1)" for x
          using x r(2) Suc.prems(2) Cons by auto
        ultimately have IH: "pool_inv K (snd (process_queue n P db now (rest @ more1) ?tp)) \<and>
            (length (rest @ more1) + filed ?tp \<le> n \<longrightarrow> fst (process_queue n P db now (rest @ more1) ?tp) \<noteq> PFuel)"
          by (rule Suc.IH)
        have "length (rest @ more1) + filed ?tp \<le> length rest + filed tp"
          using r(3) filed_removeOrphan [of "txID (ttTx (dTx (oDesc o1)))" tp1] by simp
        then show ?thesis using IH Cons True Some a by simp
      qed (use Suc.prems(1) Cons True in simp)
    next
      case False
      then show ?thesis using rest nf Suc.prems(1) Cons by (cases "checkOrphanUtxos P db (dTx (oDesc o1)) tp") simp_all
    qed
  qed (use Suc.prems in simp)
qed (use assms(1) in simp)

lemma processOrphans_inv:
  assumes "pool_inv K tp"
  shows "pool_inv K (snd (processOrphans n P db now d tp)) \<and> (filed tp \<le> n \<longrightarrow> fst (processOrphans n P db now d tp) \<noteq> PFuel)"
proof (cases "result_ids (dTx d)")
  case (Some ids)
  obtain queue tp1 where a: "addRely ids tp = (queue, tp1)" by (cases "addRely ids tp")
  note r = addRely_inv [OF a assms]
  show ?thesis
    using process_queue_inv [OF r(1,2), where n = n and P = P and db = db and now = now] r(3) Some a by (simp add: processOrphans_def)
qed (use assms in \<open>simp add: processOrphans_def\<close>)

section \<open>Every operation\<close>

lemma processTransaction_inv:
  assumes "pool_inv K tp" "tx_known K tx"
  shows "pool_inv K (snd (processTransaction n P db now tx height fee tp)) \<and>
    (filed tp \<le> n \<longrightarrow> fst (processTransaction n P db now tx height fee tp) \<noteq> PFuel)"
proof -
  define d where "d = \<lparr>dTx = tx, dAdded = 0, dHeight = height, dWeight = tdSerializedSize (ttData tx), dFee = fee\<rparr>"
  have nf: "checkOrphanUtxos P db tx tp \<noteq> PFuel"
    by (auto simp: checkOrphanUtxos_def Let_def split: prod.splits uoutcome.splits)
  have d: "tx_known K (dTx d)" using assms(2) by (simp add: d_def)
  show ?thesis
  proof (cases "checkOrphanUtxos P db tx tp")
    case (POk hs)
    show ?thesis
    proof (cases "hs = []")
      case False
      have "set hs \<subseteq> set (SpentOutputIDs (ttTx (dTx d)))"
        using checkOrphanUtxos_POk [OF POk] False by (auto simp: d_def)
      moreover obtain r tp1 where a: "addOrphan now d hs tp = (r, tp1)" by (cases "addOrphan now d hs tp")
      moreover have "r \<noteq> PFuel" using a by (auto simp: addOrphan_def Let_def split: if_splits)
      ultimately show ?thesis
        using addOrphan_inv [OF assms(1) d, of hs now] POk False
        by (cases r) (simp_all add: processTransaction_def d_def [symmetric] Let_def)
    next
      case True
      obtain r tp1 where a: "addTransaction now d tp = (r, tp1)" by (cases "addTransaction now d tp")
      have inv: "pool_inv K tp1" using addTransaction_inv [OF assms(1) d, of now] a by simp
      have f: "filed tp1 = filed tp" using filed_addTransaction [of now d tp] a by simp
      have rf: "r \<noteq> PFuel" using a by (auto simp: addTransaction_def Let_def split: if_splits option.splits)
      obtain r2 tp2 where o: "processOrphans n P db now (d\<lparr>dAdded := now\<rparr>) tp1 = (r2, tp2)"
        by (cases "processOrphans n P db now (d\<lparr>dAdded := now\<rparr>) tp1")
      have inv2: "pool_inv K tp2" "filed tp \<le> n \<longrightarrow> r2 \<noteq> PFuel"
        using processOrphans_inv [OF inv, of n P db now "d\<lparr>dAdded := now\<rparr>"] f o by simp_all
      show ?thesis
        using inv inv2 rf POk True a o
        by (cases r; cases r2) (simp_all add: processTransaction_def d_def [symmetric] Let_def)
    qed
  qed (use assms(1) nf in \<open>simp_all add: processTransaction_def Let_def\<close>)
qed

lemma ProcessTransaction_inv:
  "pool_inv K tp \<Longrightarrow> tx_known K tx \<Longrightarrow> pool_inv K (snd (ProcessTransaction n L P db now tx height fee tp))"
  using processTransaction_inv [of K tp tx] by (auto simp: ProcessTransaction_def split: option.split bool.split)

lemma length_Cache_Get:
  assumes "Cache_Get k c = (v, c')"
  shows "length c' \<le> length c"
proof (cases "map_of c k")
  case (Some x)
  then have "(k, x) \<in> set c" by (rule map_of_SomeD)
  then have "length (filter (\<lambda>y. fst y \<noteq> k) c) < length c" by (intro length_filter_less) auto
  then show ?thesis using assms Some by (auto simp: Cache_Get_def Cache_Remove_def)
qed (use assms in \<open>simp add: Cache_Get_def\<close>)

lemma errCache_inv: "pool_inv K tp \<Longrightarrow> length c \<le> maxCachedErrTxs \<Longrightarrow> pool_inv K (tp\<lparr>errCache := c\<rparr>)"
  by (simp add: pool_inv_def)

lemma AddErrCache_inv: "pool_inv K tp \<Longrightarrow> pool_inv K (AddErrCache p e tp)"
  unfolding AddErrCache_def by (rule errCache_inv) (simp_all add: Cache_Add_def)

lemma GetErrCache_inv: "pool_inv K tp \<Longrightarrow> pool_inv K (snd (GetErrCache p tp))"
proof -
  assume inv: "pool_inv K tp"
  obtain v c where g: "Cache_Get p (errCache tp) = (v, c)" by (cases "Cache_Get p (errCache tp)")
  then show ?thesis using errCache_inv [OF inv] length_Cache_Get [OF g] inv by (simp add: GetErrCache_def pool_inv_def)
qed

lemma HaveTransaction_inv: "pool_inv K tp \<Longrightarrow> pool_inv K (snd (HaveTransaction p tp))"
proof -
  assume inv: "pool_inv K tp"
  obtain v c where g: "Cache_Get (fst p) (errCache tp) = (v, c)" by (cases "Cache_Get (fst p) (errCache tp)")
  then show ?thesis
    using errCache_inv [OF inv] length_Cache_Get [OF g] inv
    by (simp add: HaveTransaction_def IsTransactionInErrCache_def pool_inv_def)
qed

lemma Chain_ValidateTx_inv:
  assumes "Chain_ValidateTx n k E P db now bh addr tx (st, tp) = (r, st', tp')" "pool_inv K tp" "tx_known K tx"
  shows "pool_inv K tp'"
proof -
  obtain b tp1 where h: "HaveTransaction (addr, txID (ttTx tx)) tp = (b, tp1)" by (cases "HaveTransaction (addr, txID (ttTx tx)) tp")
  have i1: "pool_inv K tp1" using HaveTransaction_inv [OF assms(2), of "(addr, txID (ttTx tx))"] h by simp
  note proc = ProcessTransaction_inv [OF i1 assms(3)]
  show ?thesis
    using assms(1) i1 proc AddErrCache_inv [OF i1] GetErrCache_inv [OF i1, of addr]
    by (auto simp: Chain_ValidateTx_def h Let_def split: bool.splits option.splits prod.splits vout.splits)
      (metis snd_conv)+
qed

inductive pool_step :: "(Hash \<Rightarrow> Tx) \<Rightarrow> TxPool \<Rightarrow> TxPool \<Rightarrow> bool" for K where
  validated: "Chain_ValidateTx n k E P db now bh addr tx (st, tp) = (r, st', tp') \<Longrightarrow> tx_known K tx \<Longrightarrow> pool_step K tp tp'"
| processed: "ProcessTransaction n L P db now tx height fee tp = (r, tp') \<Longrightarrow> tx_known K tx \<Longrightarrow> pool_step K tp tp'"
| removed: "RemoveTransaction now h tp = (r, tp') \<Longrightarrow> pool_step K tp tp'"
| expired: "pool_step K tp (ExpireOrphan now tp)"

lemma pool_step_inv: "pool_step K tp tp' \<Longrightarrow> pool_inv K tp \<Longrightarrow> pool_inv K tp'"
proof (induction rule: pool_step.induct)
  case validated
  then show ?case using Chain_ValidateTx_inv by blast
next
  case processed
  then show ?case using ProcessTransaction_inv by (metis snd_conv)
next
  case removed
  then show ?case using RemoveTransaction_inv by (metis snd_conv)
qed (rule ExpireOrphan_inv)

section \<open>The properties\<close>

text \<open>
  C23. The pool stays consistent. From the empty pool, whatever transactions are validated or processed, removed or expired, the pool
  has at most 10000 transactions and 2000 orphans; every entry is filed under the identifier of its transaction; every output
  that the pool offers is an output of a transaction of the pool; and every orphan that is filed under an output is an
  orphan of the pool that spends it. Transactions are determined by their identifiers.
\<close>

theorem pool_stays_consistent:
  assumes "rtranclp (pool_step K) (NewTxPool now) tp"
  shows "pool_inv K tp \<and> length (GetTransactions tp) \<le> 10000 \<and> length (orphans tp) \<le> 2000"
proof -
  have "pool_inv K tp"
    using assms by (induction rule: rtranclp_induct) (auto intro: NewTxPool_inv pool_step_inv)
  then show ?thesis
    by (simp add: GetTransactions_def pool_inv_def pool_ok_def orphans_ok_def maxNewTxNum_def maxOrphanNum_def)
qed

text \<open>Transactions of the example: each has an identifier, the outputs it spends and the outputs it creates.\<close>

definition pool_id :: "u64 \<Rightarrow> Hash" where
  "pool_id n = \<lparr>V0 = n, V1 = 0, V2 = 0, V3 = 0\<rparr>"

lemma pool_id_eq [simp]: "pool_id a = pool_id b \<longleftrightarrow> a = b"
  by (simp add: pool_id_def)

definition some_output :: OriginalOutput where
  "some_output = NewOriginalOutput None None None 0"

definition pool_tx :: "u64 \<Rightarrow> u64 list \<Rightarrow> u64 list \<Rightarrow> TypesTx" where
  "pool_tx n spent results =
     \<lparr>ttData = \<lparr>tdVersion = 1, tdSerializedSize = 1, tdTimeRange = 0,
        tdInputs = [\<lparr>inAssetVersion = 1, inTyped = Some (SpendIn \<lparr>siSpendCommitmentSuffix = [], siArguments = [],
          siSpendCommitment = \<lparr>scAssetAmount = \<lparr>aaAssetId = Some BTMAssetID, aaAmount = 1\<rparr>, scSourceID = zeroHash, scSourcePosition = 0,
            scVMVersion = 1, scControlProgram = [], scStateData = None\<rparr>\<rparr>), inCommitmentSuffix = [], inWitnessSuffix = []\<rparr>],
        tdOutputs = []\<rparr>,
      ttTx = \<lparr>TxHeader_of = \<lparr>hdrVersion = 1, hdrSerializedSize = 1, hdrTimeRange = 0, hdrResultIds = map (\<lambda>i. Some (pool_id i)) results\<rparr>,
        txID = pool_id n, Entries = map_of (map (\<lambda>i. (pool_id i, EOriginalOutput some_output)) results), InputIDs = [],
        SpentOutputIDs = map pool_id spent\<rparr>\<rparr>"

definition no_codec :: codec_lib where
  "no_codec = \<lparr>proto_Marshal = (\<lambda>_. []), proto_Unmarshal = (\<lambda>_. None)\<rparr>"

lemma pool_stays_consistent_witness:
  "\<exists>tp. ProcessTransaction 0 sample_lib no_codec Map.empty 5 (pool_tx 1 [] [7]) 3 0 (NewTxPool 0) = (POk False, tp) \<and>
     pool_inv (\<lambda>_. ttTx (pool_tx 1 [] [7])) tp \<and> length (GetTransactions tp) = 1"
proof -
  let ?K = "\<lambda>_ :: Hash. ttTx (pool_tx 1 [] [7])"
  define tp where "tp = snd (ProcessTransaction 0 sample_lib no_codec Map.empty 5 (pool_tx 1 [] [7]) 3 0 (NewTxPool 0))"
  have e: "ProcessTransaction 0 sample_lib no_codec Map.empty 5 (pool_tx 1 [] [7]) 3 0 (NewTxPool 0) = (POk False, tp) \<and> length (GetTransactions tp) = 1"
    by (simp add: tp_def ProcessTransaction_def IsDust_def isTransactionNoBtmInput_def isTransactionZeroOutput_def isInvalidBCRPTx_def
        processTransaction_def checkOrphanUtxos_def getTransactionsUtxo_def uthen_def pool_tx_def NewTxPool_def addTransaction_def Let_def
        maxNewTxNum_def result_ids_def processOrphans_def addRely_def rely_step_def GetTransactions_def)
  then have "pool_step ?K (NewTxPool 0) tp"
    by (intro pool_step.processed [of 0 sample_lib no_codec Map.empty 5 "pool_tx 1 [] [7]" 3 0 _ "POk False"]) (simp_all add: tx_known_def)
  then have "rtranclp (pool_step ?K) (NewTxPool 0) tp" by simp
  from pool_stays_consistent [OF this] show ?thesis using e by blast
qed




end
