(* ===== verification/BlockValidation.thy ===== *)
theory BlockValidation
  imports ContractView Casper Validation Merkle
begin

text \<open>
  Validation of blocks, \<^verbatim>\<open>protocol/validation/block.go\<close>, and \<^verbatim>\<open>ValidateTxs\<close> of \<^verbatim>\<open>tx.go\<close>. The current time in milliseconds is an
  argument. The network, the key of the node and the check of signatures come from the environment of consensus, in which
  a key that is no hexadecimal string verifies nothing.
\<close>

datatype block_err = errBadTimestamp | errMismatchedBlock | errMismatchedMerkleRoot | errMisorderedBlockHeight | errOverBlockLimit
  | errVersionRegression | errBlockSignature | errBlockTx val_err

datatype 'a bres = BOk 'a | BErr block_err | BPanic | BNoFuel

definition MaxBlockGas :: u64 where
  "MaxBlockGas = 10000000"

section \<open>The coinbase transaction\<close>

definition output_amount :: "bytes TxOutput \<Rightarrow> u64" where
  "output_amount out = aaAmount (ocAssetAmount (outCommitment out))"

text \<open>The loop over the outputs; a nil asset is dereferenced.\<close>

primrec coinbase_outputs :: "bytes TxOutput list \<Rightarrow> unit bres" where
  "coinbase_outputs [] = BOk ()"
| "coinbase_outputs (out # l) =
     (if OutputType (outTyped out) \<noteq> OriginalOutputType then BErr (errBlockTx ErrWrongCoinbaseTransaction)
      else
        (case aaAssetId (ocAssetAmount (outCommitment out)) of
           None \<Rightarrow> BPanic
         | Some a \<Rightarrow> if a \<noteq> BTMAssetID then BErr (errBlockTx ErrWrongCoinbaseTransaction) else coinbase_outputs l))"

text \<open>The amounts per control program, wrapping around; a first output without value is left out.\<close>

definition add_output :: "bytes TxOutput \<Rightarrow> (string \<times> u64) list \<Rightarrow> (string \<times> u64) list" where
  "add_output out m =
     (let k = EncodeToString (ocControlProgram (outCommitment out)) in AList.update k (mget m k + output_amount out) m)"

definition reward_outputs :: "bytes TxOutput list \<Rightarrow> bytes TxOutput list" where
  "reward_outputs outs = (case outs of out # l \<Rightarrow> if output_amount out = 0 then l else outs | [] \<Rightarrow> [])"

definition checkoutRewardCoinbase :: "TypesTx \<Rightarrow> Checkpoint \<Rightarrow> unit bres" where
  "checkoutRewardCoinbase tx checkpoint =
     (let outputMap = fold add_output (reward_outputs (tdOutputs (ttData tx))) [] in
      if length outputMap \<noteq> length (cpRewards checkpoint) then BErr (errBlockTx ErrWrongCoinbaseTransaction)
      else if list_ex (\<lambda>(cp, amount). mget outputMap cp \<noteq> amount) (cpRewards checkpoint)
      then BErr (errBlockTx ErrWrongCoinbaseTransaction)
      else BOk ())"

definition checkCoinbaseAmount :: "Params \<Rightarrow> ChainBlock \<Rightarrow> Checkpoint \<Rightarrow> unit bres" where
  "checkCoinbaseAmount N b checkpoint =
     (case kbTransactions b of
        [] \<Rightarrow> BErr (errBlockTx ErrWrongCoinbaseTransaction)
      | tx # _ \<Rightarrow>
          (case coinbase_outputs (tdOutputs (ttData tx)) of
             BOk _ \<Rightarrow>
               if thHeight (kbHeader b) mod BlocksOfEpoch N \<noteq> 1 then
                 (case tdOutputs (ttData tx) of
                    [out] \<Rightarrow> if output_amount out \<noteq> 0 then BErr (errBlockTx ErrWrongCoinbaseTransaction) else BOk ()
                  | _ \<Rightarrow> BErr (errBlockTx ErrWrongCoinbaseTransaction))
               else checkoutRewardCoinbase tx checkpoint
           | r \<Rightarrow> r))"

section \<open>The header\<close>

definition checkBlockTime :: "Params \<Rightarrow> u64 \<Rightarrow> TypesBlockHeader \<Rightarrow> TypesBlockHeader \<Rightarrow> block_err option" where
  "checkBlockTime N now b parent =
     (if thTimestamp b < thTimestamp parent + BlockTimeInterval N then Some errBadTimestamp
      else if thTimestamp b > now + MaxTimeOffsetMs N then Some errBadTimestamp
      else None)"

text \<open>A validator that is not found is nil and is dereferenced.\<close>

definition verifyBlockSignature :: "casperEnv \<Rightarrow> TypesBlockHeader \<Rightarrow> Checkpoint \<Rightarrow> unit bres" where
  "verifyBlockSignature E blockHeader checkpoint =
     (case GetValidator (eN E) (eXpub E) checkpoint (thTimestamp blockHeader) of
        Some (Some validator) \<Rightarrow>
          if eVerify E (vPubKey validator) (Byte32 (BlockHeader_Hash (eL E) blockHeader)) (thBlockWitness blockHeader) then BOk ()
          else BErr errBlockSignature
      | _ \<Rightarrow> BPanic)"

definition ValidateBlockHeader :: "casperEnv \<Rightarrow> u64 \<Rightarrow> TypesBlockHeader \<Rightarrow> TypesBlockHeader \<Rightarrow> Checkpoint \<Rightarrow> unit bres" where
  "ValidateBlockHeader E now b parent checkpoint =
     (if thVersion b \<noteq> 1 then BErr errVersionRegression
      else if thHeight b \<noteq> thHeight parent + 1 then BErr errMisorderedBlockHeight
      else if BlockHeader_Hash (eL E) parent \<noteq> thPreviousBlockHash b then BErr errMismatchedBlock
      else
        (case checkBlockTime (eN E) now b parent of
           Some e \<Rightarrow> BErr e
         | None \<Rightarrow> verifyBlockSignature E b checkpoint))"

section \<open>The block\<close>

text \<open>
  \<^verbatim>\<open>ValidateTxs\<close> spreads the transactions over worker goroutines and collects the results by index. In the model they are
  validated one after the other; they share the memory of the byte slices only.
\<close>

primrec validate_txs :: "nat \<Rightarrow> valEnv \<Rightarrow> nat \<Rightarrow> TypesTx list \<Rightarrow> store \<Rightarrow> GasState vout list \<times> store" where
  "validate_txs n V i [] st = ([], st)"
| "validate_txs n V i (tx # l) st =
     (case ValidateTx n (V\<lparr>eTx := ttTx tx, eTxRef := i\<rparr>) st of
        (r, st1) \<Rightarrow> (case validate_txs n V (Suc i) l st1 of (rs, st2) \<Rightarrow> (r # rs, st2)))"

definition ValidateTxs :: "nat \<Rightarrow> valEnv \<Rightarrow> TypesTx list \<Rightarrow> store \<Rightarrow> GasState vout list \<times> store" where
  "ValidateTxs n V txs st = validate_txs n V 0 txs st"

text \<open>The loop over the results; a panic of a worker ends the program.\<close>

primrec block_gas :: "u64 \<Rightarrow> GasState vout list \<Rightarrow> unit bres" where
  "block_gas blockGasSum [] = BOk ()"
| "block_gas blockGasSum (r # l) =
     (case r of
        VErr e \<Rightarrow> BErr (errBlockTx e)
      | VPanic \<Rightarrow> BPanic
      | VNoFuel \<Rightarrow> BNoFuel
      | VOk g \<Rightarrow>
          let s = blockGasSum + word_of_int (GasUsed g) in
          if s > MaxBlockGas then BErr errOverBlockLimit else block_gas s l)"

definition ValidateBlock ::
  "nat \<Rightarrow> casperEnv \<Rightarrow> valEnv \<Rightarrow> u64 \<Rightarrow> ChainBlock \<Rightarrow> TypesBlockHeader \<Rightarrow> Checkpoint \<Rightarrow> store \<Rightarrow> unit bres \<times> store" where
  "ValidateBlock n E V now b parent checkpoint st =
     (case ValidateBlockHeader E now (kbHeader b) parent checkpoint of
        BOk _ \<Rightarrow>
          let block = \<lparr>blkHeader = snd (mapBlockHeader (eL E) (kbHeader b)), blkID = BlockHeader_Hash (eL E) (kbHeader b),
                blkTransactions = [0..<length (kbTransactions b)]\<rparr> in
          (case ValidateTxs n (V\<lparr>eBlock := block\<rparr>) (kbTransactions b) st of
             (results, st1) \<Rightarrow>
               (case if VPanic \<in> set results then BPanic else block_gas 0 results of
                  BOk _ \<Rightarrow>
                    (case checkCoinbaseAmount (eN E) b checkpoint of
                       BOk _ \<Rightarrow>
                         if TxMerkleRoot (eL E) (map ttTx (kbTransactions b)) \<noteq> thTransactionsMerkleRoot (kbHeader b)
                         then (BErr errMismatchedMerkleRoot, st1) else (BOk (), st1)
                     | r \<Rightarrow> (r, st1))
                | r \<Rightarrow> (r, st1)))
      | r \<Rightarrow> (r, st))"

section \<open>What the coinbase transaction pays\<close>

text \<open>The amount that a list of outputs pays to a control program, as a 64-bit integer.\<close>

definition paid :: "bytes TxOutput list \<Rightarrow> string \<Rightarrow> u64" where
  "paid outs k = sum_list (map output_amount (filter (\<lambda>out. EncodeToString (ocControlProgram (outCommitment out)) = k) outs))"

definition payees :: "bytes TxOutput list \<Rightarrow> string set" where
  "payees outs = (\<lambda>out. EncodeToString (ocControlProgram (outCommitment out))) ` set outs"

lemma mget_update: "mget (AList.update k v m) k' = (if k' = k then v else mget m k')"
  by (simp add: mget_def update_conv')

lemma fold_add_output:
  "mget (fold add_output outs m) k = mget m k + paid outs k"
  "distinct (map fst m) \<Longrightarrow> distinct (map fst (fold add_output outs m))"
  "fst ` set (fold add_output outs m) = fst ` set m \<union> payees outs"
proof -
  have keys: "fst ` set (AList.update k v m) = insert k (fst ` set m)" for k and v :: u64 and m :: "(string \<times> u64) list"
    by (induction m) auto
  show "mget (fold add_output outs m) k = mget m k + paid outs k"
    by (induction outs arbitrary: m) (simp_all add: add_output_def Let_def mget_update paid_def add.assoc)
  show "distinct (map fst m) \<Longrightarrow> distinct (map fst (fold add_output outs m))"
    by (induction outs arbitrary: m) (simp_all add: add_output_def Let_def distinct_update)
  show "fst ` set (fold add_output outs m) = fst ` set m \<union> payees outs"
    by (induction outs arbitrary: m) (simp_all add: add_output_def Let_def keys payees_def)
qed

lemma checkoutRewardCoinbase_iff:
  assumes "distinct (map fst (cpRewards checkpoint))"
  shows "checkoutRewardCoinbase tx checkpoint = BOk () \<longleftrightarrow>
    card (payees (reward_outputs (tdOutputs (ttData tx)))) = card (fst ` set (cpRewards checkpoint)) \<and>
    (\<forall>(k, a) \<in> set (cpRewards checkpoint). paid (reward_outputs (tdOutputs (ttData tx))) k = a)"
proof -
  let ?outs = "reward_outputs (tdOutputs (ttData tx))"
  let ?m = "fold add_output ?outs []"
  have m: "mget ?m k = paid ?outs k" "distinct (map fst ?m)" "fst ` set ?m = payees ?outs" for k
    using fold_add_output [where outs = ?outs and m = "[]"] by (simp_all add: mget_def)
  have len: "length ?m = card (payees ?outs)" "length (cpRewards checkpoint) = card (fst ` set (cpRewards checkpoint))"
    using m(2,3) assms(1) by (metis distinct_card length_map list.set_map)+
  show ?thesis by (auto simp: checkoutRewardCoinbase_def Let_def m(1) len list_ex_iff case_prod_unfold)
qed

text \<open>
  C25. The coinbase transaction of an epoch is accepted exactly when it pays every reward of the checkpoint to its
  control program and nobody else: a reward of zero is none, the map of rewards has one entry per program. The
  amounts paid are sums of 64-bit integers.
\<close>

theorem reward_coinbase_exact:
  assumes "distinct (map fst (cpRewards checkpoint))" "0 \<notin> snd ` set (cpRewards checkpoint)"
  shows "checkoutRewardCoinbase tx checkpoint = BOk () \<longleftrightarrow>
    payees (reward_outputs (tdOutputs (ttData tx))) = fst ` set (cpRewards checkpoint) \<and>
    (\<forall>k. paid (reward_outputs (tdOutputs (ttData tx))) k = mget (cpRewards checkpoint) k)"
proof -
  let ?outs = "reward_outputs (tdOutputs (ttData tx))"
  let ?r = "cpRewards checkpoint"
  have outside: "paid ?outs k = 0" if "k \<notin> payees ?outs" for k
  proof -
    have "filter (\<lambda>out. EncodeToString (ocControlProgram (outCommitment out)) = k) ?outs = []"
      using that by (auto simp: payees_def filter_empty_conv)
    then show ?thesis by (simp add: paid_def)
  qed
  have none: "mget ?r k = 0" if "k \<notin> fst ` set ?r" for k
  proof -
    have "map_of ?r k = None" using that by (simp add: map_of_eq_None_iff)
    then show ?thesis by (simp add: mget_def)
  qed
  have get: "mget ?r k = a" if "(k, a) \<in> set ?r" for k a using assms(1) that by (simp add: mget_def)
  note iff = checkoutRewardCoinbase_iff [OF assms(1), of tx]
  show ?thesis
  proof
    assume "checkoutRewardCoinbase tx checkpoint = BOk ()"
    then have c: "card (payees ?outs) = card (fst ` set ?r)" and p: "\<And>k a. (k, a) \<in> set ?r \<Longrightarrow> paid ?outs k = a"
      unfolding iff by auto
    have "fst ` set ?r \<subseteq> payees ?outs"
    proof
      fix k assume "k \<in> fst ` set ?r"
      then obtain a where a: "(k, a) \<in> set ?r" by auto
      then have "a \<noteq> 0" using assms(2) by force
      then show "k \<in> payees ?outs" using p [OF a] outside by blast
    qed
    moreover have "finite (payees ?outs)" by (simp add: payees_def)
    ultimately have e: "payees ?outs = fst ` set ?r" using c card_subset_eq by metis
    moreover have "paid ?outs k = mget ?r k" for k
    proof (cases "k \<in> fst ` set ?r")
      case True
      then obtain a where a: "(k, a) \<in> set ?r" by auto
      then show ?thesis using p [OF a] get [OF a] by simp
    qed (simp add: none outside e)
    ultimately show "payees ?outs = fst ` set ?r \<and> (\<forall>k. paid ?outs k = mget ?r k)" by blast
  next
    assume "payees ?outs = fst ` set ?r \<and> (\<forall>k. paid ?outs k = mget ?r k)"
    then show "checkoutRewardCoinbase tx checkpoint = BOk ()" unfolding iff using get by auto
  qed
qed

definition reward_tx :: TypesTx where
  "reward_tx =
     (let out = (\<lambda>n prog. \<lparr>outAssetVersion = 1,
        outCommitment = \<lparr>ocAssetAmount = \<lparr>aaAssetId = Some BTMAssetID, aaAmount = n\<rparr>, ocVMVersion = 1, ocControlProgram = prog, ocStateData = None\<rparr>,
        outCommitmentSuffix = [], outTyped = OriginalTxOutput\<rparr>) in
      \<lparr>ttData = \<lparr>tdVersion = 1, tdSerializedSize = 1, tdTimeRange = 0, tdInputs = [], tdOutputs = [out 0 [9], out 30 [1], out 40 [2], out 12 [1]]\<rparr>,
       ttTx = \<lparr>TxHeader_of = \<lparr>hdrVersion = 1, hdrSerializedSize = 1, hdrTimeRange = 0, hdrResultIds = []\<rparr>,
         txID = zeroHash, Entries = Map.empty, InputIDs = [], SpentOutputIDs = []\<rparr>\<rparr>)"

definition reward_cp :: Checkpoint where
  "reward_cp = \<lparr>cpHeight = 100, cpHash = zeroHash, cpParentHash = zeroHash, cpTimestamp = 0, cpStatus = Unjustified,
     cpRewards = [(''02'', 40), (''01'', 42)], cpVotes = [], cpSupLinks = []\<rparr>"

lemma reward_coinbase_exact_witness:
  "checkoutRewardCoinbase reward_tx reward_cp = BOk () \<and> paid (reward_outputs (tdOutputs (ttData reward_tx))) ''01'' = 42"
proof -
  have h: "distinct (map fst (cpRewards reward_cp))" "0 \<notin> snd ` set (cpRewards reward_cp)" by (simp_all add: reward_cp_def)
  have "checkoutRewardCoinbase reward_tx reward_cp = BOk ()"
    by (simp add: checkoutRewardCoinbase_def reward_tx_def reward_cp_def reward_outputs_def output_amount_def add_output_def Let_def
        EncodeToString_def hex_char_def mget_def)
  moreover from this have "paid (reward_outputs (tdOutputs (ttData reward_tx))) ''01'' = mget (cpRewards reward_cp) ''01''"
    using reward_coinbase_exact [OF h, of reward_tx] by blast
  ultimately show ?thesis by (simp add: reward_cp_def mget_def)
qed

end
