(* ===== verification/Orphans.thy ===== *)
theory Orphans
  imports ContractView "HOL-Library.AList"
begin

text \<open>
  Blocks that wait for their parent, \<^verbatim>\<open>protocol/orphan_manage.go\<close>. The children of a block are kept in a slice of pointers to
  hashes. Deletion shifts the elements of the array in place, and a caller of \<^verbatim>\<open>GetPrevOrphans\<close> has a slice of
  the same array, so the arrays are part of the state; the hashes themselves are never changed. Maps are lists of
  pairs, a range visits them in the order of the list.
\<close>

section \<open>Slices of hashes\<close>

text \<open>A slice starts at the first element of its array, whose length is the capacity.\<close>

record hslice =
  hs_arr :: nat
  hs_len :: nat

type_synonym harrays = "Hash list list"

definition hcap :: "harrays \<Rightarrow> hslice \<Rightarrow> nat" where
  "hcap A s = length (A ! hs_arr s)"

definition helems :: "harrays \<Rightarrow> hslice \<Rightarrow> Hash list" where
  "helems A s = take (hs_len s) (A ! hs_arr s)"

text \<open>
  \<^verbatim>\<open>append(s, x)\<close>: in place when the capacity allows, else in a new array whose capacity is up to the runtime, at least
  what \<open>grow\<close> says and what is needed. The elements behind the length are not read.
\<close>

definition happend :: "(nat \<Rightarrow> nat) \<Rightarrow> hslice option \<Rightarrow> Hash \<Rightarrow> harrays \<Rightarrow> hslice \<times> harrays" where
  "happend grow s x A =
     (case s of
        None \<Rightarrow> (\<lparr>hs_arr = length A, hs_len = 1\<rparr>, A @ [x # replicate (grow 0 - 1) zeroHash])
      | Some s \<Rightarrow>
          if hs_len s < hcap A s
          then (s\<lparr>hs_len := Suc (hs_len s)\<rparr>, A[hs_arr s := (A ! hs_arr s)[hs_len s := x]])
          else (\<lparr>hs_arr = length A, hs_len = Suc (hs_len s)\<rparr>,
                A @ [helems A s @ x # replicate (grow (hs_len s) - Suc (hs_len s)) zeroHash]))"

text \<open>\<^verbatim>\<open>append(s[:i], s[i+1:]...)\<close>: the elements after \<open>i\<close> move down, the last one stays where it was as well.\<close>

definition hremove :: "nat \<Rightarrow> hslice \<Rightarrow> harrays \<Rightarrow> hslice \<times> harrays" where
  "hremove i s A =
     (let a = A ! hs_arr s in
      (s\<lparr>hs_len := hs_len s - 1\<rparr>, A[hs_arr s := take i a @ drop (Suc i) (take (hs_len s) a) @ drop (hs_len s - 1) a]))"

section \<open>The manager\<close>

record OrphanBlock =
  obBlock :: ChainBlock
  obExpiration :: int

record OrphanManage =
  orphan :: "(Hash \<times> OrphanBlock) list"
  prevOrphans :: "(Hash \<times> hslice) list"
  arrays :: harrays

text \<open>Sixty minutes, in nanoseconds.\<close>

definition orphanBlockTTL :: int where
  "orphanBlockTTL = 3600000000000"

definition numOrphanBlockLimit :: nat where
  "numOrphanBlockLimit = 256"

definition NewOrphanManage :: OrphanManage where
  "NewOrphanManage = \<lparr>orphan = [], prevOrphans = [], arrays = []\<rparr>"

definition block_hash :: "lib \<Rightarrow> ChainBlock \<Rightarrow> Hash" where
  "block_hash L b = BlockHeader_Hash L (kbHeader b)"

text \<open>The index of the first element with the hash.\<close>

primrec index_of :: "Hash \<Rightarrow> Hash list \<Rightarrow> nat option" where
  "index_of h [] = None"
| "index_of h (x # l) = (if x = h then Some 0 else map_option Suc (index_of h l))"

definition delete :: "Hash \<Rightarrow> OrphanManage \<Rightarrow> OrphanManage" where
  "delete hash om =
     (case map_of (orphan om) hash of
        None \<Rightarrow> om
      | Some b \<Rightarrow>
          let om1 = om\<lparr>orphan := AList.delete hash (orphan om)\<rparr>; prev = thPreviousBlockHash (kbHeader (obBlock b)) in
          (case map_of (prevOrphans om1) prev of
             None \<Rightarrow> om1\<lparr>prevOrphans := AList.delete prev (prevOrphans om1)\<rparr>
           | Some s \<Rightarrow>
               if hs_len s = 1 then om1\<lparr>prevOrphans := AList.delete prev (prevOrphans om1)\<rparr>
               else
                 (case index_of hash (helems (arrays om1) s) of
                    None \<Rightarrow> om1
                  | Some i \<Rightarrow>
                      (case hremove i s (arrays om1) of
                         (s', A) \<Rightarrow> om1\<lparr>prevOrphans := AList.update prev s' (prevOrphans om1), arrays := A\<rparr>))))"

definition Delete :: "Hash \<Rightarrow> OrphanManage \<Rightarrow> OrphanManage" where
  "Delete hash om = delete hash om"

text \<open>The orphan that expires first; of several the first one in the order of the range.\<close>

definition oldest :: "(Hash \<times> OrphanBlock) list \<Rightarrow> OrphanBlock option" where
  "oldest l =
     fold (\<lambda>(_, b) d. case d of None \<Rightarrow> Some b | Some x \<Rightarrow> if obExpiration b < obExpiration x then Some b else Some x) l None"

definition deleteLRU :: "lib \<Rightarrow> OrphanManage \<Rightarrow> OrphanManage" where
  "deleteLRU L om = (case oldest (orphan om) of None \<Rightarrow> om | Some b \<Rightarrow> delete (block_hash L (obBlock b)) om)"

definition Add :: "lib \<Rightarrow> (nat \<Rightarrow> nat) \<Rightarrow> int \<Rightarrow> ChainBlock \<Rightarrow> OrphanManage \<Rightarrow> OrphanManage" where
  "Add L grow now block om =
     (let blockHash = block_hash L block in
      if map_of (orphan om) blockHash \<noteq> None then om
      else
        let om1 = (if length (orphan om) \<ge> numOrphanBlockLimit then deleteLRU L om else om);
            prev = thPreviousBlockHash (kbHeader block) in
        (case happend grow (map_of (prevOrphans om1) prev) blockHash (arrays om1) of
           (s, A) \<Rightarrow>
             \<lparr>orphan = AList.update blockHash \<lparr>obBlock = block, obExpiration = now + orphanBlockTTL\<rparr> (orphan om1),
              prevOrphans = AList.update prev s (prevOrphans om1), arrays = A\<rparr>))"

definition Orphan_BlockExist :: "Hash \<Rightarrow> OrphanManage \<Rightarrow> bool" where
  "Orphan_BlockExist hash om = (map_of (orphan om) hash \<noteq> None)"

text \<open>The block of a missing orphan is a field of a nil pointer: \<open>None\<close> is the panic.\<close>

definition Get :: "Hash \<Rightarrow> OrphanManage \<Rightarrow> (ChainBlock \<times> bool) option" where
  "Get hash om = map_option (\<lambda>b. (obBlock b, True)) (map_of (orphan om) hash)"

definition GetPrevOrphans :: "Hash \<Rightarrow> OrphanManage \<Rightarrow> hslice option" where
  "GetPrevOrphans hash om = map_of (prevOrphans om) hash"

definition orphanExpire :: "int \<Rightarrow> OrphanManage \<Rightarrow> OrphanManage" where
  "orphanExpire now om = fold (\<lambda>(hash, b). if obExpiration b < now then delete hash else id) (orphan om) om"

end
