(* ===== verification/OrphanProps.thy ===== *)
theory OrphanProps
  imports Orphans CasperSafety
begin

text \<open>
  The index of orphan blocks by their parents: in spite of the shared arrays, every operation changes the
  children of one block only, and the index lists exactly the orphans.
\<close>

section \<open>Slices that share no array\<close>

definition slices_ok :: "harrays \<Rightarrow> (Hash \<times> hslice) list \<Rightarrow> bool" where
  "slices_ok A m \<longleftrightarrow>
     distinct (map fst m) \<and>
     (\<forall>p s. map_of m p = Some s \<longrightarrow> hs_arr s < length A \<and> 1 \<le> hs_len s \<and> hs_len s \<le> hcap A s) \<and>
     (\<forall>p s p' s'. map_of m p = Some s \<longrightarrow> map_of m p' = Some s' \<longrightarrow> hs_arr s = hs_arr s' \<longrightarrow> p = p')"

definition elems :: "harrays \<Rightarrow> (Hash \<times> hslice) list \<Rightarrow> Hash \<Rightarrow> Hash list" where
  "elems A m p = (case map_of m p of None \<Rightarrow> [] | Some s \<Rightarrow> helems A s)"

lemma slices_okD:
  assumes "slices_ok A m" "map_of m p = Some s"
  shows "hs_arr s < length A" "1 \<le> hs_len s" "hs_len s \<le> hcap A s" "length (helems A s) = hs_len s"
  using assms by (auto simp: slices_ok_def helems_def hcap_def)

lemma slices_ok_other:
  "slices_ok A m \<Longrightarrow> map_of m p = Some s \<Longrightarrow> map_of m p' = Some s' \<Longrightarrow> p \<noteq> p' \<Longrightarrow> hs_arr s \<noteq> hs_arr s'"
  unfolding slices_ok_def by blast

lemma slices_ok_delete:
  assumes "slices_ok A m"
  shows "slices_ok A (AList.delete p m)" "elems A (AList.delete p m) = (elems A m)(p := [])"
  using assms by (auto simp: slices_ok_def elems_def delete_conv' distinct_delete fun_eq_iff split: if_splits)

text \<open>Writing the array of one slice.\<close>

lemma slices_ok_write:
  assumes "slices_ok A m" "map_of m p = Some s" "hs_arr s' = hs_arr s" "1 \<le> hs_len s'" "hs_len s' \<le> length a" "length a = length (A ! hs_arr s)"
  shows "slices_ok (A[hs_arr s := a]) (AList.update p s' m)"
    "elems (A[hs_arr s := a]) (AList.update p s' m) = (elems A m)(p := take (hs_len s') a)"
proof -
  note s = slices_okD [OF assms(1,2)]
  have o1: "hs_arr t \<noteq> hs_arr s" if "map_of m q = Some t" "q \<noteq> p" for q t
    using slices_ok_other [OF assms(1,2) that(1)] that(2) by auto
  have c: "hcap (A[hs_arr s := a]) t = hcap A t" for t using s(1) assms(6) by (simp add: hcap_def nth_list_update)
  have "hs_arr t < length (A[hs_arr s := a]) \<and> 1 \<le> hs_len t \<and> hs_len t \<le> hcap (A[hs_arr s := a]) t"
    if "map_of (AList.update p s' m) q = Some t" for q t
  proof (cases "q = p")
    case True
    then have "t = s'" using that by (simp add: update_conv')
    then show ?thesis using s assms(3-6) unfolding c by (simp add: hcap_def)
  next
    case False
    then have "map_of m q = Some t" using that by (simp add: update_conv')
    then show ?thesis using slices_okD [OF assms(1)] unfolding c by simp
  qed
  moreover have "q = q'" if t: "map_of (AList.update p s' m) q = Some t" "map_of (AList.update p s' m) q' = Some t'" "hs_arr t = hs_arr t'" for q q' t t'
    using t assms(3) o1 slices_ok_other [OF assms(1), of q t q' t'] by (cases "q = p"; cases "q' = p") (auto simp: update_conv')
  ultimately show "slices_ok (A[hs_arr s := a]) (AList.update p s' m)"
    using assms(1) unfolding slices_ok_def by (auto simp: distinct_update)
  show "elems (A[hs_arr s := a]) (AList.update p s' m) = (elems A m)(p := take (hs_len s') a)"
  proof
    fix q
    show "elems (A[hs_arr s := a]) (AList.update p s' m) q = ((elems A m)(p := take (hs_len s') a)) q"
      using s(1) assms(3) o1 [of q] by (cases "q = p"; cases "map_of m q") (auto simp: elems_def update_conv' helems_def)
  qed
qed

text \<open>Moving a slice to a new array.\<close>

lemma slices_ok_new:
  assumes "slices_ok A m" "hs_arr s = length A" "1 \<le> hs_len s" "hs_len s \<le> length a"
  shows "slices_ok (A @ [a]) (AList.update p s m)" "elems (A @ [a]) (AList.update p s m) = (elems A m)(p := take (hs_len s) a)"
proof -
  have old: "hs_arr t < length A" if "map_of m q = Some t" for q t using slices_okD [OF assms(1) that] by simp
  have "hs_arr t < length (A @ [a]) \<and> 1 \<le> hs_len t \<and> hs_len t \<le> hcap (A @ [a]) t" if "map_of (AList.update p s m) q = Some t" for q t
  proof (cases "q = p")
    case True
    then show ?thesis using that assms(2-4) by (auto simp: update_conv' hcap_def)
  next
    case False
    then have t: "map_of m q = Some t" using that by (simp add: update_conv')
    then show ?thesis using slices_okD [OF assms(1) t] by (simp add: hcap_def nth_append)
  qed
  moreover have "q = q'" if t: "map_of (AList.update p s m) q = Some t" "map_of (AList.update p s m) q' = Some t'" "hs_arr t = hs_arr t'" for q q' t t'
    using t assms(2) old [of q t] old [of q' t'] slices_ok_other [OF assms(1), of q t q' t'] by (cases "q = p"; cases "q' = p") (auto simp: update_conv')
  ultimately show "slices_ok (A @ [a]) (AList.update p s m)"
    using assms(1) unfolding slices_ok_def by (auto simp: distinct_update)
  show "elems (A @ [a]) (AList.update p s m) = (elems A m)(p := take (hs_len s) a)"
  proof
    fix q
    show "elems (A @ [a]) (AList.update p s m) q = ((elems A m)(p := take (hs_len s) a)) q"
      using assms(2) old [of q] by (cases "q = p"; cases "map_of m q") (auto simp: elems_def update_conv' helems_def nth_append)
  qed
qed

lemma happend_ok:
  assumes "slices_ok A m" "happend grow (map_of m p) x A = (s, A')"
  shows "slices_ok A' (AList.update p s m)" "elems A' (AList.update p s m) = (elems A m)(p := elems A m p @ [x])"
proof -
  have "slices_ok A' (AList.update p s m) \<and> elems A' (AList.update p s m) = (elems A m)(p := elems A m p @ [x])"
  proof (cases "map_of m p")
    case None
    then have e: "s = \<lparr>hs_arr = length A, hs_len = 1\<rparr>" "A' = A @ [x # replicate (grow 0 - 1) zeroHash]"
      using assms(2) by (simp_all add: happend_def)
    show ?thesis
      using slices_ok_new [OF assms(1), of s "x # replicate (grow 0 - 1) zeroHash" p] None by (simp add: e elems_def)
  next
    case (Some t)
    note t = slices_okD [OF assms(1) Some]
    have el: "elems A m p = take (hs_len t) (A ! hs_arr t)" using Some by (simp add: elems_def helems_def)
    show ?thesis
    proof (cases "hs_len t < hcap A t")
      case True
      then have e: "s = t\<lparr>hs_len := Suc (hs_len t)\<rparr>" "A' = A[hs_arr t := (A ! hs_arr t)[hs_len t := x]]"
        using assms(2) Some by (simp_all add: happend_def)
      have "take (Suc (hs_len t)) ((A ! hs_arr t)[hs_len t := x]) = elems A m p @ [x]"
        using True by (simp add: el hcap_def take_Suc_conv_app_nth)
      then show ?thesis
        using slices_ok_write [OF assms(1) Some, of s "(A ! hs_arr t)[hs_len t := x]"] True by (simp add: e hcap_def)
    next
      case False
      let ?a = "helems A t @ x # replicate (grow (hs_len t) - Suc (hs_len t)) zeroHash"
      have e: "s = \<lparr>hs_arr = length A, hs_len = Suc (hs_len t)\<rparr>" "A' = A @ [?a]"
        using assms(2) Some False by (simp_all add: happend_def)
      have "take (Suc (hs_len t)) ?a = elems A m p @ [x]" using t(4) by (simp add: el helems_def)
      then show ?thesis using slices_ok_new [OF assms(1), of s ?a p] t(4) by (simp add: e)
    qed
  qed
  then show "slices_ok A' (AList.update p s m)" "elems A' (AList.update p s m) = (elems A m)(p := elems A m p @ [x])" by blast+
qed

lemma index_of_Some: "index_of h l = Some i \<Longrightarrow> i < length l \<and> remove1 h l = take i l @ drop (Suc i) l"
  by (induction l arbitrary: i) (auto split: if_splits)

lemma index_of_None: "index_of h l = None \<Longrightarrow> h \<notin> set l"
  by (induction l) (auto split: if_splits)

lemma hremove_ok:
  assumes "slices_ok A m" "map_of m p = Some s" "hs_len s \<noteq> 1" "index_of x (helems A s) = Some i" "hremove i s A = (s', A')"
  shows "slices_ok A' (AList.update p s' m)" "elems A' (AList.update p s' m) = (elems A m)(p := remove1 x (elems A m p))"
proof -
  note s = slices_okD [OF assms(1,2)]
  let ?a = "A ! hs_arr s"
  let ?b = "take i ?a @ drop (Suc i) (take (hs_len s) ?a) @ drop (hs_len s - 1) ?a"
  have e: "s' = s\<lparr>hs_len := hs_len s - 1\<rparr>" "A' = A[hs_arr s := ?b]"
    using assms(5) by (simp_all add: hremove_def Let_def)
  have i: "i < hs_len s" "remove1 x (take (hs_len s) ?a) = take i ?a @ drop (Suc i) (take (hs_len s) ?a)"
    using index_of_Some [OF assms(4)] s(4) by (simp_all add: helems_def min_def)
  have l: "hs_len s \<le> length ?a" using s(3) by (simp add: hcap_def)
  have len: "length ?b = length ?a" using i l s(2) by simp
  have "take (hs_len s - 1) ?b = remove1 x (elems A m p)"
    using i l s(2) assms(2) by (simp add: elems_def helems_def)
  then show "slices_ok A' (AList.update p s' m)" "elems A' (AList.update p s' m) = (elems A m)(p := remove1 x (elems A m p))"
    using slices_ok_write [OF assms(1,2), of s' ?b] s(2) assms(3) l len by (simp_all add: e)
qed

section \<open>The invariant\<close>

definition prev_of :: "OrphanBlock \<Rightarrow> Hash" where
  "prev_of b = thPreviousBlockHash (kbHeader (obBlock b))"

text \<open>The orphans are keyed by their hashes, and the index lists under every block exactly the orphans that name it as their parent, each once.\<close>

definition orphan_inv :: "lib \<Rightarrow> OrphanManage \<Rightarrow> bool" where
  "orphan_inv L om \<longleftrightarrow>
     distinct (map fst (orphan om)) \<and> slices_ok (arrays om) (prevOrphans om) \<and>
     (\<forall>h b. map_of (orphan om) h = Some b \<longrightarrow> block_hash L (obBlock b) = h) \<and>
     (\<forall>p. distinct (elems (arrays om) (prevOrphans om) p) \<and>
        set (elems (arrays om) (prevOrphans om) p) = {h. map_option prev_of (map_of (orphan om) h) = Some p})"

lemma orphan_invD:
  assumes "orphan_inv L om"
  shows "distinct (map fst (orphan om))" "slices_ok (arrays om) (prevOrphans om)"
    "map_of (orphan om) h = Some b \<Longrightarrow> block_hash L (obBlock b) = h"
    "distinct (elems (arrays om) (prevOrphans om) p)"
    "set (elems (arrays om) (prevOrphans om) p) = {h. map_option prev_of (map_of (orphan om) h) = Some p}"
  using assms unfolding orphan_inv_def by blast+

text \<open>Deletion takes the hash out of the orphans and out of the children of its parent.\<close>

lemma delete_elems:
  assumes "orphan_inv L om" "map_of (orphan om) h = Some b"
  shows "orphan (delete h om) = AList.delete h (orphan om)"
    "slices_ok (arrays (delete h om)) (prevOrphans (delete h om))"
    "elems (arrays (delete h om)) (prevOrphans (delete h om)) =
       (elems (arrays om) (prevOrphans om))(prev_of b := remove1 h (elems (arrays om) (prevOrphans om) (prev_of b)))"
proof -
  let ?A = "arrays om" and ?m = "prevOrphans om" and ?p = "prev_of b"
  note sl = orphan_invD(2) [OF assms(1)]
  have mem: "h \<in> set (elems ?A ?m ?p)" using orphan_invD(5) [OF assms(1)] assms(2) by simp
  then obtain s where s: "map_of ?m ?p = Some s" by (cases "map_of ?m ?p") (simp_all add: elems_def)
  have es: "elems ?A ?m ?p = helems ?A s" by (simp add: elems_def s)
  have "orphan (delete h om) = AList.delete h (orphan om) \<and>
    slices_ok (arrays (delete h om)) (prevOrphans (delete h om)) \<and>
    elems (arrays (delete h om)) (prevOrphans (delete h om)) = (elems ?A ?m)(?p := remove1 h (elems ?A ?m ?p))"
  proof (cases "hs_len s = 1")
    case True
    then obtain x where "elems ?A ?m ?p = [x]" using slices_okD(4) [OF sl s] unfolding es by (metis length_0_conv length_Suc_conv One_nat_def)
    then have "remove1 h (elems ?A ?m ?p) = []" using mem by simp
    then show ?thesis
      using True s slices_ok_delete [OF sl, of ?p] by (simp add: delete_def assms(2) prev_of_def)
  next
    case False
    obtain i where i: "index_of h (helems ?A s) = Some i"
      using index_of_None [of h "helems ?A s"] mem unfolding es by (cases "index_of h (helems ?A s)") auto
    obtain s' A' where r: "hremove i s ?A = (s', A')" by (cases "hremove i s ?A")
    show ?thesis using hremove_ok [OF sl s False i r] False s i r by (simp add: delete_def assms(2) prev_of_def)
  qed
  then show "orphan (delete h om) = AList.delete h (orphan om)"
    "slices_ok (arrays (delete h om)) (prevOrphans (delete h om))"
    "elems (arrays (delete h om)) (prevOrphans (delete h om)) = (elems ?A ?m)(?p := remove1 h (elems ?A ?m ?p))" by blast+
qed

lemma delete_orphan: "orphan_inv L om \<Longrightarrow> orphan (delete h om) = AList.delete h (orphan om)"
proof (cases "map_of (orphan om) h")
  case None
  then have "delete h om = om" by (simp add: delete_def)
  moreover have "AList.delete h (orphan om) = orphan om" using None by (simp add: map_of_eq_None_iff delete_id)
  ultimately show ?thesis by simp
next
  case (Some b)
  assume "orphan_inv L om"
  from delete_elems(1) [OF this Some] show ?thesis .
qed

lemma delete_inv:
  assumes "orphan_inv L om"
  shows "orphan_inv L (delete h om)"
proof (cases "map_of (orphan om) h")
  case None
  then show ?thesis using assms by (simp add: delete_def)
next
  case (Some b)
  note d = delete_elems [OF assms Some] and I = orphan_invD [OF assms]
  have m: "map_of (orphan (delete h om)) = (map_of (orphan om))(h := None)" by (simp add: d(1) delete_conv' fun_eq_iff)
  have "distinct (elems (arrays (delete h om)) (prevOrphans (delete h om)) p) \<and>
    set (elems (arrays (delete h om)) (prevOrphans (delete h om)) p) = {x. map_option prev_of (map_of (orphan (delete h om)) x) = Some p}" for p
    unfolding m using I(4) [of p] I(5) [of p] Some by (cases "p = prev_of b") (auto simp: d(3))
  moreover have "block_hash L (obBlock b') = x" if "map_of (orphan (delete h om)) x = Some b'" for x b'
    using that I(3) [of x b'] unfolding m by (simp split: if_splits)
  ultimately show ?thesis
    unfolding orphan_inv_def using d(2) I(1) by (simp add: d(1) distinct_delete)
qed

lemma delete_length: "orphan_inv L om \<Longrightarrow> length (orphan (delete h om)) \<le> length (orphan om)"
  by (simp add: delete_orphan length_delete_le)

section \<open>Eviction\<close>

lemma oldest_fold:
  "fold (\<lambda>(_, b) d. case d of None \<Rightarrow> Some b | Some x \<Rightarrow> if obExpiration b < obExpiration x then Some b else Some x) l (Some x) = Some r \<Longrightarrow>
    (r = x \<or> r \<in> snd ` set l) \<and> obExpiration r \<le> obExpiration x \<and> (\<forall>b\<in>snd ` set l. obExpiration r \<le> obExpiration b)"
proof (induction l arbitrary: x)
  case (Cons a l)
  obtain k b where a: "a = (k, b)" by (cases a)
  show ?case using Cons.IH Cons.prems by (auto simp: a split: if_splits) fastforce+
qed simp

lemma oldest_fold_Some:
  "\<exists>r. fold (\<lambda>(_, b) d. case d of None \<Rightarrow> Some b | Some x \<Rightarrow> if obExpiration b < obExpiration x then Some b else Some x) l (Some x) = Some r"
  by (induction l arbitrary: x) (auto split: if_splits)

lemma oldest_least:
  assumes "l \<noteq> []"
  obtains r where "oldest l = Some r" "r \<in> snd ` set l" "\<forall>b\<in>snd ` set l. obExpiration r \<le> obExpiration b"
proof -
  obtain k b l' where l: "l = (k, b) # l'" using assms by (cases l) auto
  obtain r where r: "oldest l = Some r" using oldest_fold_Some [of l' b] by (auto simp: oldest_def l)
  have "(r = b \<or> r \<in> snd ` set l') \<and> obExpiration r \<le> obExpiration b \<and> (\<forall>b\<in>snd ` set l'. obExpiration r \<le> obExpiration b)"
    using oldest_fold [of l' b r] r by (simp add: oldest_def l)
  then show thesis using that [OF r] by (auto simp: l)
qed

lemma deleteLRU_inv:
  assumes "orphan_inv L om"
  shows "orphan_inv L (deleteLRU L om)" "length (orphan (deleteLRU L om)) = length (orphan om) - 1"
proof -
  show "orphan_inv L (deleteLRU L om)" using delete_inv [OF assms] assms by (simp add: deleteLRU_def split: option.split)
  show "length (orphan (deleteLRU L om)) = length (orphan om) - 1"
  proof (cases "orphan om = []")
    case True
    then show ?thesis by (simp add: deleteLRU_def oldest_def)
  next
    case False
    then obtain r where r: "oldest (orphan om) = Some r" "r \<in> snd ` set (orphan om)" by (rule oldest_least)
    from r(2) obtain h where hr: "(h, r) \<in> set (orphan om)" by auto
    then have "map_of (orphan om) h = Some r" using orphan_invD(1) [OF assms] by simp
    then have "block_hash L (obBlock r) = h" by (rule orphan_invD(3) [OF assms])
    then have "orphan (deleteLRU L om) = AList.delete h (orphan om)" using r(1) delete_orphan [OF assms] by (simp add: deleteLRU_def)
    moreover have "length (AList.delete h l) = length l - 1" if "distinct (map fst l)" "(h, r) \<in> set l" for l :: "(Hash \<times> OrphanBlock) list"
      using that
    proof (induction l)
      case (Cons a l)
      show ?case
      proof (cases "fst a = h")
        case True
        then have "h \<notin> fst ` set l" using Cons.prems(1) by auto
        then show ?thesis using True by (simp add: delete_id)
      next
        case False
        then have "(h, r) \<in> set l" using Cons.prems(2) by auto
        then show ?thesis using Cons False by (cases l) auto
      qed
    qed simp
    ultimately show ?thesis using hr orphan_invD(1) [OF assms] by simp
  qed
qed

lemma update_new_length: "k \<notin> fst ` set l \<Longrightarrow> length (AList.update k v l) = Suc (length l)"
  by (induction l) auto

lemma Add_inv:
  assumes "orphan_inv L om" "length (orphan om) \<le> numOrphanBlockLimit"
  shows "orphan_inv L (Add L grow now b om) \<and> length (orphan (Add L grow now b om)) \<le> numOrphanBlockLimit"
proof (cases "map_of (orphan om) (block_hash L b) = None")
  case False
  then show ?thesis using assms by (auto simp: Add_def Let_def)
next
  case True
  let ?h = "block_hash L b" and ?p = "thPreviousBlockHash (kbHeader b)"
  define om1 where "om1 = (if length (orphan om) \<ge> numOrphanBlockLimit then deleteLRU L om else om)"
  have I1: "orphan_inv L om1" using assms(1) deleteLRU_inv(1) by (simp add: om1_def)
  have l1: "length (orphan om1) < numOrphanBlockLimit"
    using assms(2) deleteLRU_inv(2) [OF assms(1)] by (auto simp: om1_def numOrphanBlockLimit_def)
  have n1: "map_of (orphan om1) ?h = None"
    using True delete_orphan [OF assms(1)] by (auto simp: om1_def deleteLRU_def delete_conv' split: option.split)
  obtain s A where r: "happend grow (map_of (prevOrphans om1) ?p) ?h (arrays om1) = (s, A)" by (metis surj_pair)
  let ?o = "AList.update ?h \<lparr>obBlock = b, obExpiration = now + orphanBlockTTL\<rparr> (orphan om1)"
  have e: "Add L grow now b om = \<lparr>orphan = ?o, prevOrphans = AList.update ?p s (prevOrphans om1), arrays = A\<rparr>"
    using True r by (simp add: Add_def Let_def om1_def [symmetric])
  note I = orphan_invD [OF I1]
  note a = happend_ok [OF I(2) r]
  have "distinct (elems A (AList.update ?p s (prevOrphans om1)) p) \<and>
     set (elems A (AList.update ?p s (prevOrphans om1)) p) = {x. map_option prev_of (map_of ?o x) = Some p}" for p
    using I(4) [of p] I(5) [of p] n1 by (cases "p = ?p") (auto simp: a(2) update_conv' prev_of_def)
  moreover have "block_hash L (obBlock b') = h" if "map_of ?o h = Some b'" for h b'
    using that I(3) [of h b'] by (cases "h = ?h") (auto simp: update_conv')
  ultimately have "orphan_inv L (Add L grow now b om)"
    unfolding orphan_inv_def using a(1) I(1) by (simp add: e distinct_update)
  moreover have "length ?o = Suc (length (orphan om1))"
    by (rule update_new_length) (use n1 in \<open>simp add: map_of_eq_None_iff\<close>)
  ultimately show ?thesis using l1 by (simp add: e)
qed

lemma orphanExpire_inv:
  assumes "orphan_inv L om"
  shows "orphan_inv L (orphanExpire now om) \<and> length (orphan (orphanExpire now om)) \<le> length (orphan om)"
proof -
  have "orphan_inv L (fold (\<lambda>(hash, b). if obExpiration b < now then delete hash else id) l om) \<and>
    length (orphan (fold (\<lambda>(hash, b). if obExpiration b < now then delete hash else id) l om)) \<le> length (orphan om)" for l
    using assms
  proof (induction l arbitrary: om)
    case (Cons a l)
    obtain h b where a: "a = (h, b)" by (cases a)
    show ?case
    proof (cases "obExpiration b < now")
      case True
      then show ?thesis
        using Cons.IH [OF delete_inv [OF Cons.prems, of h]] delete_length [OF Cons.prems, of h] by (simp add: a)
    qed (use Cons in \<open>simp add: a\<close>)
  qed simp
  then show ?thesis by (simp add: orphanExpire_def)
qed

section \<open>Every history\<close>

text \<open>What the chain and the worker that drops expired orphans do to the manager.\<close>

inductive orphan_step :: "lib \<Rightarrow> OrphanManage \<Rightarrow> OrphanManage \<Rightarrow> bool" for L where
  step_add: "orphan_step L om (Add L grow now block om)"
| step_delete: "orphan_step L om (Delete hash om)"
| step_expire: "orphan_step L om (orphanExpire now om)"

lemma orphan_inv_start: "orphan_inv L NewOrphanManage"
  unfolding orphan_inv_def by (simp add: NewOrphanManage_def slices_ok_def elems_def)

lemma orphan_step_inv:
  "orphan_step L om om' \<Longrightarrow> orphan_inv L om \<Longrightarrow> length (orphan om) \<le> numOrphanBlockLimit \<Longrightarrow>
    orphan_inv L om' \<and> length (orphan om') \<le> numOrphanBlockLimit"
proof (induction rule: orphan_step.induct)
  case (step_add om grow now block)
  then show ?case by (rule Add_inv)
next
  case (step_delete om hash)
  then show ?case using delete_inv [of L om hash] delete_length [of L om hash] by (simp add: Delete_def)
next
  case (step_expire om now)
  then show ?case using orphanExpire_inv [of L om now] by simp
qed

lemma orphan_steps_inv:
  "(orphan_step L)\<^sup>*\<^sup>* NewOrphanManage om \<Longrightarrow> orphan_inv L om \<and> length (orphan om) \<le> numOrphanBlockLimit"
proof (induction rule: rtranclp_induct)
  case base
  show ?case by (rule conjI [OF orphan_inv_start]) (simp add: NewOrphanManage_def)
qed (use orphan_step_inv in blast)

text \<open>What \<open>GetPrevOrphans\<close> gives the caller, read at once.\<close>

definition children :: "OrphanManage \<Rightarrow> Hash \<Rightarrow> Hash list" where
  "children om h = (case GetPrevOrphans h om of None \<Rightarrow> [] | Some s \<Rightarrow> helems (arrays om) s)"

lemma children_elems: "children om = elems (arrays om) (prevOrphans om)"
  by (simp add: fun_eq_iff children_def elems_def GetPrevOrphans_def)

text \<open>
  C14. However orphan blocks are added, deleted, evicted and expired, and however the runtime grows the slices of the
  index, there are never more than 256 of them; every one is kept under its own hash, so that \<open>Get\<close> returns the
  block asked for; and \<open>GetPrevOrphans\<close> lists under a hash exactly the orphans that name it as their parent,
  each of them once, although deletions shift the shared arrays in place.
\<close>

theorem orphans_stay_consistent:
  assumes "(orphan_step L)\<^sup>*\<^sup>* NewOrphanManage om"
  shows "length (orphan om) \<le> 256 \<and> distinct (children om p) \<and>
    (Get h om = Some (b, ok) \<longrightarrow> block_hash L b = h) \<and>
    (h \<in> set (children om p) \<longleftrightarrow> (\<exists>b. Get h om = Some (b, True) \<and> thPreviousBlockHash (kbHeader b) = p))"
proof -
  have I: "orphan_inv L om" and l: "length (orphan om) \<le> numOrphanBlockLimit" using orphan_steps_inv [OF assms] by blast+
  note i = orphan_invD [OF I]
  have "Get h om = Some (b, ok) \<longrightarrow> block_hash L b = h"
    using i(3) [of h] by (auto simp: Get_def)
  moreover have "h \<in> set (children om p) \<longleftrightarrow> (\<exists>b. Get h om = Some (b, True) \<and> thPreviousBlockHash (kbHeader b) = p)"
    using i(5) [of p] by (auto simp: children_elems Get_def prev_of_def)
  ultimately show ?thesis using l i(4) [of p] by (simp add: numOrphanBlockLimit_def children_elems)
qed

definition orphan_block :: "u64 \<Rightarrow> ChainBlock" where
  "orphan_block n = \<lparr>kbHeader = ex_header 2 n, kbTransactions = []\<rparr>"

lemma orphan_block_simps [simp]: "block_hash last_lib (orphan_block n) = mark n" "thPreviousBlockHash (kbHeader (orphan_block n)) = zeroHash"
  by (simp_all add: block_hash_def orphan_block_def last_lib_hash ex_header_def)

lemma orphans_stay_consistent_witness:
  "mark 5 \<in> set (children (Add last_lib Suc 0 (orphan_block 5) NewOrphanManage) zeroHash)"
proof -
  let ?om = "Add last_lib Suc 0 (orphan_block 5) NewOrphanManage"
  have r: "(orphan_step last_lib)\<^sup>*\<^sup>* NewOrphanManage ?om" by (intro r_into_rtranclp step_add)
  have g: "Get (mark 5) ?om = Some (orphan_block 5, True)"
    by (simp add: Add_def NewOrphanManage_def Get_def happend_def Let_def numOrphanBlockLimit_def)
  show ?thesis
    by (rule orphans_stay_consistent [OF r, THEN conjunct2, THEN conjunct2, THEN conjunct2, THEN iffD2]) (use g in auto)
qed

section \<open>Deleting while a caller iterates\<close>

lemma hremove_simps:
  assumes "hremove i s A = (s', A')"
  shows "s' = s\<lparr>hs_len := hs_len s - 1\<rparr>"
    "hs_arr s < length A \<Longrightarrow> A' ! hs_arr s = take i (A ! hs_arr s) @ drop (Suc i) (take (hs_len s) (A ! hs_arr s)) @ drop (hs_len s - 1) (A ! hs_arr s)"
  using assms by (auto simp: hremove_def Let_def)

lemma index_of_nth: "index_of h l = Some i \<Longrightarrow> i < length l \<and> l ! i = h"
  by (induction l arbitrary: i) (auto split: if_splits)

text \<open>What deletion of a listed child does to the slice and its array.\<close>

lemma delete_slice:
  assumes "orphan_inv L om" "map_of (prevOrphans om) p = Some s" "hs_len s \<noteq> 1" "index_of h (helems (arrays om) s) = Some i"
  shows "map_of (prevOrphans (delete h om)) p = Some (s\<lparr>hs_len := hs_len s - 1\<rparr>)"
    "arrays (delete h om) ! hs_arr s = take i (arrays om ! hs_arr s) @ drop (Suc i) (take (hs_len s) (arrays om ! hs_arr s)) @ drop (hs_len s - 1) (arrays om ! hs_arr s)"
proof -
  note I = orphan_invD [OF assms(1)]
  have "h \<in> set (helems (arrays om) s)" using index_of_nth [OF assms(4)] nth_mem by metis
  then have "h \<in> set (elems (arrays om) (prevOrphans om) p)" by (simp add: elems_def assms(2))
  then obtain b where b: "map_of (orphan om) h = Some b" "prev_of b = p" using I(5) [of p] by auto
  obtain s' A' where r: "hremove i s (arrays om) = (s', A')" by (metis surj_pair)
  have d: "delete h om = om\<lparr>orphan := AList.delete h (orphan om), prevOrphans := AList.update p s' (prevOrphans om), arrays := A'\<rparr>"
    using b assms(2-4) r by (simp add: delete_def prev_of_def)
  show "map_of (prevOrphans (delete h om)) p = Some (s\<lparr>hs_len := hs_len s - 1\<rparr>)"
    using hremove_simps(1) [OF r] by (simp add: d update_conv')
  show "arrays (delete h om) ! hs_arr s = take i (arrays om ! hs_arr s) @ drop (Suc i) (take (hs_len s) (arrays om ! hs_arr s)) @ drop (hs_len s - 1) (arrays om ! hs_arr s)"
    using hremove_simps(2) [OF r slices_okD(1) [OF I(2) assms(2)]] by (simp add: d)
qed

text \<open>
  C15. A caller that walks through the children of a block while it deletes them sees the array shift under its slice. Of three children \<open>a\<close>, \<open>b\<close> and \<open>x\<close>, when the caller has deleted
  \<open>a\<close> the second element of its slice is \<open>x\<close>: \<open>b\<close> is skipped. When it has deleted \<open>x\<close> as well, its third element is \<open>x\<close> again, which is no longer an orphan:
  \<open>Get\<close> reads a field of a nil pointer and panics. This is what \<^verbatim>\<open>saveSubBlock\<close> does when the three blocks are saved, and \<open>b\<close> is still an orphan then.
\<close>

theorem captured_children_shift:
  assumes "(orphan_step L)\<^sup>*\<^sup>* NewOrphanManage om" "GetPrevOrphans p om = Some s" "helems (arrays om) s = [a, b, x]"
  shows "helems (arrays (Delete a om)) s = [b, x, x] \<and> helems (arrays (Delete x (Delete a om))) s = [b, x, x] \<and>
    Get x (Delete x (Delete a om)) = None \<and> Get b (Delete x (Delete a om)) \<noteq> None"
proof -
  have I: "orphan_inv L om" using orphan_steps_inv [OF assms(1)] by blast
  have I1: "orphan_inv L (delete a om)" by (rule delete_inv [OF I])
  have s: "map_of (prevOrphans om) p = Some s" using assms(2) by (simp add: GetPrevOrphans_def)
  note sl = slices_okD [OF orphan_invD(2) [OF I] s]
  have len: "hs_len s = 3" using sl(4) assms(3) by simp
  obtain tl where arr: "arrays om ! hs_arr s = [a, b, x] @ tl"
    using assms(3) append_take_drop_id [of 3 "arrays om ! hs_arr s"] by (simp add: helems_def len) (metis append_Cons append_Nil)
  have dist: "distinct [a, b, x]" using orphan_invD(4) [OF I, of p] assms(3) by (simp add: elems_def s)
  have d1: "map_of (prevOrphans (delete a om)) p = Some (s\<lparr>hs_len := 2\<rparr>)" "arrays (delete a om) ! hs_arr s = [b, x, x] @ tl"
    using delete_slice [OF I s, of a 0] assms(3) by (simp_all add: len arr numeral_eq_Suc)
  have d2: "arrays (delete x (delete a om)) ! hs_arr s = [b, x, x] @ tl"
    using delete_slice(2) [OF I1 d1(1), of x 1] dist d1(2) by (simp add: helems_def numeral_eq_Suc)
  have "map_of (orphan (delete x (delete a om))) = (map_of (orphan om))(a := None, x := None)"
    by (simp add: delete_orphan [OF I] delete_orphan [OF I1] delete_conv' fun_eq_iff)
  moreover have "map_of (orphan om) b \<noteq> None"
    using orphan_invD(5) [OF I, of p] assms(3) by (auto simp: elems_def s)
  ultimately show ?thesis
    using d1(2) d2 dist by (auto simp: Delete_def helems_def len Get_def numeral_eq_Suc)
qed

definition three_orphans :: OrphanManage where
  "three_orphans = fold (Add last_lib (\<lambda>_. 4) 0) [orphan_block 5, orphan_block 6, orphan_block 7] NewOrphanManage"

lemma captured_children_shift_witness:
  "\<exists>s. GetPrevOrphans zeroHash three_orphans = Some s \<and> helems (arrays three_orphans) s ! 1 = mark 6 \<and>
     helems (arrays (Delete (mark 5) three_orphans)) s ! 1 = mark 7 \<and> Get (mark 7) (Delete (mark 7) (Delete (mark 5) three_orphans)) = None"
proof -
  have a: "(orphan_step last_lib)\<^sup>*\<^sup>* NewOrphanManage (Add last_lib (\<lambda>_. 4) 0 b om)" if "(orphan_step last_lib)\<^sup>*\<^sup>* NewOrphanManage om" for b om
    using that step_add by (rule rtranclp.rtrancl_into_rtrancl)
  have r: "(orphan_step last_lib)\<^sup>*\<^sup>* NewOrphanManage three_orphans"
    unfolding three_orphans_def by (simp add: a)
  let ?s = "\<lparr>hs_arr = 0, hs_len = 3\<rparr>"
  have g: "GetPrevOrphans zeroHash three_orphans = Some ?s" "helems (arrays three_orphans) ?s = [mark 5, mark 6, mark 7]"
    by (simp_all add: three_orphans_def NewOrphanManage_def Add_def Let_def numOrphanBlockLimit_def happend_def hcap_def GetPrevOrphans_def helems_def eval_nat_numeral)
  show ?thesis
    using captured_children_shift [OF r g] g by (intro exI [of _ ?s]) simp
qed

end
