(* ===== verification/Chain.thy ===== *)
theory Chain
  imports Mempool BlockValidation Orphans
begin

text \<open>
  The chain, \<^verbatim>\<open>protocol/block.go\<close> and \<^verbatim>\<open>protocol/protocol.go\<close>, over the parts of the store it uses (\<^verbatim>\<open>database/store.go\<close>):
  saving blocks, with the orphans that waited for them, and following the best chain that consensus names.
  What is stored is read back as it was written: the caches of the store and the serialisation are not in this theory.
\<close>

section \<open>State\<close>

record BlockStoreState =
  bssHeight :: u64
  bssHash :: Hash
  bssFinalizedHeight :: u64
  bssFinalizedHash :: Hash

text \<open>
  The store of blocks is the one of consensus, beside it are the transactions of the blocks, the hashes of the blocks of a height, the index of the
  main chain, the outputs and contracts, and the status. \<open>kMem\<close> is the memory of the byte slices of programs.
\<close>

record Chain =
  orphanManage :: OrphanManage
  txPool :: TxPool
  kCasper :: casper
  kTxs :: "Hash \<rightharpoonup> TypesTx list"
  kHashes :: "u64 \<Rightarrow> Hash list"
  kIndex :: "u64 \<rightharpoonup> Hash"
  kDb :: database
  kStatus :: "BlockStoreState option"
  bestBlockHeader :: TypesBlockHeader
  kMem :: store

text \<open>
  What the chain gets from elsewhere: the environments of consensus and validation, the encoding of outputs, the
  current time in milliseconds and for the orphans and the pool, how the runtime grows slices, in which order it visits a map, the addresses of the
  identifiers of transactions, and bounds on the number of iterations of the loops that are not structural.
\<close>

record chainEnv =
  kE :: casperEnv
  kV :: valEnv
  kP :: codec_lib
  kNow :: u64
  kClock :: int
  kGrow :: "nat \<Rightarrow> nat"
  kUtxoRange :: "UtxoViewpoint \<Rightarrow> (Hash \<times> UtxoEntry) list"
  kContractRange :: "(bytes \<rightharpoonup> bytes) \<Rightarrow> (bytes \<times> bytes) list"
  kAddr :: "TypesTx \<Rightarrow> nat"
  kFuel :: nat

datatype chain_err = ErrNotFound | ErrReorgUtxo utxo_err | ErrReorgContract | ErrBadBlock block_err | ErrCasper casper_err

datatype 'a kresult = KOk 'a | KErr chain_err | KPanic | KFuel

abbreviation (input) headers :: "Chain \<Rightarrow> Hash \<rightharpoonup> TypesBlockHeader" where
  "headers c \<equiv> stHeaders (cStore (kCasper c))"

section \<open>Reading\<close>

definition GetBlockHeader :: "Hash \<Rightarrow> Chain \<Rightarrow> TypesBlockHeader kresult" where
  "GetBlockHeader hash c = (case headers c hash of None \<Rightarrow> KErr ErrNotFound | Some h \<Rightarrow> KOk h)"

definition GetBlock :: "Hash \<Rightarrow> Chain \<Rightarrow> ChainBlock kresult" where
  "GetBlock hash c =
     (case headers c hash of
        None \<Rightarrow> KErr ErrNotFound
      | Some h \<Rightarrow> (case kTxs c hash of None \<Rightarrow> KErr ErrNotFound | Some txs \<Rightarrow> KOk \<lparr>kbHeader = h, kbTransactions = txs\<rparr>))"

definition GetMainChainHash :: "u64 \<Rightarrow> Chain \<Rightarrow> Hash kresult" where
  "GetMainChainHash height c = (case kIndex c height of None \<Rightarrow> KErr ErrNotFound | Some h \<Rightarrow> KOk h)"

definition Chain_BlockExist :: "Hash \<Rightarrow> Chain \<Rightarrow> bool" where
  "Chain_BlockExist hash c = (headers c hash \<noteq> None \<or> Orphan_BlockExist hash (orphanManage c))"

definition GetHeaderByHash :: "Hash \<Rightarrow> Chain \<Rightarrow> TypesBlockHeader kresult" where
  "GetHeaderByHash hash c = GetBlockHeader hash c"

definition GetHeaderByHeight :: "u64 \<Rightarrow> Chain \<Rightarrow> TypesBlockHeader kresult" where
  "GetHeaderByHeight height c =
     (case GetMainChainHash height c of KOk hash \<Rightarrow> GetBlockHeader hash c | _ \<Rightarrow> KErr ErrNotFound)"

definition GetBlockByHeight :: "u64 \<Rightarrow> Chain \<Rightarrow> ChainBlock kresult" where
  "GetBlockByHeight height c =
     (case GetMainChainHash height c of KOk hash \<Rightarrow> GetBlock hash c | _ \<Rightarrow> KErr ErrNotFound)"

definition InMainChain :: "Hash \<Rightarrow> Chain \<Rightarrow> bool" where
  "InMainChain hash c =
     (case headers c hash of
        None \<Rightarrow> False
      | Some h \<Rightarrow> (case kIndex c (thHeight h) of None \<Rightarrow> False | Some blockHash \<Rightarrow> blockHash = hash))"

definition BestChain :: "lib \<Rightarrow> Chain \<Rightarrow> u64 \<times> Hash" where
  "BestChain L c = (thHeight (bestBlockHeader c), BlockHeader_Hash L (bestBlockHeader c))"

section \<open>Writing\<close>

definition SaveBlock :: "lib \<Rightarrow> ChainBlock \<Rightarrow> Chain \<Rightarrow> Chain" where
  "SaveBlock L block c =
     (let blockHash = block_hash L block; height = thHeight (kbHeader block); st = cStore (kCasper c) in
      c\<lparr>kHashes := (kHashes c)(height := kHashes c height @ [blockHash]),
        kCasper := (kCasper c)\<lparr>cStore := st\<lparr>stHeaders := (stHeaders st)(blockHash \<mapsto> kbHeader block),
          stBlocks := (stBlocks st)(blockHash \<mapsto> \<lparr>tbHeader = kbHeader block, tbTransactions = map ttData (kbTransactions block)\<rparr>)\<rparr>\<rparr>,
        kTxs := (kTxs c)(blockHash \<mapsto> kbTransactions block)\<rparr>)"

text \<open>The writes of a batch, in their order; contracts are looked up in the database before the batch.\<close>

definition SaveChainStatus ::
  "chainEnv \<Rightarrow> TypesBlockHeader \<Rightarrow> TypesBlockHeader list \<Rightarrow> UtxoViewpoint \<Rightarrow> ContractViewpoint \<Rightarrow> u64 \<Rightarrow> Hash \<Rightarrow> Chain \<Rightarrow> Chain" where
  "SaveChainStatus K blockHeader mainBlockHeaders view contractView finalizedHeight finalizedHash c =
     (let L = eL (kE K); db = kDb c;
          contracts = saveContractView db contractView (kContractRange K (AttachEntries contractView))
            (deleteContractView db (kContractRange K (DetachEntries contractView)) []) in
      c\<lparr>kDb := batch_Write contracts (saveUtxoView (kP K) (kUtxoRange K view) db),
        kStatus := Some \<lparr>bssHeight = thHeight blockHeader, bssHash = BlockHeader_Hash L blockHeader,
          bssFinalizedHeight = finalizedHeight, bssFinalizedHash = finalizedHash\<rparr>,
        kIndex := fold (\<lambda>bh m. m(thHeight bh \<mapsto> BlockHeader_Hash L bh)) mainBlockHeaders (kIndex c)\<rparr>)"

definition setState ::
  "chainEnv \<Rightarrow> TypesBlockHeader \<Rightarrow> TypesBlockHeader list \<Rightarrow> UtxoViewpoint \<Rightarrow> ContractViewpoint \<Rightarrow> Chain \<Rightarrow> Chain" where
  "setState K blockHeader mainBlockHeaders view contractView c =
     (case LastFinalized (kCasper c) of
        (finalizedHeight, finalizedHash) \<Rightarrow>
          (SaveChainStatus K blockHeader mainBlockHeaders view contractView finalizedHeight finalizedHash c)\<lparr>bestBlockHeader := blockHeader\<rparr>)"

section \<open>Reorganisation\<close>

text \<open>The loop of \<^verbatim>\<open>calcReorganizeChain\<close>; the first argument bounds the number of iterations.\<close>

primrec calc_loop ::
  "nat \<Rightarrow> lib \<Rightarrow> (Hash \<rightharpoonup> TypesBlockHeader) \<Rightarrow> TypesBlockHeader \<Rightarrow> TypesBlockHeader \<Rightarrow> TypesBlockHeader list \<Rightarrow> TypesBlockHeader list \<Rightarrow>
   (TypesBlockHeader list \<times> TypesBlockHeader list) kresult" where
  "calc_loop 0 L H attach detach attaches detaches = KFuel"
| "calc_loop (Suc n) L H attach detach attaches detaches =
     (if BlockHeader_Hash L detach = BlockHeader_Hash L attach then KOk (attaches, detaches)
      else
        let attachRollback = thHeight attach \<ge> thHeight detach; detachRollBack = thHeight attach \<le> thHeight detach;
            attaches' = (if attachRollback then attach # attaches else attaches);
            detaches' = (if detachRollBack then detaches @ [detach] else detaches) in
        (case if attachRollback then H (thPreviousBlockHash attach) else Some attach of
           None \<Rightarrow> KErr ErrNotFound
         | Some attach' \<Rightarrow>
             (case if detachRollBack then H (thPreviousBlockHash detach) else Some detach of
                None \<Rightarrow> KErr ErrNotFound
              | Some detach' \<Rightarrow> calc_loop n L H attach' detach' attaches' detaches')))"

definition calcReorganizeChain ::
  "nat \<Rightarrow> lib \<Rightarrow> TypesBlockHeader \<Rightarrow> TypesBlockHeader \<Rightarrow> Chain \<Rightarrow> (TypesBlockHeader list \<times> TypesBlockHeader list) kresult" where
  "calcReorganizeChain n L beginAttach beginDetach c = calc_loop n L (headers c) beginAttach beginDetach [] []"

text \<open>What the two loops of \<^verbatim>\<open>reorganizeChain\<close> carry along.\<close>

record reorg =
  rUtxo :: UtxoViewpoint
  rContract :: ContractViewpoint
  txsToRestore :: "(Hash \<times> TypesTx) list"
  txsToRemove :: "(Hash \<times> TypesTx) list"

definition new_reorg :: reorg where
  "new_reorg = \<lparr>rUtxo = Map.empty, rContract = NewContractViewpoint, txsToRestore = [], txsToRemove = []\<rparr>"

definition restore_tx :: "TypesTx \<Rightarrow> reorg \<Rightarrow> reorg" where
  "restore_tx tx r = r\<lparr>txsToRestore := AList.update (txID (ttTx tx)) tx (txsToRestore r)\<rparr>"

definition remove_tx :: "TypesTx \<Rightarrow> reorg \<Rightarrow> reorg" where
  "remove_tx tx r =
     (if map_of (txsToRestore r) (txID (ttTx tx)) = None
      then r\<lparr>txsToRemove := AList.update (txID (ttTx tx)) tx (txsToRemove r)\<rparr>
      else r\<lparr>txsToRestore := AList.delete (txID (ttTx tx)) (txsToRestore r)\<rparr>)"

text \<open>The body of a loop; \<open>b.Transactions[1:]\<close> panics on a block without transactions.\<close>

definition reorg_node ::
  "(BcBlock \<Rightarrow> uop) \<Rightarrow> (ChainBlock \<Rightarrow> ContractViewpoint \<Rightarrow> ContractViewpoint option) \<Rightarrow> (TypesTx \<Rightarrow> reorg \<Rightarrow> reorg) \<Rightarrow>
   lib \<Rightarrow> Chain \<Rightarrow> TypesBlockHeader \<Rightarrow> reorg \<Rightarrow> reorg kresult" where
  "reorg_node utxo contract note_tx L c node r =
     (case GetBlock (BlockHeader_Hash L node) c of
        KOk b \<Rightarrow>
          (case utxo (MapBlock L b) (rUtxo r) of
             (UOk, view) \<Rightarrow>
               (case contract b (rContract r) of
                  None \<Rightarrow> KErr ErrReorgContract
                | Some contractView \<Rightarrow>
                    (case kbTransactions b of
                       [] \<Rightarrow> KPanic
                     | _ # txs \<Rightarrow> KOk (fold note_tx txs (r\<lparr>rUtxo := view, rContract := contractView\<rparr>))))
           | (UErr e, _) \<Rightarrow> KErr (ErrReorgUtxo e)
           | (UPanic, _) \<Rightarrow> KPanic)
      | KErr e \<Rightarrow> KErr e
      | KPanic \<Rightarrow> KPanic
      | KFuel \<Rightarrow> KFuel)"

primrec reorg_nodes :: "(TypesBlockHeader \<Rightarrow> reorg \<Rightarrow> reorg kresult) \<Rightarrow> TypesBlockHeader list \<Rightarrow> reorg \<Rightarrow> reorg kresult" where
  "reorg_nodes f [] r = KOk r"
| "reorg_nodes f (node # l) r = (case f node r of KOk r' \<Rightarrow> reorg_nodes f l r' | e \<Rightarrow> e)"

definition detach_block :: "chainEnv \<Rightarrow> Chain \<Rightarrow> TypesBlockHeader \<Rightarrow> reorg \<Rightarrow> reorg kresult" where
  "detach_block K c =
     reorg_node (detach_node (kP K) (kDb c)) (ContractView_DetachBlock (eL (kE K))) restore_tx (eL (kE K)) c"

definition attach_block :: "chainEnv \<Rightarrow> Chain \<Rightarrow> TypesBlockHeader \<Rightarrow> reorg \<Rightarrow> reorg kresult" where
  "attach_block K c =
     reorg_node (attach_node (kP K) (eN (kE K)) (kDb c)) (ContractView_ApplyBlock (eL (kE K))) remove_tx (eL (kE K)) c"

text \<open>The pool forgets the attached transactions.\<close>

primrec remove_txs :: "chainEnv \<Rightarrow> Hash list \<Rightarrow> Chain \<Rightarrow> unit kresult \<times> Chain" where
  "remove_txs K [] c = (KOk (), c)"
| "remove_txs K (txHash # l) c =
     (case RemoveTransaction (kClock K) txHash (txPool c) of
        (PPanic, tp) \<Rightarrow> (KPanic, c\<lparr>txPool := tp\<rparr>)
      | (_, tp) \<Rightarrow> remove_txs K l (c\<lparr>txPool := tp\<rparr>))"

text \<open>The detached transactions are validated again; an error is logged only.\<close>

primrec restore_txs :: "chainEnv \<Rightarrow> TypesTx list \<Rightarrow> Chain \<Rightarrow> unit kresult \<times> Chain" where
  "restore_txs K [] c = (KOk (), c)"
| "restore_txs K (tx # l) c =
     (case Chain_ValidateTx (kFuel K) (kFuel K) (kV K) (kP K) (kDb c) (kClock K) (bestBlockHeader c) (kAddr K tx) tx (kMem c, txPool c) of
        (r, st, tp) \<Rightarrow>
          (let c' = c\<lparr>kMem := st, txPool := tp\<rparr> in
           case r of PPanic \<Rightarrow> (KPanic, c') | PFuel \<Rightarrow> (KFuel, c') | _ \<Rightarrow> restore_txs K l c'))"

definition reorganizeChain :: "chainEnv \<Rightarrow> TypesBlockHeader \<Rightarrow> Chain \<Rightarrow> unit kresult \<times> Chain" where
  "reorganizeChain K blockHeader c =
     (case calcReorganizeChain (kFuel K) (eL (kE K)) blockHeader (bestBlockHeader c) c of
        KOk (attachNodes, detachNodes) \<Rightarrow>
          (case reorg_nodes (detach_block K c) detachNodes new_reorg of
             KOk r1 \<Rightarrow>
               (case reorg_nodes (attach_block K c) attachNodes r1 of
                  KOk r2 \<Rightarrow>
                    (case remove_txs K (map fst (txsToRemove r2)) (setState K blockHeader attachNodes (rUtxo r2) (rContract r2) c) of
                       (KOk _, c1) \<Rightarrow> restore_txs K (map snd (txsToRestore r2)) c1
                     | r \<Rightarrow> r)
                | KErr e \<Rightarrow> (KErr e, c)
                | KPanic \<Rightarrow> (KPanic, c)
                | KFuel \<Rightarrow> (KFuel, c))
           | KErr e \<Rightarrow> (KErr e, c)
           | KPanic \<Rightarrow> (KPanic, c)
           | KFuel \<Rightarrow> (KFuel, c))
      | KErr e \<Rightarrow> (KErr e, c)
      | KPanic \<Rightarrow> (KPanic, c)
      | KFuel \<Rightarrow> (KFuel, c))"

definition tryReorganize :: "chainEnv \<Rightarrow> Hash \<Rightarrow> Chain \<Rightarrow> unit kresult \<times> Chain" where
  "tryReorganize K bestHash c =
     (if BlockHeader_Hash (eL (kE K)) (bestBlockHeader c) = bestHash then (KOk (), c)
      else
        (case GetHeaderByHash bestHash c of
           KOk blockHeader \<Rightarrow> reorganizeChain K blockHeader c
         | KErr e \<Rightarrow> (KErr e, c)
         | KPanic \<Rightarrow> (KPanic, c)
         | KFuel \<Rightarrow> (KFuel, c)))"

section \<open>Saving blocks\<close>

definition types_block :: "ChainBlock \<Rightarrow> TypesBlock" where
  "types_block b = \<lparr>tbHeader = kbHeader b, tbTransactions = map ttData (kbTransactions b)\<rparr>"

text \<open>\<^verbatim>\<open>casper.ApplyBlock\<close> adds the vote of this node to the block it is given; the block as it leaves it.\<close>

definition applied_block :: "nat \<Rightarrow> casperEnv \<Rightarrow> ChainBlock \<Rightarrow> casper \<Rightarrow> ChainBlock" where
  "applied_block n E b s =
     (case nodeByHash (BlockHeader_Hash (eL E) (kbHeader b)) (cTree s) of
        Some _ \<Rightarrow> b
      | None \<Rightarrow>
          (case applyBlockToCheckpoint n E (types_block b) s of
             (COk p, s1) \<Rightarrow>
               (case applyMyVerification E p (types_block b) s1 of
                  (COk b', _) \<Rightarrow> b\<lparr>kbHeader := tbHeader b'\<rparr>
                | _ \<Rightarrow> b)
           | _ \<Rightarrow> b))"

definition casper_result :: "'a cresult \<Rightarrow> 'a kresult" where
  "casper_result r = (case r of COk x \<Rightarrow> KOk x | CErr e \<Rightarrow> KErr (ErrCasper e) | CPanic \<Rightarrow> KPanic | CFuel \<Rightarrow> KFuel)"

definition PrevCheckpointByPrevHash :: "chainEnv \<Rightarrow> Hash \<Rightarrow> Chain \<Rightarrow> Checkpoint kresult \<times> Chain" where
  "PrevCheckpointByPrevHash K preBlockHash c =
     (case ParentCheckpointByPrevHash (kFuel K) (eN (kE K)) preBlockHash (kCasper c) of
        (r, s) \<Rightarrow> (casper_result r, c\<lparr>kCasper := s\<rparr>))"

text \<open>
  The block that was saved is returned too, since the caller goes on with the object. When consensus refuses a block after it has
  added the vote of this node, the object keeps the vote; the model drops it.
\<close>

definition saveBlock :: "chainEnv \<Rightarrow> ChainBlock \<Rightarrow> Chain \<Rightarrow> ChainBlock kresult \<times> Chain" where
  "saveBlock K block c =
     (case GetBlockHeader (thPreviousBlockHash (kbHeader block)) c of
        KOk parent \<Rightarrow>
          (case PrevCheckpointByPrevHash K (thPreviousBlockHash (kbHeader block)) c of
             (KOk checkpoint, c1) \<Rightarrow>
               (case ValidateBlock (kFuel K) (kE K) ((kV K)\<lparr>eConverter := ProgramConverter (kDb c1)\<rparr>) (kNow K) block parent checkpoint (kMem c1) of
                  (BOk _, st) \<Rightarrow>
                    (let c2 = c1\<lparr>kMem := st\<rparr>; block' = applied_block (kFuel K) (kE K) block (kCasper c2) in
                     case Casper_ApplyBlock (kFuel K) (kE K) (types_block block) (kCasper c2) of
                       (COk _, s) \<Rightarrow>
                         (let c3 = SaveBlock (eL (kE K)) block' (c2\<lparr>kCasper := s\<rparr>) in
                          (KOk block', c3\<lparr>orphanManage := Delete (block_hash (eL (kE K)) block') (orphanManage c3)\<rparr>))
                     | (CErr e, s) \<Rightarrow> (KErr (ErrCasper e), c2\<lparr>kCasper := s\<rparr>)
                     | (CPanic, s) \<Rightarrow> (KPanic, c2\<lparr>kCasper := s\<rparr>)
                     | (CFuel, s) \<Rightarrow> (KFuel, c2\<lparr>kCasper := s\<rparr>))
                | (BErr e, st) \<Rightarrow> (KErr (ErrBadBlock e), c1\<lparr>kMem := st\<rparr>)
                | (BPanic, st) \<Rightarrow> (KPanic, c1\<lparr>kMem := st\<rparr>)
                | (BNoFuel, st) \<Rightarrow> (KFuel, c1\<lparr>kMem := st\<rparr>))
           | (KErr e, c1) \<Rightarrow> (KErr e, c1)
           | (KPanic, c1) \<Rightarrow> (KPanic, c1)
           | (KFuel, c1) \<Rightarrow> (KFuel, c1))
      | KErr e \<Rightarrow> (KErr e, c)
      | KPanic \<Rightarrow> (KPanic, c)
      | KFuel \<Rightarrow> (KFuel, c))"

text \<open>
  The loop over the children of a saved block, from the \<open>i\<close>-th element of the slice \<open>s\<close> on. The elements are read from
  the array when they are reached: saving a block has shifted them by then. \<open>n\<close> bounds the number of recursive calls and iterations.
\<close>

fun sub_loop :: "nat \<Rightarrow> chainEnv \<Rightarrow> hslice \<Rightarrow> nat \<Rightarrow> Chain \<Rightarrow> unit kresult \<times> Chain"
  and saveSubBlock :: "nat \<Rightarrow> chainEnv \<Rightarrow> ChainBlock \<Rightarrow> Chain \<Rightarrow> unit kresult \<times> Chain" where
  "sub_loop 0 K s i c = (KFuel, c)"
| "sub_loop (Suc n) K s i c =
     (if hs_len s \<le> i then (KOk (), c)
      else
        (case Get (helems (arrays (orphanManage c)) s ! i) (orphanManage c) of
           None \<Rightarrow> (KPanic, c)
         | Some (orphanBlock, _) \<Rightarrow>
             (case saveBlock K orphanBlock c of
                (KOk orphanBlock', c1) \<Rightarrow>
                  (case saveSubBlock n K orphanBlock' c1 of
                     (KOk _, c2) \<Rightarrow> sub_loop n K s (Suc i) c2
                   | r \<Rightarrow> r)
              | (KErr _, c1) \<Rightarrow> sub_loop n K s (Suc i) c1
              | (KPanic, c1) \<Rightarrow> (KPanic, c1)
              | (KFuel, c1) \<Rightarrow> (KFuel, c1))))"
| "saveSubBlock 0 K block c = (KFuel, c)"
| "saveSubBlock (Suc n) K block c =
     (case GetPrevOrphans (block_hash (eL (kE K)) block) (orphanManage c) of
        None \<Rightarrow> (KOk (), c)
      | Some s \<Rightarrow> sub_loop n K s 0 c)"

text \<open>The result tells whether the block is an orphan.\<close>

definition processBlock :: "chainEnv \<Rightarrow> ChainBlock \<Rightarrow> Chain \<Rightarrow> bool kresult \<times> Chain" where
  "processBlock K block c =
     (let blockHash = block_hash (eL (kE K)) block in
      if Chain_BlockExist blockHash c \<and> thHeight (bestBlockHeader c) \<ge> thHeight (kbHeader block)
      then (KOk (Orphan_BlockExist blockHash (orphanManage c)), c)
      else if headers c (thPreviousBlockHash (kbHeader block)) = None
      then (KOk True, c\<lparr>orphanManage := Add (eL (kE K)) (kGrow K) (kClock K) block (orphanManage c)\<rparr>)
      else
        (case saveBlock K block c of
           (KOk block', c1) \<Rightarrow>
             (case saveSubBlock (kFuel K) K block' c1 of
                (KOk _, c2) \<Rightarrow>
                  (case tryReorganize K (bestChain (kCasper c2)) c2 of
                     (KOk _, c3) \<Rightarrow> (KOk False, c3)
                   | (KErr e, c3) \<Rightarrow> (KErr e, c3)
                   | (KPanic, c3) \<Rightarrow> (KPanic, c3)
                   | (KFuel, c3) \<Rightarrow> (KFuel, c3))
              | (KErr e, c2) \<Rightarrow> (KErr e, c2)
              | (KPanic, c2) \<Rightarrow> (KPanic, c2)
              | (KFuel, c2) \<Rightarrow> (KFuel, c2))
         | (KErr e, c1) \<Rightarrow> (KErr e, c1)
         | (KPanic, c1) \<Rightarrow> (KPanic, c1)
         | (KFuel, c1) \<Rightarrow> (KFuel, c1)))"

definition ProcessBlockVerification :: "chainEnv \<Rightarrow> ValidCasperSignMsg \<Rightarrow> Chain \<Rightarrow> unit kresult \<times> Chain" where
  "ProcessBlockVerification K v c = (case AuthVerification (kE K) v (kCasper c) of (r, s) \<Rightarrow> (casper_result r, c\<lparr>kCasper := s\<rparr>))"

section \<open>Start\<close>

text \<open>\<^verbatim>\<open>initChainStatus\<close> on an empty store: the genesis block is saved, justified and the best one.\<close>

definition genesis_checkpoint :: "lib \<Rightarrow> ChainBlock \<Rightarrow> Checkpoint" where
  "genesis_checkpoint L genesisBlock =
     \<lparr>cpHeight = 0, cpHash = block_hash L genesisBlock, cpParentHash = zeroHash, cpTimestamp = thTimestamp (kbHeader genesisBlock),
      cpStatus = Justified, cpRewards = [], cpVotes = [], cpSupLinks = []\<rparr>"

definition initChainStatus :: "chainEnv \<Rightarrow> ChainBlock \<Rightarrow> Chain \<Rightarrow> unit kresult \<times> Chain" where
  "initChainStatus K genesisBlock c =
     (let L = eL (kE K); c1 = SaveBlock L genesisBlock c; checkpoint = genesis_checkpoint L genesisBlock;
          c2 = c1\<lparr>kCasper := (kCasper c1)\<lparr>cStore := SaveCheckpoints [checkpoint] (cStore (kCasper c1))\<rparr>\<rparr> in
      case UtxoView_ApplyBlock (eN (kE K)) (MapBlock L genesisBlock) Map.empty of
        (UOk, view) \<Rightarrow>
          (KOk (), SaveChainStatus K (kbHeader genesisBlock) [kbHeader genesisBlock] view NewContractViewpoint 0 (cpHash checkpoint) c2)
      | (UErr e, _) \<Rightarrow> (KErr (ErrReorgUtxo e), c2)
      | (UPanic, _) \<Rightarrow> (KPanic, c2))"

text \<open>
  \<^verbatim>\<open>Store.CheckpointsFromNode\<close>: the stored checkpoints in the order of their keys, from the given one on. The first one
  comes without links, as it is stored.
\<close>

definition hash_le :: "Hash \<Rightarrow> Hash \<Rightarrow> bool" where
  "hash_le a b \<longleftrightarrow>
     V0 a < V0 b \<or> V0 a = V0 b \<and> (V1 a < V1 b \<or> V1 a = V1 b \<and> (V2 a < V2 b \<or> V2 a = V2 b \<and> V3 a \<le> V3 b))"

definition key_le :: "u64 \<times> Hash \<Rightarrow> u64 \<times> Hash \<Rightarrow> bool" where
  "key_le a b \<longleftrightarrow> fst a < fst b \<or> fst a = fst b \<and> hash_le (snd a) (snd b)"

primrec insert_key :: "Checkpoint \<Rightarrow> Checkpoint list \<Rightarrow> Checkpoint list" where
  "insert_key x [] = [x]"
| "insert_key x (y # l) = (if key_le (cpHeight x, cpHash x) (cpHeight y, cpHash y) then x # y # l else y # insert_key x l)"

definition CheckpointsFromNode :: "cstore \<Rightarrow> u64 \<Rightarrow> Hash \<Rightarrow> Checkpoint list option" where
  "CheckpointsFromNode st height hash =
     (case foldr insert_key (filter (\<lambda>c. key_le (height, hash) (cpHeight c, cpHash c)) (stCheckpoints st)) [] of
        [] \<Rightarrow> None
      | c # cs \<Rightarrow> map_option (Cons c) (those (map (with_links st) cs)))"

definition newCasper :: "nat \<Rightarrow> BlockStoreState \<Rightarrow> cstore \<Rightarrow> casper kresult" where
  "newCasper n storeStatus st =
     (case CheckpointsFromNode st (bssFinalizedHeight storeStatus) (bssFinalizedHash storeStatus) of
        None \<Rightarrow> KErr ErrNotFound
      | Some checkpoints \<Rightarrow> casper_result (NewCasper n st checkpoints))"

definition NewChain :: "chainEnv \<Rightarrow> ChainBlock \<Rightarrow> Chain \<Rightarrow> Chain kresult" where
  "NewChain K genesisBlock c =
     (case if kStatus c = None then initChainStatus K genesisBlock c else (KOk (), c) of
        (KOk _, c1) \<Rightarrow>
          (case kStatus c1 of
             None \<Rightarrow> KPanic
           | Some storeStatus \<Rightarrow>
               (case GetBlockHeader (bssHash storeStatus) c1 of
                  KOk bestHeader \<Rightarrow>
                    (case newCasper (kFuel K) storeStatus (cStore (kCasper c1)) of
                       KOk s \<Rightarrow> KOk (c1\<lparr>bestBlockHeader := bestHeader, kCasper := s\<rparr>)
                     | KErr e \<Rightarrow> KErr e
                     | KPanic \<Rightarrow> KPanic
                     | KFuel \<Rightarrow> KFuel)
                | KErr e \<Rightarrow> KErr e
                | KPanic \<Rightarrow> KPanic
                | KFuel \<Rightarrow> KFuel))
      | (KErr e, _) \<Rightarrow> KErr e
      | (KPanic, _) \<Rightarrow> KPanic
      | (KFuel, _) \<Rightarrow> KFuel)"

end
