(* ===== verification/ChainStore.thy ===== *)
theory ChainStore
  imports Chain
begin

text \<open>
  The stored headers as a tree over the genesis block: the way from one block to another that \<^verbatim>\<open>calcReorganizeChain\<close>
  finds, and the index of the main chain that a reorganisation writes.
\<close>

section \<open>Headers and their parents\<close>

text \<open>
  No two headers that are met have the same hash and another height or parent: \<open>f\<close> gives the height and the parent
  that belong to a hash.
\<close>

definition known :: "(Hash \<Rightarrow> u64 \<times> Hash) \<Rightarrow> lib \<Rightarrow> TypesBlockHeader \<Rightarrow> bool" where
  "known f L x \<longleftrightarrow> f (BlockHeader_Hash L x) = (thHeight x, thPreviousBlockHash x)"

lemma known_same:
  "known f L x \<Longrightarrow> known f L y \<Longrightarrow> BlockHeader_Hash L x = BlockHeader_Hash L y \<Longrightarrow>
    thHeight x = thHeight y \<and> thPreviousBlockHash x = thPreviousBlockHash y"
  by (simp add: known_def)

text \<open>Every stored header is stored under its hash; only the genesis block has height 0; every other block has a stored parent of the height before.\<close>

definition tree_ok :: "(Hash \<Rightarrow> u64 \<times> Hash) \<Rightarrow> lib \<Rightarrow> Hash \<Rightarrow> (Hash \<rightharpoonup> TypesBlockHeader) \<Rightarrow> bool" where
  "tree_ok f L g H \<longleftrightarrow>
     (\<forall>h x. H h = Some x \<longrightarrow>
        BlockHeader_Hash L x = h \<and> known f L x \<and> (thHeight x = 0 \<longrightarrow> h = g) \<and>
        (thHeight x \<noteq> 0 \<longrightarrow> (\<exists>y. H (thPreviousBlockHash x) = Some y \<and> thHeight x = thHeight y + 1)))"

lemma tree_okD:
  assumes "tree_ok f L g H" "H h = Some x"
  shows "BlockHeader_Hash L x = h" "known f L x" "thHeight x = 0 \<Longrightarrow> h = g"
  using assms by (auto simp: tree_ok_def)

lemma word_pred_height:
  fixes a b :: u64
  assumes "a = b + 1" "a \<noteq> 0"
  shows "unat a = Suc (unat b)"
  using assms unatSuc [of b] by (simp add: add.commute)

lemma tree_ok_parent:
  assumes "tree_ok f L g H" "H h = Some x" "thHeight x \<noteq> 0"
  obtains y where "H (thPreviousBlockHash x) = Some y" "unat (thHeight x) = Suc (unat (thHeight y))"
    "BlockHeader_Hash L y = thPreviousBlockHash x"
proof -
  obtain y where y: "H (thPreviousBlockHash x) = Some y" "thHeight x = thHeight y + 1"
    using assms(1) [unfolded tree_ok_def, rule_format, OF assms(2)] assms(3) by blast
  show thesis using that [OF y(1) word_pred_height [OF y(2) assms(3)]] tree_okD(1) [OF assms(1) y(1)] by simp
qed

text \<open>A header whose hash is stored stands in the tree where the stored one does.\<close>

definition in_tree :: "(Hash \<Rightarrow> u64 \<times> Hash) \<Rightarrow> lib \<Rightarrow> (Hash \<rightharpoonup> TypesBlockHeader) \<Rightarrow> TypesBlockHeader \<Rightarrow> bool" where
  "in_tree f L H x \<longleftrightarrow> known f L x \<and> H (BlockHeader_Hash L x) \<noteq> None"

lemma in_tree_stored: "tree_ok f L g H \<Longrightarrow> H h = Some x \<Longrightarrow> in_tree f L H x"
  by (simp add: in_tree_def tree_okD)

lemma in_tree_parent:
  assumes "tree_ok f L g H" "in_tree f L H x" "thHeight x \<noteq> 0"
  obtains y where "H (thPreviousBlockHash x) = Some y" "unat (thHeight x) = Suc (unat (thHeight y))"
    "BlockHeader_Hash L y = thPreviousBlockHash x" "in_tree f L H y"
proof -
  obtain z where z: "H (BlockHeader_Hash L x) = Some z" "known f L x" using assms(2) by (auto simp: in_tree_def)
  have "thHeight x = thHeight z" "thPreviousBlockHash x = thPreviousBlockHash z"
    using known_same [OF z(2) tree_okD(2) [OF assms(1) z(1)]] tree_okD(1) [OF assms(1) z(1)] by simp_all
  then show thesis using tree_ok_parent [OF assms(1) z(1)] assms(3) that in_tree_stored [OF assms(1)] by metis
qed

lemma in_tree_genesis:
  assumes "tree_ok f L g H" "in_tree f L H x" "thHeight x = 0"
  shows "BlockHeader_Hash L x = g"
proof -
  obtain z where z: "H (BlockHeader_Hash L x) = Some z" "known f L x" using assms(2) by (auto simp: in_tree_def)
  then have "thHeight z = 0" using known_same [OF z(2) tree_okD(2) [OF assms(1) z(1)]] tree_okD(1) [OF assms(1) z(1)] assms(3) by simp
  then show ?thesis using tree_okD(3) [OF assms(1) z(1)] by simp
qed

section \<open>The way between two blocks\<close>

text \<open>Each header is the child of the one before it.\<close>

primrec chain_from :: "lib \<Rightarrow> TypesBlockHeader \<Rightarrow> TypesBlockHeader list \<Rightarrow> bool" where
  "chain_from L y [] = True"
| "chain_from L y (x # l) =
     (thPreviousBlockHash x = BlockHeader_Hash L y \<and> unat (thHeight x) = Suc (unat (thHeight y)) \<and> chain_from L x l)"

lemma chain_from_append: "chain_from L y (l @ l') \<longleftrightarrow> chain_from L y l \<and> chain_from L (last (y # l)) l'"
  by (induction l arbitrary: y) auto

lemma chain_from_heights: "chain_from L y l \<Longrightarrow> x \<in> set l \<Longrightarrow> unat (thHeight y) < unat (thHeight x)"
proof (induction l arbitrary: y)
  case (Cons a l)
  have "unat (thHeight a) = Suc (unat (thHeight y))" using Cons.prems(1) by simp
  moreover have "x = a \<or> unat (thHeight a) < unat (thHeight x)" using Cons.IH [of a] Cons.prems by (cases "x = a") simp_all
  ultimately show ?case by auto
qed simp

text \<open>
  What the loop has collected so far: the attached headers lead from the current one to \<open>a\<close>, the detached ones from \<open>d\<close> to
  the current one. The headers met have heights above the current ones.
\<close>

definition way :: "lib \<Rightarrow> TypesBlockHeader \<Rightarrow> TypesBlockHeader list \<Rightarrow> TypesBlockHeader \<Rightarrow> bool" where
  "way L y l a \<longleftrightarrow> chain_from L y l \<and> BlockHeader_Hash L (last (y # l)) = BlockHeader_Hash L a"

lemma way_same: "BlockHeader_Hash L x = BlockHeader_Hash L y \<Longrightarrow> thHeight x = thHeight y \<Longrightarrow> way L x l a \<Longrightarrow> way L y l a"
  by (cases l) (auto simp: way_def)

lemma way_down:
  assumes "way L x l a" "BlockHeader_Hash L y = thPreviousBlockHash x" "unat (thHeight x) = Suc (unat (thHeight y))"
  shows "way L y (x # l) a"
  using assms by (simp add: way_def)

text \<open>What the loop knows when it is at \<open>a\<close> and \<open>d\<close>.\<close>

definition loop_inv ::
  "(Hash \<Rightarrow> u64 \<times> Hash) \<Rightarrow> lib \<Rightarrow> (Hash \<rightharpoonup> TypesBlockHeader) \<Rightarrow> TypesBlockHeader \<Rightarrow> TypesBlockHeader \<Rightarrow> TypesBlockHeader list \<Rightarrow> TypesBlockHeader list \<Rightarrow>
   TypesBlockHeader \<Rightarrow> TypesBlockHeader \<Rightarrow> bool" where
  "loop_inv f L H a d attaches detaches ea ed \<longleftrightarrow>
     in_tree f L H a \<and> in_tree f L H d \<and> way L a attaches ea \<and> way L d (rev detaches) ed \<and>
     BlockHeader_Hash L ` set attaches \<inter> BlockHeader_Hash L ` set detaches = {} \<and>
     (\<forall>x\<in>set attaches. in_tree f L H x \<and> thHeight d \<le> thHeight x \<and> BlockHeader_Hash L x \<noteq> BlockHeader_Hash L d) \<and>
     (\<forall>x\<in>set detaches. in_tree f L H x \<and> thHeight a \<le> thHeight x \<and> BlockHeader_Hash L x \<noteq> BlockHeader_Hash L a)"

lemma in_tree_height: "in_tree f L H x \<Longrightarrow> in_tree f L H y \<Longrightarrow> thHeight x \<noteq> thHeight y \<Longrightarrow> BlockHeader_Hash L x \<noteq> BlockHeader_Hash L y"
  using known_same [of f L x y] by (auto simp: in_tree_def)

lemma lower_height:
  fixes x y z :: u64
  assumes "unat x = Suc (unat y)"
  shows "y < x" "x \<le> z \<Longrightarrow> y \<le> z \<and> y \<noteq> z"
  using assms by (auto simp: word_less_nat_alt word_le_nat_alt)

text \<open>The two sides of the loop mirror each other.\<close>

lemma loop_inv_swap: "loop_inv f L H a d attaches detaches ea ed \<longleftrightarrow> loop_inv f L H d a (rev detaches) (rev attaches) ed ea"
  by (auto simp: loop_inv_def)

lemma attach_step:
  assumes "tree_ok f L g H" "loop_inv f L H a d attaches detaches ea ed" "thHeight d \<le> thHeight a" "BlockHeader_Hash L a \<noteq> BlockHeader_Hash L d"
  obtains a' where "H (thPreviousBlockHash a) = Some a'" "unat (thHeight a) = Suc (unat (thHeight a'))" "loop_inv f L H a' d (a # attaches) detaches ea ed"
proof -
  have a: "in_tree f L H a" and d: "in_tree f L H d" using assms(2) by (simp_all add: loop_inv_def)
  have "thHeight a \<noteq> 0"
  proof
    assume z: "thHeight a = 0"
    then have "thHeight d = 0" using assms(3) by (simp add: word_le_nat_alt unat_eq_zero)
    then show False using in_tree_genesis [OF assms(1) a z] in_tree_genesis [OF assms(1) d] assms(4) by simp
  qed
  then obtain a' where a': "H (thPreviousBlockHash a) = Some a'" "unat (thHeight a) = Suc (unat (thHeight a'))"
    "BlockHeader_Hash L a' = thPreviousBlockHash a" "in_tree f L H a'"
    using in_tree_parent [OF assms(1) a] by metis
  have "thHeight a' \<le> thHeight x \<and> BlockHeader_Hash L x \<noteq> BlockHeader_Hash L a'" if "x \<in> set detaches" for x
  proof -
    have x: "in_tree f L H x" "thHeight a \<le> thHeight x" using assms(2) that by (simp_all add: loop_inv_def)
    then show ?thesis using lower_height(2) [OF a'(2) x(2)] in_tree_height [OF x(1) a'(4)] by auto
  qed
  moreover have "BlockHeader_Hash L a \<notin> BlockHeader_Hash L ` set detaches" using assms(2) by (auto simp: loop_inv_def)
  ultimately have "loop_inv f L H a' d (a # attaches) detaches ea ed"
    using assms(2-4) a' way_down [OF _ a'(3,2)] by (simp add: loop_inv_def)
  then show thesis using that a' by blast
qed

lemma detach_step:
  assumes "tree_ok f L g H" "loop_inv f L H a d attaches detaches ea ed" "thHeight a \<le> thHeight d" "BlockHeader_Hash L a \<noteq> BlockHeader_Hash L d"
  obtains d' where "H (thPreviousBlockHash d) = Some d'" "unat (thHeight d) = Suc (unat (thHeight d'))" "loop_inv f L H a d' attaches (detaches @ [d]) ea ed"
proof -
  have "loop_inv f L H d a (rev detaches) (rev attaches) ed ea" using assms(2) loop_inv_swap by blast
  then obtain d' where d': "H (thPreviousBlockHash d) = Some d'" "unat (thHeight d) = Suc (unat (thHeight d'))"
    "loop_inv f L H d' a (d # rev detaches) (rev attaches) ed ea"
    using attach_step [OF assms(1) _ assms(3)] assms(4) by metis
  then have "loop_inv f L H a d' attaches (detaches @ [d]) ea ed" using loop_inv_swap [of f L H a d' attaches "detaches @ [d]"] by simp
  then show thesis using that d' by blast
qed

lemma calc_loop_next:
  assumes "BlockHeader_Hash L d \<noteq> BlockHeader_Hash L a"
  shows "thHeight d \<le> thHeight a \<Longrightarrow> \<not> thHeight a \<le> thHeight d \<Longrightarrow> H (thPreviousBlockHash a) = Some a' \<Longrightarrow>
      calc_loop (Suc n) L H a d attaches detaches = calc_loop n L H a' d (a # attaches) detaches"
    and "\<not> thHeight d \<le> thHeight a \<Longrightarrow> thHeight a \<le> thHeight d \<Longrightarrow> H (thPreviousBlockHash d) = Some d' \<Longrightarrow>
      calc_loop (Suc n) L H a d attaches detaches = calc_loop n L H a d' attaches (detaches @ [d])"
    and "thHeight d \<le> thHeight a \<Longrightarrow> thHeight a \<le> thHeight d \<Longrightarrow> H (thPreviousBlockHash a) = Some a' \<Longrightarrow> H (thPreviousBlockHash d) = Some d' \<Longrightarrow>
      calc_loop (Suc n) L H a d attaches detaches = calc_loop n L H a' d' (a # attaches) (detaches @ [d])"
  using assms by (simp_all only: calc_loop.simps Let_def if_True if_False option.case)

text \<open>The loop meets at most as many headers as the two heights allow.\<close>

lemma calc_loop_way:
  assumes "tree_ok f L g H" "loop_inv f L H a d attaches detaches ea ed" "unat (thHeight a) + unat (thHeight d) < n"
  shows "\<exists>y y' attaches' detaches'. calc_loop n L H a d attaches detaches = KOk (attaches', detaches') \<and> loop_inv f L H y y' attaches' detaches' ea ed \<and>
    BlockHeader_Hash L y = BlockHeader_Hash L y'"
  using assms(2,3)
proof (induction n arbitrary: a d attaches detaches)
  case (Suc n)
  show ?case
  proof (cases "BlockHeader_Hash L d = BlockHeader_Hash L a")
    case True
    then have "calc_loop (Suc n) L H a d attaches detaches = KOk (attaches, detaches)" by simp
    then show ?thesis using Suc.prems(1) True [symmetric] by blast
  next
    case False
    then have ne: "BlockHeader_Hash L a \<noteq> BlockHeader_Hash L d" by simp
    consider "thHeight d < thHeight a" | "thHeight a < thHeight d" | "thHeight a = thHeight d" by fastforce
    then show ?thesis
    proof cases
      case 1
      obtain a' where a': "H (thPreviousBlockHash a) = Some a'" "unat (thHeight a) = Suc (unat (thHeight a'))" "loop_inv f L H a' d (a # attaches) detaches ea ed"
        by (rule attach_step [OF assms(1) Suc.prems(1) order.strict_implies_order [OF 1] ne])
      have "calc_loop (Suc n) L H a d attaches detaches = calc_loop n L H a' d (a # attaches) detaches"
        by (rule calc_loop_next(1) [OF False]) (use 1 a'(1) in simp_all)
      then show ?thesis using Suc.IH [OF a'(3)] Suc.prems(2) a'(2) by simp
    next
      case 2
      obtain d' where d': "H (thPreviousBlockHash d) = Some d'" "unat (thHeight d) = Suc (unat (thHeight d'))" "loop_inv f L H a d' attaches (detaches @ [d]) ea ed"
        by (rule detach_step [OF assms(1) Suc.prems(1) order.strict_implies_order [OF 2] ne])
      have "calc_loop (Suc n) L H a d attaches detaches = calc_loop n L H a d' attaches (detaches @ [d])"
        by (rule calc_loop_next(2) [OF False]) (use 2 d'(1) in simp_all)
      then show ?thesis using Suc.IH [OF d'(3)] Suc.prems(2) d'(2) by simp
    next
      case 3
      obtain a' where a': "H (thPreviousBlockHash a) = Some a'" "unat (thHeight a) = Suc (unat (thHeight a'))" "loop_inv f L H a' d (a # attaches) detaches ea ed"
        by (rule attach_step [OF assms(1) Suc.prems(1) eq_refl [OF 3 [symmetric]] ne])
      have lt: "thHeight a' < thHeight d" using lower_height(1) [OF a'(2)] 3 by simp
      then have ne': "BlockHeader_Hash L a' \<noteq> BlockHeader_Hash L d" using in_tree_height [of f L H a' d] a'(3) by (auto simp: loop_inv_def)
      obtain d' where d': "H (thPreviousBlockHash d) = Some d'" "unat (thHeight d) = Suc (unat (thHeight d'))"
        "loop_inv f L H a' d' (a # attaches) (detaches @ [d]) ea ed"
        by (rule detach_step [OF assms(1) a'(3) order.strict_implies_order [OF lt] ne'])
      have "calc_loop (Suc n) L H a d attaches detaches = calc_loop n L H a' d' (a # attaches) (detaches @ [d])"
        by (rule calc_loop_next(3) [OF False]) (use 3 a'(1) d'(1) in simp_all)
      then show ?thesis using Suc.IH [OF d'(3)] Suc.prems(2) a'(2) d'(2) by simp
    qed
  qed
qed simp

section \<open>The index of the main chain\<close>

text \<open>The block that is \<open>n\<close> generations above.\<close>

primrec ancestor :: "(Hash \<rightharpoonup> TypesBlockHeader) \<Rightarrow> nat \<Rightarrow> TypesBlockHeader \<Rightarrow> TypesBlockHeader option" where
  "ancestor H 0 x = Some x"
| "ancestor H (Suc n) x = (if thHeight x = 0 then None else Option.bind (H (thPreviousBlockHash x)) (ancestor H n))"

text \<open>Every block on the way from the best one to the genesis is indexed under its height.\<close>

definition indexed :: "lib \<Rightarrow> (Hash \<rightharpoonup> TypesBlockHeader) \<Rightarrow> (u64 \<rightharpoonup> Hash) \<Rightarrow> TypesBlockHeader \<Rightarrow> bool" where
  "indexed L H I x \<longleftrightarrow> (\<forall>n y. ancestor H n x = Some y \<longrightarrow> I (thHeight y) = Some (BlockHeader_Hash L y))"

lemma indexed_step:
  assumes "I (thHeight x) = Some (BlockHeader_Hash L x)" "thHeight x \<noteq> 0 \<Longrightarrow> \<exists>y. H (thPreviousBlockHash x) = Some y \<and> indexed L H I y"
  shows "indexed L H I x"
  unfolding indexed_def
proof (intro allI impI)
  fix n y
  assume y: "ancestor H n x = Some y"
  show "I (thHeight y) = Some (BlockHeader_Hash L y)"
  proof (cases n)
    case 0
    then show ?thesis using y assms(1) by simp
  next
    case (Suc m)
    then have "thHeight x \<noteq> 0" "Option.bind (H (thPreviousBlockHash x)) (ancestor H m) = Some y"
      using y by (simp_all split: if_splits)
    then show ?thesis using assms(2) by (auto simp: indexed_def)
  qed
qed

lemma indexed_parent: "indexed L H I x \<Longrightarrow> thHeight x \<noteq> 0 \<Longrightarrow> H (thPreviousBlockHash x) = Some y \<Longrightarrow> indexed L H I y"
  unfolding indexed_def by (metis ancestor.simps(2) Option.bind.bind_lunit)

lemma indexed_self: "indexed L H I x \<Longrightarrow> I (thHeight x) = Some (BlockHeader_Hash L x)"
  unfolding indexed_def by (metis ancestor.simps(1))

lemma indexed_same:
  assumes "indexed L H I x" "BlockHeader_Hash L x = BlockHeader_Hash L y" "thHeight x = thHeight y" "thPreviousBlockHash x = thPreviousBlockHash y"
  shows "indexed L H I y"
  unfolding indexed_def
proof (intro allI impI)
  fix n z
  assume z: "ancestor H n y = Some z"
  show "I (thHeight z) = Some (BlockHeader_Hash L z)"
  proof (cases n)
    case 0
    then show ?thesis using z indexed_self [OF assms(1)] assms by simp
  next
    case (Suc m)
    then have "ancestor H n x = ancestor H n y" using assms by simp
    then have "ancestor H n x = Some z" using z by simp
    then show ?thesis using assms(1) by (auto simp: indexed_def)
  qed
qed

text \<open>An index that differs only above a block.\<close>

lemma ancestor_height:
  assumes "tree_ok f L g H" "in_tree f L H x" "ancestor H n x = Some y"
  shows "thHeight y \<le> thHeight x \<and> in_tree f L H y"
  using assms(2,3)
proof (induction n arbitrary: x)
  case (Suc n)
  then have nz: "thHeight x \<noteq> 0" by (auto split: if_splits)
  obtain z where z: "H (thPreviousBlockHash x) = Some z" "unat (thHeight x) = Suc (unat (thHeight z))" "in_tree f L H z"
    using in_tree_parent [OF assms(1) Suc.prems(1) nz] by metis
  then have "thHeight y \<le> thHeight z \<and> in_tree f L H y" using Suc.IH [OF z(3)] Suc.prems(2) nz by simp
  then show ?case using lower_height(1) [OF z(2)] by (auto intro: order_trans less_imp_le)
qed simp

lemma indexed_above:
  assumes "tree_ok f L g H" "in_tree f L H x" "indexed L H I x" "\<And>k. k \<le> thHeight x \<Longrightarrow> I' k = I k"
  shows "indexed L H I' x"
  using ancestor_height [OF assms(1,2)] assms(3,4) by (auto simp: indexed_def)

definition index_blocks :: "lib \<Rightarrow> TypesBlockHeader list \<Rightarrow> (u64 \<rightharpoonup> Hash) \<Rightarrow> (u64 \<rightharpoonup> Hash)" where
  "index_blocks L l I = fold (\<lambda>bh m. m(thHeight bh \<mapsto> BlockHeader_Hash L bh)) l I"

lemma index_blocks_other: "k \<notin> thHeight ` set l \<Longrightarrow> index_blocks L l I k = I k"
  unfolding index_blocks_def by (induction l arbitrary: I) auto

text \<open>Indexing a chain of blocks on top of an indexed one.\<close>

lemma index_blocks_chain:
  assumes "tree_ok f L g H" "in_tree f L H y" "indexed L H I y" "chain_from L y l" "\<forall>x\<in>set l. in_tree f L H x"
  shows "indexed L H (index_blocks L l I) (last (y # l))"
  using assms(2-5)
proof (induction l arbitrary: y I)
  case Nil
  then show ?case by (simp add: index_blocks_def)
next
  case (Cons x l)
  let ?I = "I(thHeight x \<mapsto> BlockHeader_Hash L x)"
  have x: "in_tree f L H x" "thPreviousBlockHash x = BlockHeader_Hash L y" "unat (thHeight x) = Suc (unat (thHeight y))" "chain_from L x l"
    using Cons.prems by simp_all
  obtain z where z: "H (BlockHeader_Hash L y) = Some z" using Cons.prems(1) by (auto simp: in_tree_def)
  note zk = tree_okD [OF assms(1) z]
  have "indexed L H I z"
    using indexed_same [OF Cons.prems(2), of z] known_same [of f L y z] zk Cons.prems(1) by (simp add: in_tree_def)
  moreover have "thHeight z = thHeight y" using known_same [of f L z y] zk Cons.prems(1) by (simp add: in_tree_def)
  moreover have "?I k = I k" if "k \<le> thHeight y" for k using that x(3) by (auto simp: word_le_nat_alt)
  ultimately have "indexed L H ?I z" using indexed_above [OF assms(1) in_tree_stored [OF assms(1) z]] by simp
  then have ix: "indexed L H ?I x" using z x(2) by (intro indexed_step) auto
  have "\<forall>z\<in>set l. in_tree f L H z" using Cons.prems(4) by simp
  from Cons.IH [OF x(1) ix x(4) this] have "indexed L H (index_blocks L l ?I) (last (x # l))" .
  moreover have "index_blocks L (x # l) I = index_blocks L l ?I" by (simp add: index_blocks_def)
  ultimately show ?case by simp
qed

text \<open>The blocks below an indexed one are indexed.\<close>

lemma indexed_below:
  assumes "tree_ok f L g H" "in_tree f L H y" "chain_from L y l" "\<forall>x\<in>set l. in_tree f L H x" "indexed L H I (last (y # l))"
  shows "indexed L H I y"
  using assms(2-5)
proof (induction l arbitrary: y)
  case (Cons x l)
  have x: "in_tree f L H x" "thPreviousBlockHash x = BlockHeader_Hash L y" "unat (thHeight x) = Suc (unat (thHeight y))" "chain_from L x l"
    "\<forall>z\<in>set l. in_tree f L H z" "indexed L H I (last (x # l))"
    using Cons.prems by simp_all
  have ix: "indexed L H I x" by (rule Cons.IH [OF x(1,4,5,6)])
  have "thHeight x \<noteq> 0" using x(3) by auto
  moreover obtain z where z: "H (BlockHeader_Hash L y) = Some z" using Cons.prems(1) by (auto simp: in_tree_def)
  ultimately have "indexed L H I z" using indexed_parent [OF ix] x(2) by simp
  then show ?case
    using indexed_same [of L H I z y] known_same [of f L z y] tree_okD [OF assms(1) z] Cons.prems(1) by (simp add: in_tree_def)
qed simp

lemma indexed_hash:
  "in_tree f L H x \<Longrightarrow> in_tree f L H y \<Longrightarrow> BlockHeader_Hash L x = BlockHeader_Hash L y \<Longrightarrow> indexed L H I x \<Longrightarrow> indexed L H I y"
  using known_same [of f L x y] indexed_same [of L H I x y] by (simp add: in_tree_def)

text \<open>What a reorganisation writes into the index makes the new best block indexed.\<close>

lemma calc_loop_indexed:
  assumes "tree_ok f L g H" "in_tree f L H a" "in_tree f L H d" "unat (thHeight a) + unat (thHeight d) < n" "indexed L H I d"
  obtains attaches detaches where "calc_loop n L H a d [] [] = KOk (attaches, detaches)" "indexed L H (index_blocks L attaches I) a"
proof -
  have "loop_inv f L H a d [] [] a d" using assms(2,3) by (simp add: loop_inv_def way_def)
  then obtain y y' attaches detaches where r: "calc_loop n L H a d [] [] = KOk (attaches, detaches)"
    and i: "loop_inv f L H y y' attaches detaches a d" and e: "BlockHeader_Hash L y = BlockHeader_Hash L y'"
    using calc_loop_way [OF assms(1) _ assms(4)] by blast
  have t: "in_tree f L H y" "in_tree f L H y'" "chain_from L y attaches" "chain_from L y' (rev detaches)"
    "BlockHeader_Hash L (last (y # attaches)) = BlockHeader_Hash L a" "BlockHeader_Hash L (last (y' # rev detaches)) = BlockHeader_Hash L d"
    "\<forall>x\<in>set attaches. in_tree f L H x" "\<forall>x\<in>set (rev detaches). in_tree f L H x"
    using i by (simp_all add: loop_inv_def way_def)
  have ends: "in_tree f L H (last (y # attaches))" "in_tree f L H (last (y' # rev detaches))"
    using t last_in_set [of "y # attaches"] last_in_set [of "y' # rev detaches"] by auto
  have "indexed L H I (last (y' # rev detaches))" by (rule indexed_hash [OF assms(3) ends(2) t(6) [symmetric] assms(5)])
  then have "indexed L H I y'" by (rule indexed_below [OF assms(1) t(2,4,8)])
  then have "indexed L H I y" by (rule indexed_hash [OF t(2,1) e [symmetric]])
  then have "indexed L H (index_blocks L attaches I) (last (y # attaches))" by (rule index_blocks_chain [OF assms(1) t(1) _ t(3,7)])
  then have "indexed L H (index_blocks L attaches I) a" by (rule indexed_hash [OF ends(1) assms(2) t(5)])
  then show thesis using that r by blast
qed

end
