(* ===== verification/ChainProps.thy ===== *)
theory ChainProps
  imports ChainStore CasperSafety
begin

text \<open>
  The chain keeps its index: whatever blocks, votes and requests for a reorganisation it processes, every block on the way from the
  best block down to the genesis is found under its height.
\<close>

section \<open>What consensus does to the headers\<close>

lemma headers_add_verifications: "stHeaders (cStore (snd (add_verifications n vs h s))) = stHeaders (cStore s)"
proof (induction vs arbitrary: h s)
  case (Cons v vs)
  show ?case
  proof (cases "GetCheckpoint (cStore s) (vfSourceHash v)")
    case None
    then show ?thesis by simp
  next
    case (Some source)
    show ?thesis
    proof (cases "AddVerification (vfSourceHash v) (vfSourceHeight v) (vforder v) (vfSignature v) (fst h)")
      case None
      then show ?thesis using Some by simp
    next
      case (Some x)
      obtain l c where x: "x = (l, c)" by (cases x)
      let ?h = "(c, snd h)"
      let ?s1 = "s\<lparr>cTree := write_back ?h (cTree s)\<rparr>"
      obtain h' s2 where j: "setJustified source ?h ?s1 = (h', s2)" by (metis surj_pair)
      have "stHeaders (cStore s2) = stHeaders (cStore s)" using stHeaders_setJustified [of source ?h ?s1] by (simp add: j)
      then show ?thesis
        using Cons.IH [of ?h ?s1] Cons.IH [of h' s2] \<open>GetCheckpoint (cStore s) (vfSourceHash v) = Some source\<close> Some
        by (auto simp: x j Let_def split: prod.split cresult.split)
    qed
  qed
qed simp

lemma headers_apply_sup_links: "stHeaders (cStore (snd (apply_sup_links E parent l h s))) = stHeaders (cStore s)"
proof (induction l arbitrary: h s)
  case (Cons a l)
  show ?case
  proof (cases "validVerificationsFromSupLink E parent (fst h) a s")
    case (COk vs)
    obtain r s1 where av: "addVerificationToCheckpoint E parent h vs s = (r, s1)" by (metis surj_pair)
    have h1: "stHeaders (cStore s1) = stHeaders (cStore s)"
    proof (cases parent)
      case None
      then show ?thesis using av by (simp add: addVerificationToCheckpoint_def)
    next
      case (Some pa)
      obtain r0 s0 where a0: "add_verifications (length (validators_of E pa)) vs h s = (r0, s0)" by (metis surj_pair)
      then have "s1 = s0" using av Some by (auto simp: addVerificationToCheckpoint_def split: cresult.splits)
      then show ?thesis using headers_add_verifications [of "length (validators_of E pa)" vs h s] a0 by simp
    qed
    show ?thesis
    proof (cases r)
      case (COk x)
      obtain h' cs where x: "x = (h', cs)" by (cases x)
      obtain r2 s2 where l2: "apply_sup_links E parent l h' s1 = (r2, s2)" by (metis surj_pair)
      show ?thesis using Cons.IH [of h' s1] h1 l2 COk \<open>validVerificationsFromSupLink E parent (fst h) a s = COk vs\<close> av
        by (auto simp: x split: cresult.split)
    qed (use h1 av COk in auto)
  qed simp_all
qed simp

lemma store_increase: "cStore (snd (increase_node E b p s)) = cStore s" "cStore (snd (epoch_node E b p s)) = cStore s"
proof -
  show inc: "cStore (snd (increase_node E b p s)) = cStore s" for p s
    by (simp add: increase_node_def split: option.split cpresult.split)
  show "cStore (snd (epoch_node E b p s)) = cStore s" by (simp add: epoch_node_def inc split: option.split)
qed

lemma store_checkpointNodeByHash: "cStore (snd (checkpointNodeByHash n E h s)) = cStore s"
proof (induction n arbitrary: h s)
  case (Suc n)
  show ?case
  proof (cases "nodeByHash h (cTree s)")
    case None
    show ?thesis
    proof (cases "stBlocks (cStore s) h")
      case (Some b)
      obtain r s1 where c: "checkpointNodeByHash n E (thPreviousBlockHash (tbHeader b)) s = (r, s1)" by (metis surj_pair)
      have "cStore s1 = cStore s" using Suc.IH [of "thPreviousBlockHash (tbHeader b)" s] by (simp add: c)
      then show ?thesis using \<open>nodeByHash h (cTree s) = None\<close> Some c by (cases r) (simp_all add: store_increase)
    qed (simp add: None)
  qed simp
qed simp

lemma store_applyBlockToCheckpoint: "cStore (snd (applyBlockToCheckpoint n E b s)) = cStore s"
proof -
  obtain r s1 where c: "checkpointNodeByHash n E (thPreviousBlockHash (tbHeader b)) s = (r, s1)" by (metis surj_pair)
  have "cStore s1 = cStore s" using store_checkpointNodeByHash [of n E "thPreviousBlockHash (tbHeader b)" s] by (simp add: c)
  then show ?thesis using c by (cases r) (simp_all add: applyBlockToCheckpoint_def store_increase)
qed

lemma store_applyMyVerification: "cStore (snd (applyMyVerification E p b s)) = cStore s"
  by (simp add: applyMyVerification_def split: cresult.split option.split)

lemma headers_applySupLinks: "stHeaders (cStore (snd (applySupLinks E p l s))) = stHeaders (cStore s)"
proof (cases "cp_at (cTree s) p")
  case (Some target)
  obtain r s1 where a: "apply_sup_links E (parent_at (cTree s) p) l (target, Some p) s = (r, s1)" by (metis surj_pair)
  have "stHeaders (cStore s1) = stHeaders (cStore s)"
    using headers_apply_sup_links [of E "parent_at (cTree s) p" l "(target, Some p)" s] by (simp add: a)
  then show ?thesis using Some a by (cases r) (auto simp: applySupLinks_def)
qed (simp add: applySupLinks_def)

lemma headers_ApplyBlock: "stHeaders (cStore (snd (Casper_ApplyBlock n E b s0))) = stHeaders (cStore s0)"
proof -
  define s where "s = (if thHeight (tbHeader b) mod BlocksOfEpoch (eN E) = 1
    then s0\<lparr>cNewEpoch := cNewEpoch s0 @ [thPreviousBlockHash (tbHeader b)]\<rparr> else s0)"
  have s: "cStore s = cStore s0" by (simp add: s_def)
  obtain r1 s1 where a1: "applyBlockToCheckpoint n E b s = (r1, s1)" by (metis surj_pair)
  have h1: "stHeaders (cStore s1) = stHeaders (cStore s0)" using store_applyBlockToCheckpoint [of n E b s] by (simp add: a1 s)
  show ?thesis
  proof (cases "nodeByHash (BlockHeader_Hash (eL E) (tbHeader b)) (cTree s)")
    case (Some q)
    then show ?thesis by (simp add: Casper_ApplyBlock_def s_def [symmetric] s)
  next
    case None
    show ?thesis
    proof (cases r1)
      case (COk p)
      obtain r2 s2 where a2: "applyMyVerification E p b s1 = (r2, s2)" by (metis surj_pair)
      have h2: "stHeaders (cStore s2) = stHeaders (cStore s0)" using store_applyMyVerification [of E p b s1] h1 by (simp add: a2)
      show ?thesis
      proof (cases r2)
        case (COk b')
        obtain r3 s3 where a3: "applySupLinks E p (thSupLinks (tbHeader b')) s2 = (r3, s3)" by (metis surj_pair)
        have h3: "stHeaders (cStore s3) = stHeaders (cStore s0)"
          using headers_applySupLinks [of E p "thSupLinks (tbHeader b')" s2] h2 by (simp add: a3)
        show ?thesis
          using None a1 a2 a3 h3 COk \<open>r1 = COk p\<close> by (cases r3) (simp_all add: Casper_ApplyBlock_def s_def [symmetric])
      qed (use None a1 a2 h2 COk in \<open>simp_all add: Casper_ApplyBlock_def s_def [symmetric]\<close>)
    qed (use None a1 h1 in \<open>simp_all add: Casper_ApplyBlock_def s_def [symmetric]\<close>)
  qed
qed

lemma store_parent_loop: "cStore (snd (parent_loop n N p h s)) = cStore s"
proof (induction n arbitrary: h)
  case (Suc n)
  show ?case
  proof (cases "stHeaders (cStore s) h")
    case (Some b)
    obtain r c where "Cache_Get h (cPrev s) = (r, c)" by (metis surj_pair)
    then show ?thesis using Suc.IH Some by (cases r) simp_all
  qed simp
qed simp

lemma store_ParentCheckpointByPrevHash: "cStore (snd (ParentCheckpointByPrevHash n N p s)) = cStore s"
proof -
  obtain r s1 where "parent_loop n N p p s = (r, s1)" by (metis surj_pair)
  then show ?thesis
    using store_parent_loop [of n N p p s] by (cases r) (simp_all add: ParentCheckpointByPrevHash_def parentCheckpointHashByPrevHash_def checkpoint_by_def)
qed

text \<open>A vote changes the links of one header at most.\<close>

definition links_only :: "(Hash \<rightharpoonup> TypesBlockHeader) \<Rightarrow> (Hash \<rightharpoonup> TypesBlockHeader) \<Rightarrow> bool" where
  "links_only H H' \<longleftrightarrow> (\<forall>h. H' h = H h \<or> (\<exists>x l. H h = Some x \<and> H' h = Some (x\<lparr>thSupLinks := l\<rparr>)))"

lemma links_only_refl: "links_only H H"
  by (simp add: links_only_def)

lemma links_only_save:
  assumes "saveVerificationToHeader E v s = (r, s')" "\<forall>h x. stHeaders (cStore s) h = Some x \<longrightarrow> BlockHeader_Hash (eL E) x = h"
  shows "links_only (stHeaders (cStore s)) (stHeaders (cStore s'))"
  using assms by (auto simp: saveVerificationToHeader_def links_only_def SaveBlockHeader_def split: option.splits) blast

lemma links_only_authVerification:
  assumes "authVerification E v (Some pa) h s = (r, s')" "\<forall>h x. stHeaders (cStore s) h = Some x \<longrightarrow> BlockHeader_Hash (eL E) x = h"
  shows "links_only (stHeaders (cStore s)) (stHeaders (cStore s'))"
proof (cases "verifyVerification E v s")
  case (Some e)
  then show ?thesis using assms by (simp add: authVerification_def links_only_refl)
next
  case None
  obtain r0 s1 where a: "add_verifications (length (validators_of E pa)) [v] h s = (r0, s1)" by (metis surj_pair)
  have h1: "stHeaders (cStore s1) = stHeaders (cStore s)"
    using stHeaders_add_one [of "length (validators_of E pa)" v h s] by (simp only: a snd_conv)
  show ?thesis
  proof (cases r0)
    case (COk x)
    obtain h' affected where x: "x = (h', affected)" by (cases x)
    define s2 where "s2 = s1\<lparr>cPosted := cPosted s1 @ [toValidCasperSignMsg v], cStore := SaveCheckpoints (fst h' # affected) (cStore s1)\<rparr>"
    have h2: "stHeaders (cStore s2) = stHeaders (cStore s)" by (simp add: s2_def h1)
    have "s' = s1 \<or> saveVerificationToHeader E v s2 = (r, s')"
      using assms(1) None COk a by (auto simp: authVerification_def addVerificationToCheckpoint_def x s2_def simp del: add_verifications.simps split: if_splits)
    then show ?thesis using links_only_save [of E v s2 r s'] assms(2) h1 h2 by (auto simp: links_only_refl)
  qed (use assms(1) None a h1 in \<open>auto simp: authVerification_def addVerificationToCheckpoint_def links_only_refl simp del: add_verifications.simps\<close>)
qed

lemma links_only_auth_step:
  assumes "auth_step E s s'" "\<forall>h x. stHeaders (cStore s) h = Some x \<longrightarrow> BlockHeader_Hash (eL E) x = h"
  shows "links_only (stHeaders (cStore s)) (stHeaders (cStore s'))"
  using auth_step_cases [OF assms(1)] links_only_authVerification [OF _ assms(2)] by (auto simp: links_only_refl)

section \<open>Growing stores\<close>

lemma tree_ok_links:
  assumes "tree_ok f L g H" "links_only H H'"
  shows "tree_ok f L g H'" "dom H \<subseteq> dom H'"
proof -
  have fwd: "\<exists>x'. H' h = Some x' \<and> thHeight x' = thHeight x" if "H h = Some x" for h x
    using assms(2) [unfolded links_only_def, rule_format, of h] that by auto
  show "dom H \<subseteq> dom H'" using fwd by blast
  show "tree_ok f L g H'"
    unfolding tree_ok_def
  proof (intro allI impI)
    fix h x' assume "H' h = Some x'"
    then obtain x l where x: "H h = Some x" "x' = x \<or> x' = x\<lparr>thSupLinks := l\<rparr>"
      using assms(2) [unfolded links_only_def, rule_format, of h] by (metis option.inject)
    have e: "BlockHeader_Hash L x' = BlockHeader_Hash L x" "thHeight x' = thHeight x" "thPreviousBlockHash x' = thPreviousBlockHash x"
      using x(2) by auto
    note i = assms(1) [unfolded tree_ok_def, rule_format, OF x(1)]
    have "\<exists>y. H' (thPreviousBlockHash x) = Some y \<and> thHeight x = thHeight y + 1" if nz: "thHeight x \<noteq> 0"
      using i nz fwd by metis
    then show "BlockHeader_Hash L x' = h \<and> known f L x' \<and> (thHeight x' = 0 \<longrightarrow> h = g) \<and>
        (thHeight x' \<noteq> 0 \<longrightarrow> (\<exists>y. H' (thPreviousBlockHash x') = Some y \<and> thHeight x' = thHeight y + 1))"
      using i by (auto simp: e known_def)
  qed
qed

lemma tree_ok_add:
  assumes "tree_ok f L g H" "known f L x" "thHeight x \<noteq> 0" "H (thPreviousBlockHash x) = Some y" "thHeight x = thHeight y + 1"
  shows "tree_ok f L g (H(BlockHeader_Hash L x \<mapsto> x))"
proof -
  let ?H = "H(BlockHeader_Hash L x \<mapsto> x)"
  have fwd: "\<exists>z'. ?H h = Some z' \<and> thHeight z' = thHeight z" if z: "H h = Some z" for h z
  proof (cases "h = BlockHeader_Hash L x")
    case True
    then show ?thesis using known_same [OF assms(2) tree_okD(2) [OF assms(1) z]] tree_okD(1) [OF assms(1) z] by simp
  qed (simp add: z)
  show ?thesis
    unfolding tree_ok_def
  proof (intro allI impI)
    fix h z assume z: "?H h = Some z"
    have "\<exists>w. ?H (thPreviousBlockHash z) = Some w \<and> thHeight z = thHeight w + 1" if nz: "thHeight z \<noteq> 0"
    proof (cases "h = BlockHeader_Hash L x")
      case True
      then have "z = x" using z by simp
      then show ?thesis using fwd [OF assms(4)] assms(5) by auto
    next
      case False
      then have "H h = Some z" using z by simp
      from assms(1) [unfolded tree_ok_def, rule_format, OF this] nz
      obtain w where "H (thPreviousBlockHash z) = Some w" "thHeight z = thHeight w + 1" by blast
      then show ?thesis using fwd by metis
    qed
    then show "BlockHeader_Hash L z = h \<and> known f L z \<and> (thHeight z = 0 \<longrightarrow> h = g) \<and>
        (thHeight z \<noteq> 0 \<longrightarrow> (\<exists>y. ?H (thPreviousBlockHash z) = Some y \<and> thHeight z = thHeight y + 1))"
      using z assms(2,3) tree_okD [OF assms(1), of h z] by (cases "h = BlockHeader_Hash L x") auto
  qed
qed

text \<open>A larger store has the same ancestors.\<close>

lemma ancestor_mono:
  assumes "tree_ok f L g H" "tree_ok f L g H'" "dom H \<subseteq> dom H'" "in_tree f L H x" "known f L x'" "BlockHeader_Hash L x' = BlockHeader_Hash L x"
    "ancestor H' n x' = Some y'"
  shows "\<exists>y. ancestor H n x = Some y \<and> BlockHeader_Hash L y = BlockHeader_Hash L y' \<and> thHeight y = thHeight y'"
  using assms(4-7)
proof (induction n arbitrary: x x')
  case 0
  then show ?case using known_same [of f L x x'] by (simp add: in_tree_def)
next
  case (Suc n)
  have e: "thHeight x' = thHeight x" "thPreviousBlockHash x' = thPreviousBlockHash x"
    using known_same [of f L x' x] Suc.prems by (simp_all add: in_tree_def)
  have nz: "thHeight x \<noteq> 0" and b: "Option.bind (H' (thPreviousBlockHash x)) (ancestor H' n) = Some y'"
    using Suc.prems(4) e by (auto split: if_splits)
  obtain z' where z': "H' (thPreviousBlockHash x) = Some z'" "ancestor H' n z' = Some y'" using b by (auto simp: Option.bind_eq_Some_conv)
  obtain z where z: "H (thPreviousBlockHash x) = Some z" "BlockHeader_Hash L z = thPreviousBlockHash x" "in_tree f L H z"
    using in_tree_parent [OF assms(1) Suc.prems(1) nz] by metis
  have "known f L z'" "BlockHeader_Hash L z' = BlockHeader_Hash L z" using tree_okD [OF assms(2) z'(1)] z(2) by simp_all
  from Suc.IH [OF z(3) this z'(2)] show ?case using nz z(1) by simp
qed

lemma indexed_mono:
  assumes "tree_ok f L g H" "tree_ok f L g H'" "dom H \<subseteq> dom H'" "in_tree f L H x" "indexed L H I x"
  shows "indexed L H' I x"
  unfolding indexed_def
proof (intro allI impI)
  fix n y' assume "ancestor H' n x = Some y'"
  then obtain y where "ancestor H n x = Some y" "BlockHeader_Hash L y = BlockHeader_Hash L y'" "thHeight y = thHeight y'"
    using ancestor_mono [OF assms(1-4) _ refl] assms(4) by (auto simp: in_tree_def)
  then show "I (thHeight y') = Some (BlockHeader_Hash L y')" using assms(5) by (metis indexed_def)
qed

section \<open>The invariant\<close>

text \<open>
  Blocks that the chain is given: their hashes do not collide, and their height is not 0. The code accepts height 0 after a parent of height
  \<open>2 ^ 64 - 1\<close> only, where the sum wraps around.
\<close>

definition fresh :: "(Hash \<Rightarrow> u64 \<times> Hash) \<Rightarrow> lib \<Rightarrow> ChainBlock \<Rightarrow> bool" where
  "fresh f L b \<longleftrightarrow> known f L (kbHeader b) \<and> thHeight (kbHeader b) \<noteq> 0"

definition chain_ok :: "(Hash \<Rightarrow> u64 \<times> Hash) \<Rightarrow> lib \<Rightarrow> Hash \<Rightarrow> Chain \<Rightarrow> bool" where
  "chain_ok f L g c \<longleftrightarrow>
     tree_ok f L g (headers c) \<and> in_tree f L (headers c) (bestBlockHeader c) \<and> indexed L (headers c) (kIndex c) (bestBlockHeader c) \<and>
     (\<forall>x\<in>set (orphan (orphanManage c)). fresh f L (obBlock (snd x)))"

lemma chain_ok_eq:
  "headers c' = headers c \<Longrightarrow> bestBlockHeader c' = bestBlockHeader c \<Longrightarrow> kIndex c' = kIndex c \<Longrightarrow>
    set (orphan (orphanManage c')) \<subseteq> set (orphan (orphanManage c)) \<Longrightarrow> chain_ok f L g c \<Longrightarrow> chain_ok f L g c'"
  by (auto simp: chain_ok_def)

lemma chain_ok_grow:
  assumes "chain_ok f L g c" "tree_ok f L g (headers c')" "dom (headers c) \<subseteq> dom (headers c')" "bestBlockHeader c' = bestBlockHeader c" "kIndex c' = kIndex c"
    "set (orphan (orphanManage c')) \<subseteq> set (orphan (orphanManage c))"
  shows "chain_ok f L g c'"
proof -
  have i: "tree_ok f L g (headers c)" "in_tree f L (headers c) (bestBlockHeader c)" "indexed L (headers c) (kIndex c) (bestBlockHeader c)"
    using assms(1) by (simp_all add: chain_ok_def)
  have "in_tree f L (headers c') (bestBlockHeader c)" using i(2) assms(3) by (auto simp: in_tree_def)
  then show ?thesis using indexed_mono [OF i(1) assms(2,3) i(2,3)] assms by (auto simp: chain_ok_def)
qed

lemma set_delete_orphan: "set (orphan (delete h om)) \<subseteq> set (orphan om)"
proof -
  have d: "set (AList.delete h l) \<subseteq> set l" for l :: "(Hash \<times> OrphanBlock) list" by (induction l) auto
  then show ?thesis by (auto simp: delete_def Let_def split: option.split prod.split)
qed

lemma set_Add_orphan: "set (orphan (Add L grow now b om)) \<subseteq> insert (block_hash L b, \<lparr>obBlock = b, obExpiration = now + orphanBlockTTL\<rparr>) (set (orphan om))"
proof -
  have u: "set (AList.update k v l) \<subseteq> insert (k, v) (set l)" for k v and l :: "(Hash \<times> OrphanBlock) list"
    by (induction l) auto
  have lru: "set (orphan (deleteLRU L om)) \<subseteq> set (orphan om)" using set_delete_orphan by (auto simp: deleteLRU_def split: option.split)
  show ?thesis
  proof (cases "map_of (orphan om) (block_hash L b) = None")
    case True
    define om1 where "om1 = (if length (orphan om) \<ge> numOrphanBlockLimit then deleteLRU L om else om)"
    have "set (orphan om1) \<subseteq> set (orphan om)" using lru by (simp add: om1_def)
    moreover have "orphan (Add L grow now b om) = AList.update (block_hash L b) \<lparr>obBlock = b, obExpiration = now + orphanBlockTTL\<rparr> (orphan om1)"
      using True by (simp add: Add_def Let_def om1_def [symmetric] case_prod_unfold)
    ultimately show ?thesis
      using u [of "block_hash L b" "\<lparr>obBlock = b, obExpiration = now + orphanBlockTTL\<rparr>" "orphan om1"] by auto
  qed (auto simp: Add_def)
qed

text \<open>The vote that consensus adds changes the links of the block only.\<close>

lemma applied_block_header:
  "BlockHeader_Hash L (kbHeader (applied_block n E b s)) = BlockHeader_Hash L (kbHeader b)"
  "thHeight (kbHeader (applied_block n E b s)) = thHeight (kbHeader b)"
  "thPreviousBlockHash (kbHeader (applied_block n E b s)) = thPreviousBlockHash (kbHeader b)"
  by (auto simp: applied_block_def applyMyVerification_def types_block_def split: option.split cresult.split prod.split)

lemma ValidateBlock_height:
  assumes "ValidateBlock n E V now b parent checkpoint st = (BOk u, st')"
  shows "thHeight (kbHeader b) = thHeight parent + 1"
proof -
  have "ValidateBlockHeader E now (kbHeader b) parent checkpoint = BOk ()"
    using assms by (cases "ValidateBlockHeader E now (kbHeader b) parent checkpoint") (simp_all add: ValidateBlock_def)
  then show ?thesis by (simp add: ValidateBlockHeader_def split: if_splits)
qed

text \<open>A block that is saved joins the tree.\<close>

lemma SaveBlock_ok:
  assumes "chain_ok f L g c" "fresh f L b" "headers c (thPreviousBlockHash (kbHeader b)) = Some parent" "thHeight (kbHeader b) = thHeight parent + 1"
  shows "chain_ok f L g (SaveBlock L b c)"
proof (rule chain_ok_grow [OF assms(1)])
  have h: "headers (SaveBlock L b c) = (headers c)(BlockHeader_Hash L (kbHeader b) \<mapsto> kbHeader b)"
    by (simp add: SaveBlock_def Let_def block_hash_def)
  show "tree_ok f L g (headers (SaveBlock L b c))"
    unfolding h using assms by (intro tree_ok_add) (simp_all add: chain_ok_def fresh_def)
  show "dom (headers c) \<subseteq> dom (headers (SaveBlock L b c))" unfolding h by auto
qed (simp_all add: SaveBlock_def Let_def)

lemma saveBlock_ok:
  assumes "saveBlock K b c = (r, c')" "eL (kE K) = L" "fresh f L b" "chain_ok f L g c"
  shows "chain_ok f L g c' \<and> bestBlockHeader c' = bestBlockHeader c \<and> kIndex c' = kIndex c"
proof (cases "headers c (thPreviousBlockHash (kbHeader b))")
  case None
  then show ?thesis using assms by (simp add: saveBlock_def GetBlockHeader_def)
next
  case (Some parent)
  obtain r1 s1 where p: "ParentCheckpointByPrevHash (kFuel K) (eN (kE K)) (thPreviousBlockHash (kbHeader b)) (kCasper c) = (r1, s1)" by (metis surj_pair)
  define c1 where "c1 = c\<lparr>kCasper := s1\<rparr>"
  have st1: "cStore s1 = cStore (kCasper c)" using store_ParentCheckpointByPrevHash [of "kFuel K" "eN (kE K)" "thPreviousBlockHash (kbHeader b)" "kCasper c"] by (simp add: p)
  have ok1: "chain_ok f L g (c1\<lparr>kMem := m\<rparr>)" for m by (rule chain_ok_eq [OF _ _ _ _ assms(4)]) (simp_all add: c1_def st1)
  show ?thesis
  proof (cases "casper_result r1")
    case (KOk checkpoint)
    obtain v st where v: "ValidateBlock (kFuel K) (kE K) ((kV K)\<lparr>eConverter := ProgramConverter (kDb c1)\<rparr>) (kNow K) b parent checkpoint (kMem c1) = (v, st)" by (metis surj_pair)
    define c2 where "c2 = c1\<lparr>kMem := st\<rparr>"
    show ?thesis
    proof (cases v)
      case (BOk u)
      obtain r3 s3 where a: "Casper_ApplyBlock (kFuel K) (kE K) (types_block b) (kCasper c2) = (r3, s3)" by (metis surj_pair)
      define c3 where "c3 = c2\<lparr>kCasper := s3\<rparr>"
      have "stHeaders (cStore s3) = stHeaders (cStore (kCasper c2))"
        using headers_ApplyBlock [of "kFuel K" "kE K" "types_block b" "kCasper c2"] by (simp only: a snd_conv)
      then have h3: "headers c3 = headers c" by (simp add: c3_def c2_def c1_def st1)
      have ok3: "chain_ok f L g c3" by (rule chain_ok_eq [OF h3 _ _ _ assms(4)]) (simp_all add: c3_def c2_def c1_def)
      have same: "bestBlockHeader c3 = bestBlockHeader c" "kIndex c3 = kIndex c" by (simp_all add: c3_def c2_def c1_def)
      show ?thesis
      proof (cases r3)
        case (COk y)
        define b' where "b' = applied_block (kFuel K) (kE K) b (kCasper c2)"
        note ab = applied_block_header [where n = "kFuel K" and E = "kE K" and b = b and s = "kCasper c2", folded b'_def]
        define c4 where "c4 = SaveBlock L b' c3"
        have "c' = c4\<lparr>orphanManage := Delete (block_hash L b') (orphanManage c4)\<rparr>"
          using assms(1,2) Some p KOk v BOk a COk
          by (simp add: saveBlock_def GetBlockHeader_def PrevCheckpointByPrevHash_def c1_def c2_def c3_def c4_def b'_def Let_def)
        moreover have "chain_ok f L g c4"
          unfolding c4_def
        proof (rule SaveBlock_ok [OF ok3])
          show "fresh f L b'" using assms(3) ab by (simp add: fresh_def known_def)
          show "headers c3 (thPreviousBlockHash (kbHeader b')) = Some parent" using Some ab h3 by simp
          show "thHeight (kbHeader b') = thHeight parent + 1" using ValidateBlock_height v BOk ab by metis
        qed
        moreover have "bestBlockHeader c4 = bestBlockHeader c" "kIndex c4 = kIndex c" using same by (simp_all add: c4_def SaveBlock_def Let_def)
        ultimately show ?thesis
          using chain_ok_eq [of c' c4] set_delete_orphan [of "block_hash L b'" "orphanManage c4"] by (simp add: Delete_def)
      qed (use assms(1,2) Some p KOk v BOk a ok3 same in \<open>auto simp: saveBlock_def GetBlockHeader_def PrevCheckpointByPrevHash_def c1_def c2_def c3_def Let_def\<close>)
    qed (use assms(1,2) Some p KOk v ok1 in \<open>auto simp add: saveBlock_def GetBlockHeader_def PrevCheckpointByPrevHash_def c1_def Let_def\<close>)
  qed (use assms(1,2) Some p ok1 [of "kMem c1"] in \<open>auto simp add: saveBlock_def GetBlockHeader_def PrevCheckpointByPrevHash_def c1_def Let_def\<close>)
qed

text \<open>Orphans that are saved with their parent.\<close>

lemma Get_fresh: "chain_ok f L g c \<Longrightarrow> Get h (orphanManage c) = Some (b, ok) \<Longrightarrow> fresh f L b"
  by (force simp: chain_ok_def Get_def dest: map_of_SomeD)

lemma sub_blocks_ok:
  "eL (kE K) = L \<Longrightarrow> chain_ok f L g c \<Longrightarrow> chain_ok f L g (snd (sub_loop n K s i c))"
  "eL (kE K) = L \<Longrightarrow> chain_ok f L g c \<Longrightarrow> chain_ok f L g (snd (saveSubBlock n K b c))"
proof (induction n K s i c and n K b c rule: sub_loop_saveSubBlock.induct)
  case (2 n K s i c)
  show ?case
  proof (cases "hs_len s \<le> i")
    case True
    then show ?thesis using 2 by simp
  next
    case False
    show ?thesis
    proof (cases "Get (helems (arrays (orphanManage c)) s ! i) (orphanManage c)")
      case None
      then show ?thesis using 2 False by simp
    next
      case (Some x)
      obtain b ok where x: "x = (b, ok)" by (cases x)
      obtain r c1 where sv: "saveBlock K b c = (r, c1)" by (metis surj_pair)
      have ok1: "chain_ok f L g c1"
        using saveBlock_ok [OF sv "2.prems"(1) Get_fresh [OF "2.prems"(2) Some [unfolded x]] "2.prems"(2)] by blast
      show ?thesis
      proof (cases r)
        case (KOk b')
        obtain r2 c2 where sub: "saveSubBlock n K b' c1 = (r2, c2)" by (metis surj_pair)
        have "chain_ok f L g c2" using "2.IH"(1) [OF False Some x [symmetric] sv [symmetric] KOk "2.prems"(1) ok1] by (simp add: sub)
        then have "chain_ok f L g (snd (sub_loop n K s (Suc i) c2))" if "r2 = KOk u" for u
          using "2.IH"(2) [OF False Some x [symmetric] sv [symmetric] KOk sub [symmetric] that "2.prems"(1)] by simp
        then show ?thesis using \<open>chain_ok f L g c2\<close> False Some x sv KOk sub by (cases r2) simp_all
      next
        case (KErr e)
        then show ?thesis using "2.IH"(3) [OF False Some x [symmetric] sv [symmetric] KErr "2.prems"(1) ok1] False Some x sv by simp
      qed (use False Some x sv ok1 in simp_all)
    qed
  qed
next
  case (4 n K b c)
  then show ?case by (cases "GetPrevOrphans (block_hash (eL (kE K)) b) (orphanManage c)") simp_all
qed simp_all

section \<open>Reorganisation\<close>

lemma calc_loop_fuel: "calc_loop n L H a d attaches detaches = KOk r \<Longrightarrow> n \<le> m \<Longrightarrow> calc_loop m L H a d attaches detaches = KOk r"
proof (induction n arbitrary: m a d attaches detaches)
  case (Suc n)
  obtain k where m: "m = Suc k" "n \<le> k" using Suc.prems(2) by (cases m) auto
  show ?case
  proof (cases "BlockHeader_Hash L d = BlockHeader_Hash L a")
    case True
    then show ?thesis using Suc.prems(1) by (simp add: m)
  next
    case False
    let ?A = "if thHeight d \<le> thHeight a then H (thPreviousBlockHash a) else Some a"
    let ?D = "if thHeight a \<le> thHeight d then H (thPreviousBlockHash d) else Some d"
    have e: "calc_loop (Suc j) L H a d attaches detaches =
      (case ?A of None \<Rightarrow> KErr ErrNotFound | Some a' \<Rightarrow> (case ?D of None \<Rightarrow> KErr ErrNotFound | Some d' \<Rightarrow>
         calc_loop j L H a' d' (if thHeight d \<le> thHeight a then a # attaches else attaches) (if thHeight a \<le> thHeight d then detaches @ [d] else detaches)))" for j
      using False by (simp only: calc_loop.simps Let_def if_False)
    obtain a' where a': "?A = Some a'" using Suc.prems(1) unfolding e by (cases ?A) (simp_all only: option.case kresult.distinct)
    obtain d' where d': "?D = Some d'" using Suc.prems(1) unfolding e a' by (cases ?D) (simp_all only: option.case kresult.distinct)
    show ?thesis using Suc.IH [OF _ m(2)] Suc.prems(1) unfolding m(1) e a' d' by (simp only: option.case)
  qed
qed simp

lemma remove_txs_kept:
  "headers (snd (remove_txs K l c)) = headers c" "bestBlockHeader (snd (remove_txs K l c)) = bestBlockHeader c"
  "kIndex (snd (remove_txs K l c)) = kIndex c" "orphanManage (snd (remove_txs K l c)) = orphanManage c"
  by (induction l arbitrary: c) (auto split: prod.split presult.split)

lemma restore_txs_kept:
  "headers (snd (restore_txs K l c)) = headers c" "bestBlockHeader (snd (restore_txs K l c)) = bestBlockHeader c"
  "kIndex (snd (restore_txs K l c)) = kIndex c" "orphanManage (snd (restore_txs K l c)) = orphanManage c"
  by (induction l arbitrary: c) (auto simp: Let_def split: prod.split presult.split)

lemma setState_simps:
  "headers (setState K x l u v c) = headers c" "bestBlockHeader (setState K x l u v c) = x"
  "kIndex (setState K x l u v c) = index_blocks (eL (kE K)) l (kIndex c)" "orphanManage (setState K x l u v c) = orphanManage c"
  by (simp_all add: setState_def SaveChainStatus_def index_blocks_def Let_def split: prod.split)

text \<open>A reorganisation fails before it writes anything, or makes the header the best one and indexes the attached blocks.\<close>

lemma reorganizeChain_cases:
  assumes "reorganizeChain K x c = (r, c')"
  obtains "c' = c" "\<And>u. r \<noteq> KOk u"
  | attaches detaches where "calc_loop (kFuel K) (eL (kE K)) (headers c) x (bestBlockHeader c) [] [] = KOk (attaches, detaches)"
      "headers c' = headers c" "bestBlockHeader c' = x" "kIndex c' = index_blocks (eL (kE K)) attaches (kIndex c)" "orphanManage c' = orphanManage c"
proof (cases "calc_loop (kFuel K) (eL (kE K)) (headers c) x (bestBlockHeader c) [] []")
  case (KOk ad)
  obtain attaches detaches where ad: "ad = (attaches, detaches)" by (cases ad)
  show thesis
  proof (cases "reorg_nodes (detach_block K c) detaches new_reorg")
    case (KOk r1)
    note d = this
    show thesis
    proof (cases "reorg_nodes (attach_block K c) attaches r1")
      case (KOk r2)
      let ?c0 = "setState K x attaches (rUtxo r2) (rContract r2) c"
      obtain q c1 where rm: "remove_txs K (map fst (txsToRemove r2)) ?c0 = (q, c1)" by (metis surj_pair)
      have c1: "headers c1 = headers c" "bestBlockHeader c1 = x" "kIndex c1 = index_blocks (eL (kE K)) attaches (kIndex c)" "orphanManage c1 = orphanManage c"
        using remove_txs_kept [of K "map fst (txsToRemove r2)" ?c0] by (simp_all add: rm setState_simps)
      have "c' = c1 \<or> c' = snd (restore_txs K (map snd (txsToRestore r2)) c1)"
        using assms \<open>calc_loop _ _ _ _ _ _ _ = KOk ad\<close> d KOk rm by (auto simp: reorganizeChain_def calcReorganizeChain_def ad split: kresult.splits)
      then have "headers c' = headers c \<and> bestBlockHeader c' = x \<and> kIndex c' = index_blocks (eL (kE K)) attaches (kIndex c) \<and> orphanManage c' = orphanManage c"
        using c1 by (auto simp: restore_txs_kept)
      then show thesis using that(2) \<open>calc_loop _ _ _ _ _ _ _ = KOk ad\<close> ad by blast
    qed (use assms that(1) \<open>calc_loop _ _ _ _ _ _ _ = KOk ad\<close> d ad in \<open>auto simp: reorganizeChain_def calcReorganizeChain_def\<close>)
  qed (use assms that(1) KOk ad in \<open>auto simp: reorganizeChain_def calcReorganizeChain_def\<close>)
qed (use assms that(1) in \<open>auto simp: reorganizeChain_def calcReorganizeChain_def\<close>)

lemma reorganizeChain_ok:
  assumes "reorganizeChain K x c = (r, c')" "eL (kE K) = L" "in_tree f L (headers c) x" "chain_ok f L g c"
  shows "chain_ok f L g c'"
  using assms(1)
proof (cases rule: reorganizeChain_cases)
  case (2 attaches detaches)
  have i: "tree_ok f L g (headers c)" "in_tree f L (headers c) (bestBlockHeader c)" "indexed L (headers c) (kIndex c) (bestBlockHeader c)"
    using assms(4) by (simp_all add: chain_ok_def)
  define m where "m = kFuel K + Suc (unat (thHeight x) + unat (thHeight (bestBlockHeader c)))"
  have m: "unat (thHeight x) + unat (thHeight (bestBlockHeader c)) < m" "kFuel K \<le> m" by (simp_all add: m_def)
  obtain attaches' detaches' where w: "calc_loop m L (headers c) x (bestBlockHeader c) [] [] = KOk (attaches', detaches')"
    "indexed L (headers c) (index_blocks L attaches' (kIndex c)) x"
    by (rule calc_loop_indexed [OF i(1) assms(3) i(2) m(1) i(3)])
  have "attaches' = attaches" using calc_loop_fuel [OF 2(1) m(2)] w(1) assms(2) by simp
  then show ?thesis using w(2) 2 assms by (simp add: chain_ok_def)
qed (use assms in simp)

lemma tryReorganize_ok:
  assumes "tryReorganize K h c = (r, c')" "eL (kE K) = L" "chain_ok f L g c"
  shows "chain_ok f L g c'"
proof (cases "BlockHeader_Hash (eL (kE K)) (bestBlockHeader c) = h")
  case True
  then show ?thesis using assms by (simp add: tryReorganize_def)
next
  case False
  show ?thesis
  proof (cases "headers c h")
    case None
    then show ?thesis using assms False by (simp add: tryReorganize_def GetHeaderByHash_def GetBlockHeader_def)
  next
    case (Some x)
    then have "reorganizeChain K x c = (r, c')" using assms(1) False by (simp add: tryReorganize_def GetHeaderByHash_def GetBlockHeader_def)
    moreover have "in_tree f L (headers c) x" using assms(3) Some in_tree_stored [of f L g "headers c" h x] by (simp add: chain_ok_def)
    ultimately show ?thesis using reorganizeChain_ok [OF _ assms(2) _ assms(3)] by blast
  qed
qed

section \<open>Every history\<close>

text \<open>
  What happens to a chain: blocks from the network, requests for a reorganisation and votes, votes from the cache of consensus, transactions, and the
  worker that drops expired orphans. The environment may change from one step to the next.
\<close>

inductive chain_step :: "(Hash \<Rightarrow> u64 \<times> Hash) \<Rightarrow> lib \<Rightarrow> Chain \<Rightarrow> Chain \<Rightarrow> bool" for f L where
  step_block: "eL (kE K) = L \<Longrightarrow> fresh f L b \<Longrightarrow> processBlock K b c = (rb, c') \<Longrightarrow> chain_step f L c c'"
| step_rollback: "eL (kE K) = L \<Longrightarrow> tryReorganize K h c = (ru, c') \<Longrightarrow> chain_step f L c c'"
| step_vote: "eL (kE K) = L \<Longrightarrow> ProcessBlockVerification K v c = (ru, c') \<Longrightarrow> chain_step f L c c'"
| step_cached: "eL E = L \<Longrightarrow> authCachedMsg E v k (kCasper c) = (rc, s) \<Longrightarrow> chain_step f L c (c\<lparr>kCasper := s\<rparr>)"
| step_tx: "Chain_ValidateTx n m V P (kDb c) now (bestBlockHeader c) addr tx (kMem c, txPool c) = (rp, st, tp) \<Longrightarrow>
    chain_step f L c (c\<lparr>kMem := st, txPool := tp\<rparr>)"
| step_drop: "chain_step f L c (c\<lparr>orphanManage := orphanExpire now (orphanManage c)\<rparr>)"

lemma processBlock_ok:
  assumes "processBlock K b c = (r, c')" "eL (kE K) = L" "fresh f L b" "chain_ok f L g c"
  shows "chain_ok f L g c'"
proof -
  let ?known = "Chain_BlockExist (block_hash (eL (kE K)) b) c \<and> thHeight (bestBlockHeader c) \<ge> thHeight (kbHeader b)"
  consider "?known" | "\<not> ?known" "headers c (thPreviousBlockHash (kbHeader b)) = None" | "\<not> ?known" "headers c (thPreviousBlockHash (kbHeader b)) \<noteq> None" by blast
  then show ?thesis
  proof cases
    case 1
    then show ?thesis using assms by (simp add: processBlock_def)
  next
    case 2
    then have "c' = c\<lparr>orphanManage := Add (eL (kE K)) (kGrow K) (kClock K) b (orphanManage c)\<rparr>" using assms(1) by (auto simp: processBlock_def Let_def)
    then show ?thesis using assms(3,4) set_Add_orphan [of "eL (kE K)" "kGrow K" "kClock K" b "orphanManage c"] by (auto simp: chain_ok_def)
  next
    case 3
    obtain r1 c1 where s1: "saveBlock K b c = (r1, c1)" by (metis surj_pair)
    have ok1: "chain_ok f L g c1" using saveBlock_ok [OF s1 assms(2-4)] by blast
    show ?thesis
    proof (cases r1)
      case (KOk b')
      obtain r2 c2 where s2: "saveSubBlock (kFuel K) K b' c1 = (r2, c2)" by (metis surj_pair)
      have ok2: "chain_ok f L g c2" using sub_blocks_ok(2) [OF assms(2) ok1, of "kFuel K" b'] by (simp add: s2)
      obtain r3 c3 where s3: "tryReorganize K (bestChain (kCasper c2)) c2 = (r3, c3)" by (metis surj_pair)
      have ok3: "chain_ok f L g c3" by (rule tryReorganize_ok [OF s3 assms(2) ok2])
      have "c' = c2 \<or> c' = c3"
        using assms(1) 3 s1 KOk s2 s3 by (cases r2; cases r3) (auto simp: processBlock_def Let_def)
      then show ?thesis using ok2 ok3 by blast
    qed (use assms(1) 3 s1 ok1 in \<open>auto simp: processBlock_def Let_def\<close>)
  qed
qed

lemma auth_step_ok:
  assumes "auth_step E (kCasper c) s" "eL E = L" "chain_ok f L g c"
  shows "chain_ok f L g (c\<lparr>kCasper := s\<rparr>)"
proof -
  have t: "tree_ok f L g (headers c)" using assms(3) by (simp add: chain_ok_def)
  then have "\<forall>h x. headers c h = Some x \<longrightarrow> BlockHeader_Hash (eL E) x = h" using tree_okD(1) assms(2) by metis
  then have "links_only (headers c) (stHeaders (cStore s))" by (rule links_only_auth_step [OF assms(1)])
  then show ?thesis using tree_ok_links [OF t] by (intro chain_ok_grow [OF assms(3)]) simp_all
qed

lemma chain_step_ok: "chain_step f L c c' \<Longrightarrow> chain_ok f L g c \<Longrightarrow> chain_ok f L g c'"
proof (induction rule: chain_step.induct)
  case (step_block K b c rb c')
  then show ?case using processBlock_ok by blast
next
  case (step_rollback K h c ru c')
  then show ?case using tryReorganize_ok by blast
next
  case (step_vote K v c ru c')
  obtain r s where a: "AuthVerification (kE K) v (kCasper c) = (r, s)" by (metis surj_pair)
  then have "c' = c\<lparr>kCasper := s\<rparr>" using step_vote(2) by (simp add: ProcessBlockVerification_def)
  then show ?case using auth_step_ok [OF auth_step.received [OF a] step_vote(1,3)] by simp
next
  case (step_cached E v k c rc s)
  show ?case by (rule auth_step_ok [OF auth_step.fromCache [OF step_cached(2)] step_cached(1,3)])
next
  case (step_tx n m V P c now addr tx rp st tp)
  show ?case by (rule chain_ok_eq [OF _ _ _ _ step_tx(2)]) simp_all
next
  case (step_drop c now)
  have sub: "set (orphan (fold (\<lambda>(hash, b). if obExpiration b < now then delete hash else id) l om)) \<subseteq> set (orphan om)" for l om
  proof (induction l arbitrary: om)
    case (Cons a l)
    show ?case using Cons.IH [of "delete (fst a) om"] Cons.IH [of om] set_delete_orphan [of "fst a" om] by (cases a) auto
  qed simp
  show ?case by (rule chain_ok_eq [OF _ _ _ _ step_drop]) (simp_all add: orphanExpire_def sub)
qed

lemma chain_steps_ok: "(chain_step f L)\<^sup>*\<^sup>* c c' \<Longrightarrow> chain_ok f L g c \<Longrightarrow> chain_ok f L g c'"
  by (induction rule: rtranclp_induct) (auto intro: chain_step_ok)

end
