(* ===== verification/ChainSafety.thy ===== *)
theory ChainSafety
  imports ChainProps MempoolProps TxSample
begin

text \<open>The properties of the chain, with a fork of four blocks as the example.\<close>

lemma chain_from_le: "chain_from L y l \<Longrightarrow> x \<in> set (y # l) \<Longrightarrow> unat (thHeight x) \<le> unat (thHeight (last (y # l)))"
proof (induction l arbitrary: x rule: rev_induct)
  case (snoc z l)
  have c: "chain_from L y l" "unat (thHeight z) = Suc (unat (thHeight (last (y # l))))" using snoc.prems(1) by (simp_all add: chain_from_append)
  show ?case
  proof (cases "x = z")
    case False
    then have "x \<in> set (y # l)" using snoc.prems(2) by auto
    from snoc.IH [OF c(1) this] show ?thesis using c(2) by simp
  qed simp
qed simp

text \<open>The result of the loop in terms of chains of headers.\<close>

lemma calc_loop_paths:
  assumes "tree_ok f L g H" "in_tree f L H a" "in_tree f L H d" "calc_loop n L H a d [] [] = KOk (attaches, detaches)"
  obtains y where "chain_from L y attaches" "BlockHeader_Hash L (last (y # attaches)) = BlockHeader_Hash L a"
    "chain_from L y (rev detaches)" "BlockHeader_Hash L (last (y # rev detaches)) = BlockHeader_Hash L d"
    "BlockHeader_Hash L ` set attaches \<inter> BlockHeader_Hash L ` set detaches = {}"
    "\<forall>x\<in>set attaches. in_tree f L H x" "in_tree f L H y"
proof -
  define m where "m = n + Suc (unat (thHeight a) + unat (thHeight d))"
  have "loop_inv f L H a d [] [] a d" using assms(2,3) by (simp add: loop_inv_def way_def)
  moreover have "unat (thHeight a) + unat (thHeight d) < m" by (simp add: m_def)
  ultimately obtain y y' as ds where r: "calc_loop m L H a d [] [] = KOk (as, ds)"
    and i: "loop_inv f L H y y' as ds a d" and e: "BlockHeader_Hash L y = BlockHeader_Hash L y'"
    using calc_loop_way [OF assms(1)] by blast
  have eq: "as = attaches" "ds = detaches" using calc_loop_fuel [OF assms(4), of m] r by (simp_all add: m_def)
  have w: "way L y attaches a" "way L y' (rev detaches) d" "in_tree f L H y" "in_tree f L H y'"
    using i by (simp_all add: loop_inv_def eq)
  have "thHeight y = thHeight y'" using known_same [of f L y y'] w(3,4) e by (simp add: in_tree_def)
  then have "way L y (rev detaches) d" using way_same [of L y' y "rev detaches" d] w(2) e by simp
  then show thesis using that [of y] w(1,3) i by (simp add: way_def loop_inv_def eq)
qed

text \<open>
  C12. On a store whose headers form a tree over the genesis block, the computation of a reorganisation ends, after at most as many rounds as the heights of the two
  blocks add up to: it returns the headers to attach in ascending order and the headers to detach in descending order, from and to
  a common ancestor, each the parent of the next, and no block is in both lists.
\<close>

theorem reorganize_path:
  assumes "tree_ok f L g (headers c)" "in_tree f L (headers c) a" "in_tree f L (headers c) d" "unat (thHeight a) + unat (thHeight d) < n"
  shows "\<exists>attaches detaches y. calcReorganizeChain n L a d c = KOk (attaches, detaches) \<and>
    chain_from L y attaches \<and> BlockHeader_Hash L (last (y # attaches)) = BlockHeader_Hash L a \<and>
    chain_from L y (rev detaches) \<and> BlockHeader_Hash L (last (y # rev detaches)) = BlockHeader_Hash L d \<and>
    BlockHeader_Hash L ` set attaches \<inter> BlockHeader_Hash L ` set detaches = {}"
proof -
  have "loop_inv f L (headers c) a d [] [] a d" using assms(2,3) by (simp add: loop_inv_def way_def)
  then obtain attaches detaches where r: "calc_loop n L (headers c) a d [] [] = KOk (attaches, detaches)"
    using calc_loop_way [OF assms(1) _ assms(4)] by blast
  obtain y where "chain_from L y attaches" "BlockHeader_Hash L (last (y # attaches)) = BlockHeader_Hash L a"
    "chain_from L y (rev detaches)" "BlockHeader_Hash L (last (y # rev detaches)) = BlockHeader_Hash L d"
    "BlockHeader_Hash L ` set attaches \<inter> BlockHeader_Hash L ` set detaches = {}"
    by (rule calc_loop_paths [OF assms(1-3) r])
  then show ?thesis using r unfolding calcReorganizeChain_def by blast
qed

section \<open>From the start\<close>

lemma ancestor_exists:
  assumes "tree_ok f L g H" "in_tree f L H x" "k \<le> thHeight x"
  obtains y where "ancestor H (unat (thHeight x) - unat k) x = Some y" "thHeight y = k" "in_tree f L H y"
proof -
  have "\<exists>y. ancestor H n x = Some y \<and> unat (thHeight y) = unat (thHeight x) - n \<and> in_tree f L H y" if "n \<le> unat (thHeight x)" for n
    using that assms(2)
  proof (induction n arbitrary: x)
    case (Suc n)
    then have nz: "thHeight x \<noteq> 0" by auto
    obtain z where z: "H (thPreviousBlockHash x) = Some z" "unat (thHeight x) = Suc (unat (thHeight z))" "in_tree f L H z"
      using in_tree_parent [OF assms(1) Suc.prems(2) nz] by metis
    from Suc.IH [of z] z Suc.prems(1) nz show ?case by auto
  qed simp
  from this [of "unat (thHeight x) - unat k"] obtain y where y: "ancestor H (unat (thHeight x) - unat k) x = Some y"
    "unat (thHeight y) = unat (thHeight x) - (unat (thHeight x) - unat k)" "in_tree f L H y" by auto
  have "unat (thHeight y) = unat k" using y(2) assms(3) by (simp add: word_le_nat_alt)
  then show thesis using that y by (simp add: word_unat_eq_iff)
qed

text \<open>An empty store.\<close>

definition empty_chain :: "Chain \<Rightarrow> bool" where
  "empty_chain c \<longleftrightarrow> kStatus c = None \<and> headers c = Map.empty \<and> orphan (orphanManage c) = []"

lemma NewChain_ok:
  assumes "NewChain K b c0 = KOk c" "empty_chain c0" "thHeight (kbHeader b) = 0" "eL (kE K) = L" "known f L (kbHeader b)"
  shows "chain_ok f L (block_hash L b) c"
proof -
  obtain r c1 where i: "initChainStatus K b c0 = (r, c1)" by (metis surj_pair)
  have r: "r = KOk ()" using assms(1,2) i by (cases r) (simp_all add: NewChain_def empty_chain_def)
  have c1: "headers c1 = [block_hash L b \<mapsto> kbHeader b]" "kIndex c1 = (kIndex c0)(0 \<mapsto> block_hash L b)" "orphanManage c1 = orphanManage c0"
    "\<exists>st. kStatus c1 = Some st \<and> bssHash st = block_hash L b"
    using i assms(2-4) by (auto simp: r initChainStatus_def empty_chain_def SaveBlock_def SaveChainStatus_def Let_def block_hash_def split: prod.splits uoutcome.splits)
  then obtain st where st: "kStatus c1 = Some st" "bssHash st = block_hash L b" by blast
  obtain s where s: "newCasper (kFuel K) st (cStore (kCasper c1)) = KOk s" "c = c1\<lparr>bestBlockHeader := kbHeader b, kCasper := s\<rparr>"
    using assms(1,2) i r st c1(1)
    by (cases "newCasper (kFuel K) st (cStore (kCasper c1))") (simp_all add: NewChain_def empty_chain_def GetBlockHeader_def)
  have "cStore s = cStore (kCasper c1)"
    using s(1) by (auto simp: newCasper_def NewCasper_def casper_result_def split: option.splits list.splits cresult.splits if_splits)
  then have h: "headers c = [block_hash L b \<mapsto> kbHeader b]" by (simp add: s(2) c1(1))
  have "tree_ok f L (block_hash L b) (headers c)" unfolding h using assms(3,5) by (simp add: tree_ok_def block_hash_def)
  moreover have "in_tree f L (headers c) (kbHeader b)" unfolding h using assms(5) by (simp add: in_tree_def block_hash_def)
  moreover have "indexed L (headers c) (kIndex c) (kbHeader b)"
    by (rule indexed_step) (simp_all add: s(2) c1(2) assms(3) block_hash_def)
  ultimately show ?thesis using assms(2) by (simp add: chain_ok_def s(2) c1(3) empty_chain_def)
qed

text \<open>
  C11. A chain started on an empty store keeps its index: after any sequence of blocks, reorganisations, votes, transactions and expiries, whatever they return,
  the index has for every height up to the one of the best block the ancestor of the best block at that height: \<open>GetHeaderByHeight\<close> returns it and \<open>InMainChain\<close> holds for it.
  The hashes of the blocks do not collide, and no block has height 0 but the genesis.
\<close>

theorem main_chain_indexed:
  assumes "NewChain K b c0 = KOk c" "empty_chain c0" "thHeight (kbHeader b) = 0" "eL (kE K) = L" "known f L (kbHeader b)"
    "(chain_step f L)\<^sup>*\<^sup>* c c'" "k \<le> thHeight (bestBlockHeader c')"
  shows "\<exists>y x. ancestor (headers c') (unat (thHeight (bestBlockHeader c')) - unat k) (bestBlockHeader c') = Some y \<and>
    GetHeaderByHeight k c' = KOk x \<and> thHeight x = k \<and> BlockHeader_Hash L x = BlockHeader_Hash L y \<and> InMainChain (BlockHeader_Hash L y) c'"
proof -
  have ok: "chain_ok f L (block_hash L b) c'" by (rule chain_steps_ok [OF assms(6) NewChain_ok [OF assms(1-5)]])
  then have i: "tree_ok f L (block_hash L b) (headers c')" "in_tree f L (headers c') (bestBlockHeader c')"
    "indexed L (headers c') (kIndex c') (bestBlockHeader c')" by (simp_all add: chain_ok_def)
  obtain y where y: "ancestor (headers c') (unat (thHeight (bestBlockHeader c')) - unat k) (bestBlockHeader c') = Some y" "thHeight y = k" "in_tree f L (headers c') y"
    by (rule ancestor_exists [OF i(1,2) assms(7)])
  have ix: "kIndex c' k = Some (BlockHeader_Hash L y)" using i(3) y(1,2) by (auto simp: indexed_def)
  obtain x where x: "headers c' (BlockHeader_Hash L y) = Some x" using y(3) by (auto simp: in_tree_def)
  have "BlockHeader_Hash L x = BlockHeader_Hash L y" "thHeight x = k"
    using tree_okD [OF i(1) x] known_same [of f L x y] y(2,3) by (simp_all add: in_tree_def)
  then show ?thesis using y(1) ix x by (simp add: GetHeaderByHeight_def GetMainChainHash_def GetBlockHeader_def InMainChain_def)
qed

text \<open>
  C13. The index is not cleared above the best block. When a reorganisation ends on a block that is lower than the old best block, as it may when consensus prefers a
  branch for its justified checkpoints, the detached blocks above the new best height are still in the main chain according to \<open>InMainChain\<close>, and
  \<open>GetHeaderByHeight\<close> returns them.
\<close>

theorem detached_blocks_stay_indexed:
  assumes "chain_ok f L g c" "eL (kE K) = L" "tryReorganize K h c = (r, c')" "headers c h = Some x" "bestBlockHeader c' \<noteq> bestBlockHeader c"
    "ancestor (headers c) n (bestBlockHeader c) = Some y" "thHeight x < thHeight y"
  shows "InMainChain (BlockHeader_Hash L y) c' \<and> thHeight (bestBlockHeader c') < thHeight y \<and>
    (\<exists>z. GetHeaderByHeight (thHeight y) c' = KOk z \<and> BlockHeader_Hash L z = BlockHeader_Hash L y)"
proof -
  have i: "tree_ok f L g (headers c)" "in_tree f L (headers c) (bestBlockHeader c)" "indexed L (headers c) (kIndex c) (bestBlockHeader c)"
    using assms(1) by (simp_all add: chain_ok_def)
  have "\<not> BlockHeader_Hash (eL (kE K)) (bestBlockHeader c) = h" using assms(3,5) by (auto simp: tryReorganize_def)
  then have "reorganizeChain K x c = (r, c')" using assms(3,4) by (simp add: tryReorganize_def GetHeaderByHash_def GetBlockHeader_def)
  then show ?thesis
  proof (cases rule: reorganizeChain_cases)
    case 1
    then show ?thesis using assms(5) by simp
  next
    case (2 attaches detaches)
    have x: "in_tree f L (headers c) x" by (rule in_tree_stored [OF i(1) assms(4)])
    obtain w where w: "chain_from L w attaches" "BlockHeader_Hash L (last (w # attaches)) = BlockHeader_Hash L x"
      "\<forall>z\<in>set attaches. in_tree f L (headers c) z" "in_tree f L (headers c) w"
      by (rule calc_loop_paths [OF i(1) x i(2) 2(1) [unfolded assms(2)]])
    have "in_tree f L (headers c) (last (w # attaches))" using w(3,4) last_in_set [of "w # attaches"] by auto
    then have "thHeight (last (w # attaches)) = thHeight x" using known_same [of f L "last (w # attaches)" x] w(2) x by (simp add: in_tree_def)
    then have "thHeight y \<notin> thHeight ` set attaches"
      using chain_from_le [OF w(1)] assms(7) by (fastforce simp: word_less_nat_alt)
    then have ix: "kIndex c' (thHeight y) = Some (BlockHeader_Hash L y)"
      using index_blocks_other [of "thHeight y" attaches L "kIndex c"] 2(4) assms(2,6) i(3) by (auto simp: indexed_def)
    have yt: "in_tree f L (headers c) y" using ancestor_height [OF i(1,2) assms(6)] by blast
    then obtain z where z: "headers c (BlockHeader_Hash L y) = Some z" by (auto simp: in_tree_def)
    have "BlockHeader_Hash L z = BlockHeader_Hash L y" "thHeight z = thHeight y"
      using tree_okD [OF i(1) z] known_same [of f L z y] yt by (simp_all add: in_tree_def)
    then show ?thesis
      using ix z 2 assms(7) by (simp add: InMainChain_def GetHeaderByHeight_def GetMainChainHash_def GetBlockHeader_def)
  qed
qed

section \<open>The example\<close>

text \<open>
  A store of four blocks: the genesis block 1, block 2 on it with block 3 on top, and block 4 on the genesis block. The main chain ends
  in block 3. Every block has one transaction without inputs and outputs.
\<close>

definition fork_header :: "u64 \<Rightarrow> u64 \<Rightarrow> u64 \<Rightarrow> TypesBlockHeader" where
  "fork_header height n prev = (ex_header height n)\<lparr>thPreviousBlockHash := mark prev\<rparr>"

definition fork_block :: "u64 \<Rightarrow> u64 \<Rightarrow> u64 \<Rightarrow> ChainBlock" where
  "fork_block height n prev = \<lparr>kbHeader = fork_header height n prev, kbTransactions = [pool_tx 0 [] []]\<rparr>"

definition fork_place :: "Hash \<Rightarrow> u64 \<times> Hash" where
  "fork_place h = (if h = mark 1 then (0, mark 0) else if h = mark 2 then (1, mark 1) else if h = mark 3 then (2, mark 2) else (1, mark 1))"

definition fork_env :: chainEnv where
  "fork_env = \<lparr>kE = ex_env, kV = sample_env, kP = no_codec, kNow = 0, kClock = 0, kGrow = Suc, kUtxoRange = (\<lambda>_. []), kContractRange = (\<lambda>_. []),
     kAddr = (\<lambda>_. 0), kFuel = 10\<rparr>"

definition start_chain :: Chain where
  "start_chain = \<lparr>orphanManage = NewOrphanManage, txPool = NewTxPool 0,
     kCasper = ex_casper\<lparr>cTree := Node (ex_cp 0 1 9 Justified) [], cStore := \<lparr>stBlocks = Map.empty, stHeaders = Map.empty, stCheckpoints = []\<rparr>\<rparr>,
     kTxs = Map.empty, kHashes = (\<lambda>_. []), kIndex = Map.empty, kDb = Map.empty, kStatus = None, bestBlockHeader = fork_header 0 1 0, kMem = []\<rparr>"

definition fork_headers :: "Hash \<rightharpoonup> TypesBlockHeader" where
  "fork_headers = [mark 1 \<mapsto> fork_header 0 1 0, mark 2 \<mapsto> fork_header 1 2 1, mark 3 \<mapsto> fork_header 2 3 2, mark 4 \<mapsto> fork_header 1 4 1]"

definition fork_chain :: Chain where
  "fork_chain = start_chain\<lparr>kCasper := ex_casper\<lparr>cTree := Node (ex_cp 0 1 9 Justified) [], cStore := \<lparr>stBlocks = Map.empty, stHeaders = fork_headers, stCheckpoints = []\<rparr>\<rparr>,
     kTxs := (\<lambda>_. Some [pool_tx 0 [] []]), kIndex := [0 \<mapsto> mark 1, 1 \<mapsto> mark 2, 2 \<mapsto> mark 3], bestBlockHeader := fork_header 2 3 2\<rparr>"

lemma fork_header_simps [simp]:
  "thHeight (fork_header k n q) = k" "thPreviousBlockHash (fork_header k n q) = mark q" "BlockHeader_Hash last_lib (fork_header k n q) = mark n"
  by (simp_all add: fork_header_def ex_header_def last_lib_hash)

lemma fork_block_simps [simp]: "kbHeader (fork_block k n q) = fork_header k n q" "kbTransactions (fork_block k n q) = [pool_tx 0 [] []]"
  by (simp_all add: fork_block_def)

lemma fork_tree: "tree_ok fork_place last_lib (mark 1) fork_headers"
  unfolding tree_ok_def by (auto simp: fork_headers_def known_def fork_place_def split: if_splits)

lemma fork_headers_chain: "headers fork_chain = fork_headers"
  by (simp add: fork_chain_def)

lemma fork_in_tree:
  "in_tree fork_place last_lib (headers fork_chain) (fork_header 1 4 1)" "in_tree fork_place last_lib (headers fork_chain) (fork_header 2 3 2)"
  unfolding fork_headers_chain by (simp_all add: in_tree_def known_def fork_place_def fork_headers_def)

lemma fork_ok: "chain_ok fork_place last_lib (mark 1) fork_chain"
proof -
  have i1: "indexed last_lib fork_headers (kIndex fork_chain) (fork_header 0 1 0)"
    by (rule indexed_step) (simp_all add: fork_chain_def)
  have i2: "indexed last_lib fork_headers (kIndex fork_chain) (fork_header 1 2 1)"
    by (rule indexed_step) (use i1 in \<open>simp_all add: fork_chain_def fork_headers_def\<close>)
  have "indexed last_lib fork_headers (kIndex fork_chain) (fork_header 2 3 2)"
    by (rule indexed_step) (use i2 in \<open>simp_all add: fork_chain_def fork_headers_def\<close>)
  then show ?thesis
    using fork_tree fork_in_tree(2) fork_headers_chain by (simp add: chain_ok_def fork_chain_def start_chain_def NewOrphanManage_def)
qed

lemma reorganize_path_witness:
  "\<exists>attaches detaches. calcReorganizeChain 10 last_lib (fork_header 1 4 1) (fork_header 2 3 2) fork_chain = KOk (attaches, detaches) \<and>
     (attaches = [] \<or> BlockHeader_Hash last_lib (last attaches) = mark 4) \<and>
     BlockHeader_Hash last_lib ` set attaches \<inter> BlockHeader_Hash last_lib ` set detaches = {}"
proof -
  have "tree_ok fork_place last_lib (mark 1) (headers fork_chain)" using fork_tree fork_headers_chain by simp
  from reorganize_path [OF this fork_in_tree, of 10] obtain attaches detaches y
    where r: "calcReorganizeChain 10 last_lib (fork_header 1 4 1) (fork_header 2 3 2) fork_chain = KOk (attaches, detaches)"
      "BlockHeader_Hash last_lib (last (y # attaches)) = mark 4"
      "BlockHeader_Hash last_lib ` set attaches \<inter> BlockHeader_Hash last_lib ` set detaches = {}"
    by auto
  have "attaches = [] \<or> BlockHeader_Hash last_lib (last attaches) = mark 4" using r(2) by (cases "attaches = []") simp_all
  then show ?thesis using r by blast
qed

lemma fork_utxo:
  "UtxoView_ApplyBlock N (MapBlock last_lib (fork_block k n q)) Map.empty = (UOk, Map.empty)"
  "detach_node P db (MapBlock last_lib (fork_block k n q)) Map.empty = (UOk, Map.empty)"
  "attach_node P N db (MapBlock last_lib (fork_block k n q)) Map.empty = (UOk, Map.empty)"
  by (simp_all add: detach_node_def attach_node_def UtxoView_ApplyBlock_def UtxoView_DetachBlock_def MapBlock_def fork_block_def pool_tx_def ApplyTransaction_def DetachTransaction_def
      applySpendUtxo_def applyOutputUtxo_def detachSpendUtxo_def detachOutputUtxo_def getTransactionsUtxo_def uthen_def case_prod_unfold)

definition init_chain :: Chain where
  "init_chain = snd (initChainStatus fork_env (fork_block 0 1 0) start_chain)"

lemma fork_env_simps [simp]: "kE fork_env = ex_env" "eL ex_env = last_lib" "kFuel fork_env = 10"
  by (simp_all add: fork_env_def ex_env_def)

lemma init_start: "initChainStatus fork_env (fork_block 0 1 0) start_chain = (KOk (), init_chain)"
  by (simp add: init_chain_def initChainStatus_def Let_def fork_utxo)

lemma init_chain_simps:
  "headers init_chain = [mark 1 \<mapsto> fork_header 0 1 0]" "stCheckpoints (cStore (kCasper init_chain)) = [genesis_checkpoint last_lib (fork_block 0 1 0)]"
  "kStatus init_chain = Some \<lparr>bssHeight = 0, bssHash = mark 1, bssFinalizedHeight = 0, bssFinalizedHash = mark 1\<rparr>"
  by (simp_all add: init_chain_def initChainStatus_def Let_def fork_utxo SaveChainStatus_def SaveBlock_def start_chain_def SaveCheckpoints_def save_checkpoint_def
      genesis_checkpoint_def block_hash_def)

lemma start_NewChain: "\<exists>c. NewChain fork_env (fork_block 0 1 0) start_chain = KOk c \<and> bestBlockHeader c = fork_header 0 1 0 \<and> headers c (mark 2) = None"
proof -
  have "CheckpointsFromNode (cStore (kCasper init_chain)) 0 (mark 1) = Some [genesis_checkpoint last_lib (fork_block 0 1 0)]"
    by (simp add: CheckpointsFromNode_def init_chain_simps genesis_checkpoint_def key_le_def hash_le_def block_hash_def)
  then have "\<exists>s. newCasper 10 \<lparr>bssHeight = 0, bssHash = mark 1, bssFinalizedHeight = 0, bssFinalizedHash = mark 1\<rparr> (cStore (kCasper init_chain)) = KOk s \<and> cStore s = cStore (kCasper init_chain)"
    by (simp add: newCasper_def NewCasper_def casper_result_def genesis_checkpoint_def numeral_eq_Suc)
  moreover have "kStatus start_chain = None" by (simp add: start_chain_def)
  ultimately show ?thesis by (auto simp: NewChain_def init_start init_chain_simps GetBlockHeader_def)
qed

text \<open>An orphan arrives at the fresh chain.\<close>

lemma main_chain_indexed_witness:
  "\<exists>c c' x. NewChain fork_env (fork_block 0 1 0) start_chain = KOk c \<and> processBlock fork_env (fork_block 2 3 2) c = (KOk True, c') \<and>
     GetHeaderByHeight 0 c' = KOk x \<and> BlockHeader_Hash last_lib x = mark 1 \<and> InMainChain (mark 1) c'"
proof -
  obtain c where c: "NewChain fork_env (fork_block 0 1 0) start_chain = KOk c" "bestBlockHeader c = fork_header 0 1 0" and nh: "headers c (mark 2) = None" using start_NewChain by blast
  have e: "empty_chain start_chain" by (simp add: empty_chain_def start_chain_def NewOrphanManage_def)
  have k: "known fork_place last_lib (kbHeader (fork_block 0 1 0))" by (simp add: known_def fork_place_def)
  let ?c' = "c\<lparr>orphanManage := Add last_lib (kGrow fork_env) (kClock fork_env) (fork_block 2 3 2) (orphanManage c)\<rparr>"
  have p: "processBlock fork_env (fork_block 2 3 2) c = (KOk True, ?c')" using nh c(2) by (simp add: processBlock_def Let_def)
  have "chain_step fork_place last_lib c ?c'"
    by (rule step_block [OF _ _ p]) (simp_all add: fresh_def known_def fork_place_def)
  then have steps: "(chain_step fork_place last_lib)\<^sup>*\<^sup>* c ?c'" by simp
  have "\<exists>y x. ancestor (headers ?c') (unat (thHeight (bestBlockHeader ?c')) - unat (0 :: u64)) (bestBlockHeader ?c') = Some y \<and>
    GetHeaderByHeight 0 ?c' = KOk x \<and> thHeight x = 0 \<and> BlockHeader_Hash last_lib x = BlockHeader_Hash last_lib y \<and> InMainChain (BlockHeader_Hash last_lib y) ?c'"
    by (rule main_chain_indexed [OF c(1) e _ _ k steps]) (simp_all add: c(2))
  then show ?thesis using c p by auto
qed

lemma detached_blocks_stay_indexed_witness:
  "\<exists>c'. tryReorganize fork_env (mark 4) fork_chain = (KOk (), c') \<and> bestBlockHeader c' = fork_header 1 4 1 \<and> InMainChain (mark 3) c'"
proof -
  have g: "GetBlock (mark n) fork_chain = KOk (fork_block k n q)" if "fork_headers (mark n) = Some (fork_header k n q)" for k n q
    using that fork_headers_chain by (simp add: GetBlock_def fork_block_def fork_chain_def)
  have step: "detach_block fork_env fork_chain (fork_header k n q) new_reorg = KOk new_reorg" "attach_block fork_env fork_chain (fork_header k n q) new_reorg = KOk new_reorg"
    if "fork_headers (mark n) = Some (fork_header k n q)" for k n q
    using g [OF that] fork_utxo
    by (simp_all add: detach_block_def attach_block_def reorg_node_def new_reorg_def ContractView_DetachBlock_def ContractView_ApplyBlock_def pool_tx_def)
  have calc: "calcReorganizeChain 10 last_lib (fork_header 1 4 1) (bestBlockHeader fork_chain) fork_chain = KOk ([fork_header 1 4 1], [fork_header 2 3 2, fork_header 1 2 1])"
  proof -
    have "calc_loop (Suc (Suc (Suc n))) last_lib fork_headers (fork_header 1 4 1) (fork_header 2 3 2) [] [] = KOk ([fork_header 1 4 1], [fork_header 2 3 2, fork_header 1 2 1])" for n
      by (simp add: fork_headers_def Let_def)
    from this [of 7] show ?thesis
      unfolding calcReorganizeChain_def fork_headers_chain by (simp del: calc_loop.simps add: fork_chain_def)
  qed
  let ?c = "setState fork_env (fork_header 1 4 1) [fork_header 1 4 1] (rUtxo new_reorg) (rContract new_reorg) fork_chain"
  have "reorganizeChain fork_env (fork_header 1 4 1) fork_chain = (KOk (), ?c)"
    using calc step by (simp add: reorganizeChain_def fork_headers_def new_reorg_def)
  then have t: "tryReorganize fork_env (mark 4) fork_chain = (KOk (), ?c)"
    using fork_headers_chain by (simp add: tryReorganize_def GetHeaderByHash_def GetBlockHeader_def fork_headers_def) (simp add: fork_chain_def)
  have b: "bestBlockHeader ?c = fork_header 1 4 1" "bestBlockHeader fork_chain = fork_header 2 3 2" by (simp_all add: setState_simps fork_chain_def)
  have "InMainChain (BlockHeader_Hash last_lib (fork_header 2 3 2)) ?c"
    by (rule detached_blocks_stay_indexed [OF fork_ok _ t, THEN conjunct1, of "fork_header 1 4 1" 0])
      (use b fork_headers_chain in \<open>simp_all add: fork_headers_def, simp_all add: fork_header_def ex_header_def\<close>)
  then show ?thesis using t b by simp
qed

end
