(* ===== verification/Proposal.thy ===== *)
theory Proposal
  imports Chain
begin

text \<open>
  Building a block, \<^verbatim>\<open>proposal/proposal.go\<close> and \<^verbatim>\<open>sort.go\<close>, with the part of \<^verbatim>\<open>blockchain/txbuilder/builder.go\<close> that a coinbase transaction needs. The
  timers are a function of the number of batches that were applied. \<^verbatim>\<open>sort.Sort\<close> may leave transactions that were added at the same time in any
  order; the model keeps their order.
\<close>

section \<open>Hexadecimal strings\<close>

text \<open>\<^verbatim>\<open>hex.DecodeString\<close>: digits of both cases, an even number of them.\<close>

definition hex_value :: "char \<Rightarrow> nat option" where
  "hex_value c = map_option fst (find (\<lambda>(i, d). d = c)
     (enumerate 0 ''0123456789abcdef'' @ enumerate 10 ''ABCDEF''))"

fun DecodeString :: "string \<Rightarrow> bytes option" where
  "DecodeString [] = Some []"
| "DecodeString [c] = None"
| "DecodeString (c # d # s) =
     (case (hex_value c, hex_value d) of
        (Some a, Some b) \<Rightarrow> map_option (Cons (of_nat (16 * a + b))) (DecodeString s)
      | _ \<Rightarrow> None)"

section \<open>The coinbase transaction\<close>

datatype prop_err = ErrBadAmount | ErrArbitraryOversize | ErrDecode | ErrScript script_err | ErrMarshal | ErrPropChain chain_err | ErrPropTx val_err | ErrPropUtxo utxo_err

datatype 'a propres = ProOk 'a | ProErr prop_err | ProPanic | ProFuel

definition NewOriginalTxOutput :: "AssetID \<Rightarrow> u64 \<Rightarrow> bytes \<Rightarrow> bytes list \<Rightarrow> bytes TxOutput" where
  "NewOriginalTxOutput assetID amount controlProgram stateData =
     \<lparr>outAssetVersion = 1,
      outCommitment = \<lparr>ocAssetAmount = \<lparr>aaAssetId = Some assetID, aaAmount = amount\<rparr>, ocVMVersion = 1, ocControlProgram = controlProgram, ocStateData = Some stateData\<rparr>,
      outCommitmentSuffix = [], outTyped = OriginalTxOutput\<rparr>"

definition NewCoinbaseInput :: "bytes \<Rightarrow> bytes TxInput" where
  "NewCoinbaseInput arbitrary = \<lparr>inAssetVersion = 1, inTyped = Some (CoinbaseIn arbitrary), inCommitmentSuffix = [], inWitnessSuffix = []\<rparr>"

text \<open>\<^verbatim>\<open>TemplateBuilder.AddOutput\<close> on the outputs of the builder.\<close>

definition AddOutput :: "bytes TxOutput \<Rightarrow> bytes TxOutput list \<Rightarrow> prop_err + bytes TxOutput list" where
  "AddOutput out outs = (if unat (output_amount out) > 2 ^ 63 - 1 then Inl ErrBadAmount else Inr (outs @ [out]))"

definition set_amount :: "u64 \<Rightarrow> bytes TxOutput \<Rightarrow> bytes TxOutput" where
  "set_amount n out = out\<lparr>outCommitment := (outCommitment out)\<lparr>ocAssetAmount := (ocAssetAmount (outCommitment out))\<lparr>aaAmount := n\<rparr>\<rparr>\<rparr>"

text \<open>The loop over the rewards of the checkpoint: the first output takes the reward of the own program.\<close>

primrec reward_loop :: "bytes \<Rightarrow> (string \<times> u64) list \<Rightarrow> bytes TxOutput list \<Rightarrow> prop_err + bytes TxOutput list" where
  "reward_loop script [] outs = Inr outs"
| "reward_loop script (x # rewards) outs =
     (if fst x = EncodeToString script then reward_loop script rewards (outs[0 := set_amount (snd x) (outs ! 0)])
      else
        (case DecodeString (fst x) of
           None \<Rightarrow> Inl ErrDecode
         | Some prog \<Rightarrow>
             (case AddOutput (NewOriginalTxOutput BTMAssetID (snd x) prog []) outs of
                Inl e \<Rightarrow> Inl e
              | Inr outs' \<Rightarrow> reward_loop script rewards outs')))"

definition coinbase_outs :: "Params \<Rightarrow> u64 \<Rightarrow> bytes \<Rightarrow> Checkpoint \<Rightarrow> prop_err + bytes TxOutput list" where
  "coinbase_outs N height script checkpoint =
     (case AddOutput (NewOriginalTxOutput BTMAssetID 0 script []) [] of
        Inl e \<Rightarrow> Inl e
      | Inr outs \<Rightarrow>
          if height mod BlocksOfEpoch N = 1 \<and> height \<noteq> 1 then reward_loop script (cpRewards checkpoint) outs else Inr outs)"

text \<open>
  The builder of a block. The account manager gives a control program and arbitrary data, or is nil. \<open>pMap\<close> is \<^verbatim>\<open>types.MapTx\<close> on transactions whose byte strings are values.
\<close>

record propEnv =
  pK :: chainEnv
  pAccount :: "((prop_err + bytes) \<times> bytes) option"
  pMap :: "bytes TxData \<Rightarrow> Tx"
  pTimeout :: "nat \<Rightarrow> bool"

record blockBuilder =
  pbHeader :: TypesBlockHeader
  pbTransactions :: "TypesTx option list"
  pbView :: UtxoViewpoint
  pbGasLeft :: int

definition batchApplyNum :: nat where
  "batchApplyNum = 16"

definition softMaxTxNum :: nat where
  "softMaxTxNum = 1024"

definition newBlockBuilder :: "lib \<Rightarrow> u64 \<Rightarrow> Chain \<Rightarrow> blockBuilder" where
  "newBlockBuilder L timestamp c =
     (let preBlockHeader = bestBlockHeader c in
      \<lparr>pbHeader = \<lparr>thVersion = 1, thHeight = thHeight preBlockHeader + 1, thPreviousBlockHash = BlockHeader_Hash L preBlockHeader, thTimestamp = timestamp,
         thBlockWitness = [], thSupLinks = [], thTransactionsMerkleRoot = zeroHash\<rparr>,
       pbTransactions = [], pbView = Map.empty, pbGasLeft = uint MaxBlockGas\<rparr>)"

text \<open>The program that the first output pays, and the arbitrary data of the input.\<close>

definition coinbase_script :: "propEnv \<Rightarrow> u64 \<Rightarrow> (prop_err + bytes) \<times> bytes" where
  "coinbase_script Q height =
     (let arbitrary = 0 # map of_char (show_nat (unat height)) in
      case pAccount Q of
        None \<Rightarrow> (case DefaultCoinbaseProgram of GoOk p \<Rightarrow> Inr p | GoErr e \<Rightarrow> Inl (ErrScript e) | GoPanic \<Rightarrow> Inl ErrMarshal, arbitrary)
      | Some (script, more_data) \<Rightarrow> (script, arbitrary @ more_data))"

definition createCoinbaseTx :: "propEnv \<Rightarrow> TypesBlockHeader \<Rightarrow> Chain \<Rightarrow> TypesTx propres \<times> Chain" where
  "createCoinbaseTx Q hdr c =
     (case coinbase_script Q (thHeight hdr) of
        (Inl e, _) \<Rightarrow> (ProErr e, c)
      | (Inr script, arbitrary) \<Rightarrow>
          if length arbitrary > CoinbaseArbitrarySizeLimit then (ProErr ErrArbitraryOversize, c)
          else
            (case PrevCheckpointByPrevHash (pK Q) (thPreviousBlockHash hdr) c of
               (KOk checkpoint, c1) \<Rightarrow>
                 (case coinbase_outs (eN (kE (pK Q))) (thHeight hdr) script checkpoint of
                    Inl e \<Rightarrow> (ProErr e, c1)
                  | Inr outs \<Rightarrow>
                      let txData = \<lparr>tdVersion = 1, tdSerializedSize = 0, tdTimeRange = 0, tdInputs = [NewCoinbaseInput arbitrary], tdOutputs = outs\<rparr> in
                      (case TxData_writeTo (eL (kE (pK Q))) id txData serRequired of
                         (w, WOk) \<Rightarrow>
                           let txData' = txData\<lparr>tdSerializedSize := of_nat (2 * length w)\<rparr> in
                           (ProOk \<lparr>ttData = txData', ttTx = pMap Q txData'\<rparr>, c1)
                       | _ \<Rightarrow> (ProErr ErrMarshal, c1)))
             | (KErr e, c1) \<Rightarrow> (ProErr (ErrPropChain e), c1)
             | (KPanic, c1) \<Rightarrow> (ProPanic, c1)
             | (KFuel, c1) \<Rightarrow> (ProFuel, c1)))"

section \<open>Transactions from the pool\<close>

text \<open>A block of which only the height is set.\<close>

definition bare_header :: "u64 \<Rightarrow> BlockHeader" where
  "bare_header height = NewBlockHeader 0 height None 0 None"

text \<open>
  The loop over the results of validation: each transaction with the error for which it is skipped, the gas that is left and the view. It ends when there is no gas left, or at
  the first transaction that needs more. A transaction that fails in the view leaves the inputs before the failing one spent.
\<close>

fun pre_loop ::
  "chainEnv \<Rightarrow> database \<Rightarrow> BcBlock \<Rightarrow> (TypesTx \<times> GasState vout) list \<Rightarrow> UtxoViewpoint \<Rightarrow> int \<Rightarrow> ((TypesTx \<times> prop_err option) list \<times> int \<times> UtxoViewpoint) propres" where
  "pre_loop K db block [] view gasLeft = ProOk ([], gasLeft, view)"
| "pre_loop K db block ((tx, r) # l) view gasLeft =
     (let skip = (\<lambda>e v. case pre_loop K db block l v gasLeft of ProOk (rs, g, v') \<Rightarrow> ProOk ((tx, Some e) # rs, g, v') | x \<Rightarrow> x) in
      if gasLeft \<le> 0 then ProOk ([], gasLeft, view)
      else
        (case r of
           VErr e \<Rightarrow> skip (ErrPropTx e) view
         | VPanic \<Rightarrow> ProPanic
         | VNoFuel \<Rightarrow> ProFuel
         | VOk g \<Rightarrow>
             (case getTransactionsUtxo (kP K) db [ttTx tx] view of
                (UErr e, v) \<Rightarrow> skip (ErrPropUtxo e) v
              | (UPanic, v) \<Rightarrow> ProPanic
              | (UOk, v) \<Rightarrow>
                  if gasLeft - GasUsed g < 0 then ProOk ([], gasLeft, v)
                  else
                    (case ApplyTransaction (eN (kE K)) block (ttTx tx) v of
                       (UErr e, v') \<Rightarrow> skip (ErrPropUtxo e) v'
                     | (UPanic, v') \<Rightarrow> ProPanic
                     | (UOk, v') \<Rightarrow>
                         (case pre_loop K db block l v' (gasLeft - GasUsed g) of
                            ProOk (rs, g', v'') \<Rightarrow> ProOk ((tx, None) # rs, g', v'')
                          | x \<Rightarrow> x)))))"

definition preValidateTxs ::
  "chainEnv \<Rightarrow> TypesTx list \<Rightarrow> UtxoViewpoint \<Rightarrow> int \<Rightarrow> Chain \<Rightarrow> ((TypesTx \<times> prop_err option) list \<times> int \<times> UtxoViewpoint) propres \<times> Chain" where
  "preValidateTxs K txs view gasLeft c =
     (let height = thHeight (bestBlockHeader c) + 1;
          bcBlock = \<lparr>bbHeader = bare_header height, bbID = zeroHash, bbTransactions = []\<rparr>;
          V = (kV K)\<lparr>eBlock := \<lparr>blkHeader = bare_header height, blkID = zeroHash, blkTransactions = []\<rparr>, eConverter := ProgramConverter (kDb c)\<rparr> in
      case ValidateTxs (kFuel K) V txs (kMem c) of
        (results, st) \<Rightarrow>
          (if VPanic \<in> set results then ProPanic else pre_loop K (kDb c) bcBlock (zip txs results) view gasLeft, c\<lparr>kMem := st\<rparr>))"

text \<open>The results of a batch: the skipped transactions leave the pool, the others join the block.\<close>

primrec batch_results :: "chainEnv \<Rightarrow> (TypesTx \<times> prop_err option) list \<Rightarrow> blockBuilder \<Rightarrow> Chain \<Rightarrow> unit propres \<times> blockBuilder \<times> Chain" where
  "batch_results K [] b c = (ProOk (), b, c)"
| "batch_results K (x # l) b c =
     (case snd x of
        None \<Rightarrow> batch_results K l (b\<lparr>pbTransactions := pbTransactions b @ [Some (fst x)]\<rparr>) c
      | Some e \<Rightarrow>
          (case RemoveTransaction (kClock K) (txID (ttTx (fst x))) (txPool c) of
             (PPanic, tp) \<Rightarrow> (ProPanic, b, c\<lparr>txPool := tp\<rparr>)
           | (_, tp) \<Rightarrow> batch_results K l b (c\<lparr>txPool := tp\<rparr>)))"

function (sequential) applyTransactions :: "propEnv \<Rightarrow> nat \<Rightarrow> TxDesc list \<Rightarrow> blockBuilder \<Rightarrow> Chain \<Rightarrow> unit propres \<times> blockBuilder \<times> Chain" where
  "applyTransactions Q i [] b c = (ProOk (), b, c)"
| "applyTransactions Q i (x # xs) b c =
     (case preValidateTxs (pK Q) (map dTx (take batchApplyNum (x # xs))) (pbView b) (pbGasLeft b) c of
        (ProOk (results, gasLeft, view), c1) \<Rightarrow>
          (case batch_results (pK Q) results (b\<lparr>pbView := view\<rparr>) c1 of
             (ProOk _, b1, c2) \<Rightarrow>
               let b2 = b1\<lparr>pbGasLeft := gasLeft\<rparr> in
               if pTimeout Q i \<or> length (pbTransactions b2) > softMaxTxNum then (ProOk (), b2, c2)
               else applyTransactions Q (Suc i) (drop batchApplyNum (x # xs)) b2 c2
           | r \<Rightarrow> r)
      | (ProErr e, c1) \<Rightarrow> (ProErr e, b, c1)
      | (ProPanic, c1) \<Rightarrow> (ProPanic, b, c1)
      | (ProFuel, c1) \<Rightarrow> (ProFuel, b, c1))"
  by pat_completeness auto

termination
  by (relation "measure (\<lambda>(Q, i, xs, b, c). length xs)") (auto simp: batchApplyNum_def)

definition applyTransactionFromPool :: "propEnv \<Rightarrow> blockBuilder \<Rightarrow> Chain \<Rightarrow> unit propres \<times> blockBuilder \<times> Chain" where
  "applyTransactionFromPool Q b c = applyTransactions Q 0 (sort_key dAdded (GetTransactions (txPool c))) b c"

definition applyCoinbaseTransaction :: "propEnv \<Rightarrow> blockBuilder \<Rightarrow> Chain \<Rightarrow> unit propres \<times> blockBuilder \<times> Chain" where
  "applyCoinbaseTransaction Q b c =
     (case createCoinbaseTx Q (pbHeader b) c of
        (ProOk tx, c1) \<Rightarrow>
          let V = (kV (pK Q))\<lparr>eTx := ttTx tx, eTxRef := 0, eConverter := ProgramConverter (kDb c1),
                eBlock := \<lparr>blkHeader = bare_header (thHeight (pbHeader b)), blkID = zeroHash, blkTransactions = [0]\<rparr>\<rparr> in
          (case ValidateTx (kFuel (pK Q)) V (kMem c1) of
             (VOk g, st) \<Rightarrow> (ProOk (), b\<lparr>pbTransactions := (pbTransactions b)[0 := Some tx], pbGasLeft := pbGasLeft b - GasUsed g\<rparr>, c1\<lparr>kMem := st\<rparr>)
           | (VErr e, st) \<Rightarrow> (ProErr (ErrPropTx e), b, c1\<lparr>kMem := st\<rparr>)
           | (VPanic, st) \<Rightarrow> (ProPanic, b, c1\<lparr>kMem := st\<rparr>)
           | (VNoFuel, st) \<Rightarrow> (ProFuel, b, c1\<lparr>kMem := st\<rparr>))
      | (ProErr e, c1) \<Rightarrow> (ProErr e, b, c1)
      | (ProPanic, c1) \<Rightarrow> (ProPanic, b, c1)
      | (ProFuel, c1) \<Rightarrow> (ProFuel, b, c1))"

definition calculateBlockCommitment :: "lib \<Rightarrow> TypesTx list \<Rightarrow> TypesBlockHeader \<Rightarrow> TypesBlockHeader" where
  "calculateBlockCommitment L txs hdr = hdr\<lparr>thTransactionsMerkleRoot := TxMerkleRoot L (map ttTx txs)\<rparr>"

definition SignBlockHeader :: "casperEnv \<Rightarrow> TypesBlockHeader \<Rightarrow> TypesBlockHeader" where
  "SignBlockHeader E hdr = hdr\<lparr>thBlockWitness := BlockWitness_Set (eSign E (Byte32 (BlockHeader_Hash (eL E) hdr)))\<rparr>"

text \<open>The place of the coinbase transaction is nil until it is filled.\<close>

definition build :: "propEnv \<Rightarrow> blockBuilder \<Rightarrow> Chain \<Rightarrow> ChainBlock propres \<times> Chain" where
  "build Q b0 c =
     (case applyTransactionFromPool Q (b0\<lparr>pbTransactions := [None]\<rparr>) c of
        (ProOk _, b1, c1) \<Rightarrow>
          (case applyCoinbaseTransaction Q b1 c1 of
             (ProOk _, b2, c2) \<Rightarrow>
               (case those (pbTransactions b2) of
                  None \<Rightarrow> (ProPanic, c2)
                | Some txs \<Rightarrow>
                    let hdr = SignBlockHeader (kE (pK Q)) (calculateBlockCommitment (eL (kE (pK Q))) txs (pbHeader b2)) in
                    (ProOk \<lparr>kbHeader = hdr, kbTransactions = txs\<rparr>, c2))
           | (ProErr e, _, c2) \<Rightarrow> (ProErr e, c2)
           | (ProPanic, _, c2) \<Rightarrow> (ProPanic, c2)
           | (ProFuel, _, c2) \<Rightarrow> (ProFuel, c2))
      | (ProErr e, _, c1) \<Rightarrow> (ProErr e, c1)
      | (ProPanic, _, c1) \<Rightarrow> (ProPanic, c1)
      | (ProFuel, _, c1) \<Rightarrow> (ProFuel, c1))"

definition NewBlockTemplate :: "propEnv \<Rightarrow> u64 \<Rightarrow> Chain \<Rightarrow> ChainBlock propres \<times> Chain" where
  "NewBlockTemplate Q timestamp c = build Q (newBlockBuilder (eL (kE (pK Q))) timestamp c) c"

end
