(* ===== verification/ProposalProps.thy ===== *)
theory ProposalProps
  imports Proposal
begin

text \<open>The coinbase transaction that a node proposes is one that every node accepts.\<close>

lemma hex_value_char: "n < 16 \<Longrightarrow> hex_value (hex_char n) = Some n"
proof -
  assume "n < 16"
  moreover have "list_all (\<lambda>n. hex_value (hex_char n) = Some n) [0..<16]" by code_simp
  ultimately show ?thesis by (simp add: list_all_iff)
qed

lemma Decode_Encode: "DecodeString (EncodeToString bs) = Some bs"
proof (induction bs)
  case Nil
  show ?case by (simp add: EncodeToString_def)
next
  case (Cons x bs)
  have "unat x < 256" using unsigned_less [of x] by simp
  then have "hex_value (hex_char (unat x div 16)) = Some (unat x div 16)" "hex_value (hex_char (unat x mod 16)) = Some (unat x mod 16)"
    by (simp_all add: hex_value_char less_mult_imp_div_less)
  moreover have "of_nat (16 * (unat x div 16) + unat x mod 16) = x" by simp
  ultimately show ?case using Cons by (simp add: EncodeToString_def)
qed

text \<open>What the loop over the rewards makes of the outputs.\<close>

definition reward_output :: "string \<times> u64 \<Rightarrow> bytes TxOutput" where
  "reward_output x = NewOriginalTxOutput BTMAssetID (snd x) (the (DecodeString (fst x))) []"

lemma reward_loop_result:
  assumes "distinct (map fst rw)" "\<forall>x\<in>set rw. fst x \<in> range EncodeToString \<and> unat (snd x) < 2 ^ 63"
  shows "reward_loop script rw (out # outs) =
    Inr ((case map_of rw (EncodeToString script) of None \<Rightarrow> out | Some n \<Rightarrow> set_amount n out) # outs @ map reward_output (filter (\<lambda>x. fst x \<noteq> EncodeToString script) rw))"
  using assms
proof (induction rw arbitrary: out outs)
  case (Cons x rw)
  show ?case
  proof (cases "fst x = EncodeToString script")
    case True
    then have "map_of rw (EncodeToString script) = None" using Cons.prems(1) by (auto simp: map_of_eq_None_iff)
    then show ?thesis using Cons.IH [of "set_amount (snd x) out" outs] Cons.prems True by (cases x) simp
  next
    case False
    obtain n bs where x: "x = (EncodeToString bs, n)" using Cons.prems(2) by (cases x) auto
    have "unat (snd x) \<le> 2 ^ 63 - 1" using Cons.prems(2) by auto
    then have "AddOutput (NewOriginalTxOutput BTMAssetID (snd x) bs []) (out # outs) = Inr (out # outs @ [NewOriginalTxOutput BTMAssetID (snd x) bs []])"
      by (simp add: AddOutput_def output_amount_def NewOriginalTxOutput_def)
    then show ?thesis
      using Cons.IH [of out "outs @ [NewOriginalTxOutput BTMAssetID (snd x) bs []]"] Cons.prems False
      by (simp add: x Decode_Encode reward_output_def)
  qed
qed simp

definition pair_of :: "bytes TxOutput \<Rightarrow> string \<times> u64" where
  "pair_of out = (EncodeToString (ocControlProgram (outCommitment out)), output_amount out)"

lemma pair_of_reward: "fst x \<in> range EncodeToString \<Longrightarrow> pair_of (reward_output x) = x"
  by (cases x) (auto simp: pair_of_def reward_output_def NewOriginalTxOutput_def output_amount_def Decode_Encode)

lemma paid_pairs: "paid outs k = sum_list (map snd (filter (\<lambda>p. fst p = k) (map pair_of outs)))" "payees outs = fst ` set (map pair_of outs)"
proof -
  show "paid outs k = sum_list (map snd (filter (\<lambda>p. fst p = k) (map pair_of outs)))"
    unfolding paid_def by (induction outs) (simp_all add: pair_of_def)
  show "payees outs = fst ` set (map pair_of outs)" by (auto simp: payees_def pair_of_def image_image)
qed

lemma sum_of_key:
  assumes "distinct (map fst ps)" "(k, a) \<in> set ps"
  shows "sum_list (map snd (filter (\<lambda>p. fst p = k) ps)) = (a :: u64)"
  using assms
proof (induction ps)
  case (Cons p ps)
  show ?case
  proof (cases "p = (k, a)")
    case True
    then have "filter (\<lambda>p. fst p = k) ps = []" using Cons.prems(1) by (auto simp: filter_empty_conv)
    then show ?thesis using True by simp
  next
    case False
    then have m: "(k, a) \<in> set ps" using Cons.prems(2) by auto
    then have "k \<in> fst ` set ps" by (metis fst_conv imageI)
    then have "fst p \<noteq> k" using Cons.prems(1) by auto
    then show ?thesis using Cons m by simp
  qed
qed simp

lemma checkout_pairs:
  assumes "distinct (map fst (cpRewards cp))" "distinct (map fst (map pair_of (reward_outputs (tdOutputs (ttData tx)))))"
    "set (map pair_of (reward_outputs (tdOutputs (ttData tx)))) = set (cpRewards cp)"
  shows "checkoutRewardCoinbase tx cp = BOk ()"
  unfolding checkoutRewardCoinbase_iff [OF assms(1)] paid_pairs using sum_of_key [OF assms(2)] assms(3) by auto

text \<open>
  C26. Whoever proposes a block, and whatever control program is used, the outputs of the coinbase transaction can be built from the rewards of the checkpoint, and the transaction
  passes the check of every validating node: at the start of an epoch and elsewhere. The rewards have different programs in hexadecimal and are neither zero nor out of the range of
  an amount; the checkpoint of the first block has none.
\<close>

theorem proposed_coinbase_accepted:
  assumes "distinct (map fst (cpRewards cp))" "\<forall>x\<in>set (cpRewards cp). fst x \<in> range EncodeToString \<and> 0 < unat (snd x) \<and> unat (snd x) < 2 ^ 63"
    "thHeight hdr = 1 \<longrightarrow> cpRewards cp = []"
  shows "\<exists>outs. coinbase_outs N (thHeight hdr) script cp = Inr outs \<and>
    (\<forall>tx l. tdOutputs (ttData tx) = outs \<longrightarrow> checkCoinbaseAmount N \<lparr>kbHeader = hdr, kbTransactions = tx # l\<rparr> cp = BOk ())"
proof -
  let ?out = "NewOriginalTxOutput BTMAssetID 0 script []" and ?own = "EncodeToString script"
  have add: "AddOutput ?out [] = Inr [?out]" by (simp add: AddOutput_def output_amount_def NewOriginalTxOutput_def)
  have good: "coinbase_outputs (set_amount n ?out # map reward_output l) = BOk ()" "coinbase_outputs (?out # map reward_output l) = BOk ()" for n l
    by (induction l) (simp_all add: set_amount_def reward_output_def NewOriginalTxOutput_def)
  show ?thesis
  proof (cases "thHeight hdr mod BlocksOfEpoch N = 1 \<and> thHeight hdr \<noteq> 1")
    case False
    then have o: "coinbase_outs N (thHeight hdr) script cp = Inr [?out]" by (auto simp: coinbase_outs_def add)
    have z: "output_amount ?out = 0" by (simp add: output_amount_def NewOriginalTxOutput_def)
    have "checkoutRewardCoinbase tx cp = BOk ()" if "tdOutputs (ttData tx) = [?out]" "thHeight hdr = 1" for tx
      using checkout_pairs [OF assms(1), of tx] that assms(3) z by (simp add: reward_outputs_def)
    then have "checkCoinbaseAmount N \<lparr>kbHeader = hdr, kbTransactions = tx # l\<rparr> cp = BOk ()" if "tdOutputs (ttData tx) = [?out]" for tx l
      using that False good(2) [of "[]"] z by (simp add: checkCoinbaseAmount_def)
    then show ?thesis using o by blast
  next
    case True
    let ?rest = "map reward_output (filter (\<lambda>x. fst x \<noteq> ?own) (cpRewards cp))"
    let ?first = "case map_of (cpRewards cp) ?own of None \<Rightarrow> ?out | Some n \<Rightarrow> set_amount n ?out"
    have "\<forall>x\<in>set (cpRewards cp). fst x \<in> range EncodeToString \<and> unat (snd x) < 2 ^ 63" using assms(2) by blast
    from reward_loop_result [OF assms(1) this, of script ?out "[]"]
    have o: "coinbase_outs N (thHeight hdr) script cp = Inr (?first # ?rest)" using True by (simp add: coinbase_outs_def add)
    have rest: "map pair_of ?rest = filter (\<lambda>x. fst x \<noteq> ?own) (cpRewards cp)"
      using assms(2) by (auto intro!: map_idI pair_of_reward)
    have pairs: "set (map pair_of (reward_outputs (?first # ?rest))) = set (cpRewards cp) \<and> distinct (map fst (map pair_of (reward_outputs (?first # ?rest))))"
    proof (cases "map_of (cpRewards cp) ?own")
      case None
      then have "?own \<notin> fst ` set (cpRewards cp)" by (simp add: map_of_eq_None_iff)
      then have "filter (\<lambda>x. fst x \<noteq> ?own) (cpRewards cp) = cpRewards cp" by (intro filter_True) force
      moreover have "reward_outputs (?first # ?rest) = ?rest" using None by (simp add: reward_outputs_def output_amount_def NewOriginalTxOutput_def)
      ultimately show ?thesis using rest assms(1) by simp
    next
      case (Some n)
      then have n: "(?own, n) \<in> set (cpRewards cp)" by (rule map_of_SomeD)
      then have "n \<noteq> 0" using assms(2) by auto
      then have r: "reward_outputs (?first # ?rest) = ?first # ?rest" "pair_of ?first = (?own, n)"
        using Some by (simp_all add: reward_outputs_def output_amount_def NewOriginalTxOutput_def set_amount_def pair_of_def)
      have "set (filter (\<lambda>x. fst x \<noteq> ?own) (cpRewards cp)) = set (cpRewards cp) - {(?own, n)}"
        using n assms(1) eq_key_imp_eq_value [OF assms(1)] by auto
      moreover have "distinct (map fst (filter (\<lambda>x. fst x \<noteq> ?own) (cpRewards cp)))" by (rule distinct_map_filter [OF assms(1)])
      moreover have "?own \<notin> set (map fst (filter (\<lambda>x. fst x \<noteq> ?own) (cpRewards cp)))" by auto
      moreover have "map pair_of (reward_outputs (?first # ?rest)) = (?own, n) # filter (\<lambda>x. fst x \<noteq> ?own) (cpRewards cp)"
        unfolding r(1) list.map(2) r(2) rest by (rule refl)
      ultimately show ?thesis using n by (simp only: list.set list.map distinct.simps fst_conv) blast
    qed
    have "checkCoinbaseAmount N \<lparr>kbHeader = hdr, kbTransactions = tx # l\<rparr> cp = BOk ()" if t: "tdOutputs (ttData tx) = ?first # ?rest" for tx l
    proof -
      have "coinbase_outputs (?first # ?rest) = BOk ()" using good by (cases "map_of (cpRewards cp) ?own") simp_all
      moreover have "checkoutRewardCoinbase tx cp = BOk ()" by (rule checkout_pairs [OF assms(1)]) (use pairs t in simp_all)
      ultimately show ?thesis using t True by (simp add: checkCoinbaseAmount_def)
    qed
    then show ?thesis using o by blast
  qed
qed

definition epoch_header :: TypesBlockHeader where
  "epoch_header = \<lparr>thVersion = 1, thHeight = 101, thPreviousBlockHash = zeroHash, thTimestamp = 0, thBlockWitness = [], thSupLinks = [], thTransactionsMerkleRoot = zeroHash\<rparr>"

lemma proposed_coinbase_accepted_witness:
  "\<exists>outs. coinbase_outs SoloNetParams 101 [1] reward_cp = Inr outs \<and>
     checkCoinbaseAmount SoloNetParams
       \<lparr>kbHeader = epoch_header, kbTransactions = [reward_tx\<lparr>ttData := (ttData reward_tx)\<lparr>tdOutputs := outs\<rparr>\<rparr>]\<rparr> reward_cp = BOk ()"
proof -
  have h: "distinct (map fst (cpRewards reward_cp))" by (simp add: reward_cp_def)
  have e: "''02'' = EncodeToString [2]" "''01'' = EncodeToString [1]" by (simp_all add: EncodeToString_def hex_char_def)
  have r: "cpRewards reward_cp = [(EncodeToString [2], 40), (EncodeToString [1], 42)]"
    unfolding e [symmetric] by (simp add: reward_cp_def)
  have k: "\<forall>x\<in>set (cpRewards reward_cp). fst x \<in> range EncodeToString \<and> 0 < unat (snd x) \<and> unat (snd x) < 2 ^ 63"
    unfolding r by simp
  have f: "thHeight epoch_header = 1 \<longrightarrow> cpRewards reward_cp = []" "thHeight epoch_header = 101" by (simp_all add: epoch_header_def)
  obtain outs where o: "coinbase_outs SoloNetParams 101 [1] reward_cp = Inr outs"
    "\<And>tx l. tdOutputs (ttData tx) = outs \<Longrightarrow> checkCoinbaseAmount SoloNetParams \<lparr>kbHeader = epoch_header, kbTransactions = tx # l\<rparr> reward_cp = BOk ()"
    using proposed_coinbase_accepted [OF h k f(1), of SoloNetParams "[1]"] unfolding f(2) by blast
  show ?thesis by (intro exI [of _ outs] conjI o(1) o(2)) simp
qed

text \<open>The transaction that \<open>createCoinbaseTx\<close> returns has these outputs.\<close>

lemma createCoinbaseTx_outputs:
  assumes "createCoinbaseTx Q hdr c = (ProOk tx, c')"
  shows "\<exists>script checkpoint. fst (PrevCheckpointByPrevHash (pK Q) (thPreviousBlockHash hdr) c) = KOk checkpoint \<and>
    coinbase_outs (eN (kE (pK Q))) (thHeight hdr) script checkpoint = Inr (tdOutputs (ttData tx))"
proof -
  obtain sc arb where s: "coinbase_script Q (thHeight hdr) = (sc, arb)" by (metis surj_pair)
  obtain script where sc: "sc = Inr script" using assms by (cases sc) (simp_all add: createCoinbaseTx_def s)
  have l: "\<not> length arb > 128" using assms by (auto simp: createCoinbaseTx_def s sc split: if_splits)
  obtain r c1 where p: "PrevCheckpointByPrevHash (pK Q) (thPreviousBlockHash hdr) c = (r, c1)" by (metis surj_pair)
  obtain cp where r: "r = KOk cp" using assms l by (cases r) (simp_all add: createCoinbaseTx_def s sc p)
  obtain outs where o: "coinbase_outs (eN (kE (pK Q))) (thHeight hdr) script cp = Inr outs"
    using assms l by (cases "coinbase_outs (eN (kE (pK Q))) (thHeight hdr) script cp") (simp_all add: createCoinbaseTx_def s sc p r)
  have "tdOutputs (ttData tx) = outs"
    using assms l by (auto simp: createCoinbaseTx_def s sc p r o Let_def split: prod.splits wstatus.splits)
  then show ?thesis using p r o by auto
qed

end
