(* ===== verification/Locks.thy ===== *)
theory Locks
  imports Main
begin

text \<open>
  How the goroutine that handles a vote and the one that processes blocks wait for each other: the mutex of consensus and the channel
  by which a vote asks the chain for a reorganisation (\<^verbatim>\<open>protocol/casper/auth_verification.go\<close>, \<^verbatim>\<open>apply_block.go\<close>, \<^verbatim>\<open>casper.go\<close>, \<^verbatim>\<open>protocol/block.go\<close>, \<^verbatim>\<open>protocol.go\<close>). Each
  function is the sequence of its operations on mutex and channels; what it computes in between is in the theories of consensus and
  chain. The mutex lets readers pass while a writer waits, which allows more runs than Go does.
\<close>

section \<open>Operations\<close>

datatype act = WLock | WUnlock | ReadLock | ReadUnlock | SendRollback | RecvReply | SendReply

datatype thread = Voter | Processor

text \<open>What the goroutines still have to do, who holds the mutex, and the number of messages in the channel.\<close>

record sync =
  voter :: "act list"
  processor :: "act list"
  writer :: "thread option"
  readers :: nat
  rollbackCh :: nat

text \<open>\<^verbatim>\<open>make(chan *RollbackMsg, 64)\<close>.\<close>

definition rollbackCap :: nat where
  "rollbackCap = 64"

text \<open>\<^verbatim>\<open>tryRollback\<close>, when the best block has changed: the reply is awaited.\<close>

definition tryRollback_acts :: "bool \<Rightarrow> act list" where
  "tryRollback_acts changed = (if changed then [SendRollback, RecvReply] else [])"

text \<open>\<^verbatim>\<open>AuthVerification\<close> holds the mutex until it returns.\<close>

definition AuthVerification_acts :: "bool \<Rightarrow> act list" where
  "AuthVerification_acts changed = [WLock] @ tryRollback_acts changed @ [WUnlock]"

text \<open>\<^verbatim>\<open>ApplyBlock\<close>, and \<^verbatim>\<open>BestChain\<close> and \<^verbatim>\<open>LastFinalized\<close> of consensus.\<close>

definition ApplyBlock_acts :: "act list" where
  "ApplyBlock_acts = [WLock, WUnlock]"

definition BestChain_acts :: "act list" where
  "BestChain_acts = [ReadLock, ReadUnlock]"

definition LastFinalized_acts :: "act list" where
  "LastFinalized_acts = [ReadLock, ReadUnlock]"

text \<open>\<^verbatim>\<open>tryReorganize\<close>, when it gets as far as \<^verbatim>\<open>setState\<close> and when it does not.\<close>

definition tryReorganize_acts :: "bool \<Rightarrow> act list" where
  "tryReorganize_acts reorganizes = (if reorganizes then LastFinalized_acts else [])"

text \<open>\<^verbatim>\<open>processBlock\<close>: \<open>n\<close> blocks are saved, the block and its orphans; \<open>completes\<close> tells whether it goes on to look for the best chain.\<close>

definition processBlock_acts :: "nat \<Rightarrow> bool \<Rightarrow> bool \<Rightarrow> act list" where
  "processBlock_acts n completes reorganizes =
     concat (replicate n ApplyBlock_acts) @ (if completes then BestChain_acts @ tryReorganize_acts reorganizes else [])"

text \<open>The second branch of \<^verbatim>\<open>blockProcessor\<close>.\<close>

definition rollback_acts :: "bool \<Rightarrow> act list" where
  "rollback_acts reorganizes = tryReorganize_acts reorganizes @ [SendReply]"

section \<open>Runs\<close>

definition sync_start :: sync where
  "sync_start = \<lparr>voter = [], processor = [], writer = None, readers = 0, rollbackCh = 0\<rparr>"

text \<open>
  The steps of the two goroutines; \<open>R\<close> tells whether requests of votes lead to a reorganisation. The channel of the reply has no buffer: sender and receiver meet.
\<close>

inductive sync_step :: "bool \<Rightarrow> sync \<Rightarrow> sync \<Rightarrow> bool" for R where
  next_vote: "voter s = [] \<Longrightarrow> sync_step R s (s\<lparr>voter := AuthVerification_acts changed\<rparr>)"
| voter_lock: "voter s = WLock # v \<Longrightarrow> writer s = None \<Longrightarrow> readers s = 0 \<Longrightarrow> sync_step R s (s\<lparr>voter := v, writer := Some Voter\<rparr>)"
| voter_unlock: "voter s = WUnlock # v \<Longrightarrow> sync_step R s (s\<lparr>voter := v, writer := None\<rparr>)"
| voter_send: "voter s = SendRollback # v \<Longrightarrow> rollbackCh s < rollbackCap \<Longrightarrow> sync_step R s (s\<lparr>voter := v, rollbackCh := Suc (rollbackCh s)\<rparr>)"
| reply: "voter s = RecvReply # v \<Longrightarrow> processor s = SendReply # p \<Longrightarrow> sync_step R s (s\<lparr>voter := v, processor := p\<rparr>)"
| next_block: "processor s = [] \<Longrightarrow> sync_step R s (s\<lparr>processor := processBlock_acts n completes reorganizes\<rparr>)"
| next_rollback: "processor s = [] \<Longrightarrow> rollbackCh s = Suc m \<Longrightarrow> sync_step R s (s\<lparr>processor := rollback_acts R, rollbackCh := m\<rparr>)"
| processor_lock: "processor s = WLock # p \<Longrightarrow> writer s = None \<Longrightarrow> readers s = 0 \<Longrightarrow> sync_step R s (s\<lparr>processor := p, writer := Some Processor\<rparr>)"
| processor_unlock: "processor s = WUnlock # p \<Longrightarrow> sync_step R s (s\<lparr>processor := p, writer := None\<rparr>)"
| processor_rlock: "processor s = ReadLock # p \<Longrightarrow> writer s = None \<Longrightarrow> sync_step R s (s\<lparr>processor := p, readers := Suc (readers s)\<rparr>)"
| processor_runlock: "processor s = ReadUnlock # p \<Longrightarrow> sync_step R s (s\<lparr>processor := p, readers := readers s - 1\<rparr>)"

inductive_cases sync_stepE: "sync_step R s s'"

section \<open>The invariant\<close>

abbreviation waiting :: "act list" where
  "waiting \<equiv> [RecvReply, WUnlock]"

text \<open>Where the processor is with respect to the mutex.\<close>

definition holds_write :: "act list \<Rightarrow> bool" where
  "holds_write p \<longleftrightarrow> (\<exists>q. p = WUnlock # q)"

definition holds_read :: "act list \<Rightarrow> bool" where
  "holds_read p \<longleftrightarrow> (\<exists>q. p = ReadUnlock # q)"

primrec paired :: "act list \<Rightarrow> bool" where
  "paired [] = True"
| "paired (a # p) = ((a = WLock \<longrightarrow> holds_write p) \<and> (a = ReadLock \<longrightarrow> holds_read p) \<and> (a = WUnlock \<or> a = ReadUnlock \<longrightarrow> \<not> holds_write p \<and> \<not> holds_read p) \<and>
     (a = SendReply \<longrightarrow> p = []) \<and> paired p)"

definition voter_ok :: "sync \<Rightarrow> bool" where
  "voter_ok s \<longleftrightarrow>
     (if writer s = Some Voter then voter s \<in> {[SendRollback, RecvReply, WUnlock], waiting, [WUnlock]}
      else voter s \<in> {[], AuthVerification_acts True, AuthVerification_acts False})"

definition processor_ok :: "sync \<Rightarrow> bool" where
  "processor_ok s \<longleftrightarrow>
     paired (processor s) \<and> (holds_write (processor s) \<longleftrightarrow> writer s = Some Processor) \<and> readers s = (if holds_read (processor s) then 1 else 0) \<and>
     (writer s \<noteq> None \<longrightarrow> readers s = 0)"

definition request_ok :: "sync \<Rightarrow> bool" where
  "request_ok s \<longleftrightarrow>
     (if voter s = waiting then (SendReply \<in> set (processor s) \<longrightarrow> hd (processor s) = ReadLock)
      else rollbackCh s = 0 \<and> SendReply \<notin> set (processor s))"

lemma paired_acts:
  "paired (processBlock_acts n completes reorganizes)" "\<not> holds_write (processBlock_acts n completes reorganizes)" "\<not> holds_read (processBlock_acts n completes reorganizes)"
  "SendReply \<notin> set (processBlock_acts n completes reorganizes)" "paired (rollback_acts R)" "\<not> holds_write (rollback_acts R)" "\<not> holds_read (rollback_acts R)"
proof -
  have tl: "paired (if completes then BestChain_acts @ tryReorganize_acts reorganizes else [])"
    "\<not> holds_write (if completes then BestChain_acts @ tryReorganize_acts reorganizes else [])"
    "\<not> holds_read (if completes then BestChain_acts @ tryReorganize_acts reorganizes else [])"
    by (auto simp: BestChain_acts_def tryReorganize_acts_def LastFinalized_acts_def holds_write_def holds_read_def)
  have "paired (processBlock_acts n completes reorganizes) \<and> \<not> holds_write (processBlock_acts n completes reorganizes) \<and> \<not> holds_read (processBlock_acts n completes reorganizes)"
  proof (induction n)
    case 0
    then show ?case using tl by (simp add: processBlock_acts_def)
  next
    case (Suc n)
    have "processBlock_acts (Suc n) completes reorganizes = WLock # WUnlock # processBlock_acts n completes reorganizes"
      by (simp add: processBlock_acts_def ApplyBlock_acts_def)
    then show ?case using Suc by (simp add: holds_write_def holds_read_def)
  qed
  then show "paired (processBlock_acts n completes reorganizes)" "\<not> holds_write (processBlock_acts n completes reorganizes)" "\<not> holds_read (processBlock_acts n completes reorganizes)"
    by blast+
  show "SendReply \<notin> set (processBlock_acts n completes reorganizes)"
    by (auto simp: processBlock_acts_def ApplyBlock_acts_def BestChain_acts_def tryReorganize_acts_def LastFinalized_acts_def split: if_splits)
  show "paired (rollback_acts R)" "\<not> holds_write (rollback_acts R)" "\<not> holds_read (rollback_acts R)"
    by (auto simp: rollback_acts_def tryReorganize_acts_def LastFinalized_acts_def holds_write_def holds_read_def)
qed

definition sync_ok :: "sync \<Rightarrow> bool" where
  "sync_ok s \<longleftrightarrow> voter_ok s \<and> processor_ok s \<and> request_ok s"

lemmas acts_defs = AuthVerification_acts_def tryRollback_acts_def holds_write_def holds_read_def

lemma nothing_held: "\<not> holds_write []" "\<not> holds_read []"
  by (simp_all add: holds_write_def holds_read_def)

lemma sync_step_ok: "sync_step True s s' \<Longrightarrow> sync_ok s \<Longrightarrow> sync_ok s'"
proof (induction rule: sync_step.induct)
  case (next_vote s changed)
  then show ?case by (cases changed) (auto simp: sync_ok_def voter_ok_def processor_ok_def request_ok_def acts_defs split: if_splits)
next
  case (next_block s n completes reorganizes)
  then show ?case
    using paired_acts(1-4) [of n completes reorganizes] nothing_held
    by (auto simp: sync_ok_def voter_ok_def processor_ok_def request_ok_def split: if_splits)
next
  case (next_rollback s m)
  have "voter s = waiting" using next_rollback by (auto simp: sync_ok_def request_ok_def split: if_splits)
  moreover have "hd (rollback_acts True) = ReadLock" by (simp add: rollback_acts_def tryReorganize_acts_def LastFinalized_acts_def)
  ultimately show ?case
    using next_rollback paired_acts(5-7) [of True] by (auto simp: sync_ok_def voter_ok_def processor_ok_def request_ok_def acts_defs split: if_splits)
qed (auto simp: sync_ok_def voter_ok_def processor_ok_def request_ok_def acts_defs split: if_splits)

lemma sync_steps_ok: "(sync_step True)\<^sup>*\<^sup>* sync_start s \<Longrightarrow> sync_ok s"
proof (induction rule: rtranclp_induct)
  case base
  show ?case by (simp add: sync_ok_def voter_ok_def processor_ok_def request_ok_def sync_start_def nothing_held)
qed (rule sync_step_ok)

text \<open>A voter that waits goes on waiting.\<close>

lemma waiting_step:
  assumes "sync_step True s s'" "sync_ok s" "voter s = waiting"
  shows "voter s' = waiting"
  using assms by (cases rule: sync_step.cases) (auto simp: sync_ok_def request_ok_def)

text \<open>
  C22. When a vote changes the best block and the chain carries out the reorganisation that the vote asks for, the two goroutines wait for each other for ever: from the moment the
  request is sent, the vote is never answered, and the mutex of consensus, which it holds, is never released. \<^verbatim>\<open>AuthVerification\<close> awaits the reply with the mutex locked, and
  \<^verbatim>\<open>setState\<close> reads the last finalized block from consensus before the reply is sent.
\<close>

theorem vote_rollback_deadlocks:
  assumes "(sync_step True)\<^sup>*\<^sup>* sync_start s" "voter s = [RecvReply, WUnlock]" "(sync_step True)\<^sup>*\<^sup>* s s'"
  shows "voter s' = [RecvReply, WUnlock] \<and> writer s' = Some Voter"
proof -
  have "sync_ok s' \<and> voter s' = waiting"
    using assms(3)
  proof (induction rule: rtranclp_induct)
    case base
    then show ?case using assms(2) sync_steps_ok [OF assms(1)] by blast
  next
    case (step t u)
    then show ?case using sync_step_ok waiting_step by blast
  qed
  then show ?thesis by (auto simp: sync_ok_def voter_ok_def acts_defs split: if_splits)
qed

text \<open>The run in which the processor takes up the request: no goroutine can move any more.\<close>

definition asked :: sync where
  "asked = sync_start\<lparr>voter := waiting, writer := Some Voter, rollbackCh := 1\<rparr>"

definition stuck :: sync where
  "stuck = asked\<lparr>processor := rollback_acts True, rollbackCh := 0\<rparr>"

lemma stuck_run: "(sync_step True)\<^sup>*\<^sup>* sync_start asked" "(sync_step True)\<^sup>*\<^sup>* asked stuck"
proof -
  let ?s1 = "sync_start\<lparr>voter := [WLock, SendRollback, RecvReply, WUnlock]\<rparr>"
  let ?s2 = "sync_start\<lparr>voter := [SendRollback, RecvReply, WUnlock], writer := Some Voter\<rparr>"
  have "sync_step True sync_start ?s1" using next_vote [of sync_start True True] by (simp add: sync_start_def acts_defs)
  moreover have "sync_step True ?s1 ?s2" using voter_lock [of ?s1 "[SendRollback, RecvReply, WUnlock]" True] by (simp add: sync_start_def)
  moreover have "sync_step True ?s2 asked" using voter_send [of ?s2 waiting True] by (simp add: sync_start_def asked_def rollbackCap_def)
  ultimately show "(sync_step True)\<^sup>*\<^sup>* sync_start asked" by (meson converse_rtranclp_into_rtranclp r_into_rtranclp)
  have "sync_step True asked stuck" using next_rollback [of asked 0 True] by (simp add: sync_start_def asked_def stuck_def)
  then show "(sync_step True)\<^sup>*\<^sup>* asked stuck" by (rule r_into_rtranclp)
qed

lemma vote_rollback_deadlocks_witness:
  "voter stuck = [RecvReply, WUnlock] \<and> writer stuck = Some Voter \<and> \<not> (\<exists>s. sync_step True stuck s)"
proof -
  have "voter asked = [RecvReply, WUnlock]" by (simp add: asked_def)
  from vote_rollback_deadlocks [OF stuck_run(1) this stuck_run(2)]
  have w: "voter stuck = [RecvReply, WUnlock] \<and> writer stuck = Some Voter" .
  have "processor stuck = [ReadLock, ReadUnlock, SendReply]" by (simp add: stuck_def rollback_acts_def tryReorganize_acts_def LastFinalized_acts_def)
  then have "\<not> sync_step True stuck s" for s using w by (auto elim: sync_stepE)
  then show ?thesis using w by blast
qed

end
