(* ===== verification/Spec2Isabelle.thy ===== *)
theory Spec2Isabelle
  imports VmProps ScriptProps BuilderProps P2pkh TxProps TxAccepted Merkle UtxoReorg BlockProps CheckpointProps CasperSafety ContractProps
    MempoolProps BlockValidation OrphanProps ChainSafety ProposalProps Locks
begin

text \<open>
  \<^bold>\<open>A model of the Bytom node: validation, state and consensus.\<close>

  The program is a blockchain node in Go, under \<^verbatim>\<open>src/bytom\<close>. A transaction arrives as bytes, is read, mapped to a
  graph of entries and validated; the programs that guard its inputs run on a stack machine with a gas limit. A
  block is a header and transactions under a merkle root. Blocks move the set of unspent outputs, and the
  votes they carry decide the validators of the next epoch; verifications signed by the validators
  justify and finalize checkpoints, and the last justified checkpoint determines the best chain, which the node
  follows by detaching and attaching blocks. Transactions wait in a pool, blocks without a parent among the orphans.
  This library models these parts as executable definitions and proves what makes them correct. The remaining packages
  are around them: network, database, wallet, interfaces.

  \<^bold>\<open>Foundations.\<close> \<open>Prelude\<close> has the integers of Go (unsigned ones as words, \<open>int\<close> and \<open>int64\<close> as integers with the
  two's complement wrap written out), byte strings, the collections of rules and the lemmas on
  lists that the components share. \<open>GoSlice\<close> has byte slices over an explicit store of arrays, where
  \<^verbatim>\<open>append\<close> writes in place when the capacity allows it, so that aliasing is part of the model. \<open>GoFloat\<close> has
  \<^verbatim>\<open>float64\<close> arithmetic as correctly rounded arithmetic on rationals. \<open>Checked\<close> is package \<^verbatim>\<open>math/checked\<close>; its locales
  \<open>checked_signed\<close> and \<open>checked_unsigned\<close> state what the clients rely on, and are interpreted at both
  widths.

  \<^bold>\<open>The virtual machine\<close>, package \<^verbatim>\<open>protocol/vm\<close>. \<open>VmTypes\<close>: machine state, gas, stack primitives (\<^verbatim>\<open>vm.go\<close>,
  \<^verbatim>\<open>types.go\<close>, \<^verbatim>\<open>context.go\<close>, \<^verbatim>\<open>errors.go\<close>). \<open>VmStack\<close>, \<open>VmNumeric\<close>, \<open>VmBits\<close>, \<open>VmCrypto\<close>: one definition per opcode of
  \<^verbatim>\<open>stack.go\<close>, \<^verbatim>\<open>numeric.go\<close>, \<^verbatim>\<open>bitwise.go\<close> and \<^verbatim>\<open>splice.go\<close>, \<^verbatim>\<open>crypto.go\<close> and \<^verbatim>\<open>introspection.go\<close>. \<open>VmCode\<close> and
  \<open>VmParse\<close>: opcodes, table, parser. \<open>VmExec\<close>: control flow, \<^verbatim>\<open>CHECKPREDICATE\<close>, the loop, \<^verbatim>\<open>Verify\<close>. An operation is a
  function from the machine to an outcome (a value, an error, a panic, or \<open>NoFuel\<close>) and the machine it leaves, since the
  gas and the stacks of a failing program are observable. The number of steps is bounded by an argument; \<open>VmRun\<close>
  shows that a result does not depend on it, and that three times the gas limit plus one is enough for programs
  without three bytes, while \<open>VmProps\<close> has a program that no bound is enough for. \<open>VmGas\<close> has the potential argument for gas,
  \<open>VmFrame\<close> what operations leave alone, \<open>VmArith\<close> and \<open>VmSpec\<close> what opcodes compute, \<open>VmEval\<close> a library of external
  functions for which the machine can be run by the simplifier, \<open>VmProps\<close> the properties.

  \<^bold>\<open>Control programs.\<close> \<open>Script\<close> is \<^verbatim>\<open>vmutil\<close> (builder with jumps, standard programs), \<^verbatim>\<open>segwit\<close> and \<^verbatim>\<open>bcrp\<close>. \<open>ScriptProps\<close>:
  what is built is recognised and read back. \<open>BuilderProps\<close>: jumps are resolved, by an invariant over all
  ways to use the builder. \<open>P2pkh\<close>: the machine accepts a spend of a standard output exactly when
  key and signature fit, which composes the script functions with the machine.

  \<^bold>\<open>Entries and transactions.\<close> \<open>Encoding\<close> is \<^verbatim>\<open>encoding/blockchain\<close>, with the locale \<open>codec\<close> for formats that are read back.
  \<open>Bc\<close> has the entries of \<^verbatim>\<open>protocol/bc\<close>, their serialisation for hashing and their identifiers;
  \<open>BcProps\<close> shows that an identifier binds type and body. \<open>TxTypes\<close> has the transactions of \<^verbatim>\<open>protocol/bc/types\<close> and their
  binary format, \<open>TxProps\<close> the round trip. \<open>MapTx\<close> is \<^verbatim>\<open>map.go\<close>, \<open>MapTxProps\<close> the shape of the entries it makes.
  \<open>Merkle\<close> is \<^verbatim>\<open>merkle.go\<close> with the soundness and completeness of its proofs.

  \<^bold>\<open>Validation\<close>, package \<^verbatim>\<open>protocol/validation\<close>. \<open>Validation\<close> is \<^verbatim>\<open>tx.go\<close> and \<^verbatim>\<open>vmcontext.go\<close>: the walk over the entries with its
  cache, gas, the context of the machine and its callback. The traversal is bounded by an argument; the
  properties are about every bound for which it ends. \<open>ValidationProps\<close>, \<open>TxSafety\<close> and \<open>TxAccepted\<close> compose
  mapping and walk: an accepted transaction conserves value and spends no output twice.
  \<open>TxSample\<close> runs an accepted transaction.

  \<^bold>\<open>Unspent outputs.\<close> \<open>Consensus\<close> has the parameters of the networks (\<^verbatim>\<open>consensus/general.go\<close>). \<open>Utxo\<close> is
  \<^verbatim>\<open>protocol/state/utxo_view.go\<close> with \<^verbatim>\<open>database/utxo_view.go\<close> and the part of \<^verbatim>\<open>reorganizeChain\<close> that moves the view. \<open>UtxoProps\<close> and
  \<open>UtxoReorg\<close> show that view and database together refine a ledger of unspent outputs, that detaching a block undoes
  applying it, and what a reorganisation forgets.

  \<^bold>\<open>Blocks and consensus.\<close> \<open>BlockTypes\<close> has headers, links and blocks with their format, \<open>BlockProps\<close> the round trip.
  \<open>Checkpoint\<close> is \<^verbatim>\<open>state/checkpoint.go\<close> and \<^verbatim>\<open>state/reward.go\<close>; \<open>CheckpointProps\<close> has the choice and the schedule of validators and the
  bounds of rewards. \<open>Casper\<close> is package \<^verbatim>\<open>protocol/casper\<close>: the tree of checkpoints (a pointer is a position, \<^verbatim>\<open>Parent\<close>
  the node above), verification messages, \<^verbatim>\<open>ApplyBlock\<close>, the caches, and the store as far as it is used. \<open>CasperTree\<close> has
  positions, the best chain and the locale \<open>memo\<close> of a cache, by which the cached walk to a checkpoint is the
  plain one. \<open>CasperProps\<close> describes the effect of one verification; \<open>CasperSafety\<close> has the step relation of arriving messages
  and what every sequence of them keeps. Walks over stored blocks take a bound on their number; a
  missing block is an error, a bound that is too small is the separate result \<open>CFuel\<close>.

  \<^bold>\<open>Contracts.\<close> \<open>ContractView\<close> has \<^verbatim>\<open>state/contract_view.go\<close>, \<^verbatim>\<open>database/contract_view.go\<close> and the lookup of a called contract;
  \<open>ContractProps\<close> shows that after a reorganisation the database holds the first registrations of the new chain.

  \<^bold>\<open>The chain\<close>, package \<^verbatim>\<open>protocol\<close>. \<open>Mempool\<close> is \<^verbatim>\<open>txpool.go\<close> with \<^verbatim>\<open>Chain.ValidateTx\<close>; \<open>MempoolProps\<close> has the invariant of the pool, that its
  loop over waiting transactions ends, and under which output an orphan is filed. \<open>BlockValidation\<close> is \<^verbatim>\<open>validation/block.go\<close> and \<^verbatim>\<open>ValidateTxs\<close>, with
  the exact condition on the coinbase transaction of an epoch. \<open>Orphans\<close> is \<^verbatim>\<open>orphan_manage.go\<close>, with the arrays of the index as state;
  \<open>OrphanProps\<close> has its invariant over all histories, and what a caller sees who deletes while it iterates. \<open>Chain\<close> is \<^verbatim>\<open>block.go\<close> and
  \<^verbatim>\<open>protocol.go\<close> over the operations of \<^verbatim>\<open>database/store.go\<close> they use: it composes validation, consensus, views, pool and orphans into
  \<^verbatim>\<open>processBlock\<close>, and a reorganisation into \<^verbatim>\<open>tryReorganize\<close>. \<open>ChainStore\<close> treats the stored headers as a tree over the genesis block: the path
  that \<^verbatim>\<open>calcReorganizeChain\<close> finds, and the index of the main chain. \<open>ChainProps\<close> shows that every operation keeps the tree and the index, and
  \<open>ChainSafety\<close> has the properties: the path and its bound, the index after every history from \<^verbatim>\<open>NewChain\<close> on, and the entries that stay behind.
  Loops over stored blocks take a bound: the sum of the two heights plus one is enough for a path, and results below the bound do not depend on it.
  \<open>Proposal\<close> is \<^verbatim>\<open>proposal/proposal.go\<close>: a block from the transactions of the pool, with its coinbase transaction, commitment and signature. \<open>ProposalProps\<close> shows that
  the coinbase transaction that is proposed is accepted by \<open>BlockValidation\<close>.
  \<open>Locks\<close> is the synchronisation of the goroutine that handles a vote with the one that processes blocks, each function
  reduced to its operations on mutex and channels, as a step relation; its property is the deadlock of the two.

  \<^bold>\<open>Parameters.\<close> Code outside the repository and cryptography are fields of records that the definitions take: \<open>lib\<close>
  (256-bit arithmetic, hash functions, signature check, growth of slices), \<open>codec_lib\<close> (protobuf), \<open>casperEnv\<close> (keys, signatures,
  event dispatcher, replies of the chain). What is relied on is a named hypothesis (\<open>u256_ok\<close>, \<open>hash_ok\<close>, \<open>codec_ok\<close>,
  absence of collisions on the strings at hand), and the witnesses instantiate it.

  \<^bold>\<open>Not modelled.\<close> Text and JSON forms; the assembler of the machine. Outside \<open>Locks\<close> every operation
  is one step, as it is under the mutex of its object, and the workers of \<^verbatim>\<open>ValidateTxs\<close> run one after the other. The caches of the store
  are transparent, except where \<open>Casper\<close> has them. Of the chain, \<^verbatim>\<open>BlockWaiter\<close> and plain accessors are left out.
  Network, database engine, wallet, account, API and command line are input and output
  around the modelled parts; vendored libraries are parameters.
\<close>

end
